(* ===== verification/Mole_Prelude.thy ===== *)
theory Mole_Prelude
  imports Main "HOL-Library.Word" "HOL-Library.Sublist"
begin

text \<open>
  What every component theory shares: Go's clock and durations, truncating integer division,
  decimal text (fmt's \<^verbatim>\<open>%d\<close> and strconv.Atoi), the few functions of package strings the code
  uses, rolling windows, and the two interfaces that several components implement
  (a sliding window of samples and a latch with hysteresis).

  Conventions. Go's int is \<^typ>\<open>int\<close> where no operation of the code can reach 2^63 (rates in
  Mbps, counters, milliseconds); sequence numbers and checksums that may wrap are words. A Go
  error is the option of its message: \<^term>\<open>None\<close> is nil. Strings are lists of bytes.
\<close>

named_theorems mole_time \<open>comparisons of saturated time differences\<close>
named_theorems mole_text \<open>decimal text and string helpers\<close>

section \<open>Clock\<close>

text \<open>
  A time.Time is its number of nanoseconds since Go's zero Time, so that IsZero is equality
  with 0; a time.Duration is a number of nanoseconds. Sub saturates at the two ends of int64,
  which is reached in practice: the difference to a zero Time is the largest Duration.
\<close>

type_synonym go_time = int
type_synonym go_duration = int
type_synonym go_error = "string option"

abbreviation (input) go_zero_time :: go_time where "go_zero_time \<equiv> 0"
abbreviation (input) go_ms :: go_duration where "go_ms \<equiv> 1000000"
abbreviation (input) go_second :: go_duration where "go_second \<equiv> 1000000000"
abbreviation (input) go_minute :: go_duration where "go_minute \<equiv> 60000000000"

definition time_sub :: "go_time \<Rightarrow> go_time \<Rightarrow> go_duration" where
  "time_sub a b = max (- 9223372036854775808) (min 9223372036854775807 (a - b))"

lemma time_sub_less [mole_time]:
  "- 9223372036854775808 < d \<Longrightarrow> d \<le> 9223372036854775807 \<Longrightarrow> time_sub a b < d \<longleftrightarrow> a - b < d"
  by (auto simp: time_sub_def)

lemma time_sub_le [mole_time]:
  "- 9223372036854775808 \<le> d \<Longrightarrow> d < 9223372036854775807 \<Longrightarrow> time_sub a b \<le> d \<longleftrightarrow> a - b \<le> d"
  by (auto simp: time_sub_def)

lemma time_sub_greater_eq [mole_time]:
  "- 9223372036854775808 < d \<Longrightarrow> d \<le> 9223372036854775807 \<Longrightarrow> d \<le> time_sub a b \<longleftrightarrow> d \<le> a - b"
  by (auto simp: time_sub_def)

lemma time_sub_greater [mole_time]:
  "- 9223372036854775808 \<le> d \<Longrightarrow> d < 9223372036854775807 \<Longrightarrow> d < time_sub a b \<longleftrightarrow> d < a - b"
  by (auto simp: time_sub_def)

section \<open>Integer division\<close>

text \<open>Go truncates towards zero.\<close>

definition go_div :: "int \<Rightarrow> int \<Rightarrow> int" where
  "go_div a b = sgn a * sgn b * (\<bar>a\<bar> div \<bar>b\<bar>)"

lemma go_div_nonneg [simp]: "0 \<le> a \<Longrightarrow> 0 < b \<Longrightarrow> go_div a b = a div b"
  by (cases "a = 0") (auto simp: go_div_def)

section \<open>Rolling windows\<close>

lemma length_filter_mono:
  "(\<And>x. x \<in> set xs \<Longrightarrow> P x \<Longrightarrow> Q x) \<Longrightarrow> length (filter P xs) \<le> length (filter Q xs)"
  by (induction xs) (auto simp: le_SucI)

lemma find_someD: "find P xs = Some x \<Longrightarrow> x \<in> set xs \<and> P x"
  by (auto simp: find_Some_iff)

text \<open>The last n entries, which is what appending and reslicing from the front keeps.\<close>

definition last_n :: "nat \<Rightarrow> 'a list \<Rightarrow> 'a list" where
  "last_n n xs = drop (length xs - n) xs"

lemma length_last_n [simp]: "length (last_n n xs) = min n (length xs)"
  by (auto simp: last_n_def)

lemma last_n_short [simp]: "length xs \<le> n \<Longrightarrow> last_n n xs = xs"
  by (simp add: last_n_def)

lemma set_last_n: "set (last_n n xs) \<subseteq> set xs"
  by (simp add: last_n_def set_drop_subset)

lemma last_n_snoc_last_n: "last_n n (last_n n xs @ ys) = last_n n (xs @ ys)"
proof (cases "length xs \<le> n")
  case False
  then have "length xs - n + (n + length ys - n) = length xs + length ys - n"
    by simp
  with False show ?thesis
    by (cases "length ys \<le> n") (auto simp: last_n_def add.commute)
qed simp

lemma last_n_append_long: "n \<le> length ys \<Longrightarrow> last_n n (xs @ ys) = last_n n ys"
  by (simp add: last_n_def)

text \<open>
  Interface: a component that keeps the last n samples of everything recorded in it. The laws
  speak of the sample list only; what else a record operation changes is its own business.
\<close>

locale sliding_window =
  fixes observe :: "'s \<Rightarrow> 'x \<Rightarrow> 's"
    and samples :: "'s \<Rightarrow> 'a list"
    and sample :: "'x \<Rightarrow> 'a"
    and size_limit :: nat
  assumes observe_samples: "samples (observe s x) = last_n size_limit (samples s @ [sample x])"
begin

lemma run_samples:
  "length (samples s) \<le> size_limit \<Longrightarrow>
   samples (foldl observe s xs) = last_n size_limit (samples s @ map sample xs)"
proof (induction xs arbitrary: s)
  case Nil
  then show ?case by simp
next
  case (Cons x xs)
  have "length (samples (observe s x)) \<le> size_limit"
    by (simp add: observe_samples)
  from Cons.IH [OF this] show ?case
    by (simp add: observe_samples last_n_snoc_last_n)
qed

lemma run_bounded: "length (samples s) \<le> size_limit \<Longrightarrow> length (samples (foldl observe s xs)) \<le> size_limit"
  by (simp add: run_samples)

text \<open>Once a whole window has been recorded, nothing older is left in it.\<close>

lemma run_forgets:
  "length (samples s) \<le> size_limit \<Longrightarrow> size_limit \<le> length xs \<Longrightarrow>
   samples (foldl observe s xs) = last_n size_limit (map sample xs)"
  by (simp add: run_samples last_n_append_long)

end

text \<open>
  Interface: a latch with hysteresis over some evidence. The enter and release conditions
  exclude each other, and between them the verdict stays what it was.
\<close>

locale hysteresis_latch =
  fixes latch :: "'e \<Rightarrow> bool \<Rightarrow> bool"
    and enter :: "'e \<Rightarrow> bool"
    and release :: "'e \<Rightarrow> bool"
  assumes latch_enter: "enter e \<Longrightarrow> latch e b"
    and latch_release: "\<not> enter e \<Longrightarrow> release e \<Longrightarrow> \<not> latch e b"
    and latch_hold: "\<not> enter e \<Longrightarrow> \<not> release e \<Longrightarrow> latch e b = b"
begin

lemma latch_cases: "latch e b \<longleftrightarrow> enter e \<or> (\<not> release e \<and> b)"
  using latch_enter latch_release latch_hold by blast

lemma latch_idem: "latch e (latch e b) = latch e b"
  by (auto simp: latch_cases)

lemma latched_run:
  "b \<Longrightarrow> (\<And>e. e \<in> set es \<Longrightarrow> enter e \<or> \<not> release e) \<Longrightarrow> foldl (\<lambda>v e. latch e v) b es"
  by (induction es arbitrary: b) (auto simp: latch_cases)

lemma quiet_run:
  "\<not> b \<Longrightarrow> (\<And>e. e \<in> set es \<Longrightarrow> \<not> enter e) \<Longrightarrow> \<not> foldl (\<lambda>v e. latch e v) b es"
  by (induction es arbitrary: b) (auto simp: latch_cases)

end

section \<open>Decimal text\<close>

definition digit_char :: "nat \<Rightarrow> char" where
  "digit_char d = char_of (48 + d)"

fun nat_text :: "nat \<Rightarrow> string" where
  "nat_text n = (if n < 10 then [digit_char n] else nat_text (n div 10) @ [digit_char (n mod 10)])"

declare nat_text.simps [simp del]

text \<open>fmt.Sprintf(\<^verbatim>\<open>%d\<close>) and strconv.Itoa.\<close>

definition itoa :: "int \<Rightarrow> string" where
  "itoa i = (if i < 0 then CHR ''-'' # nat_text (nat (- i)) else nat_text (nat i))"

definition digit_value :: "char \<Rightarrow> nat option" where
  "digit_value c = (let v = (of_char c :: nat) in if 48 \<le> v \<and> v \<le> 57 then Some (v - 48) else None)"

fun digits_value :: "nat \<Rightarrow> string \<Rightarrow> nat option" where
  "digits_value acc [] = Some acc"
| "digits_value acc (c # cs) =
     (case digit_value c of None \<Rightarrow> None | Some d \<Rightarrow> digits_value (10 * acc + d) cs)"

text \<open>strconv.Atoi: an optional sign, at least one digit, and the result must fit int64.\<close>

definition atoi :: "string \<Rightarrow> int option" where
  "atoi s =
     (let (neg, ds) = (case s of [] \<Rightarrow> (False, [])
                       | c # cs \<Rightarrow> if c = CHR ''-'' then (True, cs)
                                    else if c = CHR ''+'' then (False, cs) else (False, s))
      in if ds = [] then None
         else case digits_value 0 ds of None \<Rightarrow> None
         | Some n \<Rightarrow> let v = (if neg then - int n else int n)
                     in if - (2 ^ 63) \<le> v \<and> v < 2 ^ 63 then Some v else None)"

lemma digit_char_value [simp]: "d < 10 \<Longrightarrow> digit_value (digit_char d) = Some d"
  by (simp add: digit_value_def digit_char_def)

lemma digits_value_append:
  "digits_value acc (xs @ ys) =
     (case digits_value acc xs of None \<Rightarrow> None | Some v \<Rightarrow> digits_value v ys)"
  by (induction xs arbitrary: acc) (auto split: option.splits)

lemma nat_text_value: "digits_value 0 (nat_text n) = Some n"
proof (induction n rule: nat_text.induct)
  case (1 n)
  show ?case
  proof (cases "n < 10")
    case True
    then show ?thesis by (subst nat_text.simps) simp
  next
    case False
    with "1.IH" have "digits_value 0 (nat_text (n div 10)) = Some (n div 10)" by simp
    with False show ?thesis by (subst nat_text.simps) (simp add: digits_value_append)
  qed
qed

lemma nat_text_nonempty [simp]: "nat_text n \<noteq> []"
  by (subst nat_text.simps) simp

lemma digit_char_not_sign: "d < 10 \<Longrightarrow> digit_char d \<noteq> CHR ''-'' \<and> digit_char d \<noteq> CHR ''+''"
proof -
  assume "d < 10"
  moreover have "digit_value (CHR ''-'') = None" "digit_value (CHR ''+'') = None"
    by (simp_all add: digit_value_def)
  ultimately show ?thesis by (metis digit_char_value option.distinct(1))
qed

lemma nat_text_hd: "\<exists>d. d < 10 \<and> hd (nat_text n) = digit_char d"
proof (induction n rule: nat_text.induct)
  case (1 n)
  show ?case
  proof (cases "n < 10")
    case True
    then show ?thesis by (subst nat_text.simps) auto
  next
    case False
    with "1.IH" show ?thesis by (subst nat_text.simps) simp
  qed
qed

lemma atoi_itoa [mole_text]:
  assumes "- (2 ^ 63) \<le> i" and "i < 2 ^ 63"
  shows "atoi (itoa i) = Some i"
proof (cases "i < 0")
  case True
  with assms show ?thesis by (simp add: atoi_def itoa_def nat_text_value)
next
  case False
  obtain c cs where t: "nat_text (nat i) = c # cs"
    by (cases "nat_text (nat i)") simp_all
  with nat_text_hd [of "nat i"] have "c \<noteq> CHR ''-''" and "c \<noteq> CHR ''+''"
    using digit_char_not_sign by force+
  moreover have "digits_value 0 (c # cs) = Some (nat i)"
    using nat_text_value [of "nat i"] t by simp
  ultimately show ?thesis
    using False assms t by (simp add: atoi_def itoa_def del: digits_value.simps)
qed

lemma nat_text_inject: "nat_text m = nat_text n \<Longrightarrow> m = n"
  by (metis nat_text_value option.inject)

lemma itoa_inject: "0 \<le> i \<Longrightarrow> 0 \<le> j \<Longrightarrow> itoa i = itoa j \<Longrightarrow> i = j"
  by (auto simp: itoa_def dest: nat_text_inject)

section \<open>Package strings\<close>

text \<open>Characters of the messages that are three bytes of UTF-8.\<close>

definition right_arrow :: string where "right_arrow = [CHR 0xE2, CHR 0x86, CHR 0x92]"
definition down_arrow :: string where "down_arrow = [CHR 0xE2, CHR 0x86, CHR 0x93]"
definition em_dash :: string where "em_dash = [CHR 0xE2, CHR 0x80, CHR 0x94]"

text \<open>CutPrefix, HasPrefix, HasSuffix, TrimSpace and ToLower on ASCII bytes.\<close>

fun cut_prefix :: "string \<Rightarrow> string \<Rightarrow> string option" where
  "cut_prefix s [] = Some s"
| "cut_prefix [] (p # ps) = None"
| "cut_prefix (c # cs) (p # ps) = (if c = p then cut_prefix cs ps else None)"

lemma cut_prefix_append [simp, mole_text]: "cut_prefix (p @ s) p = Some s"
  by (induction p) auto

lemma cut_prefix_Some: "cut_prefix s p = Some r \<longleftrightarrow> s = p @ r"
  by (induction s p rule: cut_prefix.induct) auto

definition is_space :: "char \<Rightarrow> bool" where
  "is_space c = (let v = (of_char c :: nat) in v = 32 \<or> (9 \<le> v \<and> v \<le> 13))"

definition trim_space :: "string \<Rightarrow> string" where
  "trim_space s = rev (dropWhile is_space (rev (dropWhile is_space s)))"

definition lower_char :: "char \<Rightarrow> char" where
  "lower_char c = (let v = (of_char c :: nat) in if 65 \<le> v \<and> v \<le> 90 then char_of (v + 32) else c)"

definition to_lower :: "string \<Rightarrow> string" where
  "to_lower s = map lower_char s"

definition has_suffix :: "string \<Rightarrow> string \<Rightarrow> bool" where
  "has_suffix s t = (length t \<le> length s \<and> drop (length s - length t) s = t)"

lemma has_suffix_iff: "has_suffix s t \<longleftrightarrow> (\<exists>p. s = p @ t)"
proof
  assume "has_suffix s t"
  then have "s = take (length s - length t) s @ t"
    by (metis append_take_drop_id has_suffix_def)
  then show "\<exists>p. s = p @ t" by blast
qed (auto simp: has_suffix_def)

text \<open>strings.Contains: some suffix of the text starts with the pattern.\<close>

fun str_contains :: "string \<Rightarrow> string \<Rightarrow> bool" where
  "str_contains [] p = (p = [])"
| "str_contains (c # cs) p = (cut_prefix (c # cs) p \<noteq> None \<or> str_contains cs p)"

lemma str_contains_iff: "str_contains s p \<longleftrightarrow> (\<exists>a b. s = a @ p @ b)"
proof (induction s)
  case (Cons c cs)
  show ?case
  proof
    assume "str_contains (c # cs) p"
    then consider r where "c # cs = p @ r" | "str_contains cs p"
      by (auto simp: cut_prefix_Some)
    then show "\<exists>a b. c # cs = a @ p @ b"
    proof cases
      case 1
      then have "c # cs = [] @ p @ r" by simp
      then show ?thesis by blast
    next
      case 2
      with Cons.IH obtain a b where "cs = a @ p @ b" by blast
      then have "c # cs = (c # a) @ p @ b" by simp
      then show ?thesis by blast
    qed
  next
    assume "\<exists>a b. c # cs = a @ p @ b"
    then obtain a b where s: "c # cs = a @ p @ b" by blast
    show "str_contains (c # cs) p"
    proof (cases a)
      case Nil
      with s have "cut_prefix (c # cs) p = Some b" by (simp add: cut_prefix_Some)
      then show ?thesis by simp
    next
      case (Cons x xs)
      with s have "cs = xs @ p @ b" by simp
      with Cons.IH show ?thesis by auto
    qed
  qed
qed simp

end
