(* ===== verification/Schedule.thy ===== *)
theory Schedule
  imports Mole_Prelude
begin

text \<open>
  core/schedule.go and utils/ceiling.go: the time-of-day Brutal ceiling, the ladder of rungs
  derived from it, and the manual pin. A ceiling is a number of Mbps; a local hour is passed
  in where the code reads it from a time.Time, because it depends on the time zone.
\<close>

section \<open>Tags\<close>

definition ProxySelectorTag :: string where "ProxySelectorTag = ''proxy''"

definition BandwidthRungTag :: "int \<Rightarrow> string" where
  "BandwidthRungTag down = ''proxy-bw-'' @ itoa down"

definition BandwidthRungMbps :: "string \<Rightarrow> int" where
  "BandwidthRungMbps tag =
     (case cut_prefix tag ''proxy-bw-'' of None \<Rightarrow> 0
      | Some rest \<Rightarrow> (case atoi rest of None \<Rightarrow> 0
          | Some down \<Rightarrow> if down \<le> 0 then 0 else down))"

definition standardRungs :: "int list" where
  "standardRungs = [1, 2, 3, 5, 8, 12, 20, 30, 50, 65, 80, 100, 150, 200, 300]"

section \<open>The schedule\<close>

record BandwidthSchedule =
  OffUp :: int
  OffDown :: int
  PeakUp :: int
  PeakDown :: int
  StartHour :: int
  EndHour :: int

definition Enabled :: "BandwidthSchedule \<Rightarrow> bool" where
  "Enabled s = (PeakDown s > 0)"

definition inPeak :: "BandwidthSchedule \<Rightarrow> int \<Rightarrow> bool" where
  "inPeak s h =
     (if StartHour s = EndHour s then False
      else if StartHour s < EndHour s then h \<ge> StartHour s \<and> h < EndHour s
      else h \<ge> StartHour s \<or> h < EndHour s)"

definition Profile :: "BandwidthSchedule \<Rightarrow> int \<Rightarrow> string \<times> int \<times> int" where
  "Profile s h =
     (if Enabled s \<and> inPeak s h then (''peak'', PeakUp s, PeakDown s)
      else (''offpeak'', OffUp s, OffDown s))"

definition Member :: "BandwidthSchedule \<Rightarrow> int \<Rightarrow> string" where
  "Member s h = (let (_, _, down) = Profile s h in BandwidthRungTag down)"

section \<open>The ladder\<close>

text \<open>The closure that appends a positive rung it has not seen.\<close>

definition rung_add :: "int list \<Rightarrow> int \<Rightarrow> int list" where
  "rung_add out n = (if n > 0 \<and> n \<notin> set out then out @ [n] else out)"

definition Rungs :: "BandwidthSchedule \<Rightarrow> int list" where
  "Rungs s =
     (if OffDown s \<le> 0 then []
      else let out = rung_add (rung_add [] (OffDown s)) (PeakDown s);
               mx = (if PeakDown s > OffDown s then PeakDown s else OffDown s)
           in sort (foldl (\<lambda>out n. if n < mx then rung_add out n else out) out standardRungs))"

text \<open>The loop of StepDown: j runs over the indices, i is the last one whose rung is at most down.\<close>

fun rung_index :: "int list \<Rightarrow> int \<Rightarrow> nat \<Rightarrow> nat \<Rightarrow> nat" where
  "rung_index [] down j i = i"
| "rung_index (n # ns) down j i = rung_index ns down (Suc j) (if n \<le> down then j else i)"

text \<open>Callers pass one rung or a count of rungs, so steps is a natural number; i - steps stops at 0.\<close>

definition StepDown :: "BandwidthSchedule \<Rightarrow> int \<Rightarrow> nat \<Rightarrow> int" where
  "StepDown s down steps =
     (let rungs = Rungs s in
      if rungs = [] then 0 else rungs ! (rung_index rungs down 0 0 - steps))"

definition HasRung :: "BandwidthSchedule \<Rightarrow> int \<Rightarrow> bool" where
  "HasRung s down = list_ex (\<lambda>n. n = down) (Rungs s)"

definition RungUp :: "BandwidthSchedule \<Rightarrow> int \<Rightarrow> int" where
  "RungUp s down =
     (if down = OffDown s \<and> OffUp s > 0 then OffUp s
      else if down = PeakDown s \<and> PeakUp s > 0 then PeakUp s
      else if OffUp s > 0 \<and> OffDown s > 0 \<and> go_div (down * OffUp s) (OffDown s) > 0
      then go_div (down * OffUp s) (OffDown s)
      else 1)"

section \<open>The manual pin\<close>

text \<open>
  The pin file is \<^term>\<open>None\<close> when it cannot be read, otherwise its content. Writing and clearing
  return the error and the new file.
\<close>

definition ReadCeiling :: "string option \<Rightarrow> int" where
  "ReadCeiling file =
     (case file of None \<Rightarrow> 0
      | Some b \<Rightarrow> (case atoi (trim_space b) of None \<Rightarrow> 0 | Some n \<Rightarrow> if n \<le> 0 then 0 else n))"

definition WriteCeiling :: "int \<Rightarrow> string option \<Rightarrow> go_error \<times> string option" where
  "WriteCeiling down file =
     (if down \<le> 0 then (Some (''ceiling must be positive, got '' @ itoa down), file)
      else (None, Some (itoa down @ [CHR 0x0A])))"

definition ClearCeiling :: "string option \<Rightarrow> go_error \<times> string option" where
  "ClearCeiling file = (None, None)"

section \<open>Lemmas on the ladder\<close>

lemma set_rung_add [simp]: "set (rung_add out n) = set out \<union> (if n > 0 then {n} else {})"
  by (auto simp: rung_add_def)

lemma distinct_rung_add [simp]: "distinct out \<Longrightarrow> distinct (rung_add out n)"
  by (simp add: rung_add_def)

lemma set_fill_rungs:
  "set (foldl (\<lambda>out n. if n < mx then rung_add out n else out) out ns)
     = set out \<union> {n \<in> set ns. 0 < n \<and> n < mx}"
  by (induction ns arbitrary: out) auto

lemma distinct_fill_rungs:
  "distinct out \<Longrightarrow> distinct (foldl (\<lambda>out n. if n < mx then rung_add out n else out) out ns)"
  by (induction ns arbitrary: out) simp_all

lemma standardRungs_pos: "n \<in> set standardRungs \<Longrightarrow> 0 < n"
  by (auto simp: standardRungs_def)

lemma set_Rungs:
  "OffDown s > 0 \<Longrightarrow> set (Rungs s) =
     {OffDown s} \<union> (if PeakDown s > 0 then {PeakDown s} else {})
       \<union> {n \<in> set standardRungs. n < max (OffDown s) (PeakDown s)}"
  by (auto simp: Rungs_def set_fill_rungs Let_def standardRungs_pos)

lemma Rungs_Nil_iff: "Rungs s = [] \<longleftrightarrow> OffDown s \<le> 0"
proof (cases "OffDown s > 0")
  case True
  then have "OffDown s \<in> set (Rungs s)" by (simp add: set_Rungs)
  with True show ?thesis by force
qed (simp add: Rungs_def)

lemma sorted_Rungs: "sorted (Rungs s)"
  by (simp add: Rungs_def Let_def)

lemma distinct_Rungs: "distinct (Rungs s)"
  by (simp add: Rungs_def Let_def distinct_fill_rungs)

lemma Rungs_pos: "n \<in> set (Rungs s) \<Longrightarrow> 0 < n"
proof (cases "OffDown s > 0")
  case True
  then show "n \<in> set (Rungs s) \<Longrightarrow> 0 < n"
    by (auto simp: set_Rungs standardRungs_pos split: if_splits)
qed (simp add: Rungs_def)

lemma HasRung_iff: "HasRung s down \<longleftrightarrow> down \<in> set (Rungs s)"
  by (auto simp: HasRung_def list_ex_iff)

lemma HasRung_pos: "HasRung s down \<Longrightarrow> 0 < down"
  by (simp add: HasRung_iff Rungs_pos)

text \<open>The index loop: it finds the number of rungs at most down, less one.\<close>

lemma rung_index_none:
  "(\<forall>n \<in> set ns. down < n) \<Longrightarrow> rung_index ns down j i = i"
  by (induction ns arbitrary: j i) auto

lemma rung_index_sorted:
  assumes "sorted ns" and "ns \<noteq> []" and "hd ns \<le> down"
  shows "rung_index ns down j i = j + length (filter (\<lambda>n. n \<le> down) ns) - 1"
  using assms
proof (induction ns arbitrary: j i)
  case (Cons n ns)
  show ?case
  proof (cases "ns \<noteq> [] \<and> hd ns \<le> down")
    case True
    have "filter (\<lambda>n. n \<le> down) ns \<noteq> []"
      using True by (cases ns) auto
    then have "0 < length (filter (\<lambda>n. n \<le> down) ns)" by simp
    with Cons True show ?thesis by simp
  next
    case False
    with Cons.prems have "\<forall>m \<in> set ns. down < m"
      by (cases ns) auto
    moreover from this have "filter (\<lambda>n. n \<le> down) ns = []"
      by (force simp: filter_empty_conv)
    ultimately show ?thesis using Cons.prems by (simp add: rung_index_none)
  qed
qed simp

lemma sorted_nth_filter_le:
  assumes "sorted ns" and "k < length (filter (\<lambda>n. n \<le> (d::int)) ns)"
  shows "ns ! k \<le> d"
  using assms
proof (induction ns arbitrary: k)
  case (Cons n ns)
  show ?case
  proof (cases "n \<le> d")
    case True
    with Cons show ?thesis by (cases k) auto
  next
    case False
    with Cons.prems have "filter (\<lambda>n. n \<le> d) (n # ns) = []"
      by (force simp: filter_empty_conv)
    with Cons.prems show ?thesis by simp
  qed
qed simp

definition rung_at :: "BandwidthSchedule \<Rightarrow> int \<Rightarrow> nat" where
  "rung_at s down = rung_index (Rungs s) down 0 0"

lemma rung_at_less: "Rungs s \<noteq> [] \<Longrightarrow> rung_at s down < length (Rungs s)"
proof (cases "hd (Rungs s) \<le> down")
  case True
  assume ne: "Rungs s \<noteq> []"
  have "length (filter (\<lambda>n. n \<le> down) (Rungs s)) \<le> length (Rungs s)" by simp
  moreover have "0 < length (Rungs s)" using ne by simp
  moreover have "rung_at s down = length (filter (\<lambda>n. n \<le> down) (Rungs s)) - 1"
    using True ne by (simp add: rung_at_def rung_index_sorted sorted_Rungs)
  ultimately show ?thesis by linarith
next
  case False
  assume ne: "Rungs s \<noteq> []"
  have "\<forall>n \<in> set (Rungs s). down < n"
    using False ne sorted_Rungs [of s] by (cases "Rungs s") auto
  with ne show ?thesis by (simp add: rung_at_def rung_index_none)
qed

lemma StepDown_eq: "Rungs s \<noteq> [] \<Longrightarrow> StepDown s down k = Rungs s ! (rung_at s down - k)"
  by (simp add: StepDown_def rung_at_def Let_def)

lemma StepDown_mem: "Rungs s \<noteq> [] \<Longrightarrow> StepDown s down k \<in> set (Rungs s)"
  using rung_at_less [of s down] by (auto simp: StepDown_eq intro!: nth_mem)

lemma hd_Rungs_le: "n \<in> set (Rungs s) \<Longrightarrow> hd (Rungs s) \<le> n"
  using sorted_Rungs [of s] by (cases "Rungs s") auto

lemma StepDown_le:
  assumes ne: "Rungs s \<noteq> []" and ge: "hd (Rungs s) \<le> down"
  shows "StepDown s down k \<le> down"
proof -
  let ?m = "length (filter (\<lambda>n. n \<le> down) (Rungs s))"
  have pos: "0 < ?m"
    using ne ge by (cases "Rungs s") auto
  have "rung_at s down - k < ?m"
    using ne ge pos by (simp add: rung_at_def rung_index_sorted sorted_Rungs)
  then show ?thesis
    using ne sorted_nth_filter_le [OF sorted_Rungs] by (simp add: StepDown_eq)
qed

lemma StepDown_below_ladder:
  assumes "Rungs s \<noteq> []" and "down < hd (Rungs s)"
  shows "StepDown s down k = hd (Rungs s)"
proof -
  have "\<forall>n \<in> set (Rungs s). down < n"
    using assms sorted_Rungs [of s] by (cases "Rungs s") auto
  then have "rung_at s down = 0" by (simp add: rung_at_def rung_index_none)
  with assms show ?thesis by (simp add: StepDown_eq hd_conv_nth)
qed

text \<open>On a rung of the ladder the index is that rung's own.\<close>

lemma rung_at_nth:
  assumes "i < length (Rungs s)"
  shows "rung_at s (Rungs s ! i) = i"
proof -
  let ?r = "Rungs s"
  have ne: "?r \<noteq> []" using assms by auto
  have eq: "filter (\<lambda>n. n \<le> ?r ! i) ?r = take (Suc i) ?r"
  proof -
    have "filter (\<lambda>n. n \<le> ?r ! i) (take (Suc i) ?r) = take (Suc i) ?r"
      using assms sorted_Rungs [of s]
      by (auto simp: filter_id_conv in_set_conv_nth sorted_iff_nth_mono)
    moreover have "filter (\<lambda>n. n \<le> ?r ! i) (drop (Suc i) ?r) = []"
    proof -
      have "?r ! i < ?r ! j" if "i < j" "j < length ?r" for j
        using that assms sorted_Rungs [of s] distinct_Rungs [of s]
        by (metis less_imp_le not_less_iff_gr_or_eq nth_eq_iff_index_eq order_le_less sorted_iff_nth_mono)
      then show ?thesis
        by (auto simp: filter_empty_conv in_set_conv_nth not_le)
    qed
    ultimately show ?thesis
      by (metis append_Nil2 append_take_drop_id filter_append)
  qed
  have "hd ?r \<le> ?r ! i" using assms by (simp add: hd_Rungs_le)
  then show ?thesis
    using ne eq assms by (simp add: rung_at_def rung_index_sorted sorted_Rungs)
qed

lemma StepDown_nth: "i < length (Rungs s) \<Longrightarrow> StepDown s (Rungs s ! i) k = Rungs s ! (i - k)"
  by (subst StepDown_eq) (auto simp: rung_at_nth)

lemma StepDown_lt:
  assumes "HasRung s down" and "down \<noteq> hd (Rungs s)" and "0 < k"
  shows "StepDown s down k < down"
proof -
  obtain i where i: "i < length (Rungs s)" "down = Rungs s ! i"
    using assms(1) by (auto simp: HasRung_iff in_set_conv_nth)
  then have "i \<noteq> 0" using assms(2) by (metis hd_conv_nth length_0_conv not_less_zero)
  then have lt: "i - k < i" using assms(3) by simp
  have "StepDown s down k = Rungs s ! (i - k)" using i by (simp add: StepDown_nth)
  moreover have "Rungs s ! (i - k) \<le> Rungs s ! i"
    using i lt sorted_Rungs [of s] by (simp add: sorted_iff_nth_mono)
  moreover have "Rungs s ! (i - k) \<noteq> Rungs s ! i"
    using i lt distinct_Rungs [of s] by (simp add: nth_eq_iff_index_eq)
  ultimately show ?thesis using i by simp
qed

lemma BandwidthRungMbps_Tag [simp]:
  "0 < down \<Longrightarrow> down < 2 ^ 63 \<Longrightarrow> BandwidthRungMbps (BandwidthRungTag down) = down"
  by (simp add: BandwidthRungMbps_def BandwidthRungTag_def atoi_itoa del: append.simps)

lemma BandwidthRungMbps_nonneg: "0 \<le> BandwidthRungMbps tag"
  by (auto simp: BandwidthRungMbps_def split: option.splits)

lemma RungUp_pos: "0 < RungUp s down"
  by (auto simp: RungUp_def)

text \<open>
  Interface: a ladder of ceilings, as the UDP pressure guard and the self-healing descent use
  it. Every descent lands on a rung that exists and never rises.
\<close>

locale ceiling_ladder =
  fixes rungs :: "'s \<Rightarrow> int list"
    and step_down :: "'s \<Rightarrow> int \<Rightarrow> nat \<Rightarrow> int"
    and laddered :: "'s \<Rightarrow> bool"
  assumes rungs_nonempty: "laddered s \<Longrightarrow> rungs s \<noteq> []"
    and rungs_sorted: "sorted (rungs s)"
    and rungs_positive: "n \<in> set (rungs s) \<Longrightarrow> 0 < n"
    and step_down_rung: "laddered s \<Longrightarrow> step_down s d k \<in> set (rungs s)"
    and step_down_le: "laddered s \<Longrightarrow> hd (rungs s) \<le> d \<Longrightarrow> step_down s d k \<le> d"
begin

lemma bottom_le: "n \<in> set (rungs s) \<Longrightarrow> hd (rungs s) \<le> n"
  using rungs_sorted [of s] by (cases "rungs s") auto

lemma step_down_pos: "laddered s \<Longrightarrow> 0 < step_down s d k"
  by (rule rungs_positive [OF step_down_rung])

lemma step_down_never_rises: "laddered s \<Longrightarrow> d \<in> set (rungs s) \<Longrightarrow> step_down s d k \<le> d"
  by (simp add: bottom_le step_down_le)

text \<open>Any sequence of descents from a rung stays on the ladder, at or below where it began.\<close>

lemma descents:
  assumes lad: "laddered s"
  shows "d \<in> set (rungs s) \<Longrightarrow>
    foldl (step_down s) d ks \<in> set (rungs s) \<and> foldl (step_down s) d ks \<le> d"
proof (induction ks arbitrary: d)
  case (Cons k ks)
  have "foldl (step_down s) (step_down s d k) ks \<in> set (rungs s)"
    and "foldl (step_down s) (step_down s d k) ks \<le> step_down s d k"
    using Cons.IH [OF step_down_rung [OF lad, of d k]] by auto
  then show ?case
    using step_down_never_rises [OF lad Cons.prems, of k] by simp
qed simp

end

interpretation brutal_ladder: ceiling_ladder Rungs StepDown "\<lambda>s. OffDown s > 0"
  by unfold_locales
    (auto simp: sorted_Rungs Rungs_pos StepDown_mem StepDown_le Rungs_Nil_iff)

section \<open>Properties\<close>



text \<open>A descent from the rung at position i by k steps lands exactly k positions lower and stops
  at the lowest rung; from a ceiling between rungs it first drops to the rung below it; from
  under the ladder it climbs to the lowest rung, never to an unpaced ceiling.\<close>
theorem descent_walks_the_ladder:
  assumes "OffDown s > 0"
  shows "(i < length (Rungs s) \<longrightarrow> StepDown s (Rungs s ! i) k = Rungs s ! (i - k)) \<and>
    (hd (Rungs s) \<le> down \<longrightarrow> StepDown s down k \<le> down) \<and>
    (down < hd (Rungs s) \<longrightarrow> StepDown s down k = hd (Rungs s)) \<and>
    HasRung s (StepDown s down k)"
  using assms StepDown_nth StepDown_le StepDown_below_ladder StepDown_mem
  by (simp add: HasRung_iff Rungs_Nil_iff)

theorem descent_walks_the_ladder_witness:
  "StepDown \<lparr>OffUp = 10, OffDown = 100, PeakUp = 5, PeakDown = 30, StartHour = 19, EndHour = 1\<rparr> 0 7 = 1"
proof -
  let ?s = "\<lparr>OffUp = 10, OffDown = 100, PeakUp = 5, PeakDown = 30, StartHour = 19, EndHour = 1\<rparr>"
  have "hd (Rungs ?s) = 1"
    by (simp add: Rungs_def rung_add_def standardRungs_def)
  then show ?thesis
    using descent_walks_the_ladder [of ?s 0 7 0] by simp
qed

lemma digit_not_space: "d < 10 \<Longrightarrow> \<not> is_space (digit_char d)"
  by (simp add: is_space_def digit_char_def Let_def)

lemma nat_text_no_space: "c \<in> set (nat_text n) \<Longrightarrow> \<not> is_space c"
proof (induction n rule: nat_text.induct)
  case (1 n)
  have "c \<in> set (if n < 10 then [digit_char n] else nat_text (n div 10) @ [digit_char (n mod 10)])"
    using "1.prems" by (metis nat_text.simps)
  with "1.IH" digit_not_space show ?case by (auto split: if_splits)
qed

lemma trim_space_line:
  assumes "\<And>c. c \<in> set t \<Longrightarrow> \<not> is_space c" and "is_space e"
  shows "trim_space (t @ [e]) = t"
proof (cases t)
  case Nil
  with assms show ?thesis by (simp add: trim_space_def)
next
  case (Cons c cs)
  then have "dropWhile is_space (t @ [e]) = t @ [e]" using assms by simp
  moreover have "dropWhile is_space (rev t) = rev t"
    using assms by (metis dropWhile_eq_self_iff hd_in_set set_rev)
  ultimately show ?thesis using assms by (simp add: trim_space_def)
qed

text \<open>A ceiling pinned by hand is read back as it was written, a ceiling that is not positive is
  refused and leaves the pin alone, and after clearing there is no pin.\<close>
theorem ceiling_pin_roundtrip:
  assumes "down < 2 ^ 63"
  shows "(fst (WriteCeiling down file) = None \<longleftrightarrow> 0 < down) \<and>
    ReadCeiling (snd (WriteCeiling down file)) = (if 0 < down then down else ReadCeiling file) \<and>
    ReadCeiling (snd (ClearCeiling file)) = 0"
proof -
  have "trim_space (itoa down @ [CHR 0x0A]) = itoa down" if "0 < down"
    using that nat_text_no_space
    by (intro trim_space_line) (auto simp: itoa_def is_space_def Let_def)
  then show ?thesis
    using assms by (auto simp: WriteCeiling_def ReadCeiling_def ClearCeiling_def atoi_itoa)
qed

theorem ceiling_pin_roundtrip_witness: "ReadCeiling (snd (WriteCeiling 65 (Some ''30''))) = 65"
  using ceiling_pin_roundtrip [of 65 "Some ''30''"] by simp

end
