(* ===== verification/Conn_State.thy ===== *)
theory Conn_State
  imports Mole_Prelude
begin

text \<open>
  utils/state.go, utils/link.go, utils/leg.go and utils/balance.go: the supervisor's live view
  of the connection, the two rolling windows with their latches (fresh dials, gateway echoes),
  the synthesized health verdict and the manual leg pin. Fields of the Go structs that the
  program never assigns (bulk sample rates in BalanceStatus) are left out.
\<close>

section \<open>Verdicts\<close>

datatype ProbeVerdict = ProbeUnset | ProbeAlive | ProbeRefused | ProbeSilent | ProbeError | ProbeNoLink

datatype Health = HealthOK | HealthVPSDown | HealthPathDead | HealthDegraded | HealthNoLink | HealthLocalLink

definition Usable :: "Health \<Rightarrow> bool" where
  "Usable h = (h = HealthOK \<or> h = HealthDegraded)"

datatype LidDestroyState = LidDestroyUnknown | LidDestroyArmed | LidDestroyDryRun | LidDestroyOff
  | LidDestroyFired | LidDestroyDeferred | LidDestroyPending | LidDestroyCancelled

abbreviation (input) KeepaliveFailThreshold :: nat where "KeepaliveFailThreshold \<equiv> 4"
abbreviation (input) ProbeSilentThreshold :: nat where "ProbeSilentThreshold \<equiv> 3"
abbreviation (input) DialSlowMs :: int where "DialSlowMs \<equiv> 1000"
abbreviation (input) DialWindow :: nat where "DialWindow \<equiv> 20"
abbreviation (input) DialBadEnter :: nat where "DialBadEnter \<equiv> 4"
abbreviation (input) DialBadLeave :: nat where "DialBadLeave \<equiv> 1"
abbreviation (input) LinkWindow :: nat where "LinkWindow \<equiv> 12"
abbreviation (input) LinkBadLoss :: nat where "LinkBadLoss \<equiv> 3"
abbreviation (input) LinkOKLoss :: nat where "LinkOKLoss \<equiv> 1"
abbreviation (input) LinkBadMedianMs :: int where "LinkBadMedianMs \<equiv> 200"
abbreviation (input) LinkOKMedianMs :: int where "LinkOKMedianMs \<equiv> 100"

section \<open>State\<close>

text \<open>DialSample and LinkSample have the same two fields.\<close>

record sample =
  Ms :: int
  OK :: bool

record BalanceStatus =
  Supported :: bool
  BalEnabled :: bool
  RealityLanes :: int
  Hy2Lanes :: int
  RealityHealthy :: bool
  Hy2Healthy :: bool
  RealityDegraded :: bool
  Hy2Degraded :: bool
  RealityLatencyMs :: int
  Hy2LatencyMs :: int
  LastCheckedAt :: go_time
  RealityError :: string
  Hy2Error :: string
  BalError :: string
  Hy2DownMbps :: int
  Hy2UpMbps :: int
  UDPPressureCapMbps :: int
  UDPCooldownUntil :: go_time

record State =
  Balance :: "BalanceStatus option"
  PID :: int
  SingboxPID :: int
  StServer :: string
  StartedAt :: go_time
  LastProbeAt :: go_time
  LastLatencyMs :: int
  LastProbeError :: string
  LastProbeVerdict :: ProbeVerdict
  ConsecutiveFails :: nat
  ConsecutiveOK :: nat
  LastKeepaliveAt :: go_time
  LastKeepaliveMs :: int
  LastKeepaliveError :: string
  KeepaliveFails :: nat
  KeepaliveFailingSince :: go_time
  LastDialAt :: go_time
  LastDialMs :: int
  LastDialError :: string
  DialSamples :: "sample list"
  ApplicationNodeDialFailures :: "64 word"
  LastApplicationNodeDialFailureAt :: go_time
  SlowNewFlows :: bool
  LinkGateway :: string
  LinkSamples :: "sample list"
  LinkLastAt :: go_time
  LinkBad :: bool
  LinkBadSince :: go_time
  LinkPHY :: string
  BandwidthProfile :: string
  BandwidthDownMbps :: int
  RealityRateMbps :: int
  RealityPacingState :: string
  RealityPacingError :: string
  RealityServerDown :: string
  LidDestroy :: LidDestroyState
  LidDestroyReason :: string
  LidDestroyPendingSince :: go_time
  LidDestroyAttempts :: nat

text \<open>The zero State, as a struct literal leaves the fields it does not name.\<close>

definition zero_state :: State where
  "zero_state = \<lparr>Balance = None, PID = 0, SingboxPID = 0, StServer = [], StartedAt = 0,
     LastProbeAt = 0, LastLatencyMs = 0, LastProbeError = [], LastProbeVerdict = ProbeUnset,
     ConsecutiveFails = 0, ConsecutiveOK = 0, LastKeepaliveAt = 0, LastKeepaliveMs = 0,
     LastKeepaliveError = [], KeepaliveFails = 0, KeepaliveFailingSince = 0, LastDialAt = 0,
     LastDialMs = 0, LastDialError = [], DialSamples = [], ApplicationNodeDialFailures = 0,
     LastApplicationNodeDialFailureAt = 0, SlowNewFlows = False, LinkGateway = [],
     LinkSamples = [], LinkLastAt = 0, LinkBad = False, LinkBadSince = 0, LinkPHY = [],
     BandwidthProfile = [], BandwidthDownMbps = 0, RealityRateMbps = 0, RealityPacingState = [],
     RealityPacingError = [], RealityServerDown = [], LidDestroy = LidDestroyUnknown,
     LidDestroyReason = [], LidDestroyPendingSince = 0, LidDestroyAttempts = 0\<rparr>"

section \<open>The fresh-dial window\<close>

definition dial_bad :: "sample \<Rightarrow> bool" where
  "dial_bad d = (\<not> OK d \<or> Ms d > DialSlowMs)"

definition DialBad :: "State \<Rightarrow> nat" where
  "DialBad s = length (filter dial_bad (DialSamples s))"

definition DialFails :: "State \<Rightarrow> nat" where
  "DialFails s = length (filter (\<lambda>d. \<not> OK d) (DialSamples s))"

definition UpdateNewFlowLatch :: "State \<Rightarrow> State" where
  "UpdateNewFlowLatch s =
     (let bad = DialBad s in
      if bad \<ge> DialBadEnter then s\<lparr>SlowNewFlows := True\<rparr>
      else if length (DialSamples s) = DialWindow \<and> bad \<le> DialBadLeave then s\<lparr>SlowNewFlows := False\<rparr>
      else s)"

definition RecordDial :: "State \<Rightarrow> go_time \<Rightarrow> int \<Rightarrow> go_error \<Rightarrow> State" where
  "RecordDial s now ms err =
     (let s = s\<lparr>LastDialAt := now\<rparr>;
          (s, smp) = (case err of
             Some e \<Rightarrow> (s\<lparr>LastDialMs := 0, LastDialError := e\<rparr>, \<lparr>Ms = 0, OK = False\<rparr>)
           | None \<Rightarrow> (s\<lparr>LastDialMs := ms, LastDialError := []\<rparr>, \<lparr>Ms = ms, OK = True\<rparr>));
          xs = DialSamples s @ [smp];
          s = s\<lparr>DialSamples := (if length xs > DialWindow then drop (length xs - DialWindow) xs else xs)\<rparr>
      in UpdateNewFlowLatch s)"

definition ResetDials :: "State \<Rightarrow> State" where
  "ResetDials s = s\<lparr>DialSamples := [], LastDialAt := 0, SlowNewFlows := False\<rparr>"

section \<open>The gateway-echo window\<close>

definition LinkLoss :: "State \<Rightarrow> nat" where
  "LinkLoss s = length (filter (\<lambda>l. \<not> OK l) (LinkSamples s))"

definition LinkMedianMs :: "State \<Rightarrow> int" where
  "LinkMedianMs s =
     (let ms = map Ms (filter OK (LinkSamples s)) in
      if ms = [] then 0 else sort ms ! (length ms div 2))"

definition updateLinkLatch :: "State \<Rightarrow> go_time \<Rightarrow> State" where
  "updateLinkLatch s now =
     (if length (LinkSamples s) < LinkWindow then s
      else let loss = LinkLoss s; med = LinkMedianMs s in
        if med \<ge> LinkBadMedianMs \<or> (loss \<ge> LinkBadLoss \<and> med \<ge> LinkOKMedianMs) then
          (let s = (if \<not> LinkBad s then s\<lparr>LinkBadSince := now\<rparr> else s) in s\<lparr>LinkBad := True\<rparr>)
        else if loss \<le> LinkOKLoss \<and> med < LinkOKMedianMs then
          s\<lparr>LinkBad := False, LinkBadSince := 0\<rparr>
        else s)"

definition RecordLink :: "State \<Rightarrow> go_time \<Rightarrow> int \<Rightarrow> bool \<Rightarrow> State" where
  "RecordLink s now ms ok =
     (let xs = LinkSamples s @ [\<lparr>Ms = ms, OK = ok\<rparr>];
          s = s\<lparr>LinkSamples := (if length xs > LinkWindow then drop (length xs - LinkWindow) xs else xs)\<rparr>;
          s = s\<lparr>LinkLastAt := now\<rparr>
      in updateLinkLatch s now)"

definition ResetLink :: "State \<Rightarrow> State" where
  "ResetLink s = s\<lparr>LinkSamples := [], LinkBad := False, LinkBadSince := 0\<rparr>"

section \<open>Health\<close>

definition state_health :: "State \<Rightarrow> Health" where
  "state_health s =
     (if ConsecutiveFails s > 0 \<and> LastProbeVerdict s = ProbeRefused then HealthVPSDown
      else if ConsecutiveFails s > 0 \<and> LastProbeVerdict s = ProbeNoLink then HealthNoLink
      else if LinkBad s then HealthLocalLink
      else if KeepaliveFails s \<ge> KeepaliveFailThreshold then HealthPathDead
      else if ConsecutiveFails s \<ge> ProbeSilentThreshold then HealthDegraded
      else if SlowNewFlows s then HealthDegraded
      else HealthOK)"

section \<open>The leg pin\<close>

datatype leg_pin = LegAuto | LegHy2 | LegReality | LegBoth

fun leg_text :: "leg_pin \<Rightarrow> string" where
  "leg_text LegAuto = []"
| "leg_text LegHy2 = ''hy2''"
| "leg_text LegReality = ''reality''"
| "leg_text LegBoth = ''both''"

definition ReadLeg :: "string option \<Rightarrow> leg_pin" where
  "ReadLeg file =
     (case file of None \<Rightarrow> LegAuto
      | Some b \<Rightarrow> (let v = to_lower (trim_space b) in
          if v = ''hy2'' then LegHy2 else if v = ''reality'' then LegReality
          else if v = ''both'' then LegBoth else LegAuto))"

text \<open>Writing takes the word itself, so that the unknown-leg branch is there; clearing removes the file.\<close>

definition WriteLeg :: "string \<Rightarrow> string option \<Rightarrow> go_error \<times> string option" where
  "WriteLeg leg file =
     (if leg = ''hy2'' \<or> leg = ''reality'' \<or> leg = ''both'' then (None, Some (leg @ [CHR 0x0A]))
      else (Some (''unknown leg '' @ leg), file))"

definition ClearLeg :: "string option \<Rightarrow> go_error \<times> string option" where
  "ClearLeg file = (None, None)"

section \<open>Windows and latches meet their interfaces\<close>

lemma clip_last_n:
  "(if length xs > n then drop (length xs - n) xs else xs) = last_n n xs"
  by (simp add: last_n_def)

definition dial_sample :: "int \<Rightarrow> go_error \<Rightarrow> sample" where
  "dial_sample ms err = (case err of Some e \<Rightarrow> \<lparr>Ms = 0, OK = False\<rparr> | None \<Rightarrow> \<lparr>Ms = ms, OK = True\<rparr>)"

lemma UpdateNewFlowLatch_samples [simp]: "DialSamples (UpdateNewFlowLatch s) = DialSamples s"
  by (simp add: UpdateNewFlowLatch_def Let_def)

lemma RecordDial_samples:
  "DialSamples (RecordDial s now ms err) = last_n 20 (DialSamples s @ [dial_sample ms err])"
  by (cases err) (simp_all add: RecordDial_def Let_def clip_last_n dial_sample_def)

lemma updateLinkLatch_samples [simp]: "LinkSamples (updateLinkLatch s now) = LinkSamples s"
  by (simp add: updateLinkLatch_def Let_def)

lemma RecordLink_samples:
  "LinkSamples (RecordLink s now ms ok) = last_n 12 (LinkSamples s @ [\<lparr>Ms = ms, OK = ok\<rparr>])"
  by (simp add: RecordLink_def Let_def clip_last_n)

interpretation dial_window:
  sliding_window "\<lambda>s (now, ms, err). RecordDial s now ms err" DialSamples
    "\<lambda>(now, ms, err). dial_sample ms err" 20
  by unfold_locales (auto simp: RecordDial_samples)

interpretation link_window:
  sliding_window "\<lambda>s (now, ms, ok). RecordLink s now ms ok" LinkSamples
    "\<lambda>(now, ms, ok). \<lparr>Ms = ms, OK = ok\<rparr>" 12
  by unfold_locales (auto simp: RecordLink_samples)

interpretation dial_latch:
  hysteresis_latch "\<lambda>s b. SlowNewFlows (UpdateNewFlowLatch (s\<lparr>SlowNewFlows := b\<rparr>))"
    "\<lambda>s. DialBad s \<ge> 4" "\<lambda>s. length (DialSamples s) = 20 \<and> DialBad s \<le> 1"
  by unfold_locales (auto simp: UpdateNewFlowLatch_def DialBad_def Let_def)

definition link_enter :: "State \<Rightarrow> bool" where
  "link_enter s = (length (LinkSamples s) \<ge> 12 \<and>
     (LinkMedianMs s \<ge> 200 \<or> (LinkLoss s \<ge> 3 \<and> LinkMedianMs s \<ge> 100)))"

definition link_release :: "State \<Rightarrow> bool" where
  "link_release s = (length (LinkSamples s) \<ge> 12 \<and> LinkLoss s \<le> 1 \<and> LinkMedianMs s < 100)"

lemma link_latch_eq:
  "LinkBad (updateLinkLatch s now) = (if link_enter s then True else if link_release s then False else LinkBad s)"
  by (auto simp: updateLinkLatch_def Let_def link_enter_def link_release_def)

interpretation link_latch:
  hysteresis_latch "\<lambda>(s, now) b. LinkBad (updateLinkLatch (s\<lparr>LinkBad := b\<rparr>) now)"
    "\<lambda>(s, now). link_enter s" "\<lambda>(s, now). link_release s"
  by unfold_locales
    (auto simp: link_latch_eq link_enter_def link_release_def LinkLoss_def LinkMedianMs_def)

section \<open>Consequences\<close>

lemma DialFails_le_DialBad: "DialFails s \<le> DialBad s"
  unfolding DialFails_def DialBad_def by (rule length_filter_mono) (simp add: dial_bad_def)

lemma SlowNewFlows_UpdateNewFlowLatch:
  "SlowNewFlows (UpdateNewFlowLatch s) \<longleftrightarrow>
     DialBad s \<ge> 4 \<or> (\<not> (length (DialSamples s) = 20 \<and> DialBad s \<le> 1) \<and> SlowNewFlows s)"
  using dial_latch.latch_cases [where e = s and b = "SlowNewFlows s"] by simp

lemma Usable_iff:
  "Usable (state_health s) \<longleftrightarrow>
     \<not> (ConsecutiveFails s > 0 \<and> LastProbeVerdict s \<in> {ProbeRefused, ProbeNoLink}) \<and>
     \<not> LinkBad s \<and> KeepaliveFails s < 4"
  by (auto simp: state_health_def Usable_def)

lemma ReadLeg_WriteLeg:
  "WriteLeg (leg_text p) file = (None, file') \<Longrightarrow> ReadLeg file' = p"
  by (cases p) (auto simp: WriteLeg_def ReadLeg_def trim_space_def is_space_def to_lower_def lower_char_def)

section \<open>Properties\<close>

text \<open>The fresh-dial verdict is a latch over the last twenty dials. Four slow or failed ones set it
  whatever it was; a full window with at most one clears it; anything between leaves it.\<close>
theorem fresh_dial_latch:
  shows "SlowNewFlows (RecordDial s now ms err) \<longleftrightarrow>
    (let w = last_n 20 (DialSamples s @ [dial_sample ms err]); bad = length (filter dial_bad w)
     in bad \<ge> 4 \<or> (SlowNewFlows s \<and> \<not> (length w = 20 \<and> bad \<le> 1)))"
proof -
  have "SlowNewFlows (RecordDial s now ms err) \<longleftrightarrow>
    DialBad (RecordDial s now ms err) \<ge> 4 \<or>
    (\<not> (length (DialSamples (RecordDial s now ms err)) = 20 \<and> DialBad (RecordDial s now ms err) \<le> 1)
       \<and> SlowNewFlows s)"
    by (cases err) (auto simp: RecordDial_def Let_def clip_last_n SlowNewFlows_UpdateNewFlowLatch
      DialBad_def)
  then show ?thesis
    by (auto simp: DialBad_def RecordDial_samples Let_def)
qed

theorem fresh_dial_latch_witness:
  "\<not> SlowNewFlows (RecordDial zero_state 5 1500 None)"
  using fresh_dial_latch [of zero_state 5 1500 None]
  by (simp add: zero_state_def last_n_def dial_sample_def dial_bad_def)

text \<open>Lost gateway echoes alone never blame the local link: while the median stays under 100 ms no
  echo, answered or lost, turns the verdict on. A full window whose median is 200 ms or more
  always does.\<close>
theorem link_loss_alone_never_blames:
  shows "(LinkMedianMs (RecordLink s now ms ok) < 100 \<and> \<not> LinkBad s \<longrightarrow>
      \<not> LinkBad (RecordLink s now ms ok)) \<and>
    (length (LinkSamples s) \<ge> 11 \<and> LinkMedianMs (RecordLink s now ms ok) \<ge> 200 \<longrightarrow>
      LinkBad (RecordLink s now ms ok) \<and> state_health (RecordLink s now ms ok) \<noteq> HealthOK)"
proof -
  let ?r = "s\<lparr>LinkSamples := last_n 12 (LinkSamples s @ [\<lparr>Ms = ms, OK = ok\<rparr>]), LinkLastAt := now\<rparr>"
  have r: "RecordLink s now ms ok = updateLinkLatch ?r now"
    by (simp add: RecordLink_def Let_def clip_last_n)
  moreover have "LinkMedianMs (updateLinkLatch ?r now) = LinkMedianMs ?r"
    by (simp only: LinkMedianMs_def updateLinkLatch_samples)
  moreover have "length (LinkSamples s) \<ge> 11 \<Longrightarrow> length (LinkSamples ?r) \<ge> 12" by simp
  ultimately show ?thesis
    by (auto simp: link_latch_eq link_enter_def link_release_def state_health_def)
qed

theorem link_loss_alone_never_blames_witness:
  "\<not> LinkBad (RecordLink (zero_state\<lparr>LinkSamples := replicate 12 \<lparr>Ms = 0, OK = False\<rparr>\<rparr>) 5 0 False)"
proof -
  let ?s = "zero_state\<lparr>LinkSamples := replicate 12 \<lparr>Ms = 0, OK = False\<rparr>\<rparr>"
  have "LinkMedianMs (RecordLink ?s 5 0 False) < 100"
    by (simp add: LinkMedianMs_def RecordLink_samples last_n_def numeral_eq_Suc)
  then show ?thesis
    using link_loss_alone_never_blames [of ?s 5 0 False] by (simp add: zero_state_def)
qed

text \<open>A node still carries traffic exactly when the server neither refused nor was out of reach on
  the last probe, the local link is not to blame, and fewer than four keepalives in a row have
  failed; slow fresh dials and silent probes alone only degrade it.\<close>
theorem health_is_usable_iff:
  shows "Usable (state_health s) \<longleftrightarrow>
    \<not> (ConsecutiveFails s > 0 \<and> LastProbeVerdict s \<in> {ProbeRefused, ProbeNoLink}) \<and>
    \<not> LinkBad s \<and> KeepaliveFails s < 4"
  by (rule Usable_iff)

text \<open>Every leg pin that is accepted is read back as it was written; an unknown word is refused and
  leaves the pin alone; after clearing the legs are chosen automatically.\<close>
theorem leg_pin_roundtrip:
  shows "(fst (WriteLeg w pinfile) = None \<longleftrightarrow> w \<in> {''hy2'', ''reality'', ''both''}) \<and>
    ReadLeg (snd (WriteLeg (leg_text p) pinfile)) = (if p = LegAuto then ReadLeg pinfile else p) \<and>
    ReadLeg (snd (ClearLeg pinfile)) = LegAuto"
proof -
  have "ReadLeg (snd (WriteLeg (leg_text p) pinfile)) = (if p = LegAuto then ReadLeg pinfile else p)"
    using ReadLeg_WriteLeg [of p pinfile "snd (WriteLeg (leg_text p) pinfile)"]
    by (cases p) (auto simp: WriteLeg_def)
  then show ?thesis
    by (auto simp: WriteLeg_def ClearLeg_def ReadLeg_def)
qed

end
