(* ===== verification/Heal.thy ===== *)
theory Heal
  imports Mole_Prelude
begin

text \<open>
  core/supervisor.go, healState: the self-healing descent of the ceiling, folding one health
  observation per scheduler tick into the number of rungs the ceiling sits below its target.
  Its methods return h.backoff, which is read off the new state here.
\<close>

record healState =
  h_backoff :: nat
  h_bad :: nat
  h_good :: nat
  h_target :: int
  h_held :: bool

abbreviation (input) healBackoffTicks :: nat where "healBackoffTicks \<equiv> 2"
abbreviation (input) healRecoverTicks :: nat where "healRecoverTicks \<equiv> 15"
abbreviation (input) healMaxBackoff :: nat where "healMaxBackoff \<equiv> 3"

definition zero_heal :: healState where
  "zero_heal = \<lparr>h_backoff = 0, h_bad = 0, h_good = 0, h_target = 0, h_held = False\<rparr>"

definition heal_retarget :: "healState \<Rightarrow> int \<Rightarrow> healState" where
  "heal_retarget h pin = (if pin = h_target h then h else zero_heal\<lparr>h_target := pin\<rparr>)"

definition heal_freeze :: "healState \<Rightarrow> healState" where
  "heal_freeze h = h\<lparr>h_held := False\<rparr>"

definition heal_tick :: "healState \<Rightarrow> bool \<Rightarrow> bool \<Rightarrow> bool \<Rightarrow> healState" where
  "heal_tick h healthy flooding dark =
     (if flooding \<and> dark then h\<lparr>h_good := 0, h_held := True\<rparr>
      else if flooding then
        (let h = h\<lparr>h_held := False, h_good := 0, h_bad := h_bad h + 1\<rparr> in
         if h_bad h \<ge> healBackoffTicks \<and> h_backoff h < healMaxBackoff
         then h\<lparr>h_backoff := h_backoff h + 1, h_bad := 0\<rparr> else h)
      else if healthy then
        (let h = h\<lparr>h_held := False, h_bad := 0, h_good := h_good h + 1\<rparr> in
         if h_backoff h > 0 \<and> h_good h \<ge> healRecoverTicks
         then h\<lparr>h_backoff := h_backoff h - 1, h_good := 0\<rparr> else h)
      else h\<lparr>h_good := 0, h_held := True\<rparr>)"

text \<open>A run of the scheduler's observations.\<close>

datatype heal_event = HTick bool bool bool | HFreeze | HRetarget int

fun heal_step :: "healState \<Rightarrow> heal_event \<Rightarrow> healState" where
  "heal_step h (HTick healthy flooding dark) = heal_tick h healthy flooding dark"
| "heal_step h HFreeze = heal_freeze h"
| "heal_step h (HRetarget pin) = heal_retarget h pin"

definition heal_run :: "healState \<Rightarrow> heal_event list \<Rightarrow> healState" where
  "heal_run h es = foldl heal_step h es"

lemma heal_run_simps [simp]:
  "heal_run h [] = h"
  "heal_run h (e # es) = heal_run (heal_step h e) es"
  "heal_run h (es @ fs) = heal_run (heal_run h es) fs"
  by (simp_all add: heal_run_def)

section \<open>Bounds\<close>

definition heal_inv :: "healState \<Rightarrow> bool" where
  "heal_inv h = (h_backoff h \<le> 3 \<and> (h_backoff h > 0 \<longrightarrow> h_good h < 15))"

lemma heal_inv_zero [simp]: "heal_inv (zero_heal\<lparr>h_target := t\<rparr>)" "heal_inv zero_heal"
  by (simp_all add: heal_inv_def zero_heal_def)

lemma heal_step_inv: "heal_inv h \<Longrightarrow> heal_inv (heal_step h e)"
  by (cases e) (auto simp: heal_inv_def heal_tick_def heal_freeze_def heal_retarget_def Let_def zero_heal_def)

lemma heal_run_inv: "heal_inv h \<Longrightarrow> heal_inv (heal_run h es)"
  by (induction es arbitrary: h) (simp_all add: heal_step_inv)

section \<open>What moves the ceiling\<close>

text \<open>A tick changes the backoff by at most one rung, and which way says why.\<close>

definition flood_evidence :: "heal_event \<Rightarrow> bool" where
  "flood_evidence e = (\<exists>healthy. e = HTick healthy True False)"

lemma flood_evidence_code [code, simp]:
  "flood_evidence (HTick healthy flooding dark) = (flooding \<and> \<not> dark)"
  "flood_evidence HFreeze = False"
  "flood_evidence (HRetarget pin) = False"
  by (auto simp: flood_evidence_def)

lemma heal_step_descends:
  "h_backoff h < h_backoff (heal_step h e) \<Longrightarrow> flood_evidence e \<and> h_bad h \<ge> 1 \<and> h_backoff (heal_step h e) = Suc (h_backoff h)"
  by (cases e)
    (auto simp: heal_tick_def heal_freeze_def heal_retarget_def Let_def zero_heal_def split: if_splits)

lemma heal_step_no_evidence: "\<not> flood_evidence e \<Longrightarrow> h_backoff (heal_step h e) \<le> h_backoff h"
  using heal_step_descends [of h e] by (meson not_le)

text \<open>Self-healing lowers the ceiling only on flood evidence. Over any run of observations
  (ticks, frozen ticks, changes of target) in which no tick reports ENOBUFS outside a keepalive
  blackout, the number of rungs taken off never grows, however unhealthy the ticks are.\<close>
theorem heal_descends_only_on_flood:
  assumes "\<forall>e \<in> set es. \<not> flood_evidence e"
  shows "h_backoff (heal_run h es) \<le> h_backoff h"
  using assms
proof (induction es arbitrary: h)
  case (Cons e es)
  then have "h_backoff (heal_run (heal_step h e) es) \<le> h_backoff (heal_step h e)" by simp
  moreover have "h_backoff (heal_step h e) \<le> h_backoff h"
    using Cons.prems by (simp add: heal_step_no_evidence)
  ultimately show ?case by simp
qed simp

lemma heal_descends_only_on_flood_witness:
  "h_backoff (heal_run (zero_heal\<lparr>h_backoff := 1\<rparr>) [HTick False True True, HTick False False True, HFreeze]) \<le> 1"
  using heal_descends_only_on_flood
    [of "[HTick False True True, HTick False False True, HFreeze]" "zero_heal\<lparr>h_backoff := 1\<rparr>"]
  by (simp add: zero_heal_def)

text \<open>The backoff never exceeds healMaxBackoff: from the initial state, every run of
  observations leaves at most three rungs below the target, whatever is observed.\<close>
theorem heal_backoff_bounded: "h_backoff (heal_run zero_heal es) \<le> healMaxBackoff"
  using heal_run_inv [OF heal_inv_zero(2), of es] by (simp add: heal_inv_def)

section \<open>Climbing back\<close>

definition clean_tick :: heal_event where "clean_tick = HTick True False False"

lemma clean_tick_step:
  "heal_step h clean_tick =
     (if h_backoff h > 0 \<and> h_good h + 1 \<ge> 15
      then h\<lparr>h_held := False, h_bad := 0, h_good := 0, h_backoff := h_backoff h - 1\<rparr>
      else h\<lparr>h_held := False, h_bad := 0, h_good := h_good h + 1\<rparr>)"
  by (simp add: clean_tick_def heal_tick_def Let_def)

lemma clean_run_counts:
  "h_good h + n < 15 \<Longrightarrow>
   h_backoff (heal_run h (replicate n clean_tick)) = h_backoff h \<and>
   h_good (heal_run h (replicate n clean_tick)) = h_good h + n"
  by (induction n arbitrary: h) (auto simp: clean_tick_step)

lemma clean_run_climbs:
  assumes "h_good h < 15" and "h_backoff h > 0"
  shows "h_backoff (heal_run h (replicate (15 - h_good h) clean_tick)) = h_backoff h - 1 \<and>
         h_good (heal_run h (replicate (15 - h_good h) clean_tick)) = 0"
proof -
  let ?k = "14 - h_good h"
  have k: "15 - h_good h = ?k + 1" using assms(1) by simp
  have "replicate (15 - h_good h) clean_tick = replicate ?k clean_tick @ [clean_tick]"
    unfolding k by (simp add: replicate_append_same)
  moreover have "h_backoff (heal_run h (replicate ?k clean_tick)) = h_backoff h \<and>
      h_good (heal_run h (replicate ?k clean_tick)) = 14"
    using clean_run_counts [of h ?k] assms(1) by simp
  ultimately show ?thesis using assms(2) by (simp add: clean_tick_step)
qed

lemma clean_run_full: "h_good h = 0 \<Longrightarrow> h_backoff (heal_run h (replicate (15 * h_backoff h) clean_tick)) = 0"
proof (induction "h_backoff h" arbitrary: h)
  case (Suc k)
  let ?h = "heal_run h (replicate 15 clean_tick)"
  have step: "h_backoff ?h = k \<and> h_good ?h = 0"
    using clean_run_climbs [of h] Suc by simp
  have "15 * h_backoff h = 15 + 15 * k" using Suc.hyps(2) by simp
  then have "heal_run h (replicate (15 * h_backoff h) clean_tick)
      = heal_run ?h (replicate (15 * k) clean_tick)"
    by (simp only: replicate_add heal_run_simps)
  then show ?case using Suc.hyps(1) [of ?h] step by simp
qed simp

text \<open>The descent is undone by clean time alone. From any state whose clean streak is
  empty, fifteen clean minutes per rung bring the ceiling all the way back to its target.\<close>
theorem heal_recovers:
  assumes "h_good h = 0"
  shows "h_backoff (heal_run h (replicate (15 * h_backoff h) clean_tick)) = 0"
  using assms by (rule clean_run_full)

lemma heal_recovers_witness:
  "h_backoff (heal_run (zero_heal\<lparr>h_backoff := 2\<rparr>) (replicate 30 clean_tick)) = 0"
  using heal_recovers [of "zero_heal\<lparr>h_backoff := 2\<rparr>"] by (simp add: zero_heal_def)

lemma heal_step_climbs:
  "h_backoff (heal_step h e) < h_backoff h \<Longrightarrow>
     (e = HTick True False False \<or> e = HTick True False True) \<and> h_good h \<ge> 14 \<or> (\<exists>pin. e = HRetarget pin \<and> pin \<noteq> h_target h)"
  by (cases e)
    (auto simp: heal_tick_def heal_freeze_def heal_retarget_def Let_def split: if_splits)

lemma h_good_le: "h_good (heal_step h e) \<le> Suc (h_good h)"
  by (cases e) (auto simp: heal_tick_def heal_freeze_def heal_retarget_def Let_def zero_heal_def)

text \<open>Climbing is slow. While the target does not change, a run of n observations from a
  state whose clean streak is g cannot raise the ceiling when g + n is below fifteen.\<close>
theorem heal_climbs_slowly:
  assumes "h_good h + length es < healRecoverTicks" and "\<forall>e \<in> set es. \<forall>pin. e \<noteq> HRetarget pin"
  shows "h_backoff h \<le> h_backoff (heal_run h es)"
  using assms
proof (induction es arbitrary: h)
  case (Cons e es)
  have "h_good (heal_step h e) + length es < 15"
    using h_good_le [of h e] Cons.prems(1) by simp
  then have "h_backoff (heal_step h e) \<le> h_backoff (heal_run (heal_step h e) es)"
    using Cons.IH Cons.prems(2) by simp
  moreover have "h_backoff h \<le> h_backoff (heal_step h e)"
    using heal_step_climbs [of h e] Cons.prems by (force simp: not_less [symmetric])
  ultimately show ?case by simp
qed simp

lemma heal_climbs_slowly_witness:
  "2 \<le> h_backoff (heal_run (zero_heal\<lparr>h_backoff := 2\<rparr>) (replicate 14 clean_tick))"
  using heal_climbs_slowly [of "zero_heal\<lparr>h_backoff := 2\<rparr>" "replicate 14 clean_tick"]
  by (simp add: zero_heal_def clean_tick_def)

text \<open>
  Two flooding minutes need not be adjacent: neither an unhealthy tick without flooding nor a
  frozen one clears the count, so a single burst long ago still counts towards a descent.
\<close>

lemma quiet_unhealthy_run:
  "h_backoff (heal_run h (replicate n (HTick False False dark))) = h_backoff h \<and>
   h_bad (heal_run h (replicate n (HTick False False dark))) = h_bad h"
  by (induction n arbitrary: h) (simp_all add: heal_tick_def)

text \<open>Two flooding minutes lower the ceiling even when any number of unhealthy minutes
  without flooding lie between them: the count of flooding minutes is cleared by a healthy
  minute only.\<close>
theorem heal_counts_separated_floods:
  "h_backoff (heal_run zero_heal
     (HTick u True False # replicate n (HTick False False d) @ [HTick v True False])) = 1"
proof -
  let ?h = "heal_step zero_heal (HTick u True False)"
  have "h_backoff ?h = 0 \<and> h_bad ?h = 1" by (simp add: heal_tick_def zero_heal_def Let_def)
  then show ?thesis
    using quiet_unhealthy_run [of ?h n d] by (simp add: heal_tick_def Let_def del: heal_step.simps(1))
      (simp add: heal_tick_def Let_def)
qed

end
