(* ===== verification/Leg_Policy.thy ===== *)
theory Leg_Policy
  imports Conn_State
begin

text \<open>
  core/standby.go, core/legmeasure.go and legGateOpen of core/brutal.go: when traffic moves
  between the REALITY leg and the hysteria2 ladder. The fallback with its dwell and probation,
  the keepalive escalation, the comparative measurement of both legs and the recovery check.
  A probe is a function of an outside world that it may change, so that the order of probes is
  part of the model.
\<close>

definition RealityLegTag :: string where "RealityLegTag = ''proxy-reality''"

abbreviation (input) fallbackEnterFails :: nat where "fallbackEnterFails \<equiv> 6"
abbreviation (input) fallbackMinDwell :: go_duration where "fallbackMinDwell \<equiv> 10 * go_minute"
abbreviation (input) fallbackMaxDwell :: go_duration where "fallbackMaxDwell \<equiv> 60 * go_minute"
abbreviation (input) fallbackProbation :: go_duration where "fallbackProbation \<equiv> 3 * go_minute"
abbreviation (input) legTestInterval :: go_duration where "legTestInterval \<equiv> go_minute"
abbreviation (input) legGateProbes :: nat where "legGateProbes \<equiv> 3"
abbreviation (input) BrutalKeeperPort :: int where "BrutalKeeperPort \<equiv> 8098"
abbreviation (input) LegGatePort :: int where "LegGatePort \<equiv> 8099"

section \<open>The fallback\<close>

record fallbackState =
  fb_on :: bool
  fb_since :: go_time
  fb_lastBack :: go_time
  fb_dwell :: go_duration

definition zero_fallback :: fallbackState where
  "zero_fallback = \<lparr>fb_on = False, fb_since = 0, fb_lastBack = 0, fb_dwell = 0\<rparr>"

definition fb_enter :: "fallbackState \<Rightarrow> go_time \<Rightarrow> bool \<times> fallbackState" where
  "fb_enter b now =
     (if fb_on b then (False, b)
      else let next = fallbackMinDwell;
               next = (if fb_lastBack b \<noteq> 0 \<and> time_sub now (fb_lastBack b) < fallbackProbation
                       then (if fb_dwell b * 2 > fallbackMaxDwell then fallbackMaxDwell else fb_dwell b * 2)
                       else next);
               next = (if next < fallbackMinDwell then fallbackMinDwell else next)
           in (True, b\<lparr>fb_on := True, fb_since := now, fb_dwell := next\<rparr>))"

definition fb_dueBack :: "fallbackState \<Rightarrow> go_time \<Rightarrow> bool" where
  "fb_dueBack b now = (fb_on b \<and> \<not> now < fb_since b + fb_dwell b)"

definition fb_leave :: "fallbackState \<Rightarrow> go_time \<Rightarrow> bool \<times> fallbackState" where
  "fb_leave b now =
     (if \<not> fb_on b then (False, b) else (True, b\<lparr>fb_on := False, fb_lastBack := now\<rparr>))"

definition fb_extend :: "fallbackState \<Rightarrow> go_time \<Rightarrow> fallbackState" where
  "fb_extend b now = (if fb_on b then b\<lparr>fb_since := now\<rparr> else b)"

definition fb_active :: "fallbackState \<Rightarrow> bool" where
  "fb_active b = fb_on b"

section \<open>Decisions\<close>

definition freshFlowsFailing :: "State \<Rightarrow> bool" where
  "freshFlowsFailing st = (DialFails st \<ge> DialBadEnter)"

definition legTestDue :: "bool \<Rightarrow> bool \<Rightarrow> leg_pin \<Rightarrow> go_time \<Rightarrow> go_time \<Rightarrow> bool" where
  "legTestDue hasReality onFallback pin now lastTest =
     (if \<not> hasReality then False
      else if pin \<noteq> LegAuto then False
      else now > lastTest + legTestInterval)"

definition legTestSaysTransport :: "go_duration \<Rightarrow> go_duration \<Rightarrow> go_error \<Rightarrow> int \<Rightarrow> bool" where
  "legTestSaysTransport hy2 reality err slowMs =
     (if err \<noteq> None then False
      else if hy2 > slowMs * go_ms then False
      else hy2 * 3 < reality * 2)"

datatype legAction = legHold | legFallback | legAbandonFallback

definition keepaliveLegAction :: "nat \<Rightarrow> bool \<Rightarrow> bool \<Rightarrow> bool \<Rightarrow> bool \<Rightarrow> leg_pin \<Rightarrow> legAction" where
  "keepaliveLegAction fails probeAlive linkOK onHy2 onFallback pin =
     (if \<not> probeAlive \<or> \<not> linkOK \<or> fails = 0 then legHold
      else if fails < fallbackEnterFails \<or> pin \<noteq> LegAuto then legHold
      else if \<not> onHy2 then legFallback
      else if onFallback then legAbandonFallback
      else legHold)"

definition legGateOpen :: "bool \<Rightarrow> bool \<Rightarrow> bool \<Rightarrow> bool" where
  "legGateOpen failing probeAlive hasReality = (failing \<and> (probeAlive \<or> hasReality))"

section \<open>Measuring both legs\<close>

record legMeasurement =
  lm_delay :: go_duration
  lm_err :: go_error

definition no_measurement :: legMeasurement where
  "no_measurement = \<lparr>lm_delay = 0, lm_err = None\<rparr>"

text \<open>What one probe of a leg does to that leg's record: worst delay, first error.\<close>

definition note_probe :: "legMeasurement \<Rightarrow> go_duration \<Rightarrow> go_error \<Rightarrow> legMeasurement" where
  "note_probe m d perr =
     (let m = (if d > lm_delay m then m\<lparr>lm_delay := d\<rparr> else m) in
      if perr \<noteq> None \<and> lm_err m = None then m\<lparr>lm_err := perr\<rparr> else m)"

type_synonym 'w leg_probe = "int \<Rightarrow> 'w \<Rightarrow> (go_duration \<times> go_error) \<times> 'w"
type_synonym 'w leg_wait = "'w \<Rightarrow> go_error \<times> 'w"

text \<open>One round probes REALITY first when its number is even, hysteria2 first when it is odd.\<close>

definition measure_round ::
  "'w leg_probe \<Rightarrow> nat \<Rightarrow> legMeasurement \<Rightarrow> legMeasurement \<Rightarrow> 'w
     \<Rightarrow> (legMeasurement \<times> legMeasurement) \<times> 'w" where
  "measure_round probe i hy2 reality w =
     (if i mod 2 = 1
      then let ((d, e), w) = probe LegGatePort w; hy2 = note_probe hy2 d e;
               ((d, e), w) = probe BrutalKeeperPort w; reality = note_probe reality d e
           in ((hy2, reality), w)
      else let ((d, e), w) = probe BrutalKeeperPort w; reality = note_probe reality d e;
               ((d, e), w) = probe LegGatePort w; hy2 = note_probe hy2 d e
           in ((hy2, reality), w))"

text \<open>The rounds from number i on, n of them left; a wait separates them and may stop the loop.\<close>

fun measure_rounds ::
  "'w leg_probe \<Rightarrow> 'w leg_wait \<Rightarrow> nat \<Rightarrow> nat \<Rightarrow> legMeasurement \<Rightarrow> legMeasurement \<Rightarrow> 'w
     \<Rightarrow> (legMeasurement \<times> legMeasurement \<times> go_error) \<times> 'w" where
  "measure_rounds probe wait i 0 hy2 reality w = ((hy2, reality, None), w)"
| "measure_rounds probe wait i (Suc n) hy2 reality w =
     (let (stop, w) = (if i > 0 then wait w else (None, w)) in
      if stop \<noteq> None then ((hy2, reality, stop), w)
      else let ((hy2, reality), w) = measure_round probe i hy2 reality w
           in measure_rounds probe wait (Suc i) n hy2 reality w)"

definition measureLegs ::
  "'w leg_probe \<Rightarrow> 'w leg_wait \<Rightarrow> 'w \<Rightarrow> (legMeasurement \<times> legMeasurement \<times> go_error) \<times> 'w" where
  "measureLegs probe wait w = measure_rounds probe wait 0 legGateProbes no_measurement no_measurement w"

definition legComparison :: "legMeasurement \<Rightarrow> legMeasurement \<Rightarrow> bool" where
  "legComparison hy2 reality =
     (if lm_err hy2 \<noteq> None \<or> lm_delay hy2 > DialSlowMs * go_ms then False
      else if lm_err reality \<noteq> None then True
      else legTestSaysTransport (lm_delay hy2) (lm_delay reality) None DialSlowMs)"

text \<open>Recovery: n checks left from number i on. The probe is of one fixed leg.\<close>

fun recovery_rounds ::
  "('w \<Rightarrow> (go_duration \<times> go_error) \<times> 'w) \<Rightarrow> 'w leg_wait \<Rightarrow> nat \<Rightarrow> nat \<Rightarrow> 'w \<Rightarrow> go_error \<times> 'w" where
  "recovery_rounds probe wait i 0 w = (None, w)"
| "recovery_rounds probe wait i (Suc n) w =
     (let (stop, w) = (if i > 0 then wait w else (None, w)) in
      if stop \<noteq> None then (stop, w)
      else let ((d, e), w) = probe w in
        if e \<noteq> None then (e, w)
        else if d > DialSlowMs * go_ms then (Some (''fresh dial slow: '' @ itoa d), w)
        else recovery_rounds probe wait (Suc i) n w)"

definition verifyLegRecovery ::
  "('w \<Rightarrow> (go_duration \<times> go_error) \<times> 'w) \<Rightarrow> 'w leg_wait \<Rightarrow> 'w \<Rightarrow> go_error \<times> 'w" where
  "verifyLegRecovery probe wait w = recovery_rounds probe wait 0 legGateProbes w"

section \<open>The dwell\<close>

definition fb_inv :: "fallbackState \<Rightarrow> bool" where
  "fb_inv b = ((fb_dwell b = 0 \<and> \<not> fb_on b \<and> fb_lastBack b = 0) \<or>
     (fallbackMinDwell \<le> fb_dwell b \<and> fb_dwell b \<le> fallbackMaxDwell))"

text \<open>The calls the supervisor makes on the fallback, as steps.\<close>

inductive fb_step :: "fallbackState \<Rightarrow> fallbackState \<Rightarrow> bool" where
  step_enter: "fb_step b (snd (fb_enter b now))"
| step_leave: "fb_step b (snd (fb_leave b now))"
| step_extend: "fb_step b (fb_extend b now)"

inductive fb_reachable :: "fallbackState \<Rightarrow> bool" where
  fb_start: "fb_reachable zero_fallback"
| fb_more: "fb_reachable b \<Longrightarrow> fb_step b c \<Longrightarrow> fb_reachable c"

inductive_cases fb_stepE: "fb_step b c"

lemma fb_enter_off:
  "\<not> fb_on b \<Longrightarrow> fb_enter b now =
     (True, b\<lparr>fb_on := True, fb_since := now,
        fb_dwell := (if fb_lastBack b \<noteq> 0 \<and> now - fb_lastBack b < fallbackProbation
                     then max fallbackMinDwell (min fallbackMaxDwell (fb_dwell b * 2)) else fallbackMinDwell)\<rparr>)"
  by (auto simp: fb_enter_def Let_def time_sub_less)

lemma fb_step_inv: "fb_step b c \<Longrightarrow> fb_inv b \<Longrightarrow> fb_inv c"
proof (erule fb_stepE)
  fix now
  assume "fb_inv b" "c = snd (fb_enter b now)"
  then show "fb_inv c" by (cases "fb_on b") (auto simp: fb_enter_off fb_inv_def fb_enter_def)
qed (auto simp: fb_leave_def fb_extend_def fb_inv_def)

lemma fb_reachable_inv: "fb_reachable b \<Longrightarrow> fb_inv b"
  by (induction rule: fb_reachable.induct) (auto simp: fb_inv_def zero_fallback_def dest: fb_step_inv)

text \<open>Whatever sequence of enter, leave and extend calls the supervisor makes, a fallback
  that is in force has a dwell between ten and sixty minutes.\<close>
theorem fallback_dwell_bounds:
  assumes "fb_reachable b" and "fb_active b"
  shows "fallbackMinDwell \<le> fb_dwell b \<and> fb_dwell b \<le> fallbackMaxDwell"
  using fb_reachable_inv [OF assms(1)] assms(2) by (auto simp: fb_inv_def fb_active_def)

lemma fallback_dwell_bounds_witness:
  "fallbackMinDwell \<le> fb_dwell (snd (fb_enter zero_fallback 7)) \<and> fb_dwell (snd (fb_enter zero_fallback 7)) \<le> fallbackMaxDwell"
proof -
  have "fb_reachable (snd (fb_enter zero_fallback 7))"
    by (rule fb_more [OF fb_start step_enter])
  moreover have "fb_active (snd (fb_enter zero_fallback 7))"
    by (simp add: fb_active_def fb_enter_def zero_fallback_def Let_def)
  ultimately show ?thesis by (rule fallback_dwell_bounds)
qed

text \<open>An evening of failed returns: each return is followed by another fallback within the
  probation.\<close>

fun failed_returns :: "fallbackState \<Rightarrow> (go_time \<times> go_time) list \<Rightarrow> fallbackState" where
  "failed_returns b [] = b"
| "failed_returns b ((back, again) # ts) =
     failed_returns (snd (fb_enter (snd (fb_leave b back)) again)) ts"

lemma failed_return_doubles:
  assumes "fb_on b" and "back \<noteq> 0" and "again - back < fallbackProbation" and "0 \<le> fb_dwell b"
  shows "snd (fb_enter (snd (fb_leave b back)) again) =
    b\<lparr>fb_lastBack := back, fb_since := again,
      fb_dwell := max fallbackMinDwell (min fallbackMaxDwell (fb_dwell b * 2))\<rparr>"
  using assms by (simp add: fb_leave_def fb_enter_off)

lemma failed_returns_dwell:
  assumes "fb_on b" and "fallbackMinDwell \<le> fb_dwell b" and "fb_dwell b \<le> fallbackMaxDwell"
    and "\<forall>(back, again) \<in> set ts. back \<noteq> 0 \<and> again - back < fallbackProbation"
  shows "fb_on (failed_returns b ts) \<and>
    fb_dwell (failed_returns b ts) = min fallbackMaxDwell (fb_dwell b * 2 ^ length ts)"
  using assms
proof (induction ts arbitrary: b)
  case (Cons t ts)
  obtain t1 t2 where t: "t = (t1, t2)" by fastforce
  let ?c = "snd (fb_enter (snd (fb_leave b t1)) t2)"
  have c: "fb_on ?c" "fb_dwell ?c = min fallbackMaxDwell (fb_dwell b * 2)"
    using Cons.prems t by (simp_all add: failed_return_doubles)
  have ih: "fb_on (failed_returns ?c ts) \<and>
      fb_dwell (failed_returns ?c ts) = min fallbackMaxDwell (fb_dwell ?c * 2 ^ length ts)"
    using Cons.prems c by (intro Cons.IH) auto
  have "min M (min M (x * 2) * 2 ^ k) = min M (x * 2 * 2 ^ k)"
    if "0 \<le> M" for M x :: int and k
  proof (cases "x * 2 \<le> M")
    case False
    have k: "M * 1 \<le> M * 2 ^ k" using that by (intro mult_left_mono) simp_all
    then have "M \<le> M * 2 ^ k" by simp
    also have "\<dots> \<le> x * 2 * 2 ^ k" using False by (intro mult_right_mono) simp_all
    finally show ?thesis using False k by (simp add: min_def)
  qed simp
  then show ?case using ih c t by (simp add: mult.assoc)
qed simp

text \<open>The dwell backs off exponentially. A first fallback holds for ten minutes; if k
  returns in a row are followed by a new fallback within the three-minute probation, the dwell
  is ten minutes doubled k times, capped at an hour, and traffic is on the fallback.\<close>
theorem fallback_backoff_doubles:
  assumes "\<forall>(back, again) \<in> set ts. back \<noteq> 0 \<and> again - back < fallbackProbation"
  shows "fb_active (failed_returns (snd (fb_enter zero_fallback t0)) ts) \<and>
    fb_dwell (failed_returns (snd (fb_enter zero_fallback t0)) ts)
      = min fallbackMaxDwell (fallbackMinDwell * 2 ^ length ts)"
proof -
  have "snd (fb_enter zero_fallback t0) = zero_fallback\<lparr>fb_on := True, fb_since := t0, fb_dwell := fallbackMinDwell\<rparr>"
    by (simp add: fb_enter_off zero_fallback_def)
  then show ?thesis
    using failed_returns_dwell [of "snd (fb_enter zero_fallback t0)" ts] assms
    by (simp add: fb_active_def)
qed

lemma fallback_backoff_doubles_witness:
  "fb_dwell (failed_returns (snd (fb_enter zero_fallback 5)) [(10, 20), (30, 40), (50, 60)]) = fallbackMaxDwell"
  using fallback_backoff_doubles [of "[(10, 20), (30, 40), (50, 60)]" 5] by simp

text \<open>While the fallback holds, a return is not due before a whole dwell has passed since
  it began or was last extended, and is due at every later moment.\<close>
theorem fallback_due_exactly_after_dwell:
  assumes "\<not> fb_active b"
  shows "(fb_dueBack (snd (fb_enter b t0)) now \<longleftrightarrow> t0 + fb_dwell (snd (fb_enter b t0)) \<le> now) \<and>
    (fb_dueBack (fb_extend (snd (fb_enter b t0)) t1) now \<longleftrightarrow> t1 + fb_dwell (snd (fb_enter b t0)) \<le> now)"
  using assms by (auto simp: fb_dueBack_def fb_extend_def fb_active_def fb_enter_off)

lemma fallback_due_exactly_after_dwell_witness:
  "\<not> fb_dueBack (snd (fb_enter zero_fallback 1)) (fallbackMinDwell) \<and>
   fb_dueBack (snd (fb_enter zero_fallback 1)) (fallbackMinDwell + 1)"
  using fallback_due_exactly_after_dwell [of zero_fallback 1 "fallbackMinDwell"]
    fallback_due_exactly_after_dwell [of zero_fallback 1 "fallbackMinDwell + 1"]
  by (simp add: fb_active_def fb_enter_off zero_fallback_def)

section \<open>The comparison\<close>

lemma legComparison_iff:
  "legComparison c a \<longleftrightarrow> lm_err c = None \<and> lm_delay c \<le> 1000 * go_ms \<and>
     (lm_err a \<noteq> None \<or> lm_delay c * 3 < lm_delay a * 2)"
  by (auto simp: legComparison_def legTestSaysTransport_def)

lemma note_probe_delay: "lm_delay (note_probe m d e) = max (lm_delay m) d"
  by (simp add: note_probe_def Let_def)

lemma note_probe_err: "lm_err (note_probe m d e) = (if lm_err m = None then e else lm_err m)"
  by (auto simp: note_probe_def Let_def)

text \<open>Probes recorded in a log: a world that lists the ports probed so far and the waits taken.\<close>

datatype probe_event = Probed int | Waited

definition logging_probe :: "(int \<Rightarrow> nat \<Rightarrow> go_duration \<times> go_error) \<Rightarrow> probe_event list leg_probe" where
  "logging_probe answer port w = (answer port (length (filter (\<lambda>e. e = Probed port) w)), w @ [Probed port])"

definition logging_wait :: "probe_event list leg_wait" where
  "logging_wait w = (None, w @ [Waited])"

text \<open>The comparative measurement gives each leg three probes in the alternating order
  REALITY, UDP, wait, UDP, REALITY, wait, REALITY, UDP, and keeps for each leg the worst of its
  own three delays and its own first error: a failure on one leg neither stops the other's
  probes nor enters its record.\<close>
theorem measureLegs_alternates:
  "measureLegs (logging_probe answer) logging_wait [] =
     ((\<lparr>lm_delay = Max {0, fst (answer 8099 0), fst (answer 8099 1), fst (answer 8099 2)},
        lm_err = (case snd (answer 8099 0) of Some e \<Rightarrow> Some e | None \<Rightarrow>
                   (case snd (answer 8099 1) of Some e \<Rightarrow> Some e | None \<Rightarrow> snd (answer 8099 2)))\<rparr>,
       \<lparr>lm_delay = Max {0, fst (answer 8098 0), fst (answer 8098 1), fst (answer 8098 2)},
        lm_err = (case snd (answer 8098 0) of Some e \<Rightarrow> Some e | None \<Rightarrow>
                   (case snd (answer 8098 1) of Some e \<Rightarrow> Some e | None \<Rightarrow> snd (answer 8098 2)))\<rparr>,
       None),
      [Probed 8098, Probed 8099, Waited, Probed 8099, Probed 8098, Waited, Probed 8098, Probed 8099])"
proof -
  obtain d0 e0 where a0: "answer 8098 0 = (d0, e0)" by fastforce
  obtain d1 e1 where a1: "answer 8098 (Suc 0) = (d1, e1)" by fastforce
  obtain d2 e2 where a2: "answer 8098 2 = (d2, e2)" by fastforce
  obtain f0 g0 where b0: "answer 8099 0 = (f0, g0)" by fastforce
  obtain f1 g1 where b1: "answer 8099 (Suc 0) = (f1, g1)" by fastforce
  obtain f2 g2 where b2: "answer 8099 2 = (f2, g2)" by fastforce
  note answers = a0 a1 a2 b0 b1 b2
  have rec_eq: "\<And>m n::legMeasurement. m = n \<longleftrightarrow> lm_delay m = lm_delay n \<and> lm_err m = lm_err n"
    by auto
  have two: "answer p (Suc (Suc 0)) = answer p 2" for p by (simp add: numeral_2_eq_2)
  show ?thesis
    by (simp add: measureLegs_def numeral_3_eq_3 measure_round_def logging_probe_def logging_wait_def
        answers two rec_eq note_probe_delay note_probe_err no_measurement_def max.assoc
        split: option.splits)
qed

text \<open>The comparison never sends traffic both ways. If the candidate wins against the active
  leg, then the same two measurements with the roles exchanged do not let the active leg win;
  and the winner carried all its probes within the healthy dial budget.\<close>
theorem legComparison_antisym:
  assumes "legComparison c a" and "0 \<le> lm_delay c" and "0 \<le> lm_delay a"
  shows "\<not> legComparison a c \<and> lm_err c = None \<and> lm_delay c \<le> DialSlowMs * go_ms"
  using assms by (auto simp: legComparison_iff)

lemma legComparison_antisym_witness:
  "\<not> legComparison \<lparr>lm_delay = 900000000, lm_err = None\<rparr> \<lparr>lm_delay = 300000000, lm_err = None\<rparr>"
  using legComparison_antisym [of "\<lparr>lm_delay = 300000000, lm_err = None\<rparr>" "\<lparr>lm_delay = 900000000, lm_err = None\<rparr>"]
  by (simp add: legComparison_iff)

section \<open>Recovery\<close>

lemma recovery_rounds_None:
  assumes "recovery_rounds probe wait i n w = (None, w')"
  shows "\<exists>ws ds. length ws = n \<and> length ds = n \<and>
    (\<forall>k < n. \<exists>v. probe (ws ! k) = ((ds ! k, None), v) \<and> ds ! k \<le> 1000 * go_ms)"
  using assms
proof (induction n arbitrary: i w)
  case (Suc n)
  obtain stop v where sv: "(if i > 0 then wait w else (None, w)) = (stop, v)" by fastforce
  obtain d e u where p: "probe v = ((d, e), u)" by (metis prod.exhaust)
  from Suc.prems sv p have ok: "stop = None" "e = None" "d \<le> 1000 * go_ms"
    and rest: "recovery_rounds probe wait (Suc i) n u = (None, w')"
    by (auto split: if_splits)
  from Suc.IH [OF rest] obtain ws ds where
    "length ws = n" "length ds = n"
    "\<forall>k < n. \<exists>v. probe (ws ! k) = ((ds ! k, None), v) \<and> ds ! k \<le> 1000 * go_ms" by blast
  then have "length (v # ws) = Suc n \<and> length (d # ds) = Suc n \<and>
    (\<forall>k < Suc n. \<exists>z. probe ((v # ws) ! k) = (((d # ds) ! k, None), z) \<and> (d # ds) ! k \<le> 1000 * go_ms)"
    using p ok by (auto simp: nth_Cons split: nat.splits)
  then show ?case by blast
qed simp

text \<open>A recovery is declared only after three error-free probes, each within the healthy
  dial budget: there are three moments at which the probe was taken and succeeded.\<close>
theorem recovery_needs_three_good_probes:
  assumes "verifyLegRecovery probe wait w = (None, w')"
  shows "\<exists>ws ds. length ws = 3 \<and> length ds = 3 \<and>
    (\<forall>k < 3. \<exists>v. probe (ws ! k) = ((ds ! k, None), v) \<and> ds ! k \<le> DialSlowMs * go_ms)"
  using recovery_rounds_None assms by (fastforce simp: verifyLegRecovery_def)

definition steady_probe :: "nat \<Rightarrow> (go_duration \<times> go_error) \<times> nat" where
  "steady_probe w = ((5 * go_ms, None), Suc w)"

lemma recovery_needs_three_good_probes_witness:
  "\<exists>ws ds. length ws = 3 \<and> length ds = 3 \<and>
    (\<forall>k < 3. \<exists>v. steady_probe (ws ! k) = ((ds ! k, None), v) \<and> ds ! k \<le> DialSlowMs * go_ms)"
proof -
  have "verifyLegRecovery steady_probe (\<lambda>w. (None, w)) 0 = (None, 3)"
    by (simp add: verifyLegRecovery_def numeral_3_eq_3 steady_probe_def)
  then show ?thesis by (rule recovery_needs_three_good_probes)
qed

text \<open>The keepalive streak moves no traffic while the manual pin is set, the local link is
  bad, the out-of-tunnel probe is unanswered or fewer than six beats have failed; otherwise it
  asks for the fallback exactly when traffic is not on the UDP ladder, and abandons the fallback
  exactly when the failover put it there.\<close>
theorem keepalive_action_cases:
  "keepaliveLegAction fails probeAlive linkOK onHy2 onFallback pin =
     (if probeAlive \<and> linkOK \<and> 6 \<le> fails \<and> pin = LegAuto \<and> \<not> onHy2 then legFallback
      else if probeAlive \<and> linkOK \<and> 6 \<le> fails \<and> pin = LegAuto \<and> onFallback then legAbandonFallback
      else legHold)"
  by (auto simp: keepaliveLegAction_def)

end
