(* ===== verification/Sensors.thy ===== *)
theory Sensors
  imports Leg_Policy
begin

text \<open>
  core/flood.go and core/node_dial.go: the two sensors spliced into sing-box's output. Each is
  an io.Writer fed with arbitrary chunks of a byte stream; the theorems say that what it counts
  depends on the stream and not on where the chunks end. The time of a write is an argument.
\<close>

section \<open>The flood sensor\<close>

definition floodMarker :: string where
  "floodMarker = ''write: no buffer space available''"

text \<open>bytes.Count: non-overlapping occurrences, scanned from the left.\<close>

function bytes_count :: "string \<Rightarrow> string \<Rightarrow> nat" where
  "bytes_count s p =
     (if p = [] then length s + 1 else if s = [] then 0
      else case cut_prefix s p of Some r \<Rightarrow> Suc (bytes_count r p) | None \<Rightarrow> bytes_count (tl s) p)"
  by pat_completeness auto
termination
  by (relation "measure (\<lambda>(s, p). length s)") (auto simp: cut_prefix_Some)

declare bytes_count.simps [simp del]

record floodSensor =
  fl_seen :: nat
  fl_last :: go_time
  fl_sequence :: "64 word"
  fl_tail :: string

record floodSnapshot =
  snap_sequence :: "64 word"
  snap_last :: go_time

definition zero_flood :: floodSensor where
  "zero_flood = \<lparr>fl_seen = 0, fl_last = 0, fl_sequence = 0, fl_tail = []\<rparr>"

definition flood_write :: "floodSensor \<Rightarrow> go_time \<Rightarrow> string \<Rightarrow> floodSensor" where
  "flood_write f now p =
     (let buf = (if fl_tail f \<noteq> [] then fl_tail f @ p else p);
          n = bytes_count buf floodMarker;
          f = (if n > 0 then f\<lparr>fl_seen := fl_seen f + n, fl_sequence := fl_sequence f + of_nat n, fl_last := now\<rparr>
               else f);
          keep = length floodMarker - 1
      in f\<lparr>fl_tail := (if length buf > keep then drop (length buf - keep) buf else buf)\<rparr>)"

definition flood_snapshot :: "floodSensor \<Rightarrow> floodSnapshot" where
  "flood_snapshot f = \<lparr>snap_sequence = fl_sequence f, snap_last = fl_last f\<rparr>"

definition flood_take :: "floodSensor \<Rightarrow> (nat \<times> go_time) \<times> floodSensor" where
  "flood_take f = ((fl_seen f, fl_last f), f\<lparr>fl_seen := 0\<rparr>)"

definition TakeFloodSightings :: "floodSensor \<Rightarrow> nat \<times> floodSensor" where
  "TakeFloodSightings f = (let ((n, _), f) = flood_take f in (n, f))"

text \<open>Positions at which the marker stands. The marker's first letter occurs nowhere else in
  it, so two occurrences never overlap and the scan misses none.\<close>

fun occurrences :: "string \<Rightarrow> nat" where
  "occurrences [] = 0"
| "occurrences (c # cs) = (if cut_prefix (c # cs) floodMarker \<noteq> None then 1 else 0) + occurrences cs"

definition marker_rest :: string where
  "marker_rest = ''rite: no buffer space available''"

lemma floodMarker_Cons: "floodMarker = CHR ''w'' # marker_rest"
  by (simp add: floodMarker_def marker_rest_def)

lemma marker_rest_chars: "c \<in> set marker_rest \<Longrightarrow> c \<noteq> CHR ''w''"
  by (auto simp: marker_rest_def)

lemma length_floodMarker [simp]: "length floodMarker = 32"
  by (simp add: floodMarker_def)

lemma floodMarker_ne [simp]: "floodMarker \<noteq> []"
  by (simp add: floodMarker_def)

lemma cut_prefix_marker_hd: "c \<noteq> CHR ''w'' \<Longrightarrow> cut_prefix (c # cs) floodMarker = None"
  by (simp add: floodMarker_Cons)

lemma occurrences_skip: "(\<forall>c \<in> set ds. c \<noteq> CHR ''w'') \<Longrightarrow> occurrences (ds @ s) = occurrences s"
proof (induction ds)
  case (Cons d ds)
  then have "cut_prefix (d # ds @ s) floodMarker = None"
    by (simp add: cut_prefix_marker_hd)
  with Cons show ?case by simp
qed simp

lemma occurrences_marker: "occurrences (floodMarker @ r) = Suc (occurrences r)"
proof -
  have "cut_prefix (CHR ''w'' # marker_rest @ r) floodMarker = Some r"
    by (simp add: cut_prefix_Some floodMarker_Cons)
  moreover have "occurrences (marker_rest @ r) = occurrences r"
    by (rule occurrences_skip) (simp add: marker_rest_chars)
  ultimately show ?thesis by (simp add: floodMarker_Cons)
qed

lemma bytes_count_occurrences: "bytes_count s floodMarker = occurrences s"
proof (induction s rule: length_induct)
  case (1 s)
  show ?case
  proof (cases s)
    case Nil
    then show ?thesis by (simp add: bytes_count.simps [of "[]"])
  next
    case (Cons c cs)
    show ?thesis
    proof (cases "cut_prefix s floodMarker")
      case None
      have "bytes_count cs floodMarker = occurrences cs" using 1 Cons by simp
      with None Cons show ?thesis by (simp add: bytes_count.simps [of "c # cs"])
    next
      case (Some r)
      then have s: "s = floodMarker @ r" by (simp add: cut_prefix_Some)
      then have "bytes_count r floodMarker = occurrences r" using 1 by simp
      then have "bytes_count (floodMarker @ r) floodMarker = Suc (occurrences r)"
        by (simp add: bytes_count.simps [of "floodMarker @ r"])
      then show ?thesis by (simp add: s occurrences_marker)
    qed
  qed
qed

lemma cut_prefix_short: "length s < length p \<Longrightarrow> cut_prefix s p = None"
  by (induction s p rule: cut_prefix.induct) auto

lemma cut_prefix_append_long:
  "length p \<le> length s \<Longrightarrow> cut_prefix (s @ t) p = None \<longleftrightarrow> cut_prefix s p = None"
  by (induction s p rule: cut_prefix.induct) auto

lemma occurrences_short: "length s < 32 \<Longrightarrow> occurrences s = 0"
  by (induction s) (auto simp: cut_prefix_short)

lemma occurrences_split:
  "occurrences (s @ t) = occurrences s + occurrences (last_n 31 s @ t)"
proof (induction s)
  case (Cons c cs)
  show ?case
  proof (cases "length (c # cs) \<le> 31")
    case True
    then show ?thesis by (simp add: occurrences_short del: occurrences.simps)
  next
    case False
    then have "length (c # cs) - 31 = Suc (length cs - 31)" by simp
    then have "last_n 31 (c # cs) = last_n 31 cs" by (simp only: last_n_def drop_Suc_Cons)
    moreover have "cut_prefix ((c # cs) @ t) floodMarker = None \<longleftrightarrow> cut_prefix (c # cs) floodMarker = None"
      using False by (intro cut_prefix_append_long) simp
    ultimately show ?thesis using Cons.IH by simp
  qed
qed (simp add: last_n_def)

definition flood_tracks :: "floodSensor \<Rightarrow> string \<Rightarrow> bool" where
  "flood_tracks f s = (fl_tail f = last_n 31 s \<and> fl_seen f = occurrences s \<and> fl_sequence f = of_nat (occurrences s))"

lemma flood_write_tracks:
  assumes "flood_tracks f s"
  shows "flood_tracks (flood_write f now p) (s @ p)"
proof -
  have t: "fl_tail f = last_n 31 s" and n: "fl_seen f = occurrences s"
    and q: "fl_sequence f = of_nat (occurrences s)"
    using assms by (simp_all add: flood_tracks_def)
  have buf: "(if fl_tail f \<noteq> [] then fl_tail f @ p else p) = fl_tail f @ p" by simp
  have "fl_tail (flood_write f now p) = last_n 31 (fl_tail f @ p)"
    unfolding flood_write_def buf by (simp add: Let_def last_n_def)
  then have "fl_tail (flood_write f now p) = last_n 31 (s @ p)"
    by (simp add: t last_n_snoc_last_n)
  moreover have "occurrences (s @ p) = occurrences s + bytes_count (fl_tail f @ p) floodMarker"
    using occurrences_split [of s p] by (simp add: t bytes_count_occurrences)
  ultimately show ?thesis
    unfolding flood_tracks_def by (simp add: flood_write_def buf Let_def n q)
qed

lemma flood_run_tracks:
  "flood_tracks f s \<Longrightarrow> flood_tracks (foldl (\<lambda>f (now, p). flood_write f now p) f chunks) (s @ concat (map snd chunks))"
proof (induction chunks arbitrary: f s)
  case (Cons x xs)
  obtain now p where x: "x = (now, p)" by fastforce
  from Cons.IH [OF flood_write_tracks [OF Cons.prems, of now p]] show ?case
    by (simp add: x)
qed simp

text \<open>The flood sensor counts every ENOBUFS line once, however sing-box's output is cut into
  writes: after any list of chunks, the count and the 64-bit sequence number equal the number
  of marker occurrences that bytes.Count finds in the whole stream.\<close>
theorem flood_count_chunk_independent:
  "fl_seen (foldl (\<lambda>f (now, p). flood_write f now p) zero_flood chunks)
      = bytes_count (concat (map snd chunks)) floodMarker \<and>
   fl_sequence (foldl (\<lambda>f (now, p). flood_write f now p) zero_flood chunks)
      = of_nat (bytes_count (concat (map snd chunks)) floodMarker)"
  using flood_run_tracks [of zero_flood "[]" chunks]
  by (simp add: flood_tracks_def zero_flood_def last_n_def bytes_count_occurrences)

section \<open>The node-dial sensor\<close>

text \<open>Removal of the matches of the colour-code pattern: escape, bracket, digits and
  semicolons, the letter m.\<close>

definition skip_codes :: "string \<Rightarrow> string" where
  "skip_codes s = dropWhile (\<lambda>d. digit_value d \<noteq> None \<or> d = CHR '';'') s"

lemma length_skip_codes: "length (skip_codes s) \<le> length s"
  by (simp only: skip_codes_def length_dropWhile_le)

lemma length_tl_dropWhile: "p \<noteq> [] \<Longrightarrow> length (tl (dropWhile P p)) < length p"
  using length_dropWhile_le [of P p] by (simp only: length_tl length_greater_0_conv [symmetric])

function strip_ansi :: "string \<Rightarrow> string" where
  "strip_ansi s =
     (case s of [] \<Rightarrow> []
      | c # cs \<Rightarrow>
          if c = CHR 0x1B \<and> cs \<noteq> [] \<and> hd cs = CHR ''[''
          then (let rest = skip_codes (tl cs)
                in if rest \<noteq> [] \<and> hd rest = CHR ''m'' then strip_ansi (tl rest) else c # strip_ansi cs)
          else c # strip_ansi cs)"
  by pat_completeness auto
termination
proof (relation "measure length", goal_cases)
  case (2 s c cs rest)
  then show ?case using length_skip_codes [of "tl cs"] by (cases cs) auto
qed auto

declare strip_ansi.simps [simp del]

record nodeDialSnapshot =
  nd_sequence :: "64 word"
  nd_last :: go_time

record nodeDialSensor =
  nd_target :: string
  nd_tail :: string
  nd_dropped :: bool
  nd_observation :: nodeDialSnapshot

text \<open>net.SplitHostPort followed by net.ParseIP is given by its outcome: the joined host:port
  when the address splits and its host is an IP literal, nothing otherwise.\<close>

definition nd_configure :: "(string \<Rightarrow> string option) \<Rightarrow> nodeDialSensor \<Rightarrow> string \<Rightarrow> nodeDialSensor" where
  "nd_configure ip_host_port s addr =
     \<lparr>nd_target = (case ip_host_port addr of Some t \<Rightarrow> t | None \<Rightarrow> []),
      nd_tail = [], nd_dropped = False, nd_observation = \<lparr>nd_sequence = 0, nd_last = 0\<rparr>\<rparr>"

definition nd_line_matches :: "string \<Rightarrow> string \<Rightarrow> bool" where
  "nd_line_matches target line =
     (str_contains line ''open connection to '' \<and>
      str_contains line (''using outbound/vless['' @ RealityLegTag @ '']:'') \<and>
      str_contains line (''dial tcp '' @ target @ '': '') \<and>
      (has_suffix line ''i/o timeout'' \<or> has_suffix line ''connect: connection refused''))"

text \<open>The state after a newline: the finished line is looked at, then forgotten.\<close>

definition nd_finish :: "nodeDialSensor \<Rightarrow> go_time \<Rightarrow> nodeDialSensor" where
  "nd_finish s now =
     (let s = (if \<not> nd_dropped s \<and> nd_target s \<noteq> [] \<and> nd_line_matches (nd_target s) (strip_ansi (nd_tail s))
               then s\<lparr>nd_observation := \<lparr>nd_sequence = nd_sequence (nd_observation s) + 1, nd_last = now\<rparr>\<rparr>
               else s)
      in s\<lparr>nd_tail := [], nd_dropped := False\<rparr>)"

text \<open>A part of a line: an overlong line is dropped as a whole.\<close>

definition nd_part :: "nodeDialSensor \<Rightarrow> string \<Rightarrow> nodeDialSensor" where
  "nd_part s part =
     (let s = (if length (nd_tail s) + length part > 4096 then s\<lparr>nd_tail := [], nd_dropped := True\<rparr> else s)
      in if \<not> nd_dropped s then s\<lparr>nd_tail := nd_tail s @ part\<rparr> else s)"

function nd_write :: "nodeDialSensor \<Rightarrow> go_time \<Rightarrow> string \<Rightarrow> nodeDialSensor" where
  "nd_write s now p =
     (if p = [] then s
      else let part = takeWhile (\<lambda>c. c \<noteq> CHR 0x0A) p; rest = dropWhile (\<lambda>c. c \<noteq> CHR 0x0A) p;
               s = nd_part s part
           in if rest = [] then s else nd_write (nd_finish s now) now (tl rest))"
  by pat_completeness auto
termination
  by (relation "measure (\<lambda>(s, now, p). length p)") (simp_all add: length_tl_dropWhile del: length_tl)

declare nd_write.simps [simp del]

text \<open>The byte-wise reading of the same sensor.\<close>

definition nd_byte :: "go_time \<Rightarrow> nodeDialSensor \<Rightarrow> char \<Rightarrow> nodeDialSensor" where
  "nd_byte now s c = (if c = CHR 0x0A then nd_finish s now else nd_part s [c])"

definition nd_ok :: "nodeDialSensor \<Rightarrow> bool" where
  "nd_ok s = (length (nd_tail s) \<le> 4096 \<and> (nd_dropped s \<longrightarrow> nd_tail s = []))"

lemma nd_part_ok: "nd_ok s \<Longrightarrow> nd_ok (nd_part s p)"
  by (auto simp: nd_ok_def nd_part_def Let_def)

lemma nd_part_append: "nd_ok s \<Longrightarrow> nd_part (nd_part s p) q = nd_part s (p @ q)"
  by (cases s) (auto simp: nd_ok_def nd_part_def Let_def)

lemma nd_part_Nil: "nd_ok s \<Longrightarrow> nd_part s [] = s"
  by (cases s) (auto simp: nd_ok_def nd_part_def Let_def)

lemma nd_finish_ok: "nd_ok (nd_finish s now)"
  by (simp add: nd_ok_def nd_finish_def Let_def)

lemma nd_bytes_part:
  "nd_ok s \<Longrightarrow> (\<forall>c \<in> set p. c \<noteq> CHR 0x0A) \<Longrightarrow> foldl (nd_byte now) s p = nd_part s p"
proof (induction p arbitrary: s)
  case (Cons c cs)
  then show ?case
    using Cons.IH [OF nd_part_ok [OF Cons.prems(1), of "[c]"]] nd_part_append [OF Cons.prems(1), of "[c]" cs]
    by (simp add: nd_byte_def)
qed (simp add: nd_part_Nil)

lemma nd_byte_newline: "nd_byte now s (CHR 0x0A) = nd_finish s now"
  by (simp add: nd_byte_def)

lemma nd_write_bytes: "nd_ok s \<Longrightarrow> nd_write s now p = foldl (nd_byte now) s p"
proof (induction p arbitrary: s rule: length_induct)
  case (1 p)
  let ?part = "takeWhile (\<lambda>c. c \<noteq> CHR 0x0A) p" and ?rest = "dropWhile (\<lambda>c. c \<noteq> CHR 0x0A) p"
  have p: "p = ?part @ ?rest" by simp
  have part: "foldl (nd_byte now) s ?part = nd_part s ?part"
    using 1(2) by (intro nd_bytes_part) (auto dest: set_takeWhileD)
  show ?case
  proof (cases "?rest = []")
    case True
    then have "p = ?part" by (metis append_Nil2 takeWhile_dropWhile_id)
    then have "foldl (nd_byte now) s p = nd_part s ?part" using part by simp
    with True nd_part_Nil [OF 1(2)] show ?thesis
      by (cases "p = []") (simp_all add: nd_write.simps [of s now p] nd_write.simps [of s now "[]"] Let_def)
  next
    case False
    then obtain x cs where "?rest = x # cs" by (meson list.exhaust)
    moreover from this have "x = CHR 0x0A" by (simp add: dropWhile_eq_Cons_conv)
    ultimately have rest: "?rest = CHR 0x0A # cs" by simp
    have "length (tl ?rest) < length p" using False by (intro length_tl_dropWhile) auto
    then have "length cs < length p" using rest by simp
    then have "nd_write (nd_finish (nd_part s ?part) now) now cs
        = foldl (nd_byte now) (nd_finish (nd_part s ?part) now) cs"
      using 1(1) nd_finish_ok by blast
    moreover have "foldl (nd_byte now) s (?part @ ?rest) = foldl (nd_byte now) (nd_part s ?part) ?rest"
      by (simp only: foldl_append part)
    then have "foldl (nd_byte now) s p = foldl (nd_byte now) (nd_part s ?part) ?rest"
      by (simp only: takeWhile_dropWhile_id)
    moreover have "p \<noteq> []" using False by auto
    then have "nd_write s now p = nd_write (nd_finish (nd_part s ?part) now) now cs"
      using rest by (simp add: nd_write.simps [of s now p] Let_def)
    ultimately show ?thesis using rest by (simp add: nd_byte_newline)
  qed
qed

lemma nd_byte_ok: "nd_ok s \<Longrightarrow> nd_ok (nd_byte now s c)"
  by (simp add: nd_byte_def nd_finish_ok nd_part_ok)

lemma nd_bytes_ok: "nd_ok s \<Longrightarrow> nd_ok (foldl (nd_byte now) s p)"
  by (induction p arbitrary: s) (simp_all add: nd_byte_ok)

lemma nd_configure_ok: "nd_ok (nd_configure ihp s addr)"
  by (simp add: nd_ok_def nd_configure_def)

text \<open>The node-dial sensor reads the same lines however the output is cut: from a freshly
  configured sensor, writing any list of chunks leaves exactly the state that writing their
  concatenation at once leaves.\<close>
theorem node_dial_chunk_independent:
  "foldl (\<lambda>s p. nd_write s now p) (nd_configure ihp s0 addr) chunks
     = nd_write (nd_configure ihp s0 addr) now (concat chunks)"
proof -
  have "foldl (\<lambda>s p. nd_write s now p) s chunks = foldl (nd_byte now) s (concat chunks)" if "nd_ok s" for s
    using that
  proof (induction chunks arbitrary: s)
    case (Cons c cs)
    then show ?case by (simp add: nd_write_bytes nd_bytes_ok)
  qed simp
  then show ?thesis by (simp add: nd_write_bytes nd_configure_ok)
qed

text \<open>A sighting is a whole line about this node. One line of at most 4096 bytes without a
  newline, written to an idle sensor with its newline, raises the sequence number by one exactly
  when a target is configured and the line, its colour codes removed, is a REALITY dial to that
  target that timed out or was refused.\<close>
theorem node_dial_line:
  assumes "nd_tail s = []" and "\<not> nd_dropped s" and "length line \<le> 4096" and "CHR 0x0A \<notin> set line"
  shows "nd_sequence (nd_observation (nd_write s now (line @ [CHR 0x0A]))) =
     nd_sequence (nd_observation s) +
       (if nd_target s \<noteq> [] \<and> nd_line_matches (nd_target s) (strip_ansi line) then 1 else 0)"
proof -
  have ok: "nd_ok s" using assms by (simp add: nd_ok_def)
  have "foldl (nd_byte now) s line = nd_part s line"
    using assms(4) by (intro nd_bytes_part [OF ok]) auto
  then have "nd_write s now (line @ [CHR 0x0A]) = nd_finish (nd_part s line) now"
    by (simp add: nd_write_bytes ok nd_byte_newline)
  then show ?thesis using assms by (simp add: nd_part_def nd_finish_def Let_def)
qed

definition sample_line :: string where
  "sample_line = ''open connection to x using outbound/vless[proxy-reality]: dial tcp 1.2.3.4:443: i/o timeout''"

lemma node_dial_line_witness:
  "nd_sequence (nd_observation (nd_write (nd_configure Some undefined ''1.2.3.4:443'') 9 (sample_line @ [CHR 0x0A])))
     = (if nd_line_matches ''1.2.3.4:443'' (strip_ansi sample_line) then 1 else 0)"
  using node_dial_line [of "nd_configure Some undefined ''1.2.3.4:443''" sample_line 9]
  by (simp add: nd_configure_def sample_line_def)

end
