(* ===== verification/Balance.thy ===== *)
theory Balance
  imports Schedule Sensors
begin

text \<open>
  core/balance_policy.go and core/udp_pressure.go: the health of each leg as the dual routing
  sees it, the lane allocation, the source-port bands that shard new connections, and the cap
  that local UDP write refusals put on the hysteria2 rung.
\<close>

abbreviation (input) BalanceLanes :: int where "BalanceLanes \<equiv> 8"
abbreviation (input) balancePortBlock :: int where "balancePortBlock \<equiv> 32"
abbreviation (input) balanceRecoverSamples :: nat where "balanceRecoverSamples \<equiv> 3"
abbreviation (input) balanceSlowSamples :: nat where "balanceSlowSamples \<equiv> 3"
abbreviation (input) legErrorThreshold :: nat where "legErrorThreshold \<equiv> 3"
abbreviation (input) DefaultHy2Lanes :: int where "DefaultHy2Lanes \<equiv> 2"

section \<open>Source-port bands\<close>

definition BalanceLaneTag :: "int \<Rightarrow> string" where
  "BalanceLaneTag lane = ''flow-'' @ itoa lane"

text \<open>The loop from low on. Port zero is left out of the first band, and low is put back before
  the increment.\<close>

function port_bands :: "int \<Rightarrow> (int \<times> int) list" where
  "port_bands low =
     (if low > 65535 then []
      else let high = low + balancePortBlock - 1;
               (lo, high) = (if low = 0 then (1, balancePortBlock - 1) else (low, high));
               high = (if high > 65535 then 65535 else high);
               low' = (if lo = 1 then 0 else lo)
           in (lo, high) # port_bands (low' + BalanceLanes * balancePortBlock))"
  by pat_completeness auto
termination
  by (relation "measure (\<lambda>low. nat (65536 - low))") (auto split: if_splits)

declare port_bands.simps [simp del]

definition lane_bands :: "int \<Rightarrow> (int \<times> int) list" where
  "lane_bands lane =
     (if lane < 0 \<or> lane \<ge> BalanceLanes then [] else port_bands (lane * balancePortBlock))"

definition BalancePortRanges :: "int \<Rightarrow> string list" where
  "BalancePortRanges lane = map (\<lambda>(low, high). itoa low @ '':'' @ itoa high) (lane_bands lane)"

definition in_bands :: "int \<Rightarrow> (int \<times> int) list \<Rightarrow> bool" where
  "in_bands p bs = list_ex (\<lambda>(lo, hi). lo \<le> p \<and> p \<le> hi) bs"

lemma in_bands_Cons [simp]: "in_bands p ((lo, hi) # bs) \<longleftrightarrow> (lo \<le> p \<and> p \<le> hi) \<or> in_bands p bs"
  by (simp add: in_bands_def)

lemma in_bands_Nil [simp]: "\<not> in_bands p []"
  by (simp add: in_bands_def)

lemma in_port_bands:
  assumes "32 dvd low" and "0 \<le> low"
  shows "in_bands p (port_bands low) \<longleftrightarrow>
    1 \<le> p \<and> p \<le> 65535 \<and> low \<le> p \<and> (p - low) mod 256 < 32"
  using assms
proof (induction "nat (65536 - low)" arbitrary: low rule: less_induct)
  case less
  show ?case
  proof (cases "low > 65535")
    case True
    then show ?thesis by (simp add: port_bands.simps [of low])
  next
    case False
    obtain k where k: "low = 32 * k" using less.prems(1) by (auto simp: dvd_def)
    then have hi: "low + 31 \<le> 65535" using False by presburger
    have ih: "in_bands p (port_bands (low + 256)) \<longleftrightarrow>
        1 \<le> p \<and> p \<le> 65535 \<and> low + 256 \<le> p \<and> (p - (low + 256)) mod 256 < 32"
    proof (rule less.hyps)
      show "32 dvd low + 256" by (simp add: less.prems(1))
    qed (use False less.prems(2) in auto)
    have eq: "port_bands low = (if low = 0 then 1 else low, low + 31) # port_bands (low + 256)"
      using False hi k by (subst port_bands.simps) (auto simp: Let_def)
    have m: "(p - (low + 256)) mod 256 = (p - low) mod 256"
      by (metis diff_diff_eq minus_mod_self2)
    have small: "(p - low) mod 256 = p - low" if "low \<le> p" "p < low + 256"
      using that by simp
    show ?thesis
      unfolding eq in_bands_Cons ih m
      using less.prems(2) hi small by (cases "p < low + 256") auto
  qed
qed

lemma lane_of_port:
  fixes p :: int
  assumes "0 \<le> p" and "0 \<le> lane" and "lane < 8"
  shows "lane * 32 \<le> p \<and> (p - lane * 32) mod 256 < 32 \<longleftrightarrow> (p div 32) mod 8 = lane"
proof -
  define q j i where "q = p div 32 div 8" and "j = (p div 32) mod 8" and "i = p mod 32"
  have p: "p = 256 * q + 32 * j + i"
    using div_mult_mod_eq [of p 32] div_mult_mod_eq [of "p div 32" 8]
    unfolding q_def j_def i_def by linarith
  have b: "0 \<le> q" "0 \<le> j" "j < 8" "0 \<le> i" "i < 32"
    using assms(1) by (simp_all add: q_def j_def i_def pos_imp_zdiv_nonneg_iff)
  have "p - lane * 32 = 32 * (j - lane) + i + 256 * q" by (simp add: p)
  then have m: "(p - lane * 32) mod 256 = (32 * (j - lane) + i) mod 256" by (simp only: mod_mult_self2)
  consider "j = lane" | "lane < j" | "j < lane" by linarith
  then have "lane * 32 \<le> p \<and> (p - lane * 32) mod 256 < 32 \<longleftrightarrow> j = lane"
  proof cases
    case 3
    have "(32 * (j - lane) + i) mod 256 = (32 * (j - lane) + i + 256) mod 256" by simp
    also have "\<dots> = 32 * (j - lane) + i + 256"
      using 3 b assms by (intro mod_pos_pos_trivial) auto
    finally show ?thesis using 3 b assms m by auto
  qed (use b assms m p in auto)
  then show ?thesis by (simp add: j_def)
qed

lemma in_lane_bands:
  "in_bands p (lane_bands lane) \<longleftrightarrow>
     0 \<le> lane \<and> lane < 8 \<and> 1 \<le> p \<and> p \<le> 65535 \<and> (p div 32) mod 8 = lane"
proof (cases "0 \<le> lane \<and> lane < 8")
  case True
  moreover from this have "in_bands p (lane_bands lane) \<longleftrightarrow>
      1 \<le> p \<and> p \<le> 65535 \<and> lane * 32 \<le> p \<and> (p - lane * 32) mod 256 < 32"
    by (simp add: lane_bands_def in_port_bands)
  ultimately show ?thesis using True lane_of_port [of p lane] by auto
qed (auto simp: lane_bands_def)

text \<open>The eight lanes partition the source ports: every port from 1 to 65535 lies in a band
  of exactly one lane, and no lane has a band that holds port 0 or a port above 65535.\<close>
theorem lanes_partition_ports:
  "(1 \<le> p \<and> p \<le> 65535 \<longrightarrow> (\<exists>!lane. in_bands p (lane_bands lane))) \<and>
   (\<not> (1 \<le> p \<and> p \<le> 65535) \<longrightarrow> (\<forall>lane. \<not> in_bands p (lane_bands lane)))"
proof -
  have "0 \<le> (p div 32) mod 8 \<and> (p div 32) mod 8 < 8" by simp
  then show ?thesis by (auto simp: in_lane_bands)
qed

lemma lanes_partition_ports_witness:
  "(\<exists>!lane. in_bands 443 (lane_bands lane)) \<and> (\<forall>lane. \<not> in_bands 0 (lane_bands lane))"
  using lanes_partition_ports [of 443] lanes_partition_ports [of 0] by simp

section \<open>Leg health\<close>

record balanceLeg =
  bl_good :: nat
  bl_bad :: nat
  bl_slow :: nat
  bl_healthy :: bool

definition zero_leg :: balanceLeg where
  "zero_leg = \<lparr>bl_good = 0, bl_bad = 0, bl_slow = 0, bl_healthy = False\<rparr>"

definition leg_observe :: "balanceLeg \<Rightarrow> legMeasurement \<Rightarrow> balanceLeg" where
  "leg_observe l m =
     (if lm_err m \<noteq> None then
        (let l = l\<lparr>bl_bad := bl_bad l + 1, bl_good := 0, bl_slow := 0\<rparr> in
         if bl_bad l \<ge> legErrorThreshold then l\<lparr>bl_good := 0, bl_healthy := False\<rparr> else l)
      else let l = l\<lparr>bl_bad := 0\<rparr> in
        if lm_delay m > DialSlowMs * go_ms then
          (let l = (if bl_slow l < balanceSlowSamples then l\<lparr>bl_slow := bl_slow l + 1\<rparr> else l);
               l = l\<lparr>bl_good := 0\<rparr>
           in if bl_slow l \<ge> balanceSlowSamples then l\<lparr>bl_healthy := False\<rparr> else l)
        else
          (let l = l\<lparr>bl_slow := 0\<rparr>;
               l = (if bl_good l < balanceRecoverSamples then l\<lparr>bl_good := bl_good l + 1\<rparr> else l)
           in l\<lparr>bl_healthy := bl_healthy l \<or> bl_good l \<ge> balanceRecoverSamples\<rparr>))"

definition leg_run :: "balanceLeg \<Rightarrow> legMeasurement list \<Rightarrow> balanceLeg" where
  "leg_run l ms = foldl leg_observe l ms"

lemma leg_run_simps [simp]:
  "leg_run l [] = l"
  "leg_run l (m # ms) = leg_run (leg_observe l m) ms"
  "leg_run l (ms @ ns) = leg_run (leg_run l ms) ns"
  by (simp_all add: leg_run_def)

definition probe_failed :: "legMeasurement \<Rightarrow> bool" where "probe_failed m = (lm_err m \<noteq> None)"
definition probe_slow :: "legMeasurement \<Rightarrow> bool" where
  "probe_slow m = (lm_err m = None \<and> lm_delay m > DialSlowMs * go_ms)"
definition probe_clean :: "legMeasurement \<Rightarrow> bool" where
  "probe_clean m = (lm_err m = None \<and> lm_delay m \<le> DialSlowMs * go_ms)"

lemma leg_observe_failed: "probe_failed m \<Longrightarrow> leg_observe l m =
   l\<lparr>bl_bad := bl_bad l + 1, bl_good := 0, bl_slow := 0, bl_healthy := (bl_healthy l \<and> bl_bad l + 1 < 3)\<rparr>"
  by (cases l) (auto simp: leg_observe_def probe_failed_def Let_def)

lemma leg_observe_slow: "probe_slow m \<Longrightarrow> bl_slow l \<le> 3 \<Longrightarrow> leg_observe l m =
   l\<lparr>bl_bad := 0, bl_slow := min 3 (bl_slow l + 1), bl_good := 0,
     bl_healthy := (bl_healthy l \<and> bl_slow l + 1 < 3)\<rparr>"
  by (cases l) (auto simp: leg_observe_def probe_slow_def Let_def min_def)

lemma leg_observe_clean: "probe_clean m \<Longrightarrow> bl_good l \<le> 3 \<Longrightarrow> leg_observe l m =
   l\<lparr>bl_bad := 0, bl_slow := 0, bl_good := min 3 (bl_good l + 1),
     bl_healthy := (bl_healthy l \<or> bl_good l + 1 \<ge> 3)\<rparr>"
  by (cases l) (auto simp: leg_observe_def probe_clean_def Let_def min_def)

lemma probe_kinds: "probe_failed m \<or> probe_slow m \<or> probe_clean m"
  by (auto simp: probe_failed_def probe_slow_def probe_clean_def)

definition leg_inv :: "balanceLeg \<Rightarrow> bool" where
  "leg_inv l = (bl_good l \<le> 3 \<and> bl_slow l \<le> 3 \<and> (bl_healthy l \<longrightarrow> bl_bad l < 3 \<and> bl_slow l < 3) \<and>
     (bl_good l = 3 \<longrightarrow> bl_healthy l))"

lemma leg_observe_inv: "leg_inv l \<Longrightarrow> leg_inv (leg_observe l m)"
  using probe_kinds [of m]
  by (auto simp: leg_inv_def leg_observe_failed leg_observe_slow leg_observe_clean min_def split: if_splits)

lemma leg_run_inv: "leg_inv l \<Longrightarrow> leg_inv (leg_run l ms)"
  by (induction ms arbitrary: l) (simp_all add: leg_observe_inv)

lemma leg_inv_zero: "leg_inv zero_leg"
  by (simp add: leg_inv_def zero_leg_def)

text \<open>What the last k probes were, read off the counters.\<close>

lemma leg_run_failed:
  "(\<forall>m \<in> set ms. probe_failed m) \<Longrightarrow> bl_bad (leg_run l ms) = bl_bad l + length ms \<and>
     bl_healthy (leg_run l ms) = (bl_healthy l \<and> (ms = [] \<or> bl_bad l + length ms < 3))"
  by (induction ms arbitrary: l) (auto simp: leg_observe_failed)

lemma leg_run_clean:
  "(\<forall>m \<in> set ms. probe_clean m) \<Longrightarrow> bl_good l \<le> 3 \<Longrightarrow>
     bl_good (leg_run l ms) = min 3 (bl_good l + length ms) \<and>
     bl_healthy (leg_run l ms) = (bl_healthy l \<or> (ms \<noteq> [] \<and> bl_good l + length ms \<ge> 3))"
  by (induction ms arbitrary: l) (auto simp: leg_observe_clean)

lemma leg_run_slow:
  "(\<forall>m \<in> set ms. probe_slow m) \<Longrightarrow> bl_slow l \<le> 3 \<Longrightarrow>
     bl_slow (leg_run l ms) = min 3 (bl_slow l + length ms) \<and>
     bl_healthy (leg_run l ms) = (bl_healthy l \<and> (ms = [] \<or> bl_slow l + length ms < 3))"
  by (induction ms arbitrary: l) (auto simp: leg_observe_slow)

text \<open>Withdrawal takes three. From any history, three failed probes in a row leave the leg
  unhealthy, and so do three slow ones; but a healthy leg whose last probe was clean survives up
  to two of either.\<close>
theorem leg_withdrawal_takes_three:
  assumes "length ms = 3" and "length ns < 3" and "probe_clean c"
  shows "((\<forall>m \<in> set ms. probe_failed m) \<longrightarrow> \<not> bl_healthy (leg_run zero_leg (hist @ ms))) \<and>
    ((\<forall>m \<in> set ms. probe_slow m) \<longrightarrow> \<not> bl_healthy (leg_run zero_leg (hist @ ms))) \<and>
    ((\<forall>n \<in> set ns. probe_failed n) \<or> (\<forall>n \<in> set ns. probe_slow n) \<longrightarrow>
       bl_healthy (leg_run zero_leg (hist @ [c])) \<longrightarrow> bl_healthy (leg_run zero_leg (hist @ c # ns)))"
proof -
  let ?l = "leg_run zero_leg hist"
  have inv: "leg_inv ?l" by (rule leg_run_inv [OF leg_inv_zero])
  then have b: "bl_slow ?l \<le> 3" "bl_good ?l \<le> 3" by (simp_all add: leg_inv_def)
  let ?c = "leg_observe ?l c"
  have c: "bl_bad ?c = 0" "bl_slow ?c = 0" using assms(3) b by (simp_all add: leg_observe_clean)
  have "\<not> bl_healthy (leg_run ?l ms)" if "\<forall>m \<in> set ms. probe_failed m"
    using leg_run_failed [OF that, of ?l] assms(1) by auto
  moreover have "\<not> bl_healthy (leg_run ?l ms)" if "\<forall>m \<in> set ms. probe_slow m"
    using leg_run_slow [OF that b(1)] assms(1) by auto
  moreover have "bl_healthy (leg_run ?c ns)"
    if "(\<forall>n \<in> set ns. probe_failed n) \<or> (\<forall>n \<in> set ns. probe_slow n)" "bl_healthy ?c"
    using that leg_run_failed [of ns ?c] leg_run_slow [of ns ?c] assms(2) c by auto
  ultimately show ?thesis by simp
qed

lemma leg_withdrawal_takes_three_witness:
  "bl_healthy (leg_run zero_leg
     (replicate 3 \<lparr>lm_delay = 5, lm_err = None\<rparr> @ \<lparr>lm_delay = 5, lm_err = None\<rparr>
        # replicate 2 \<lparr>lm_delay = 0, lm_err = Some ''x''\<rparr>))"
proof -
  have "bl_healthy (leg_run zero_leg (replicate 3 \<lparr>lm_delay = 5, lm_err = None\<rparr> @ [\<lparr>lm_delay = 5, lm_err = None\<rparr>]))"
    by code_simp
  then show ?thesis
    using leg_withdrawal_takes_three [of "replicate 3 \<lparr>lm_delay = 0, lm_err = None\<rparr>"
      "replicate 2 \<lparr>lm_delay = 0, lm_err = Some ''x''\<rparr>" "\<lparr>lm_delay = 5, lm_err = None\<rparr>"
      "replicate 3 \<lparr>lm_delay = 5, lm_err = None\<rparr>"]
    by (simp add: probe_clean_def probe_failed_def)
qed

text \<open>The good counter is the length of a clean streak at the end of the history.\<close>

lemma clean_streak:
  "\<exists>pre cs. xs = pre @ cs \<and> length cs = bl_good (leg_run zero_leg xs) \<and> (\<forall>m \<in> set cs. probe_clean m)"
proof (induction xs rule: rev_induct)
  case Nil
  show ?case by (simp add: zero_leg_def)
next
  case (snoc x xs)
  let ?l = "leg_run zero_leg xs"
  have b: "bl_slow ?l \<le> 3" "bl_good ?l \<le> 3"
    using leg_run_inv [OF leg_inv_zero, of xs] by (simp_all add: leg_inv_def)
  obtain pre cs where pc: "xs = pre @ cs" "length cs = bl_good ?l" "\<forall>m \<in> set cs. probe_clean m"
    using snoc by auto
  consider "\<not> probe_clean x" | "probe_clean x" "bl_good ?l < 3" | c0 cs' where "probe_clean x" "bl_good ?l = 3" "cs = c0 # cs'"
    using b pc(2) by (cases cs) force+
  then show ?case
  proof cases
    case 1
    then have "bl_good (leg_observe ?l x) = 0"
      using probe_kinds [of x] b by (auto simp: leg_observe_failed leg_observe_slow)
    then show ?thesis by (intro exI [of _ "xs @ [x]"] exI [of _ "[]"]) simp
  next
    case 2
    then have "bl_good (leg_observe ?l x) = Suc (bl_good ?l)" by (simp add: leg_observe_clean)
    with 2 pc show ?thesis by (intro exI [of _ pre] exI [of _ "cs @ [x]"]) auto
  next
    case 3
    then have "bl_good (leg_observe ?l x) = 3" by (simp add: leg_observe_clean)
    with 3 pc show ?thesis by (intro exI [of _ "pre @ [c0]"] exI [of _ "cs' @ [x]"]) auto
  qed
qed

lemma leg_turns_healthy:
  assumes "\<not> bl_healthy (leg_run zero_leg xs)" and "bl_healthy (leg_run zero_leg (xs @ [x]))"
  shows "bl_good (leg_run zero_leg (xs @ [x])) = 3"
  using assms leg_run_inv [OF leg_inv_zero, of xs] probe_kinds [of x]
  by (auto simp: leg_inv_def leg_observe_failed leg_observe_slow leg_observe_clean)

text \<open>Recovery takes three in a row. If a leg is unhealthy after some history and one more
  probe makes it healthy, the last three probes were all clean.\<close>
theorem leg_recovery_takes_three:
  assumes "\<not> bl_healthy (leg_run zero_leg hist)" and "bl_healthy (leg_run zero_leg (hist @ [m]))"
  shows "\<exists>pre cs. hist @ [m] = pre @ cs \<and> length cs = 3 \<and> (\<forall>c \<in> set cs. probe_clean c)"
  using clean_streak [of "hist @ [m]"] leg_turns_healthy [OF assms] by simp

lemma leg_recovery_takes_three_witness:
  "\<exists>pre cs. replicate 3 \<lparr>lm_delay = 7, lm_err = None\<rparr> = pre @ cs \<and> length cs = 3 \<and> (\<forall>c \<in> set cs. probe_clean c)"
proof -
  let ?c = "\<lparr>lm_delay = 7, lm_err = None\<rparr>"
  have "\<not> bl_healthy (leg_run zero_leg [?c, ?c])" by code_simp
  moreover have "bl_healthy (leg_run zero_leg ([?c, ?c] @ [?c]))" by code_simp
  ultimately have "\<exists>pre cs. [?c, ?c] @ [?c] = pre @ cs \<and> length cs = 3 \<and> (\<forall>c \<in> set cs. probe_clean c)"
    by (rule leg_recovery_takes_three)
  then show ?thesis by (simp add: numeral_3_eq_3)
qed

end
