(* ===== verification/Pressure.thy ===== *)
theory Pressure
  imports Balance
begin

text \<open>
  core/udp_pressure.go and balancePolicy of core/balance_policy.go: the cap on the hysteria2
  rung after local UDP write refusals, and the lane decision of one dual-routing beat.
\<close>

abbreviation (input) udpPressureFresh :: go_duration where "udpPressureFresh \<equiv> go_minute"
abbreviation (input) udpPressureDropEvery :: go_duration where "udpPressureDropEvery \<equiv> go_minute"
abbreviation (input) udpPressureCooldown :: go_duration where "udpPressureCooldown \<equiv> 30 * go_second"
abbreviation (input) udpPressureRecover :: go_duration where "udpPressureRecover \<equiv> 15 * go_minute"

section \<open>The pressure cap\<close>

record udpPressure =
  up_sequence :: "64 word"
  capDown :: int
  lastDrop :: go_time
  coolUntil :: go_time
  cleanSince :: go_time

definition zero_pressure :: udpPressure where
  "zero_pressure = \<lparr>up_sequence = 0, capDown = 0, lastDrop = 0, coolUntil = 0, cleanSince = 0\<rparr>"

definition cooling :: "udpPressure \<Rightarrow> go_time \<Rightarrow> bool" where
  "cooling p now = (now < coolUntil p)"

definition pressure_fresh :: "udpPressure \<Rightarrow> floodSnapshot \<Rightarrow> go_time \<Rightarrow> bool" where
  "pressure_fresh p event now =
     (snap_sequence event \<noteq> up_sequence p \<and> snap_last event \<noteq> 0 \<and>
      \<not> now < snap_last event \<and> time_sub now (snap_last event) \<le> udpPressureFresh)"

text \<open>The three stages of target: the descent on fresh evidence, the bookkeeping of clean time,
  and the climb after a clean quarter of an hour.\<close>

definition pressure_drop ::
  "udpPressure \<Rightarrow> floodSnapshot \<Rightarrow> go_time \<Rightarrow> int \<Rightarrow> int \<Rightarrow> BandwidthSchedule \<Rightarrow> udpPressure" where
  "pressure_drop p event now live desired s =
     (let fresh = pressure_fresh p event now;
          p = p\<lparr>up_sequence := snap_sequence event\<rparr>
      in if fresh then
           (let p = p\<lparr>coolUntil := now + udpPressureCooldown, cleanSince := now\<rparr> in
            if lastDrop p = 0 \<or> time_sub now (lastDrop p) \<ge> udpPressureDropEvery then
              (let base = desired;
                   base = (if HasRung s live then min base live else base);
                   base = (if capDown p > 0 then min base (capDown p) else base)
               in p\<lparr>capDown := StepDown s base 1, lastDrop := now\<rparr>)
            else p)
         else p)"

definition pressure_clean :: "udpPressure \<Rightarrow> go_time \<Rightarrow> bool \<Rightarrow> udpPressure" where
  "pressure_clean p now healthy =
     (if \<not> healthy then p\<lparr>cleanSince := 0\<rparr>
      else if cleanSince p = 0 then p\<lparr>cleanSince := now\<rparr> else p)"

definition pressure_climb :: "udpPressure \<Rightarrow> go_time \<Rightarrow> int \<Rightarrow> BandwidthSchedule \<Rightarrow> bool \<Rightarrow> udpPressure" where
  "pressure_climb p now desired s healthy =
     (if capDown p > 0 \<and> healthy \<and> \<not> cooling p now \<and> time_sub now (cleanSince p) \<ge> udpPressureRecover then
        (let p = (if capDown p \<ge> desired then p\<lparr>capDown := 0\<rparr>
                  else case find (\<lambda>rung. rung > capDown p) (Rungs s) of
                      Some rung \<Rightarrow> p\<lparr>capDown := min rung desired\<rparr> | None \<Rightarrow> p)
         in p\<lparr>cleanSince := now\<rparr>)
      else p)"

definition pressure_target ::
  "udpPressure \<Rightarrow> floodSnapshot \<Rightarrow> go_time \<Rightarrow> int \<Rightarrow> int \<Rightarrow> BandwidthSchedule \<Rightarrow> bool \<Rightarrow> int \<times> udpPressure" where
  "pressure_target p event now live desired s healthy =
     (let p = pressure_climb (pressure_clean (pressure_drop p event now live desired s) now healthy)
                now desired s healthy
      in (if capDown p > 0 then min desired (capDown p) else desired, p))"

subsection \<open>Lemmas\<close>

definition cap_on_ladder :: "udpPressure \<Rightarrow> BandwidthSchedule \<Rightarrow> bool" where
  "cap_on_ladder p s = (capDown p = 0 \<or> HasRung s (capDown p))"

lemma StepDown_HasRung: "HasRung s d \<Longrightarrow> HasRung s (StepDown s e k)"
proof -
  assume "HasRung s d"
  then have "Rungs s \<noteq> []" by (auto simp: HasRung_iff)
  then show ?thesis by (simp add: HasRung_iff StepDown_mem)
qed

lemma HasRung_min: "HasRung s a \<Longrightarrow> HasRung s b \<Longrightarrow> HasRung s (min a b)"
  by (simp add: min_def)

lemma pressure_drop_cap:
  "capDown (pressure_drop p event now live desired s) =
     (if pressure_fresh p event now \<and> (lastDrop p = 0 \<or> time_sub now (lastDrop p) \<ge> udpPressureDropEvery)
      then StepDown s (let b = (if HasRung s live then min desired live else desired)
                       in if capDown p > 0 then min b (capDown p) else b) 1
      else capDown p)"
  by (simp add: pressure_drop_def Let_def)

lemma pressure_clean_cap [simp]: "capDown (pressure_clean p now healthy) = capDown p"
  by (simp add: pressure_clean_def)

lemma pressure_drop_ladder:
  "HasRung s desired \<Longrightarrow> cap_on_ladder p s \<Longrightarrow> cap_on_ladder (pressure_drop p event now live desired s) s"
  by (auto simp: cap_on_ladder_def pressure_drop_cap intro: StepDown_HasRung)

lemma pressure_climb_ladder:
  "HasRung s desired \<Longrightarrow> cap_on_ladder p s \<Longrightarrow> cap_on_ladder (pressure_climb p now desired s healthy) s"
  by (auto simp: cap_on_ladder_def pressure_climb_def Let_def HasRung_iff min_def
      split: option.splits dest: find_someD)

text \<open>The pressure guard only ever names outbounds the config has. If the desired ceiling is
  a rung and the cap so far was one (or none), then the ceiling it returns is a rung at or below
  the desired one, and the new cap is again a rung or none, whatever the evidence.\<close>
theorem pressure_target_is_rung:
  assumes "HasRung s desired" and "cap_on_ladder p s"
    and "pressure_target p event now live desired s healthy = (guarded, p')"
  shows "HasRung s guarded \<and> guarded \<le> desired \<and> cap_on_ladder p' s"
proof -
  let ?q = "pressure_climb (pressure_clean (pressure_drop p event now live desired s) now healthy) now desired s healthy"
  have "cap_on_ladder (pressure_clean (pressure_drop p event now live desired s) now healthy) s"
    using pressure_drop_ladder [OF assms(1,2)] by (simp add: cap_on_ladder_def)
  then have "cap_on_ladder ?q s" by (rule pressure_climb_ladder [OF assms(1)])
  then show ?thesis using assms
    by (auto simp: pressure_target_def Let_def cap_on_ladder_def HasRung_min)
qed

definition sample_schedule :: BandwidthSchedule where
  "sample_schedule = \<lparr>OffUp = 5, OffDown = 20, PeakUp = 2, PeakDown = 5, StartHour = 12, EndHour = 2\<rparr>"

lemma Rungs_sample: "Rungs sample_schedule = [1, 2, 3, 5, 8, 12, 20]"
  by code_simp

lemma pressure_target_is_rung_witness:
  "HasRung sample_schedule (fst (pressure_target zero_pressure
     \<lparr>snap_sequence = 1, snap_last = 1000\<rparr> 2000 20 20 sample_schedule True))"
proof -
  have "HasRung sample_schedule 20" by code_simp
  then show ?thesis
    using pressure_target_is_rung [of sample_schedule 20 zero_pressure "\<lparr>snap_sequence = 1, snap_last = 1000\<rparr>" 2000 20 True]
    by (metis cap_on_ladder_def prod.collapse udpPressure.select_convs(2) zero_pressure_def)
qed

text \<open>A beat at which no climb is due: the cap after it is what the drop left.\<close>

lemma pressure_cap_after:
  "snd (pressure_target p event now live desired s healthy) =
     pressure_climb (pressure_clean (pressure_drop p event now live desired s) now healthy) now desired s healthy"
  by (simp add: pressure_target_def Let_def)

lemma pressure_fresh_no_climb:
  assumes "pressure_fresh p event now"
  shows "pressure_climb (pressure_clean (pressure_drop p event now live desired s) now healthy) now desired s healthy
    = pressure_clean (pressure_drop p event now live desired s) now healthy"
proof -
  have "coolUntil (pressure_clean (pressure_drop p event now live desired s) now healthy) = now + udpPressureCooldown"
    using assms by (auto simp: pressure_clean_def pressure_drop_def Let_def)
  then show ?thesis by (simp add: pressure_climb_def cooling_def)
qed

text \<open>Descents are rate-limited. If a beat descends with fresh evidence and the next beat
  comes less than a minute later, then the next beat cannot lower the cap again, whatever new
  evidence it sees.\<close>
theorem pressure_drops_once_a_minute:
  assumes "pressure_fresh p e1 t1" and "lastDrop p = 0 \<or> time_sub t1 (lastDrop p) \<ge> udpPressureDropEvery"
    and "t1 \<noteq> 0" and "t1 \<le> t2" and "t2 - t1 < udpPressureDropEvery" and "0 < desired"
    and "p1 = snd (pressure_target p e1 t1 live1 desired s healthy1)" and "HasRung s desired"
  shows "0 < capDown p1 \<and> (capDown (snd (pressure_target p1 e2 t2 live2 desired s healthy2)) \<ge> capDown p1 \<or>
    capDown (snd (pressure_target p1 e2 t2 live2 desired s healthy2)) = 0)"
proof -
  have p1: "p1 = pressure_clean (pressure_drop p e1 t1 live1 desired s) t1 healthy1"
    using assms(1,7) by (simp add: pressure_cap_after pressure_fresh_no_climb)
  have last: "lastDrop p1 = t1"
    using assms(1,2) by (auto simp: p1 pressure_clean_def pressure_drop_def Let_def)
  have cap: "0 < capDown p1"
    using assms(1,2,8) by (simp add: p1 pressure_drop_cap HasRung_pos [OF StepDown_HasRung])
  have "\<not> (lastDrop p1 = 0 \<or> time_sub t2 (lastDrop p1) \<ge> udpPressureDropEvery)"
    using assms(3,5) by (simp add: last time_sub_greater_eq)
  then have "capDown (pressure_clean (pressure_drop p1 e2 t2 live2 desired s) t2 healthy2) = capDown p1"
    by (simp add: pressure_drop_cap)
  then show ?thesis
    using cap by (auto simp: pressure_cap_after pressure_climb_def Let_def min_def
        split: option.splits dest: find_someD)
qed

lemma pressure_drops_once_a_minute_witness:
  "0 < capDown (snd (pressure_target zero_pressure \<lparr>snap_sequence = 1, snap_last = 5\<rparr> 7 20 20 sample_schedule True))"
proof -
  have "HasRung sample_schedule 20" by code_simp
  moreover have "pressure_fresh zero_pressure \<lparr>snap_sequence = 1, snap_last = 5\<rparr> 7"
    by (simp add: pressure_fresh_def zero_pressure_def time_sub_def)
  ultimately show ?thesis
    using pressure_drops_once_a_minute
      [of zero_pressure "\<lparr>snap_sequence = 1, snap_last = 5\<rparr>" 7 9 20 _ 20 sample_schedule True "\<lparr>snap_sequence = 2, snap_last = 8\<rparr>" 20 True]
    by (simp add: zero_pressure_def)
qed

text \<open>Without fresh evidence the guard never lowers the cap, and it raises it only after
  fifteen minutes of clean time, by one rung or back to no cap at all.\<close>
theorem pressure_climb_needs_clean_time:
  assumes "\<not> pressure_fresh p event now" and "capDown p > 0"
    and "p' = snd (pressure_target p event now live desired s healthy)" and "capDown p' \<noteq> capDown p"
  shows "healthy \<and> cleanSince p \<noteq> 0 \<and> now - cleanSince p \<ge> udpPressureRecover \<and> \<not> cooling p now \<and>
    (capDown p' = 0 \<and> desired \<le> capDown p \<or>
     capDown p < capDown p' \<and> capDown p' \<le> desired)"
proof -
  let ?d = "p\<lparr>up_sequence := snap_sequence event\<rparr>"
  have d: "pressure_drop p event now live desired s = ?d"
    using assms(1) by (simp add: pressure_drop_def Let_def)
  have p': "p' = pressure_climb (pressure_clean ?d now healthy) now desired s healthy"
    using assms(3) by (simp add: pressure_cap_after d)
  have climb: "healthy" "\<not> cooling p now" "time_sub now (cleanSince (pressure_clean ?d now healthy)) \<ge> udpPressureRecover"
    using assms(4) by (auto simp: p' pressure_climb_def cooling_def pressure_clean_def split: if_splits)
  have since: "cleanSince p \<noteq> 0 \<and> now - cleanSince p \<ge> udpPressureRecover"
    using climb by (auto simp: pressure_clean_def time_sub_greater_eq split: if_splits)
  have "capDown p' = 0 \<and> desired \<le> capDown p \<or> capDown p < capDown p' \<and> capDown p' \<le> desired"
    using assms(2,4) by (auto simp: p' pressure_climb_def Let_def min_def
        split: if_splits option.splits dest!: find_someD)
  with climb since show ?thesis by simp
qed

lemma pressure_climb_needs_clean_time_witness:
  "capDown (snd (pressure_target (zero_pressure\<lparr>capDown := 8, cleanSince := 10\<rparr>) \<lparr>snap_sequence = 0, snap_last = 0\<rparr>
     (10 + 15 * go_minute) 8 20 sample_schedule True)) = 12 \<and> (8::int) < 12"
proof -
  let ?p = "zero_pressure\<lparr>capDown := 8, cleanSince := 10\<rparr>" and ?e = "\<lparr>snap_sequence = 0, snap_last = 0\<rparr>"
  have c: "capDown (snd (pressure_target ?p ?e (10 + 15 * go_minute) 8 20 sample_schedule True)) = 12"
    by code_simp
  have "\<not> pressure_fresh ?p ?e (10 + 15 * go_minute)" by (simp add: pressure_fresh_def zero_pressure_def)
  with c show ?thesis
    using pressure_climb_needs_clean_time [of ?p ?e "10 + 15 * go_minute" _ 8 20 sample_schedule True]
    by (simp add: zero_pressure_def)
qed

section \<open>The lane decision\<close>

record balancePolicy =
  bp_reality :: balanceLeg
  bp_hy2 :: balanceLeg
  bp_hy2Lanes :: int
  bp_pressure :: udpPressure

definition zero_policy :: balancePolicy where
  "zero_policy = \<lparr>bp_reality = zero_leg, bp_hy2 = zero_leg, bp_hy2Lanes = 0, bp_pressure = zero_pressure\<rparr>"

definition setLanes :: "balancePolicy \<Rightarrow> int \<Rightarrow> balancePolicy" where
  "setLanes p n = p\<lparr>bp_hy2Lanes := n\<rparr>"

definition policy_observe :: "balancePolicy \<Rightarrow> legMeasurement \<Rightarrow> legMeasurement \<Rightarrow> balancePolicy" where
  "policy_observe p reality hy2 =
     (let p = p\<lparr>bp_reality := leg_observe (bp_reality p) reality\<rparr>;
          p = p\<lparr>bp_hy2 := leg_observe (bp_hy2 p) hy2\<rparr>
      in if \<not> bl_healthy (bp_hy2 p) then setLanes p 0
         else if \<not> bl_healthy (bp_reality p) then setLanes p BalanceLanes
         else setLanes p DefaultHy2Lanes)"

text \<open>After every beat the lane split follows the two health verdicts alone: no UDP lanes
  while the UDP leg is unhealthy (also when both are), all eight when only REALITY is unhealthy,
  two when both are healthy. So an unhealthy leg gets new connections only if both are down.\<close>
theorem lanes_follow_health:
  "bp_hy2Lanes (policy_observe p reality hy2) =
     (if bl_healthy (leg_observe (bp_hy2 p) hy2)
      then (if bl_healthy (leg_observe (bp_reality p) reality) then 2 else 8) else 0)"
  by (simp add: policy_observe_def setLanes_def Let_def)

end
