(* ===== verification/Effects.thy ===== *)
theory Effects
  imports Mole_Prelude "HOL-Library.State_Monad"
begin

text \<open>
  Effects shared by the client of the control API and the supervisor's handlers: reading and
  updating the threaded state, a guarded action, and rules for what an action leaves unchanged.
  A Go statement sequence is a do block of the library's state monad; an early return is the
  other branch of an if.
\<close>

named_theorems mole_frame \<open>what an action preserves\<close>

definition gets :: "('s \<Rightarrow> 'a) \<Rightarrow> ('s, 'a) state" where
  "gets f = State (\<lambda>s. (f s, s))"

definition modify :: "('s \<Rightarrow> 's) \<Rightarrow> ('s, unit) state" where
  "modify g = State (\<lambda>s. ((), g s))"

definition stop :: "('s, unit) state" where
  "stop = State_Monad.return ()"

definition only_if :: "bool \<Rightarrow> ('s, unit) state \<Rightarrow> ('s, unit) state" where
  "only_if b m = (if b then m else stop)"

lemma run_gets [simp]: "run_state (gets f) s = (f s, s)"
  by (simp add: gets_def)

lemma run_modify [simp]: "run_state (modify g) s = ((), g s)"
  by (simp add: modify_def)

lemma run_stop [simp]: "run_state stop s = ((), s)"
  by (simp add: stop_def)

lemma run_only_if [simp]: "run_state (only_if b m) s = (if b then run_state m s else ((), s))"
  by (simp add: only_if_def)

text \<open>The state an action ends in, and its result.\<close>

definition exec :: "('s, 'a) state \<Rightarrow> 's \<Rightarrow> 's" where
  "exec m s = snd (run_state m s)"

definition result_of :: "('s, 'a) state \<Rightarrow> 's \<Rightarrow> 'a" where
  "result_of m s = fst (run_state m s)"

lemma run_state_pair: "run_state m s = (result_of m s, exec m s)"
  by (simp add: exec_def result_of_def)

lemma exec_pure [simp]:
  "exec (gets f) s = s"
  "exec (modify g) s = g s"
  "exec stop s = s"
  "exec (State_Monad.return x) s = s"
  "exec (only_if b m) s = (if b then exec m s else s)"
  by (simp_all add: exec_def)

lemma exec_bind [simp]: "exec (m \<bind> h) s = exec (h (result_of m s)) (exec m s)"
  by (simp add: exec_def result_of_def case_prod_beta)

lemma exec_if [simp]: "exec (if c then m else m') s = (if c then exec m s else exec m' s)"
  by simp

lemma result_of_pure [simp]:
  "result_of (gets f) s = f s"
  "result_of (State_Monad.return x) s = x"
  by (simp_all add: result_of_def)

lemma result_of_bind [simp]: "result_of (m \<bind> h) s = result_of (h (result_of m s)) (exec m s)"
  by (simp add: exec_def result_of_def case_prod_beta)

lemma result_of_if [simp]: "result_of (if c then m else m') s = (if c then result_of m s else result_of m' s)"
  by simp

text \<open>
  An action keeps a condition when it holds afterwards if it held before. The rules follow the
  shape of an action, so that a handler keeps what each of its calls keeps.
\<close>

definition keeps :: "('s \<Rightarrow> bool) \<Rightarrow> ('s, 'a) state \<Rightarrow> bool" where
  "keeps I m = (\<forall>s. I s \<longrightarrow> I (exec m s))"

lemma keepsI: "(\<And>s. I s \<Longrightarrow> I (exec m s)) \<Longrightarrow> keeps I m"
  by (simp add: keeps_def)

lemma keepsD: "keeps I m \<Longrightarrow> I s \<Longrightarrow> I (exec m s)"
  by (simp add: keeps_def)

lemma keeps_bind [mole_frame]: "keeps I m \<Longrightarrow> (\<And>a. keeps I (h a)) \<Longrightarrow> keeps I (m \<bind> h)"
  by (simp add: keeps_def)

lemma keeps_pure [mole_frame]:
  "keeps I (gets f)" "keeps I stop" "keeps I (State_Monad.return x)"
  by (simp_all add: keeps_def)

lemma keeps_only_if [mole_frame]: "(b \<Longrightarrow> keeps I m) \<Longrightarrow> keeps I (only_if b m)"
  by (simp add: keeps_def)

lemma keeps_if [mole_frame]:
  "(b \<Longrightarrow> keeps I m) \<Longrightarrow> (\<not> b \<Longrightarrow> keeps I m') \<Longrightarrow> keeps I (if b then m else m')"
  by simp

lemma keeps_prod [mole_frame]: "(\<And>a b. p = (a, b) \<Longrightarrow> keeps I (h a b)) \<Longrightarrow> keeps I (case p of (a, b) \<Rightarrow> h a b)"
  by (cases p) simp

lemma keeps_let [mole_frame]: "(\<And>x. x = t \<Longrightarrow> keeps I (h x)) \<Longrightarrow> keeps I (let x = t in h x)"
  by simp

end
