(* ===== verification/Clash.thy ===== *)
theory Clash
  imports Effects Schedule Leg_Policy Balance
begin

text \<open>
  core/clash.go and core/balance_io.go: the client of sing-box's control API, and the writer of
  the eight lane selectors. The engine behind the API is not part of the repository: it is the
  argument that answers a request and may change the threaded state.

  A request is the operation its URL and method name, with the unescaped parameters. An answer
  is either no response (net/http's error text) or a response with its status, raw body and the
  JSON value of the body, if it is one. Error texts of encoding/json are not reproduced.
\<close>

section \<open>Requests, responses, JSON\<close>

datatype json = JNull | JBool bool | JNum int | JReal string | JText string | JList "json list"
  | JObj "(string \<times> json) list"

datatype clash_request =
    DelayRequest string string int
  | SelectRequest string string
  | VersionRequest
  | SelectionRequest string
  | ConnectionsRequest

record http_reply =
  StatusCode :: int
  StatusText :: string
  BodyText :: string
  BodyJson :: "json option"

datatype http_result = NoResponse string | Response http_reply

type_synonym 's clash_client = "clash_request \<Rightarrow> ('s, http_result) state"

text \<open>
  Decoding one field of an object into a Go value: names match without regard to case, a later
  occurrence overrides, null leaves the value alone, and a wrong type is an error.
\<close>

definition json_error :: string where "json_error = ''json: cannot decode''"

fun json_fields :: "(json \<Rightarrow> 'a option) \<Rightarrow> string \<Rightarrow> (string \<times> json) list \<Rightarrow> string + 'a \<Rightarrow> string + 'a" where
  "json_fields dec name [] acc = acc"
| "json_fields dec name ((k, v) # kvs) acc =
     json_fields dec name kvs
       (if to_lower k = to_lower name \<and> v \<noteq> JNull
        then (case dec v of None \<Rightarrow> Inl json_error
              | Some x \<Rightarrow> (case acc of Inl e \<Rightarrow> Inl e | Inr _ \<Rightarrow> Inr x))
        else acc)"

definition json_field :: "(json \<Rightarrow> 'a option) \<Rightarrow> 'a \<Rightarrow> string \<Rightarrow> json option \<Rightarrow> string + 'a" where
  "json_field dec zero name body =
     (case body of Some (JObj kvs) \<Rightarrow> json_fields dec name kvs (Inr zero)
      | Some JNull \<Rightarrow> Inr zero
      | _ \<Rightarrow> Inl json_error)"

fun json_int :: "json \<Rightarrow> int option" where
  "json_int (JNum i) = (if - (2 ^ 63) \<le> i \<and> i < 2 ^ 63 then Some i else None)"
| "json_int _ = None"

fun json_text :: "json \<Rightarrow> string option" where
  "json_text (JText t) = Some t"
| "json_text _ = None"

section \<open>The client\<close>

definition TestDelay :: "'s clash_client \<Rightarrow> string \<Rightarrow> string \<Rightarrow> int \<Rightarrow> ('s, int \<times> go_error) state" where
  "TestDelay c proxy testURL timeoutMs = do {
     res \<leftarrow> c (DelayRequest proxy testURL timeoutMs);
     State_Monad.return (case res of
       NoResponse e \<Rightarrow> (0, Some e)
     | Response r \<Rightarrow>
         if StatusCode r \<ge> 300
         then (0, Some (''delay probe '' @ proxy @ '': '' @ StatusText r @ '': '' @ BodyText r))
         else (case json_field json_int 0 ''delay'' (BodyJson r) of
                 Inl e \<Rightarrow> (0, Some e) | Inr d \<Rightarrow> (d, None)))
   }"

definition SelectProxy :: "'s clash_client \<Rightarrow> string \<Rightarrow> string \<Rightarrow> ('s, go_error) state" where
  "SelectProxy c selector member = do {
     res \<leftarrow> c (SelectRequest selector member);
     State_Monad.return (case res of
       NoResponse e \<Rightarrow> Some e
     | Response r \<Rightarrow>
         if StatusCode r \<ge> 300
         then Some (''select '' @ selector @ right_arrow @ member @ '': '' @ StatusText r @ '': '' @ BodyText r)
         else None)
   }"

definition Ping :: "'s clash_client \<Rightarrow> ('s, go_error) state" where
  "Ping c = do {
     res \<leftarrow> c VersionRequest;
     State_Monad.return (case res of
       NoResponse e \<Rightarrow> Some e
     | Response r \<Rightarrow> if StatusCode r \<ge> 300 then Some (''clash api: '' @ StatusText r) else None)
   }"

definition Selection :: "'s clash_client \<Rightarrow> string \<Rightarrow> ('s, string \<times> go_error) state" where
  "Selection c selector = do {
     res \<leftarrow> c (SelectionRequest selector);
     State_Monad.return (case res of
       NoResponse e \<Rightarrow> ([], Some e)
     | Response r \<Rightarrow>
         if StatusCode r \<ge> 300
         then ([], Some (''selection '' @ selector @ '': '' @ StatusText r @ '': '' @ BodyText r))
         else (case json_field json_text [] ''now'' (BodyJson r) of
                 Inl e \<Rightarrow> ([], Some e)
               | Inr now \<Rightarrow>
                   if now = [] then ([], Some (''selection '' @ selector @ '': no current member in response''))
                   else (now, None)))
   }"

record Connection =
  Chains :: "string list"
  Host :: string
  DestIP :: string

text \<open>The nested decode of one connection: missing fields are empty, a wrong type fails the whole list.\<close>

fun json_texts :: "json list \<Rightarrow> string list option" where
  "json_texts [] = Some []"
| "json_texts (JText t # js) = map_option (Cons t) (json_texts js)"
| "json_texts (JNull # js) = map_option (Cons []) (json_texts js)"
| "json_texts _ = None"

fun json_chains :: "json \<Rightarrow> string list option" where
  "json_chains (JList js) = json_texts js"
| "json_chains _ = None"

fun json_metadata :: "json \<Rightarrow> (string \<times> string) option" where
  "json_metadata (JObj kvs) =
     (case (json_fields json_text ''host'' kvs (Inr []), json_fields json_text ''destinationIP'' kvs (Inr [])) of
        (Inr h, Inr d) \<Rightarrow> Some (h, d) | _ \<Rightarrow> None)"
| "json_metadata _ = None"

fun json_connection :: "json \<Rightarrow> Connection option" where
  "json_connection (JObj kvs) =
     (case (json_fields json_chains ''chains'' kvs (Inr []), json_fields json_metadata ''metadata'' kvs (Inr ([], []))) of
        (Inr cs, Inr (h, d)) \<Rightarrow> Some \<lparr>Chains = cs, Host = h, DestIP = d\<rparr> | _ \<Rightarrow> None)"
| "json_connection JNull = Some \<lparr>Chains = [], Host = [], DestIP = []\<rparr>"
| "json_connection _ = None"

fun json_connections :: "json \<Rightarrow> Connection list option" where
  "json_connections (JList js) = those (map json_connection js)"
| "json_connections _ = None"

definition Connections :: "'s clash_client \<Rightarrow> ('s, Connection list \<times> go_error) state" where
  "Connections c = do {
     res \<leftarrow> c ConnectionsRequest;
     State_Monad.return (case res of
       NoResponse e \<Rightarrow> ([], Some e)
     | Response r \<Rightarrow>
         if StatusCode r \<ge> 300
         then ([], Some (''connections: '' @ StatusText r @ '': '' @ BodyText r))
         else (case json_field json_connections [] ''connections'' (BodyJson r) of
                 Inl e \<Rightarrow> ([], Some e) | Inr cs \<Rightarrow> (cs, None)))
   }"

end
