(* ===== verification/Lanes.thy ===== *)
theory Lanes
  imports Clash
begin

text \<open>
  core/balance_io.go: distributing new flows over the eight lane selectors, and the contract of
  the selectors that every writer of the control API relies on.
\<close>

definition Hy2ProbeSelectorTag :: string where "Hy2ProbeSelectorTag = ''probe-hy2''"

section \<open>The contract of a selector\<close>

text \<open>
  Interface: reading a selector changes none, an answered read tells the current member, a
  successful write sets exactly the named selector, and a failed one sets it or does nothing
  (the engine may have acted on a request whose answer was lost).
\<close>

locale selector_api =
  fixes lookup :: "string \<Rightarrow> ('s, string \<times> go_error) state"
    and assign :: "string \<Rightarrow> string \<Rightarrow> ('s, go_error) state"
    and member :: "'s \<Rightarrow> string \<Rightarrow> string"
  assumes read_keeps: "member (exec (lookup t) s) = member s"
    and read_tells: "result_of (lookup t) s = (m, None) \<Longrightarrow> member s t = m"
    and write_sets: "result_of (assign t m) s = None \<Longrightarrow> member (exec (assign t m) s) = (member s)(t := m)"
    and write_fails: "result_of (assign t m) s \<noteq> None \<Longrightarrow>
      member (exec (assign t m) s) = member s \<or> member (exec (assign t m) s) = (member s)(t := m)"
begin

lemma write_elsewhere: "u \<noteq> t \<Longrightarrow> member (exec (assign t m) s) u = member s u"
  using write_sets write_fails by (cases "result_of (assign t m) s") force+

lemma write_old_or_new: "member (exec (assign t m) s) t \<in> {member s t, m}"
  using write_sets write_fails by (cases "result_of (assign t m) s") force+

end

text \<open>
  The same contract one level down, on the engine's answers: what sing-box documents of GET and
  PUT on /proxies; a delay test moves no selector. The client of core/clash.go turns the second into the first.
\<close>

locale selector_engine =
  fixes c :: "'s clash_client"
    and member :: "'s \<Rightarrow> string \<Rightarrow> string"
  assumes get_keeps: "member (exec (c (SelectionRequest t)) s) = member s"
    and get_tells: "result_of (c (SelectionRequest t)) s = Response r \<Longrightarrow> StatusCode r < 300 \<Longrightarrow>
      json_field json_text [] ''now'' (BodyJson r) = Inr m \<Longrightarrow> m \<noteq> [] \<Longrightarrow> member s t = m"
    and put_sets: "result_of (c (SelectRequest t m)) s = Response r \<Longrightarrow> StatusCode r < 300 \<Longrightarrow>
      member (exec (c (SelectRequest t m)) s) = (member s)(t := m)"
    and delay_inert: "member (exec (c (DelayRequest p u ms)) s) = member s"
    and put_atomic: "member (exec (c (SelectRequest t m)) s) = member s \<or>
      member (exec (c (SelectRequest t m)) s) = (member s)(t := m)"

sublocale selector_engine \<subseteq> selector_api "Selection c" "SelectProxy c" member
proof unfold_locales
  show "member (exec (Selection c t) s) = member s" for t s
    by (simp add: Selection_def get_keeps)
  show "result_of (Selection c t) s = (m, None) \<Longrightarrow> member s t = m" for t s m
    using get_tells [of t s]
    by (auto simp: Selection_def split: http_result.splits if_splits sum.splits)
  show "result_of (SelectProxy c t m) s = None \<Longrightarrow> member (exec (SelectProxy c t m) s) = (member s)(t := m)"
    for t s m
    using put_sets [of t m s]
    by (auto simp: SelectProxy_def split: http_result.splits if_splits)
  show "member (exec (SelectProxy c t m) s) = member s \<or> member (exec (SelectProxy c t m) s) = (member s)(t := m)"
    for t s m
    using put_atomic [of t m s] by (simp add: SelectProxy_def)
qed

text \<open>An engine that is a table of selectors and answers every request.\<close>

definition ok_reply :: "json option \<Rightarrow> http_result" where
  "ok_reply body = Response \<lparr>StatusCode = 200, StatusText = ''200 OK'', BodyText = [], BodyJson = body\<rparr>"

fun table_engine :: "(string \<Rightarrow> string) clash_client" where
  "table_engine (SelectionRequest t) =
     State (\<lambda>tab. (ok_reply (Some (JObj [(''now'', JText (tab t))])), tab))"
| "table_engine (SelectRequest t m) = State (\<lambda>tab. (ok_reply None, tab(t := m)))"
| "table_engine (DelayRequest p u ms) = State (\<lambda>tab. (ok_reply (Some (JObj [(''delay'', JNum 42)])), tab))"
| "table_engine VersionRequest = State (\<lambda>tab. (ok_reply None, tab))"
| "table_engine ConnectionsRequest = State (\<lambda>tab. (ok_reply (Some (JObj [])), tab))"

interpretation table: selector_engine table_engine "\<lambda>tab. tab"
  by unfold_locales (auto simp: exec_def result_of_def ok_reply_def json_field_def split: if_splits)

section \<open>Writing the lanes\<close>

definition lane_target :: "int \<Rightarrow> int \<Rightarrow> string" where
  "lane_target hy2Lanes lane =
     (if hy2Lanes < 0 then ProxySelectorTag
      else if go_div ((lane + 1) * hy2Lanes) BalanceLanes > go_div (lane * hy2Lanes) BalanceLanes
      then Hy2ProbeSelectorTag
      else RealityLegTag)"

text \<open>The body of the loop over the remaining lanes; changed is what it has accumulated.\<close>

fun lanes_loop :: "'s clash_client \<Rightarrow> int \<Rightarrow> int list \<Rightarrow> bool \<Rightarrow> ('s, bool \<times> go_error) state" where
  "lanes_loop c hy2Lanes [] changed = State_Monad.return (changed, None)"
| "lanes_loop c hy2Lanes (lane # lanes) changed = do {
     let target = lane_target hy2Lanes lane;
     let tag = BalanceLaneTag lane;
     (live, err) \<leftarrow> Selection c tag;
     if err \<noteq> None then State_Monad.return (changed, err)
     else if live = target then lanes_loop c hy2Lanes lanes changed
     else do {
       err \<leftarrow> SelectProxy c tag target;
       if err \<noteq> None then State_Monad.return (changed, err)
       else lanes_loop c hy2Lanes lanes True
     }
   }"

definition ApplyBalancedLanes :: "'s clash_client \<Rightarrow> int \<Rightarrow> ('s, bool \<times> go_error) state" where
  "ApplyBalancedLanes c hy2Lanes =
     (if hy2Lanes < - 1 \<or> hy2Lanes > BalanceLanes
      then State_Monad.return (False, Some (''invalid UDP share '' @ itoa hy2Lanes))
      else lanes_loop c hy2Lanes [0..BalanceLanes - 1] False)"

section \<open>Lemmas\<close>

lemma BalanceLaneTag_eq: "0 \<le> i \<Longrightarrow> 0 \<le> j \<Longrightarrow> BalanceLaneTag i = BalanceLaneTag j \<longleftrightarrow> i = j"
  by (auto simp: BalanceLaneTag_def dest: itoa_inject)

context selector_engine
begin

text \<open>The selector contract under the client's own names, for the supervisor's handlers.\<close>

lemma select_sets:
  "result_of (SelectProxy c t m) s = None \<Longrightarrow> member (exec (SelectProxy c t m) s) = (member s)(t := m)"
  by (rule write_sets)

lemma select_old_or_new: "member (exec (SelectProxy c t m) s) t \<in> {member s t, m}"
  by (rule write_old_or_new)

lemma select_elsewhere: "u \<noteq> t \<Longrightarrow> member (exec (SelectProxy c t m) s) u = member s u"
  by (rule write_elsewhere)

lemma selection_keeps: "member (exec (Selection c t) s) = member s"
  by (rule read_keeps)

lemma delay_keeps: "member (exec (TestDelay c p u ms) s) = member s"
  by (simp add: TestDelay_def delay_inert)

lemma selection_tells: "result_of (Selection c t) s = (m, None) \<Longrightarrow> member s t = m"
  by (rule read_tells)

text \<open>Whatever the answers, a selector is left as it was or is a lane of the list put on its target.\<close>

lemma lanes_loop_frame:
  assumes "\<And>t. member s t = m0 t \<or> (\<exists>l \<in> L. t = BalanceLaneTag l \<and> member s t = lane_target n l)"
    and "set lanes \<subseteq> L"
  shows "member (exec (lanes_loop c n lanes ch) s) t = m0 t \<or>
    (\<exists>l \<in> L. t = BalanceLaneTag l \<and> member (exec (lanes_loop c n lanes ch) s) t = lane_target n l)"
  using assms
proof (induction lanes arbitrary: ch s)
  case (Cons l ls)
  obtain live err where rd: "result_of (Selection c (BalanceLaneTag l)) s = (live, err)"
    by (cases "result_of (Selection c (BalanceLaneTag l)) s") auto
  let ?s1 = "exec (Selection c (BalanceLaneTag l)) s"
  let ?s2 = "exec (SelectProxy c (BalanceLaneTag l) (lane_target n l)) ?s1"
  have s1: "member ?s1 t = m0 t \<or> (\<exists>l \<in> L. t = BalanceLaneTag l \<and> member ?s1 t = lane_target n l)" for t
    using Cons.prems(1) by (simp add: read_keeps)
  have s2: "member ?s2 t = m0 t \<or> (\<exists>l \<in> L. t = BalanceLaneTag l \<and> member ?s2 t = lane_target n l)" for t
  proof (cases "t = BalanceLaneTag l")
    case True
    then show ?thesis
      using write_old_or_new [of "BalanceLaneTag l" "lane_target n l" ?s1] s1 [of t] Cons.prems(2) by auto
  next
    case False
    then show ?thesis using s1 [of t] by (simp add: write_elsewhere)
  qed
  show ?case
    using Cons.IH [OF s1] Cons.IH [OF s2] Cons.prems(2) s1 [of t] s2 [of t] by (auto simp: rd Let_def)
qed simp

lemma lanes_loop_ok:
  assumes "distinct lanes" and "\<forall>l \<in> set lanes. 0 \<le> l"
    and "result_of (lanes_loop c n lanes ch) s = (ch', None)"
  shows "(\<forall>l \<in> set lanes. member (exec (lanes_loop c n lanes ch) s) (BalanceLaneTag l) = lane_target n l) \<and>
    (\<forall>t. t \<notin> BalanceLaneTag ` set lanes \<longrightarrow>
      member (exec (lanes_loop c n lanes ch) s) t = member s t) \<and>
    (ch' \<longleftrightarrow> ch \<or> (\<exists>l \<in> set lanes. member s (BalanceLaneTag l) \<noteq> lane_target n l))"
  using assms
proof (induction lanes arbitrary: ch s)
  case (Cons l ls)
  let ?tag = "BalanceLaneTag l" and ?tgt = "lane_target n l"
  obtain live err where rd: "result_of (Selection c ?tag) s = (live, err)"
    by (cases "result_of (Selection c ?tag) s") auto
  with Cons.prems(3) have err: "err = None" by (auto simp: Let_def split: if_splits)
  let ?s1 = "exec (Selection c ?tag) s"
  let ?s2 = "exec (SelectProxy c ?tag ?tgt) ?s1"
  have live: "member s ?tag = live" using read_tells rd err by blast
  have other: "?tag \<notin> BalanceLaneTag ` set ls"
    using Cons.prems by (auto simp: BalanceLaneTag_eq)
  have mem1: "member ?s1 = member s" by (rule read_keeps)
  show ?case
  proof (cases "live = ?tgt")
    case True
    then have run: "result_of (lanes_loop c n (l # ls) ch) s = result_of (lanes_loop c n ls ch) ?s1"
      "exec (lanes_loop c n (l # ls) ch) s = exec (lanes_loop c n ls ch) ?s1"
      by (simp_all add: rd err Let_def)
    show ?thesis
      using Cons.IH [of ch ?s1] Cons.prems other live True unfolding run mem1 by auto
  next
    case False
    have ok: "result_of (SelectProxy c ?tag ?tgt) ?s1 = None"
      using Cons.prems(3) False by (auto simp: rd err Let_def split: if_splits)
    then have run: "result_of (lanes_loop c n (l # ls) ch) s = result_of (lanes_loop c n ls True) ?s2"
      "exec (lanes_loop c n (l # ls) ch) s = exec (lanes_loop c n ls True) ?s2"
      using False by (simp_all add: rd err Let_def)
    have mem2: "member ?s2 = (member s)(?tag := ?tgt)"
      using write_sets [OF ok] by (simp add: mem1)
    show ?thesis
      using Cons.IH [of True ?s2] Cons.prems other live False unfolding run mem2 by auto
  qed
qed simp

end

lemma lane_range: "set [0..(7::int)] = {0..7}" by auto

lemma lane_shares:
  assumes "0 \<le> n" and "n \<le> 8"
  shows "length (filter (\<lambda>l. lane_target n l = Hy2ProbeSelectorTag) [0..7]) = nat n"
proof -
  have "n \<in> {0, 1, 2, 3, 4, 5, 6, 7, 8}" using assms by auto
  then show ?thesis
    by (elim insertE emptyE)
      (simp_all add: lane_target_def upto_rec1 RealityLegTag_def Hy2ProbeSelectorTag_def)
qed

lemma lane_target_auto:
  "0 \<le> n \<Longrightarrow> lane_target n l \<noteq> Hy2ProbeSelectorTag \<Longrightarrow> lane_target n l = RealityLegTag"
  by (simp add: lane_target_def split: if_splits)

section \<open>Properties\<close>

text \<open>Against an engine that keeps the documented contract of its selectors, writing the lanes
  without an error leaves exactly the asked number of the eight lanes on the hysteria2 selector
  and every other lane on REALITY, touches no other selector, and reports a change exactly when
  some lane was not where it belonged.\<close>
theorem lanes_written_as_allocated:
  assumes "selector_engine c member" and "0 \<le> n" and "n \<le> 8"
    and "result_of (ApplyBalancedLanes c n) s = (changed, None)"
  shows "length (filter (\<lambda>l. member (exec (ApplyBalancedLanes c n) s) (BalanceLaneTag l) = Hy2ProbeSelectorTag) [0..7])
      = nat n \<and>
    (\<forall>l \<in> {0..7}. member (exec (ApplyBalancedLanes c n) s) (BalanceLaneTag l) \<noteq> Hy2ProbeSelectorTag \<longrightarrow>
      member (exec (ApplyBalancedLanes c n) s) (BalanceLaneTag l) = RealityLegTag) \<and>
    (\<forall>t. t \<notin> BalanceLaneTag ` {0..7} \<longrightarrow> member (exec (ApplyBalancedLanes c n) s) t = member s t) \<and>
    (changed \<longleftrightarrow> (\<exists>l \<in> {0..7}. member s (BalanceLaneTag l) \<noteq> lane_target n l))"
proof -
  let ?s' = "exec (ApplyBalancedLanes c n) s"
  have loop: "ApplyBalancedLanes c n = lanes_loop c n [0..7] False"
    using assms by (simp add: ApplyBalancedLanes_def)
  note ok = selector_engine.lanes_loop_ok [OF assms(1), of "[0..7]" n False s changed]
  have tgt: "member ?s' (BalanceLaneTag l) = lane_target n l" if "l \<in> {0..7}" for l
    using ok assms that unfolding loop by simp
  then have "filter (\<lambda>l. member ?s' (BalanceLaneTag l) = Hy2ProbeSelectorTag) [0..7]
      = filter (\<lambda>l. lane_target n l = Hy2ProbeSelectorTag) [0..7]"
    by (intro filter_cong) auto
  with lane_shares assms tgt lane_target_auto show ?thesis
    using ok unfolding loop by (simp add: lane_range)
qed

theorem lanes_written_as_allocated_witness:
  "length (filter (\<lambda>l. exec (ApplyBalancedLanes table_engine 2) (\<lambda>_. RealityLegTag) (BalanceLaneTag l)
     = Hy2ProbeSelectorTag) [0..7]) = 2"
proof -
  obtain ch where "result_of (ApplyBalancedLanes table_engine 2) (\<lambda>_. RealityLegTag) = (ch, None)"
    by (simp add: ApplyBalancedLanes_def upto_rec1 Selection_def SelectProxy_def ok_reply_def
      json_field_def lane_target_def Let_def RealityLegTag_def Hy2ProbeSelectorTag_def to_lower_def
      lower_char_def result_of_def exec_def)
  then show ?thesis
    using lanes_written_as_allocated [OF table.selector_engine_axioms, of 2 "\<lambda>_. RealityLegTag" ch] by simp
qed

text \<open>Whatever the engine answers, and wherever the writing stops, every lane is either where it was
  or on its new target, and no other selector is touched; an invalid share sends nothing.\<close>
theorem lanes_never_half_written:
  assumes "selector_engine c member"
  shows "(member (exec (ApplyBalancedLanes c n) s) t = member s t \<or>
      (\<exists>l \<in> {0..7}. t = BalanceLaneTag l \<and> member (exec (ApplyBalancedLanes c n) s) t = lane_target n l)) \<and>
    (n < - 1 \<or> n > 8 \<longrightarrow> exec (ApplyBalancedLanes c n) s = s)"
  using selector_engine.lanes_loop_frame [OF assms, of s "member s" "{0..7}" n "[0..7]" False t]
  by (auto simp: ApplyBalancedLanes_def)

theorem lanes_never_half_written_witness:
  "exec (ApplyBalancedLanes table_engine 9) (\<lambda>_. RealityLegTag) = (\<lambda>_. RealityLegTag)"
  using lanes_never_half_written [OF table.selector_engine_axioms, of 9 "\<lambda>_. RealityLegTag"] by simp

end
