(* ===== verification/Supervisor.thy ===== *)
theory Supervisor
  imports Lanes Pressure Heal
begin

text \<open>
  core/supervisor.go, core/monitor.go and the supervisor's methods of core/legmeasure.go and
  core/linkprobe.go: the handlers that observe the tunnel and move it between its two legs.

  A handler acts on a \<^verbatim>\<open>sys\<close>: the supervisor's fields, the last state file it wrote, the debt
  file of an owed destroy, and the world outside. What the handlers read without waiting (the clock, the pin files, the log
  sensors) is a function of the world. What takes time (HTTP, probes, waits) is an action on the
  whole sys: while it runs, the other goroutines may change the supervisor, so nothing is known
  of the fields after such a call unless a theorem assumes it. Code between two such calls is
  one step. Log lines are left out, and a goroutine started by a handler is queued in
  \<^verbatim>\<open>spawned\<close>.
\<close>

section \<open>State and environment\<close>

datatype task = DiagnoseRealityPort | ReconcileLidDebt string

record supervisor =
  probeAddr :: string
  probeURL :: string
  keepaliveEvery :: go_duration
  probeTimeMs :: int
  schedule :: BandwidthSchedule
  realityRateMbps :: int
  destroyOnLidClose :: bool
  lidDryRun :: bool
  lidGrace :: go_duration
  lidOffReason :: string
  lidBusy :: bool
  lidDestroyedClosed :: bool
  lastLidAttempt :: go_time
  sv_state :: State
  probeGeneration :: "64 word"
  lastHealth :: Health
  hasReality :: bool
  brutalUnpaced :: bool
  realityAddr :: string
  fallback :: fallbackState
  legTestAt :: go_time
  verifyLegEgress :: bool
  dialsPaused :: bool
  stopped :: bool
  linkPoke :: bool
  spawned :: "task list"

text \<open>utils/liddebt.go: the record of an owed destroy that outlives the daemon.\<close>

record LidDebt =
  DebtServer :: string
  Since :: go_time
  Attempts :: nat
  DebtReason :: string
  DebtState :: LidDestroyState

record 'w sys =
  sup :: supervisor
  published :: "State option"
  debt :: "LidDebt option"
  world :: 'w

record BrutalResult =
  Reachable :: bool
  Rate :: int
  Applied :: int
  Peers :: int
  Detail :: string

text \<open>
  The reads of the world: clock, pins, the engine's process id, the local hour, the two log
  sensors. The calls: draining the flood sensor (TakeFloodSightings), a request to the control
  API, the monitoring request (with or without connection reuse), the keeper and the external
  request over one leg, a wait, the TCP and the UDP probe of the node, and the pacing request.
\<close>

record 'w env =
  e_now :: "'w \<Rightarrow> go_time"
  e_leg :: "'w \<Rightarrow> leg_pin"
  e_ceiling :: "'w \<Rightarrow> int"
  e_pid :: "'w \<Rightarrow> int"
  e_hour :: "'w \<Rightarrow> int"
  e_dials :: "'w \<Rightarrow> nodeDialSnapshot"
  e_flood :: "'w \<Rightarrow> floodSnapshot"
  e_take :: "('w sys, nat) state"
  e_clash :: "'w sys clash_client"
  e_monitor :: "bool \<Rightarrow> ('w sys, go_error) state"
  e_leg_probe :: "int \<Rightarrow> int \<Rightarrow> ('w sys, go_duration \<times> go_error) state"
  e_egress_probe :: "int \<Rightarrow> int \<Rightarrow> ('w sys, go_duration \<times> go_error) state"
  e_sleep :: "go_duration \<Rightarrow> ('w sys, unit) state"
  e_tcp :: "string \<Rightarrow> int \<Rightarrow> ('w sys, go_duration \<times> ProbeVerdict \<times> go_error) state"
  e_udp :: "string \<Rightarrow> int \<Rightarrow> ('w sys, go_duration \<times> ProbeVerdict \<times> go_error) state"
  e_push :: "int \<Rightarrow> int \<Rightarrow> ('w sys, BrutalResult \<times> go_error) state"

definition asks :: "('w \<Rightarrow> 'a) \<Rightarrow> ('w sys, 'a) state" where
  "asks f = gets (\<lambda>s. f (world s))"

definition field :: "(supervisor \<Rightarrow> 'a) \<Rightarrow> ('w sys, 'a) state" where
  "field f = gets (\<lambda>s. f (sup s))"

definition st_field :: "(State \<Rightarrow> 'a) \<Rightarrow> ('w sys, 'a) state" where
  "st_field f = gets (\<lambda>s. f (sv_state (sup s)))"

definition sup_do :: "(supervisor \<Rightarrow> supervisor) \<Rightarrow> ('w sys, unit) state" where
  "sup_do f = modify (\<lambda>s. s\<lparr>sup := f (sup s)\<rparr>)"

definition st_do :: "(State \<Rightarrow> State) \<Rightarrow> ('w sys, unit) state" where
  "st_do f = sup_do (\<lambda>v. v\<lparr>sv_state := f (sv_state v)\<rparr>)"

definition spawn :: "task \<Rightarrow> ('w sys, unit) state" where
  "spawn t = sup_do (\<lambda>v. v\<lparr>spawned := spawned v @ [t]\<rparr>)"

lemma access_simps [simp]:
  "exec (asks f) s = s" "result_of (asks f) s = f (world s)"
  "exec (field g) s = s" "result_of (field g) s = g (sup s)"
  "exec (st_field h) s = s" "result_of (st_field h) s = h (sv_state (sup s))"
  by (simp_all add: asks_def field_def st_field_def)

lemma update_simps [simp]:
  "exec (sup_do f) s = s\<lparr>sup := f (sup s)\<rparr>"
  "exec (st_do k) s = s\<lparr>sup := sup s\<lparr>sv_state := k (sv_state (sup s))\<rparr>\<rparr>"
  "exec (spawn t) s = s\<lparr>sup := sup s\<lparr>spawned := spawned (sup s) @ [t]\<rparr>\<rparr>"
  by (simp_all add: sup_do_def st_do_def spawn_def)

definition millis :: "go_duration \<Rightarrow> int" where
  "millis d = go_div d go_ms"

section \<open>Snapshots and the health verdict\<close>

definition stateSnapshotLocked :: "'w env \<Rightarrow> 'w sys \<Rightarrow> State" where
  "stateSnapshotLocked v s = (sv_state (sup s))\<lparr>SingboxPID := e_pid v (world s)\<rparr>"

definition writeState :: "'w env \<Rightarrow> ('w sys, unit) state" where
  "writeState v = modify (\<lambda>s. s\<lparr>published := Some (stateSnapshotLocked v s)\<rparr>)"

lemma writeState_simps [simp]:
  "exec (writeState v) s = s\<lparr>published := Some (stateSnapshotLocked v s)\<rparr>"
  by (simp add: writeState_def)

definition noteHealthLocked :: "('w sys, unit) state" where
  "noteHealthLocked = do {
     h \<leftarrow> st_field state_health;
     last \<leftarrow> field lastHealth;
     if h = last then stop else sup_do (\<lambda>v. v\<lparr>lastHealth := h\<rparr>)
   }"

lemma noteHealthLocked_simps [simp]:
  "exec noteHealthLocked s = s\<lparr>sup := sup s\<lparr>lastHealth := state_health (sv_state (sup s))\<rparr>\<rparr>"
  by (simp add: noteHealthLocked_def)

definition linkBad :: "('w sys, bool) state" where
  "linkBad = st_field LinkBad"

definition onFallback :: "('w sys, bool) state" where
  "onFallback = field (\<lambda>v. hasReality v \<and> fb_active (fallback v))"

lemma verdict_simps [simp]:
  "exec linkBad s = s" "result_of linkBad s = LinkBad (sv_state (sup s))"
  "exec onFallback s = s" "result_of onFallback s = (hasReality (sup s) \<and> fb_on (fallback (sup s)))"
  by (simp_all add: linkBad_def onFallback_def fb_active_def)

section \<open>Probes\<close>

definition waitLegProbe :: "'w env \<Rightarrow> ('w sys, go_error) state" where
  "waitLegProbe v = do {
     halted \<leftarrow> field stopped;
     if halted then State_Monad.return (Some ''stopping'')
     else do {
       e_sleep v (4 * go_second);
       halted \<leftarrow> field stopped;
       State_Monad.return (if halted then Some ''stopping'' else None)
     }
   }"

definition probeLeg :: "'w env \<Rightarrow> int \<Rightarrow> ('w sys, go_duration \<times> go_error) state" where
  "probeLeg v port = do {
     halted \<leftarrow> field stopped;
     if halted then State_Monad.return (0, Some ''stopping'')
     else do {
       ms \<leftarrow> field probeTimeMs;
       (delay, err) \<leftarrow> e_leg_probe v port ms;
       verify \<leftarrow> field verifyLegEgress;
       if err \<noteq> None \<or> \<not> verify then State_Monad.return (delay, err)
       else do {
         (egress, err) \<leftarrow> e_egress_probe v port ms;
         State_Monad.return (if egress > delay then egress else delay, err)
       }
     }
   }"

text \<open>The comparison and the recovery check of core/legmeasure.go, run on these probes.\<close>

definition measure :: "'w env \<Rightarrow> ('w sys, legMeasurement \<times> legMeasurement \<times> go_error) state" where
  "measure v = State (measureLegs (\<lambda>port. run_state (probeLeg v port)) (run_state (waitLegProbe v)))"

definition verifyPrimary :: "'w env \<Rightarrow> ('w sys, go_error) state" where
  "verifyPrimary v =
     State (verifyLegRecovery (run_state (probeLeg v BrutalKeeperPort)) (run_state (waitLegProbe v)))"

definition record_probe :: "go_time \<Rightarrow> int \<Rightarrow> ProbeVerdict \<Rightarrow> go_error \<Rightarrow> State \<Rightarrow> State" where
  "record_probe now delay verdict err st =
     (let st = st\<lparr>LastProbeAt := now, LastProbeVerdict := verdict\<rparr> in
      case err of
        Some e \<Rightarrow> st\<lparr>ConsecutiveFails := ConsecutiveFails st + 1, ConsecutiveOK := 0,
                    LastLatencyMs := 0, LastProbeError := e\<rparr>
      | None \<Rightarrow> st\<lparr>ConsecutiveOK := ConsecutiveOK st + 1, ConsecutiveFails := 0,
                  LastLatencyMs := delay, LastProbeError := []\<rparr>)"

definition probeOnce :: "'w env \<Rightarrow> ('w sys, unit) state" where
  "probeOnce v = do {
     addr \<leftarrow> field probeAddr;
     ms \<leftarrow> field probeTimeMs;
     url \<leftarrow> field probeURL;
     (delay, verdict, err) \<leftarrow>
       (if addr \<noteq> [] then do {
          (rtt, verdict, err) \<leftarrow> e_udp v addr ms;
          State_Monad.return (millis rtt, verdict, err)
        } else do {
          (delay, err) \<leftarrow> TestDelay (e_clash v) ''proxy'' url ms;
          State_Monad.return (delay, if err \<noteq> None then ProbeError else ProbeAlive, err)
        });
     now \<leftarrow> asks (e_now v);
     st_do (record_probe now delay verdict err);
     noteHealthLocked;
     writeState v
   }"

section \<open>Where traffic should be\<close>

definition activeOnHy2 :: "'w env \<Rightarrow> ('w sys, bool) state" where
  "activeOnHy2 v = do {
     pin \<leftarrow> asks (e_leg v);
     fb \<leftarrow> onFallback;
     has \<leftarrow> field hasReality;
     State_Monad.return (case pin of LegHy2 \<Rightarrow> True | LegReality \<Rightarrow> False | _ \<Rightarrow> \<not> has \<or> fb)
   }"

definition ladderTarget :: "'w env \<Rightarrow> ('w sys, string) state" where
  "ladderTarget v = do {
     pin \<leftarrow> asks (e_ceiling v);
     sched \<leftarrow> field schedule;
     h \<leftarrow> asks (e_hour v);
     State_Monad.return (if pin > 0 \<and> HasRung sched pin then BandwidthRungTag pin else Member sched h)
   }"

lemma target_simps [simp]:
  "exec (activeOnHy2 v) s = s" "exec (ladderTarget v) s = s"
  "result_of (activeOnHy2 v) s = (case e_leg v (world s) of LegHy2 \<Rightarrow> True | LegReality \<Rightarrow> False
     | _ \<Rightarrow> \<not> hasReality (sup s) \<or> fb_on (fallback (sup s)))"
  by (auto simp: activeOnHy2_def ladderTarget_def split: leg_pin.splits)

lemma result_ladderTarget:
  "result_of (ladderTarget v) s =
     (if e_ceiling v (world s) > 0 \<and> HasRung (schedule (sup s)) (e_ceiling v (world s))
      then BandwidthRungTag (e_ceiling v (world s)) else Member (schedule (sup s)) (e_hour v (world s)))"
  by (simp add: ladderTarget_def)

lemma result_ladderTarget_sup [simp]:
  "result_of (ladderTarget v) (s\<lparr>sup := (sup s)\<lparr>fallback := b\<rparr>\<rparr>) = result_of (ladderTarget v) s"
  by (simp add: result_ladderTarget)

section \<open>Moving between the legs\<close>

definition resetKeepaliveCount :: "('w sys, unit) state" where
  "resetKeepaliveCount = do {
     sup_do (\<lambda>v. v\<lparr>probeGeneration := probeGeneration v + 1\<rparr>);
     st_do (\<lambda>st. st\<lparr>KeepaliveFails := 0, KeepaliveFailingSince := 0, LastKeepaliveError := []\<rparr>);
     st_do ResetDials;
     noteHealthLocked
   }"

definition releaseFallback :: "'w env \<Rightarrow> ('w sys, unit) state" where
  "releaseFallback v = do {
     now \<leftarrow> asks (e_now v);
     (left, fb) \<leftarrow> field (\<lambda>v. fb_leave (fallback v) now);
     sup_do (\<lambda>v. v\<lparr>fallback := fb\<rparr>);
     only_if left resetKeepaliveCount
   }"

definition handoffToPrimary :: "'w env \<Rightarrow> ('w sys, unit) state" where
  "handoffToPrimary v = do {
     pin \<leftarrow> asks (e_leg v);
     bad \<leftarrow> linkBad;
     if pin \<noteq> LegAuto \<or> bad then stop
     else do {
       err \<leftarrow> SelectProxy (e_clash v) ProxySelectorTag RealityLegTag;
       if err \<noteq> None then stop else releaseFallback v
     }
   }"

definition recoverPrimary :: "'w env \<Rightarrow> ('w sys, unit) state" where
  "recoverPrimary v = do {
     has \<leftarrow> field hasReality;
     fb \<leftarrow> onFallback;
     bad \<leftarrow> linkBad;
     pin \<leftarrow> asks (e_leg v);
     if \<not> has \<or> \<not> fb \<or> bad \<or> pin \<noteq> LegAuto then stop
     else do {
       err \<leftarrow> verifyPrimary v;
       if err \<noteq> None then stop else handoffToPrimary v
     }
   }"

definition rescueStuckFallback :: "'w env \<Rightarrow> ('w sys, unit) state" where
  "rescueStuckFallback v = recoverPrimary v"

definition noteRealityServerDown :: "'w env \<Rightarrow> string \<Rightarrow> ('w sys, unit) state" where
  "noteRealityServerDown v reason = do {
     old \<leftarrow> st_field RealityServerDown;
     st_do (\<lambda>st. st\<lparr>RealityServerDown := reason\<rparr>);
     only_if (old \<noteq> reason) (writeState v)
   }"

definition refused_reason :: "go_duration \<Rightarrow> string" where
  "refused_reason rtt = ''connection refused in '' @ itoa (millis rtt) @ ''ms''"

definition diagnoseRealityPort :: "'w env \<Rightarrow> ('w sys, unit) state" where
  "diagnoseRealityPort v = do {
     addr \<leftarrow> field realityAddr;
     if addr = [] then stop
     else do {
       ms \<leftarrow> field probeTimeMs;
       (rtt, verdict, err) \<leftarrow> e_tcp v addr ms;
       (case verdict of
          ProbeRefused \<Rightarrow> noteRealityServerDown v (refused_reason rtt)
        | ProbeAlive \<Rightarrow> noteRealityServerDown v []
        | _ \<Rightarrow> stop)
     }
   }"

text \<open>The three changes of the fallback that are made under its lock alone.\<close>

definition beginFallback :: "go_time \<Rightarrow> ('w sys, bool) state" where
  "beginFallback now = do {
     (changed, fb) \<leftarrow> field (\<lambda>v. fb_enter (fallback v) now);
     sup_do (\<lambda>v. v\<lparr>fallback := fb\<rparr>);
     State_Monad.return changed
   }"

definition leaveFallback :: "'w env \<Rightarrow> ('w sys, unit) state" where
  "leaveFallback v = do {
     now \<leftarrow> asks (e_now v);
     sup_do (\<lambda>v. v\<lparr>fallback := snd (fb_leave (fallback v) now)\<rparr>)
   }"

definition extendFallback :: "'w env \<Rightarrow> ('w sys, unit) state" where
  "extendFallback v = do {
     now \<leftarrow> asks (e_now v);
     sup_do (\<lambda>v. v\<lparr>fallback := fb_extend (fallback v) now\<rparr>)
   }"

definition enterFallback :: "'w env \<Rightarrow> ('w sys, unit) state" where
  "enterFallback v = do {
     has \<leftarrow> field hasReality;
     pin \<leftarrow> asks (e_leg v);
     if \<not> has then stop
     else if pin \<noteq> LegAuto then stop
     else do {
       now \<leftarrow> asks (e_now v);
       changed \<leftarrow> beginFallback now;
       if \<not> changed then stop
       else do {
         target \<leftarrow> ladderTarget v;
         url \<leftarrow> field probeURL;
         ms \<leftarrow> field probeTimeMs;
         TestDelay (e_clash v) target url ms;
         err \<leftarrow> SelectProxy (e_clash v) ProxySelectorTag target;
         if err \<noteq> None then leaveFallback v
         else do {
           spawn DiagnoseRealityPort;
           resetKeepaliveCount
         }
       }
     }
   }"

definition tryReturnToPrimary :: "'w env \<Rightarrow> ('w sys, unit) state" where
  "tryReturnToPrimary v = do {
     has \<leftarrow> field hasReality;
     bad \<leftarrow> linkBad;
     now \<leftarrow> asks (e_now v);
     due \<leftarrow> field (\<lambda>v. fb_dueBack (fallback v) now);
     if \<not> has then stop else if bad then stop else if \<not> due then stop
     else do {
       addr \<leftarrow> field realityAddr;
       ms \<leftarrow> field probeTimeMs;
       refused \<leftarrow>
         (if addr \<noteq> [] then do {
            (rtt, verdict, perr) \<leftarrow> e_tcp v addr ms;
            (case verdict of
               ProbeRefused \<Rightarrow> do {
                 noteRealityServerDown v (refused_reason rtt);
                 extendFallback v;
                 State_Monad.return True
               }
             | ProbeAlive \<Rightarrow> do { noteRealityServerDown v []; State_Monad.return False }
             | _ \<Rightarrow> State_Monad.return False)
          } else State_Monad.return False);
       if refused then stop
       else do {
         err \<leftarrow> verifyPrimary v;
         if err \<noteq> None then extendFallback v else handoffToPrimary v
       }
     }
   }"

section \<open>The comparative test\<close>

definition legRace :: "'w env \<Rightarrow> ('w sys, legMeasurement \<times> legMeasurement \<times> go_error) state" where
  "legRace v = do {
     verify \<leftarrow> field verifyLegEgress;
     err \<leftarrow>
       (if verify then do {
          target \<leftarrow> ladderTarget v;
          fb \<leftarrow> onFallback;
          target \<leftarrow>
            (if fb then do {
               (live, e) \<leftarrow> Selection (e_clash v) ProxySelectorTag;
               State_Monad.return (if e = None \<and> BandwidthRungMbps live > 0 then live else target)
             } else State_Monad.return target);
          e \<leftarrow> SelectProxy (e_clash v) Hy2ProbeSelectorTag target;
          State_Monad.return (case e of None \<Rightarrow> None
            | Some m \<Rightarrow> Some (''select UDP probe rung '' @ target @ '': '' @ m))
        } else State_Monad.return None);
     if err \<noteq> None then State_Monad.return (no_measurement, no_measurement, err)
     else measure v
   }"

definition considerLegFailover :: "'w env \<Rightarrow> ('w sys, unit) state" where
  "considerLegFailover v = do {
     bad \<leftarrow> linkBad;
     has \<leftarrow> field hasReality;
     fb \<leftarrow> onFallback;
     pin \<leftarrow> asks (e_leg v);
     now \<leftarrow> asks (e_now v);
     testAt \<leftarrow> field legTestAt;
     if bad then stop
     else if \<not> legTestDue has fb pin now testAt then stop
     else do {
       sup_do (\<lambda>v. v\<lparr>legTestAt := now\<rparr>);
       (hy2, reality, err) \<leftarrow> legRace v;
       let (active, candidate) = (if fb then (hy2, reality) else (reality, hy2));
       fb' \<leftarrow> onFallback;
       pin \<leftarrow> asks (e_leg v);
       bad \<leftarrow> linkBad;
       if fb' \<noteq> fb \<or> pin \<noteq> LegAuto \<or> bad then stop
       else if err \<noteq> None \<or> \<not> legComparison candidate active then stop
       else if fb then handoffToPrimary v
       else enterFallback v
     }
   }"

section \<open>The two monitoring arms\<close>

definition record_keepalive :: "go_time \<Rightarrow> int \<Rightarrow> go_error \<Rightarrow> State \<Rightarrow> State" where
  "record_keepalive now delay err st =
     (let st = st\<lparr>LastKeepaliveAt := now\<rparr> in
      case err of
        Some e \<Rightarrow> st\<lparr>KeepaliveFails := KeepaliveFails st + 1,
                    KeepaliveFailingSince := (if KeepaliveFails st + 1 = 1 then now else KeepaliveFailingSince st),
                    LastKeepaliveMs := 0, LastKeepaliveError := e\<rparr>
      | None \<Rightarrow> st\<lparr>KeepaliveFails := 0, KeepaliveFailingSince := 0,
                  LastKeepaliveMs := delay, LastKeepaliveError := []\<rparr>)"

text \<open>The decision taken under the lock once the beat is recorded.\<close>

definition keepalive_decision :: "'w env \<Rightarrow> go_error \<Rightarrow> ('w sys, legAction \<times> bool) state" where
  "keepalive_decision v err = do {
     st \<leftarrow> field sv_state;
     hy2 \<leftarrow> activeOnHy2 v;
     fb \<leftarrow> onFallback;
     pin \<leftarrow> asks (e_leg v);
     addr \<leftarrow> field realityAddr;
     let action = (if err \<noteq> None
       then keepaliveLegAction (KeepaliveFails st) (LastProbeVerdict st = ProbeAlive) (\<not> LinkBad st) hy2 fb pin
       else legHold);
     State_Monad.return (action,
       action = legHold \<and> KeepaliveFails st \<ge> fallbackEnterFails \<and> fb \<and> \<not> LinkBad st \<and> addr \<noteq> [])
   }"

definition keepaliveOnce :: "'w env \<Rightarrow> ('w sys, unit) state" where
  "keepaliveOnce v = do {
     generation \<leftarrow> field probeGeneration;
     start \<leftarrow> asks (e_now v);
     err \<leftarrow> e_monitor v True;
     now \<leftarrow> asks (e_now v);
     current \<leftarrow> field probeGeneration;
     if generation \<noteq> current then stop
     else do {
       st_do (record_keepalive now (millis (time_sub now start)) err);
       (action, rescueStuck) \<leftarrow> keepalive_decision v err;
       noteHealthLocked;
       writeState v;
       (case action of legFallback \<Rightarrow> enterFallback v | legAbandonFallback \<Rightarrow> recoverPrimary v | legHold \<Rightarrow> stop);
       only_if rescueStuck (rescueStuckFallback v)
     }
   }"

definition dialOnce :: "'w env \<Rightarrow> ('w sys, unit) state" where
  "dialOnce v = do {
     bad \<leftarrow> linkBad;
     if bad then sup_do (\<lambda>v. v\<lparr>dialsPaused := True\<rparr>)
     else do {
       sup_do (\<lambda>v. v\<lparr>dialsPaused := False\<rparr>);
       generation \<leftarrow> field probeGeneration;
       start \<leftarrow> asks (e_now v);
       err \<leftarrow> e_monitor v False;
       now \<leftarrow> asks (e_now v);
       current \<leftarrow> field probeGeneration;
       if generation \<noteq> current then stop
       else do {
         st_do (\<lambda>st. RecordDial st now (millis (time_sub now start)) err);
         failing \<leftarrow> st_field freshFlowsFailing;
         probeAlive \<leftarrow> st_field (\<lambda>st. LastProbeVerdict st = ProbeAlive);
         has \<leftarrow> field hasReality;
         noteHealthLocked;
         writeState v;
         only_if (legGateOpen failing probeAlive has) (considerLegFailover v)
       }
     }
   }"

text \<open>Whether the fresh-dial arm is due; it also copies the engine's own dial failures into the state.\<close>

definition healthyFreshDialEvery :: go_duration where "healthyFreshDialEvery = go_minute"

definition shouldSampleFreshDial :: "'w env \<Rightarrow> go_time \<Rightarrow> ('w sys, bool) state" where
  "shouldSampleFreshDial v prev = do {
     bad \<leftarrow> linkBad;
     if bad then State_Monad.return False
     else do {
       snap \<leftarrow> asks (e_dials v);
       st_do (\<lambda>st. st\<lparr>ApplicationNodeDialFailures := nd_sequence snap,
                      LastApplicationNodeDialFailureAt := nd_last snap\<rparr>);
       wellKnownHealthy \<leftarrow> st_field (\<lambda>st. length (DialSamples st) = DialWindow \<and> DialBad st = 0 \<and> \<not> SlowNewFlows st);
       every \<leftarrow> field keepaliveEvery;
       now \<leftarrow> asks (e_now v);
       pin \<leftarrow> asks (e_leg v);
       fb \<leftarrow> onFallback;
       let age = time_sub now (nd_last snap);
       let interval = (if wellKnownHealthy
          then (if age \<ge> 0 \<and> age \<le> 30 * go_second \<and> \<not> fb \<and> pin \<noteq> LegHy2 \<and> pin \<noteq> LegBoth
                then every else healthyFreshDialEvery)
          else every);
       State_Monad.return (prev = 0 \<or> time_sub now prev \<ge> interval)
     }
   }"

section \<open>The local link\<close>

text \<open>runLinkProbe: a changed gateway empties the echo window, and an echo that was answered or
  timed out is recorded. A beat that fails below the socket only refreshes the gateway.\<close>

definition linkRefresh :: "string \<Rightarrow> string \<Rightarrow> ('w sys, unit) state" where
  "linkRefresh gw g = only_if (g \<noteq> gw) (st_do (\<lambda>st. (ResetLink st)\<lparr>LinkGateway := g\<rparr>))"

definition linkBeat :: "'w env \<Rightarrow> go_duration \<Rightarrow> bool \<Rightarrow> ('w sys, unit) state" where
  "linkBeat v rtt answered = do {
     now \<leftarrow> asks (e_now v);
     st_do (\<lambda>st. RecordLink st now (millis rtt) answered);
     noteHealthLocked;
     writeState v
   }"

text \<open>runLinkWatch: one poll of the uplink address, given the last one and the present one.\<close>

definition linkWatchStep :: "string \<Rightarrow> string \<Rightarrow> ('w sys, string) state" where
  "linkWatchStep prev now = do {
     only_if (now \<noteq> prev) (do {
       only_if (prev = [] \<and> now \<noteq> []) (spawn (ReconcileLidDebt ''uplink back''));
       only_if (now \<noteq> []) (sup_do (\<lambda>v. v\<lparr>linkPoke := True\<rparr>))
     });
     State_Monad.return now
   }"

section \<open>Construction\<close>

record SupervisorOpts =
  ClashAddr :: string
  ProbeAddr :: string
  ProbeURL :: string
  ObfsPassword :: string
  ProbeEvery :: go_duration
  KeepaliveEvery :: go_duration
  ProbeTimeMs :: int
  HasRealityLeg :: bool
  VerifyLegEgress :: bool
  RealityAddr :: string
  Schedule :: BandwidthSchedule
  OptsRealityRateMbps :: int
  DestroyOnLidClose :: bool
  LidCloseDryRun :: bool
  LidGrace :: go_duration
  LidDestroyOffReason :: string

definition zero_balance :: BalanceStatus where
  "zero_balance = \<lparr>Supported = False, BalEnabled = False, RealityLanes = 0, Hy2Lanes = 0,
     RealityHealthy = False, Hy2Healthy = False, RealityDegraded = False, Hy2Degraded = False,
     RealityLatencyMs = 0, Hy2LatencyMs = 0, LastCheckedAt = 0, RealityError = [], Hy2Error = [],
     BalError = [], Hy2DownMbps = 0, Hy2UpMbps = 0, UDPPressureCapMbps = 0, UDPCooldownUntil = 0\<rparr>"

definition initialBalanceStatus :: "bool \<Rightarrow> BalanceStatus option" where
  "initialBalanceStatus supported = (if \<not> supported then None else Some (zero_balance\<lparr>Supported := True\<rparr>))"

text \<open>The defaults, and the supervisor of process pid at the time now. The probe cadence and the
  obfuscation key are used by loops and probes outside the model, and are not kept.\<close>

definition opts_defaults :: "SupervisorOpts \<Rightarrow> SupervisorOpts" where
  "opts_defaults opts =
     (let opts = (if ClashAddr opts = [] then opts\<lparr>ClashAddr := ''127.0.0.1:9090''\<rparr> else opts);
          opts = (if ProbeURL opts = [] then opts\<lparr>ProbeURL := ''https://www.gstatic.com/generate_204''\<rparr> else opts);
          opts = (if ProbeEvery opts = 0 then opts\<lparr>ProbeEvery := 10 * go_second\<rparr> else opts);
          opts = (if KeepaliveEvery opts = 0 then opts\<lparr>KeepaliveEvery := 15 * go_second\<rparr> else opts)
      in (if ProbeTimeMs opts = 0 then opts\<lparr>ProbeTimeMs := 5000\<rparr> else opts))"

definition NewSupervisor :: "string \<Rightarrow> SupervisorOpts \<Rightarrow> int \<Rightarrow> go_time \<Rightarrow> supervisor" where
  "NewSupervisor serverName opts pid now =
     (let opts = opts_defaults opts in
      \<lparr>probeAddr = ProbeAddr opts, probeURL = ProbeURL opts, keepaliveEvery = KeepaliveEvery opts,
       probeTimeMs = ProbeTimeMs opts, schedule = Schedule opts,
       realityRateMbps = OptsRealityRateMbps opts, destroyOnLidClose = DestroyOnLidClose opts,
       lidDryRun = LidCloseDryRun opts, lidGrace = LidGrace opts,
       lidOffReason = LidDestroyOffReason opts, lidBusy = False, lidDestroyedClosed = False,
       lastLidAttempt = 0,
       sv_state = zero_state\<lparr>Balance := initialBalanceStatus (HasRealityLeg opts \<and> VerifyLegEgress opts),
         PID := pid, StServer := serverName, StartedAt := now\<rparr>,
       probeGeneration = 0, lastHealth = HealthOK, hasReality = HasRealityLeg opts,
       brutalUnpaced = False, realityAddr = RealityAddr opts, fallback = zero_fallback,
       legTestAt = 0, verifyLegEgress = VerifyLegEgress opts, dialsPaused = False,
       stopped = False, linkPoke = False, spawned = []\<rparr>)"

end
