(* ===== verification/Handlers.thy ===== *)
theory Handlers
  imports Supervisor
begin

text \<open>
  What the supervisor's handlers guarantee: the well-formedness of its state under every
  interleaving, results of an abandoned leg that are dropped, pins that are never overridden,
  and the order of routing and bookkeeping when traffic changes its leg.
\<close>

section \<open>Well-formedness\<close>

definition st_inv :: "State \<Rightarrow> bool" where
  "st_inv st =
     (length (DialSamples st) \<le> 20 \<and> length (LinkSamples st) \<le> 12 \<and>
      (ConsecutiveFails st = 0 \<or> ConsecutiveOK st = 0) \<and>
      (KeepaliveFails st = 0 \<longrightarrow> KeepaliveFailingSince st = 0) \<and>
      (\<not> LinkBad st \<longrightarrow> LinkBadSince st = 0))"

definition sv_inv :: "'w sys \<Rightarrow> bool" where
  "sv_inv s = (st_inv (sv_state (sup s)) \<and> fb_inv (fallback (sup s)))"

text \<open>
  What a handler relies on while one of its calls is out: the other goroutines, which run the
  same handlers, keep the condition too.
\<close>

definition env_keeps :: "('w sys \<Rightarrow> bool) \<Rightarrow> 'w env \<Rightarrow> bool" where
  "env_keeps I v =
     ((\<forall>r. keeps I (e_clash v r)) \<and> (\<forall>b. keeps I (e_monitor v b)) \<and>
      (\<forall>p ms. keeps I (e_leg_probe v p ms)) \<and> (\<forall>p ms. keeps I (e_egress_probe v p ms)) \<and>
      (\<forall>d. keeps I (e_sleep v d)) \<and> keeps I (e_take v) \<and> (\<forall>a ms. keeps I (e_tcp v a ms)) \<and> (\<forall>a ms. keeps I (e_udp v a ms)) \<and>
      (\<forall>r ms. keeps I (e_push v r ms)))"

lemma keeps_access [mole_frame]: "keeps I (asks f)" "keeps I (field g)" "keeps I (st_field h)"
  by (simp_all add: keeps_def)

lemma keeps_verdict [mole_frame]: "keeps I linkBad" "keeps I onFallback" "keeps I (activeOnHy2 v)"
    "keeps I (ladderTarget v)"
  by (simp_all add: keeps_def)

lemma keeps_client [mole_frame]:
  assumes "env_keeps I v"
  shows "keeps I (TestDelay (e_clash v) p u t)" "keeps I (SelectProxy (e_clash v) sel m)"
    "keeps I (Selection (e_clash v) sel)" "keeps I (Ping (e_clash v))"
  using assms
  by (simp_all add: env_keeps_def keeps_def TestDelay_def SelectProxy_def Selection_def Ping_def)

lemma keeps_env [mole_frame]:
  assumes "env_keeps I v"
  shows "keeps I (e_monitor v b)" "keeps I (e_leg_probe v p ms)" "keeps I (e_egress_probe v p ms)"
    "keeps I (e_sleep v d)" "keeps I (e_take v)" "keeps I (e_tcp v a ms)" "keeps I (e_udp v a ms)" "keeps I (e_push v r ms)"
  using assms by (simp_all add: env_keeps_def)

lemma keeps_run: "keeps I m \<Longrightarrow> run_state m s = (x, s') \<Longrightarrow> I s \<Longrightarrow> I s'"
  by (auto simp: keeps_def exec_def)

lemma measure_round_keeps:
  assumes "\<And>port. keeps I (probe port)" and "I w"
  shows "I (snd (measure_round (\<lambda>port. run_state (probe port)) i h r w))"
  using assms
  by (simp add: measure_round_def Let_def run_state_pair case_prod_beta keeps_def)

lemma measure_rounds_keeps:
  assumes "\<And>port. keeps I (probe port)" and "keeps I wait"
  shows "I w \<Longrightarrow> I (snd (measure_rounds (\<lambda>port. run_state (probe port)) (run_state wait) i n h r w))"
proof (induction n arbitrary: i h r w)
  case (Suc n)
  obtain stop w1 where st: "(if i > 0 then run_state wait w else (None, w)) = (stop, w1)"
    by (cases "if i > 0 then run_state wait w else (None, w)") auto
  then have w1: "I w1"
    using Suc.prems keeps_run [OF assms(2)] by (auto split: if_splits)
  obtain h' r' w2 where rd: "measure_round (\<lambda>port. run_state (probe port)) i h r w1 = ((h', r'), w2)"
    by (metis prod.collapse)
  then have "I w2"
    using measure_round_keeps [of I probe w1 i h r] assms(1) w1 by simp
  with Suc.IH [of w2 "Suc i" h' r'] st rd w1 show ?case by simp
qed simp

lemma recovery_rounds_keeps:
  assumes "keeps I probe" and "keeps I wait"
  shows "I w \<Longrightarrow> I (snd (recovery_rounds (run_state probe) (run_state wait) i n w))"
proof (induction n arbitrary: i w)
  case (Suc n)
  obtain stop w1 where st: "(if i > 0 then run_state wait w else (None, w)) = (stop, w1)"
    by (cases "if i > 0 then run_state wait w else (None, w)") auto
  then have w1: "I w1"
    using Suc.prems keeps_run [OF assms(2)] by (auto split: if_splits)
  obtain d e w2 where rd: "run_state probe w1 = ((d, e), w2)"
    by (metis prod.collapse)
  then have "I w2" using keeps_run [OF assms(1)] w1 by blast
  with Suc.IH [of w2 "Suc i"] st rd w1 show ?case by simp
qed simp

lemma keeps_probes [mole_frame]:
  assumes "env_keeps I v"
  shows "keeps I (probeLeg v port)" "keeps I (waitLegProbe v)" "keeps I (measure v)" "keeps I (verifyPrimary v)"
proof -
  show p: "keeps I (probeLeg v port)" for port
    unfolding probeLeg_def by (intro mole_frame assms)
  show w: "keeps I (waitLegProbe v)"
    unfolding waitLegProbe_def by (intro mole_frame assms)
  show "keeps I (measure v)"
    using measure_rounds_keeps [OF p w] by (simp add: keeps_def measure_def exec_def measureLegs_def)
  show "keeps I (verifyPrimary v)"
    using recovery_rounds_keeps [OF p w] by (simp add: keeps_def verifyPrimary_def exec_def verifyLegRecovery_def)
qed

lemma st_inv_records:
  assumes "st_inv st"
  shows "st_inv (record_probe now d vd err st)" "st_inv (record_keepalive now d err st)"
    "st_inv (RecordDial st now d err)" "st_inv (RecordLink st now d ok)"
    "st_inv (ResetDials st)" "st_inv ((ResetLink st)\<lparr>LinkGateway := g\<rparr>)"
    "st_inv (st\<lparr>RealityServerDown := r\<rparr>)"
    "st_inv (st\<lparr>ApplicationNodeDialFailures := n, LastApplicationNodeDialFailureAt := t\<rparr>)"
    "st_inv (st\<lparr>KeepaliveFails := 0, KeepaliveFailingSince := 0, LastKeepaliveError := []\<rparr>)"
proof -
  show "st_inv (record_probe now d vd err st)" "st_inv (record_keepalive now d err st)"
    using assms by (auto simp: st_inv_def record_probe_def record_keepalive_def Let_def split: option.splits)
  show "st_inv (RecordDial st now d err)"
    using assms RecordDial_samples [of st now d err]
    by (cases err) (auto simp: st_inv_def RecordDial_def UpdateNewFlowLatch_def Let_def)
  show "st_inv (RecordLink st now d ok)"
    using assms by (auto simp: st_inv_def RecordLink_def updateLinkLatch_def Let_def)
qed (use assms in \<open>auto simp: st_inv_def ResetDials_def ResetLink_def\<close>)

lemma sv_inv_st_do [mole_frame]: "(\<And>st. st_inv st \<Longrightarrow> st_inv (f st)) \<Longrightarrow> keeps sv_inv (st_do f)"
  by (simp add: keeps_def sv_inv_def)

lemma sv_inv_simple [mole_frame]:
  "keeps sv_inv (writeState v)" "keeps sv_inv noteHealthLocked" "keeps sv_inv (spawn t)"
  "keeps sv_inv (sup_do (\<lambda>v. v\<lparr>dialsPaused := b\<rparr>))" "keeps sv_inv (sup_do (\<lambda>v. v\<lparr>legTestAt := t0\<rparr>))"
  "keeps sv_inv (sup_do (\<lambda>v. v\<lparr>linkPoke := b\<rparr>))"
  "keeps sv_inv (sup_do (\<lambda>v. v\<lparr>probeGeneration := probeGeneration v + 1\<rparr>))"
  by (simp_all add: keeps_def sv_inv_def)

lemma fb_inv_steps:
  "fb_inv b \<Longrightarrow> fb_inv (snd (fb_enter b now))" "fb_inv b \<Longrightarrow> fb_inv (snd (fb_leave b now))"
  "fb_inv b \<Longrightarrow> fb_inv (fb_extend b now)"
  using fb_step_inv fb_step.intros by blast+

lemma sv_inv_fallback [mole_frame]:
  "keeps sv_inv (beginFallback now)" "keeps sv_inv (leaveFallback v)" "keeps sv_inv (extendFallback v)"
  by (simp_all add: keeps_def sv_inv_def beginFallback_def leaveFallback_def extendFallback_def
      fb_inv_steps case_prod_beta)

lemma sv_inv_reset [mole_frame]: "keeps sv_inv resetKeepaliveCount"
  unfolding resetKeepaliveCount_def by (intro mole_frame st_inv_records)

lemma sv_inv_release [mole_frame]: "keeps sv_inv (releaseFallback v)"
proof (rule keepsI)
  fix s :: "'a sys"
  assume i: "sv_inv s"
  let ?s = "s\<lparr>sup := sup s\<lparr>fallback := snd (fb_leave (fallback (sup s)) (e_now v (world s)))\<rparr>\<rparr>"
  have "sv_inv ?s" using i by (simp add: sv_inv_def fb_inv_steps)
  moreover from this have "sv_inv (exec resetKeepaliveCount ?s)"
    by (rule keepsD [OF sv_inv_reset])
  ultimately show "sv_inv (exec (releaseFallback v) s)"
    by (simp add: releaseFallback_def case_prod_beta)
qed

lemma sv_inv_server_down [mole_frame]:
  "keeps sv_inv (noteRealityServerDown v r)" "env_keeps sv_inv v \<Longrightarrow> keeps sv_inv (diagnoseRealityPort v)"
proof -
  show n: "keeps sv_inv (noteRealityServerDown v r)" for r
    unfolding noteRealityServerDown_def by (intro mole_frame st_inv_records)
  show "env_keeps sv_inv v \<Longrightarrow> keeps sv_inv (diagnoseRealityPort v)"
    unfolding diagnoseRealityPort_def
    by (intro mole_frame) (auto intro: n mole_frame split: ProbeVerdict.splits)
qed

lemma sv_inv_moves [mole_frame]:
  assumes rely: "env_keeps sv_inv v"
  shows "keeps sv_inv (handoffToPrimary v)" "keeps sv_inv (recoverPrimary v)"
    "keeps sv_inv (rescueStuckFallback v)"
    "keeps sv_inv (enterFallback v)" "keeps sv_inv (tryReturnToPrimary v)"
proof -
  show h: "keeps sv_inv (handoffToPrimary v)"
    unfolding handoffToPrimary_def by (intro mole_frame rely)
  show r: "keeps sv_inv (recoverPrimary v)"
    unfolding recoverPrimary_def by (intro mole_frame rely h)
  then show "keeps sv_inv (rescueStuckFallback v)" by (simp add: rescueStuckFallback_def)
  show "keeps sv_inv (enterFallback v)"
    unfolding enterFallback_def by (intro mole_frame rely)
  show "keeps sv_inv (tryReturnToPrimary v)"
    unfolding tryReturnToPrimary_def
    by (intro mole_frame rely h) (auto intro!: mole_frame split: ProbeVerdict.splits)
qed

lemma keeps_decision [mole_frame]: "keeps I (keepalive_decision v err)"
  unfolding keepalive_decision_def by (intro mole_frame)

lemma sv_inv_observers [mole_frame]:
  assumes rely: "env_keeps sv_inv v"
  shows "keeps sv_inv (legRace v)" "keeps sv_inv (considerLegFailover v)"
    "keeps sv_inv (keepaliveOnce v)" "keeps sv_inv (dialOnce v)" "keeps sv_inv (probeOnce v)"
    "keeps sv_inv (shouldSampleFreshDial v t)" "keeps sv_inv (linkBeat v rtt ok)"
    "keeps sv_inv (linkRefresh gw g)" "keeps sv_inv (linkWatchStep a b)"
proof -
  show l: "keeps sv_inv (legRace v)"
    unfolding legRace_def by (intro mole_frame rely)
  show c: "keeps sv_inv (considerLegFailover v)"
    unfolding considerLegFailover_def by (intro mole_frame rely l)
  show "keeps sv_inv (keepaliveOnce v)"
    unfolding keepaliveOnce_def
    by (intro mole_frame rely st_inv_records) (auto intro!: mole_frame rely split: legAction.splits)
  show "keeps sv_inv (dialOnce v)"
    unfolding dialOnce_def by (intro mole_frame rely st_inv_records c)
  show "keeps sv_inv (probeOnce v)"
    unfolding probeOnce_def by (intro mole_frame rely st_inv_records)
  show "keeps sv_inv (shouldSampleFreshDial v t)"
    unfolding shouldSampleFreshDial_def by (intro mole_frame st_inv_records)
  show "keeps sv_inv (linkBeat v rtt ok)"
    unfolding linkBeat_def by (intro mole_frame st_inv_records)
  show "keeps sv_inv (linkRefresh gw g)"
    unfolding linkRefresh_def by (intro mole_frame st_inv_records)
  show "keeps sv_inv (linkWatchStep a b)"
    unfolding linkWatchStep_def by (intro mole_frame)
qed

section \<open>Leg changes\<close>

lemma exec_reset:
  "exec resetKeepaliveCount s =
     s\<lparr>sup := (let st = (ResetDials ((sv_state (sup s))\<lparr>KeepaliveFails := 0, KeepaliveFailingSince := 0,
                        LastKeepaliveError := []\<rparr>))
               in (sup s)\<lparr>probeGeneration := probeGeneration (sup s) + 1, sv_state := st,
                          lastHealth := state_health st\<rparr>)\<rparr>"
  by (simp add: resetKeepaliveCount_def Let_def)

lemma exec_release:
  "exec (releaseFallback v) s =
     (if fb_on (fallback (sup s))
      then exec resetKeepaliveCount
             (s\<lparr>sup := (sup s)\<lparr>fallback := snd (fb_leave (fallback (sup s)) (e_now v (world s)))\<rparr>\<rparr>)
      else s)"
  by (simp add: releaseFallback_def fb_leave_def case_prod_beta)

text \<open>No other goroutine changes the supervisor while a request to the control API is out.\<close>

definition clash_quiet :: "'w env \<Rightarrow> bool" where
  "clash_quiet v = (\<forall>r s. sup (exec (e_clash v r) s) = sup s \<and> e_leg v (world (exec (e_clash v r) s)) = e_leg v (world s))"

lemma quiet_client:
  assumes "clash_quiet v"
  shows "sup (exec (SelectProxy (e_clash v) t m) s) = sup s" "sup (exec (TestDelay (e_clash v) p u ms) s) = sup s"
    "sup (exec (Selection (e_clash v) t) s) = sup s"
  using assms by (simp_all add: clash_quiet_def SelectProxy_def TestDelay_def Selection_def)

lemma enter_counts: "\<not> fb_on b \<Longrightarrow> fst (fb_enter b now)" "fb_on b \<Longrightarrow> \<not> fst (fb_enter b now)"
    "\<not> fb_on b \<Longrightarrow> fb_on (snd (fb_enter b now))"
  by (simp_all add: fb_enter_def Let_def)

lemma generations_apart:
  assumes "0 < n" and "n < 2 ^ 64"
  shows "g + of_nat n \<noteq> (g :: 64 word)"
proof
  assume "g + of_nat n = g"
  then have "(of_nat n :: 64 word) = 0" by simp
  then have "2 ^ 64 dvd n" by (simp add: word_of_nat_eq_0_iff)
  with assms show False by (auto dest: dvd_imp_le)
qed

section \<open>An environment to evaluate in\<close>

text \<open>The world is the table of selectors; every call succeeds and nothing runs in between.\<close>

definition lift_engine :: "'e clash_client \<Rightarrow> 'e sys clash_client" where
  "lift_engine c r = State (\<lambda>s. (result_of (c r) (world s), s\<lparr>world := exec (c r) (world s)\<rparr>))"

definition calm_env :: "go_time \<Rightarrow> leg_pin \<Rightarrow> (string \<Rightarrow> string) env" where
  "calm_env now pin =
     \<lparr>e_now = \<lambda>_. now, e_leg = \<lambda>_. pin, e_ceiling = \<lambda>_. 0, e_pid = \<lambda>_. 7, e_hour = \<lambda>_. 12,
      e_dials = \<lambda>_. \<lparr>nd_sequence = 0, nd_last = 0\<rparr>, e_flood = \<lambda>_. \<lparr>snap_sequence = 0, snap_last = 0\<rparr>, e_take = State_Monad.return 0,
      e_clash = lift_engine table_engine, e_monitor = \<lambda>_. State_Monad.return None,
      e_leg_probe = \<lambda>_ _. State_Monad.return (100 * go_ms, None),
      e_egress_probe = \<lambda>_ _. State_Monad.return (120 * go_ms, None), e_sleep = \<lambda>_. stop,
      e_tcp = \<lambda>_ _. State_Monad.return (5 * go_ms, ProbeAlive, None),
      e_udp = \<lambda>_ _. State_Monad.return (9 * go_ms, ProbeAlive, None),
      e_push = \<lambda>rate _. State_Monad.return (\<lparr>Reachable = True, Rate = rate, Applied = 1, Peers = 1, Detail = []\<rparr>, None)\<rparr>"

definition sample_opts :: SupervisorOpts where
  "sample_opts = \<lparr>ClashAddr = [], ProbeAddr = ''192.0.2.1:443'', ProbeURL = [], ObfsPassword = [],
     ProbeEvery = 0, KeepaliveEvery = 0, ProbeTimeMs = 0, HasRealityLeg = True, VerifyLegEgress = True,
     RealityAddr = ''192.0.2.1:443'', Schedule = sample_schedule, OptsRealityRateMbps = 0,
     DestroyOnLidClose = False, LidCloseDryRun = False, LidGrace = 0, LidDestroyOffReason = []\<rparr>"

definition sample_sys :: "(string \<Rightarrow> string) sys" where
  "sample_sys = \<lparr>sup = NewSupervisor ''node'' sample_opts 7 1000, published = None, debt = None,
     world = (\<lambda>_. RealityLegTag)\<rparr>"

interpretation lifted: selector_engine "lift_engine table_engine" world
  by unfold_locales
    (auto simp: exec_def result_of_def lift_engine_def ok_reply_def json_field_def split: if_splits)

lemma calm_reads [simp]:
  "e_now (calm_env now pin) w = now" "e_leg (calm_env now pin) w = pin" "e_ceiling (calm_env now pin) w = 0"
  "e_hour (calm_env now pin) w = 12" "e_clash (calm_env now pin) = lift_engine table_engine"
  by (simp_all add: calm_env_def)

lemma calm_calls [simp]:
  "result_of (SelectProxy (lift_engine table_engine) t m) s = None"
  "exec (SelectProxy (lift_engine table_engine) t m) s = s\<lparr>world := (world s)(t := m)\<rparr>"
  "result_of (TestDelay (lift_engine table_engine) p u ms) s = (42, None)"
  "exec (TestDelay (lift_engine table_engine) p u ms) s = s"
  "exec (Selection (lift_engine table_engine) t) s = s"
  "world s t \<noteq> [] \<Longrightarrow> result_of (Selection (lift_engine table_engine) t) s = (world s t, None)"
  by (simp_all add: SelectProxy_def TestDelay_def Selection_def lift_engine_def ok_reply_def json_field_def
      to_lower_def lower_char_def result_of_def exec_def)

lemma calm_quiet: "clash_quiet (calm_env now pin)"
  by (simp add: clash_quiet_def calm_env_def lift_engine_def exec_def)

lemma sample_sup [simp]:
  "hasReality (sup sample_sys)" "fallback (sup sample_sys) = zero_fallback"
  "sv_state (sup sample_sys) = zero_state\<lparr>Balance := Some (zero_balance\<lparr>Supported := True\<rparr>), PID := 7,
     StServer := ''node'', StartedAt := 1000\<rparr>"
  "schedule (sup sample_sys) = sample_schedule" "probeGeneration (sup sample_sys) = 0"
  by (simp_all add: sample_sys_def NewSupervisor_def opts_defaults_def sample_opts_def
      initialBalanceStatus_def)

section \<open>Properties\<close>

text \<open>C11: a keepalive or a fresh dial whose leg was left while its request was out is dropped whole: it
  adds no failure, no sample and no publication, and moves no traffic. Any number of leg changes
  below the wrap of the 64-bit generation counter is noticed.\<close>
theorem stale_results_are_dropped:
  assumes "0 < n" and "n < 2 ^ 64"
    and "\<And>arm t. probeGeneration (sup (exec (e_monitor v arm) t)) = probeGeneration (sup t) + of_nat n"
  shows "exec (keepaliveOnce v) s = exec (e_monitor v True) s \<and>
    (\<not> LinkBad (sv_state (sup s)) \<longrightarrow>
      exec (dialOnce v) s = exec (e_monitor v False) (s\<lparr>sup := sup s\<lparr>dialsPaused := False\<rparr>\<rparr>))"
  using assms generations_apart [OF assms(1,2)]
  by (simp add: keepaliveOnce_def dialOnce_def)

definition leg_change_env :: "(string \<Rightarrow> string) env" where
  "leg_change_env = (calm_env 5000 LegAuto)\<lparr>e_monitor := \<lambda>_. do {
     resetKeepaliveCount; State_Monad.return (Some ''timeout'') }\<rparr>"

theorem stale_results_are_dropped_witness:
  "KeepaliveFails (sv_state (sup (exec (keepaliveOnce leg_change_env) sample_sys))) = 0"
proof -
  have "exec (keepaliveOnce leg_change_env) sample_sys = exec (e_monitor leg_change_env True) sample_sys"
    using stale_results_are_dropped [of 1 leg_change_env sample_sys]
    by (simp add: leg_change_env_def exec_reset Let_def)
  then show ?thesis
    by (simp add: leg_change_env_def exec_reset Let_def ResetDials_def)
qed

text \<open>While a leg is pinned by hand no failover moves traffic. Entering the fallback, handing back,
  recovering and the comparative test then send no request and change no field.\<close>
theorem pinned_leg_is_never_moved:
  assumes "e_leg v (world s) \<noteq> LegAuto"
  shows "exec (enterFallback v) s = s \<and> exec (handoffToPrimary v) s = s \<and>
    exec (recoverPrimary v) s = s \<and> exec (considerLegFailover v) s = s"
  using assms
  by (simp add: enterFallback_def handoffToPrimary_def recoverPrimary_def considerLegFailover_def legTestDue_def)

theorem pinned_leg_is_never_moved_witness: "exec (enterFallback (calm_env 5000 LegHy2)) sample_sys = sample_sys"
  using pinned_leg_is_never_moved [of "calm_env 5000 LegHy2" sample_sys] by (simp add: calm_env_def)

lemma fb_leave_on: "fb_on b \<Longrightarrow> fb_leave b now = (True, b\<lparr>fb_on := False, fb_lastBack := now\<rparr>)"
  by (simp add: fb_leave_def)

lemma world_exec_reset [simp]: "world (exec resetKeepaliveCount s) = world s"
  by (simp add: exec_reset Let_def)

text \<open>What entering the fallback does once the lock has been released with the fallback in force.\<close>

lemma exec_enterFallback:
  assumes "clash_quiet v" and "hasReality (sup s)" and "e_leg v (world s) = LegAuto"
    and "\<not> fb_on (fallback (sup s))"
  defines "s0 \<equiv> s\<lparr>sup := (sup s)\<lparr>fallback := snd (fb_enter (fallback (sup s)) (e_now v (world s)))\<rparr>\<rparr>"
    and "target \<equiv> result_of (ladderTarget v) s"
  defines "s1 \<equiv> exec (TestDelay (e_clash v) target (probeURL (sup s)) (probeTimeMs (sup s))) s0"
  shows "exec (enterFallback v) s =
    (let s2 = exec (SelectProxy (e_clash v) ProxySelectorTag target) s1 in
     if result_of (SelectProxy (e_clash v) ProxySelectorTag target) s1 = None
     then exec resetKeepaliveCount (s2\<lparr>sup := (sup s2)\<lparr>spawned := spawned (sup s2) @ [DiagnoseRealityPort]\<rparr>\<rparr>)
     else s2\<lparr>sup := (sup s2)\<lparr>fallback := snd (fb_leave (fallback (sup s2)) (e_now v (world s2)))\<rparr>\<rparr>)"
  using assms
  by (simp add: enterFallback_def beginFallback_def leaveFallback_def enter_counts case_prod_beta Let_def)

text \<open>Entering the fallback is all or nothing. If the engine took the selection, the proxy selector
  is on the ladder rung that the pin or the clock asks for, the fallback is in force, the failure
  streak and the dial window of the old leg are gone and results still in flight for it will be
  dropped. If it refused, the fallback is off again and every recorded observation is kept.\<close>
theorem fallback_entered_or_undone:
  assumes "clash_quiet v" and "selector_engine (e_clash v) (\<lambda>s. member (world s))"
    and "hasReality (sup s)" and "e_leg v (world s) = LegAuto" and "\<not> fb_on (fallback (sup s))"
  shows "(fb_on (fallback (sup (exec (enterFallback v) s))) \<longrightarrow>
      member (world (exec (enterFallback v) s)) ProxySelectorTag = result_of (ladderTarget v) s \<and>
      KeepaliveFails (sv_state (sup (exec (enterFallback v) s))) = 0 \<and>
      DialSamples (sv_state (sup (exec (enterFallback v) s))) = [] \<and>
      probeGeneration (sup (exec (enterFallback v) s)) = probeGeneration (sup s) + 1) \<and>
    (\<not> fb_on (fallback (sup (exec (enterFallback v) s))) \<longrightarrow>
      sv_state (sup (exec (enterFallback v) s)) = sv_state (sup s) \<and>
      probeGeneration (sup (exec (enterFallback v) s)) = probeGeneration (sup s))"
proof -
  let ?t = "result_of (ladderTarget v) s"
  let ?s0 = "s\<lparr>sup := (sup s)\<lparr>fallback := snd (fb_enter (fallback (sup s)) (e_now v (world s)))\<rparr>\<rparr>"
  let ?s1 = "exec (TestDelay (e_clash v) ?t (probeURL (sup s)) (probeTimeMs (sup s))) ?s0"
  let ?s2 = "exec (SelectProxy (e_clash v) ProxySelectorTag ?t) ?s1"
  have sup2: "sup ?s2 = sup ?s0" using assms(1) by (simp add: quiet_client)
  have on: "fb_on (fallback (sup ?s0))" using assms(5) by (simp add: enter_counts)
  note run = exec_enterFallback [OF assms(1,3,4,5)]
  show ?thesis
  proof (cases "result_of (SelectProxy (e_clash v) ProxySelectorTag ?t) ?s1 = None")
    case True
    then have "member (world ?s2) ProxySelectorTag = ?t"
      using selector_engine.select_sets [OF assms(2)] by (simp only: fun_upd_same)
    with True sup2 on show ?thesis
      unfolding run by (simp add: Let_def exec_reset ResetDials_def)
  next
    case False
    then obtain e where "result_of (SelectProxy (e_clash v) ProxySelectorTag ?t) ?s1 = Some e" by blast
    with sup2 on show ?thesis
      unfolding run by (simp add: Let_def fb_leave_on)
  qed
qed

theorem fallback_entered_or_undone_witness:
  "world (exec (enterFallback (calm_env 5000 LegAuto)) sample_sys) ProxySelectorTag = BandwidthRungTag 5"
proof -
  let ?v = "calm_env 5000 LegAuto"
  have m: "selector_engine (e_clash ?v) (\<lambda>s. (\<lambda>w. w) (world s))"
    using lifted.selector_engine_axioms by simp
  have "fb_on (fallback (sup (exec (enterFallback ?v) sample_sys)))"
    by (simp add: exec_enterFallback calm_quiet zero_fallback_def Let_def fb_enter_def exec_reset)
  then show ?thesis
    using fallback_entered_or_undone [OF calm_quiet m, of sample_sys]
    by (simp add: zero_fallback_def result_ladderTarget sample_schedule_def Member_def
        Profile_def Enabled_def inPeak_def)
qed

text \<open>C10: handing traffic back to REALITY commits the route before it forgets anything. If the selection
  fails, the supervisor is exactly as before: still on the fallback, with its evidence. If it
  succeeds, the proxy selector is on REALITY, the fallback is off, and the failure streak and the
  dial window start afresh under a new generation.\<close>
theorem handoff_routes_first:
  assumes "clash_quiet v" and "selector_engine (e_clash v) (\<lambda>s. member (world s))"
    and "e_leg v (world s) = LegAuto" and "\<not> LinkBad (sv_state (sup s))" and "fb_on (fallback (sup s))"
  shows "if result_of (SelectProxy (e_clash v) ProxySelectorTag RealityLegTag) s \<noteq> None
    then sup (exec (handoffToPrimary v) s) = sup s
    else member (world (exec (handoffToPrimary v) s)) ProxySelectorTag = RealityLegTag \<and>
      \<not> fb_on (fallback (sup (exec (handoffToPrimary v) s))) \<and>
      KeepaliveFails (sv_state (sup (exec (handoffToPrimary v) s))) = 0 \<and>
      DialSamples (sv_state (sup (exec (handoffToPrimary v) s))) = [] \<and>
      probeGeneration (sup (exec (handoffToPrimary v) s)) = probeGeneration (sup s) + 1"
proof (cases "result_of (SelectProxy (e_clash v) ProxySelectorTag RealityLegTag) s")
  case None
  let ?s1 = "exec (SelectProxy (e_clash v) ProxySelectorTag RealityLegTag) s"
  have "member (world ?s1) ProxySelectorTag = RealityLegTag"
    using selector_engine.select_sets [OF assms(2) None] by (simp only: fun_upd_same)
  moreover have "sup ?s1 = sup s" using assms(1) by (simp add: quiet_client)
  ultimately show ?thesis
    using assms None
    by (simp add: handoffToPrimary_def exec_release exec_reset Let_def ResetDials_def fb_leave_on)
next
  case (Some e)
  with assms show ?thesis by (simp add: handoffToPrimary_def quiet_client)
qed

definition fallback_sys :: "(string \<Rightarrow> string) sys" where
  "fallback_sys = sample_sys\<lparr>sup := (sup sample_sys)\<lparr>fallback :=
     \<lparr>fb_on = True, fb_since = 1000, fb_lastBack = 0, fb_dwell = 10 * go_minute\<rparr>\<rparr>\<rparr>"

lemma fallback_sys_simps [simp]:
  "hasReality (sup fallback_sys)" "fb_on (fallback (sup fallback_sys))"
  "sv_state (sup fallback_sys) = sv_state (sup sample_sys)"
  by (simp_all add: fallback_sys_def)

theorem handoff_routes_first_witness:
  "\<not> fb_on (fallback (sup (exec (handoffToPrimary (calm_env 5000 LegAuto)) fallback_sys)))"
proof -
  have m: "selector_engine (e_clash (calm_env 5000 LegAuto)) (\<lambda>s. (\<lambda>w. w) (world s))"
    using lifted.selector_engine_axioms by simp
  show ?thesis
    using handoff_routes_first [OF calm_quiet m, of fallback_sys] by (simp add: zero_state_def)
qed

text \<open>An action keeps a condition if its continuation does for every result it can have.\<close>

lemma keeps_bind_result:
  "keeps I m \<Longrightarrow> (\<And>s. keeps I (h (result_of m s))) \<Longrightarrow> keeps I (m \<bind> h)"
  by (simp add: keeps_def)

abbreviation (input) fallback_in_force :: "'w sys \<Rightarrow> bool" where
  "fallback_in_force s \<equiv> fb_on (fallback (sup s))"

lemma on_keeps [mole_frame]:
  "keeps fallback_in_force (st_do f)" "keeps fallback_in_force (writeState v)"
  "keeps fallback_in_force noteHealthLocked" "keeps fallback_in_force (extendFallback v)"
  "keeps fallback_in_force (noteRealityServerDown v r)" "keeps fallback_in_force (enterFallback v)"
  by (simp_all add: keeps_def extendFallback_def fb_extend_def noteRealityServerDown_def enterFallback_def
      beginFallback_def enter_counts case_prod_beta)
    (simp add: fb_enter_def)


definition dead_env :: "(string \<Rightarrow> string) env" where
  "dead_env = (calm_env 2000000000000 LegAuto)\<lparr>e_leg_probe := \<lambda>_ _. State_Monad.return (0, Some ''timeout'')\<rparr>"

lemma dead_probe: "snd (result_of (probeLeg dead_env p) t) \<noteq> None" "exec (probeLeg dead_env p) t = t"
  by (simp_all add: probeLeg_def dead_env_def)

lemma dead_verify: "result_of (verifyPrimary dead_env) t \<noteq> None"
  using dead_probe [of 8098 t]
  by (simp add: verifyPrimary_def verifyLegRecovery_def result_of_def exec_def numeral_3_eq_3 case_prod_beta Let_def)

lemma calm_keeps: "(\<And>w x. I (w\<lparr>world := x\<rparr>) = I w) \<Longrightarrow> env_keeps I (calm_env now pin)"
  by (simp add: env_keeps_def keeps_def calm_env_def lift_engine_def) (simp add: exec_def)


text \<open>A refused REALITY port is the server's fault and is treated as such: the due return then sends
  no selection, restarts the dwell from the time of the refusal, publishes the finding, and keeps
  the streak and the samples.\<close>
theorem refused_port_extends_the_fallback:
  assumes "hasReality (sup s)" and "\<not> LinkBad (sv_state (sup s))"
    and "fb_dueBack (fallback (sup s)) (e_now v (world s))" and "realityAddr (sup s) \<noteq> []"
    and "run_state (e_tcp v (realityAddr (sup s)) (probeTimeMs (sup s))) s = ((rtt, ProbeRefused, perr), s')"
    and "sup s' = sup s"
  shows "sup (exec (tryReturnToPrimary v) s) = (sup s)\<lparr>
      sv_state := (sv_state (sup s))\<lparr>RealityServerDown := refused_reason rtt\<rparr>,
      fallback := (fallback (sup s))\<lparr>fb_since := e_now v (world s')\<rparr>\<rparr> \<and>
    world (exec (tryReturnToPrimary v) s) = world s' \<and>
    \<not> fb_dueBack (fallback (sup (exec (tryReturnToPrimary v) s))) (e_now v (world s') + fb_dwell (fallback (sup s)) - 1)"
proof -
  have tcp: "result_of (e_tcp v (realityAddr (sup s)) (probeTimeMs (sup s))) s = (rtt, ProbeRefused, perr)"
    "exec (e_tcp v (realityAddr (sup s)) (probeTimeMs (sup s))) s = s'"
    using assms(5) by (simp_all add: result_of_def exec_def)
  have on: "fb_on (fallback (sup s))" using assms(3) by (simp add: fb_dueBack_def)
  show ?thesis
    using assms(1-4,6) on
    by (simp add: tryReturnToPrimary_def tcp noteRealityServerDown_def extendFallback_def fb_extend_def
        fb_dueBack_def)
qed

theorem refused_port_extends_the_fallback_witness:
  "RealityServerDown (sv_state (sup (exec (tryReturnToPrimary
     (dead_env\<lparr>e_tcp := \<lambda>_ _. State_Monad.return (3 * go_ms, ProbeRefused, Some ''refused'')\<rparr>)) fallback_sys)))
   = ''connection refused in 3ms''"
proof -
  let ?v = "dead_env\<lparr>e_tcp := \<lambda>_ _. State_Monad.return (3 * go_ms, ProbeRefused, Some ''refused'')\<rparr>"
  have "sup (exec (tryReturnToPrimary ?v) fallback_sys) = (sup fallback_sys)\<lparr>
      sv_state := (sv_state (sup fallback_sys))\<lparr>RealityServerDown := refused_reason (3 * go_ms)\<rparr>,
      fallback := (fallback (sup fallback_sys))\<lparr>fb_since := e_now ?v (world fallback_sys)\<rparr>\<rparr>"
    using refused_port_extends_the_fallback [of fallback_sys ?v "3 * go_ms" "Some ''refused''" fallback_sys]
    by (simp add: zero_state_def fb_dueBack_def fallback_sys_def sample_sys_def NewSupervisor_def
        sample_opts_def opts_defaults_def dead_env_def)
  moreover have "refused_reason (3 * go_ms) = ''connection refused in 3ms''"
    by code_simp
  ultimately show ?thesis by simp
qed

end
