(* ===== verification/Scheduler.thy ===== *)
theory Scheduler
  imports Handlers
begin

text \<open>
  The loops of core/supervisor.go that act on a tick: the bandwidth scheduler (runBandwidthScheduler
  with its apply and retune), the restart backoff of runLifecycle and the wait for the control API.
  The local variables of the scheduler's goroutine are a record that apply and retune return.
\<close>

section \<open>The scheduler's variables\<close>

record scheduler =
  applied :: string
  pushedRate :: int
  pushedAt :: go_time
  unconfirmed :: nat
  warnedPin :: int
  sc_heal :: healState

definition zero_scheduler :: scheduler where
  "zero_scheduler = \<lparr>applied = [], pushedRate = 0, pushedAt = 0, unconfirmed = 0, warnedPin = 0,
     sc_heal = zero_heal\<rparr>"

abbreviation (input) brutalGiveUp :: nat where "brutalGiveUp \<equiv> 2"

section \<open>Choosing the rung\<close>

text \<open>The clock or a pin that names a rung, then the descent: member, profile name and ceiling.\<close>

definition base_choice :: "BandwidthSchedule \<Rightarrow> int \<Rightarrow> int \<Rightarrow> string \<times> string \<times> int" where
  "base_choice sched hour pin =
     (let member = Member sched hour; (name, _, down) = Profile sched hour in
      if pin > 0 \<and> HasRung sched pin then (BandwidthRungTag pin, ''pinned'', pin) else (member, name, down))"

definition rung_choice :: "BandwidthSchedule \<Rightarrow> int \<Rightarrow> int \<Rightarrow> nat \<Rightarrow> string \<times> string \<times> int" where
  "rung_choice sched hour pin backoff =
     (let (member, name, down) = base_choice sched hour pin in
      if backoff > 0 then
        (let lower = StepDown sched down backoff in
         if lower > 0 \<and> lower \<noteq> down
         then (BandwidthRungTag lower, name @ down_arrow @ itoa (int backoff), lower)
         else (member, name, down))
      else (member, name, down))"

definition note_bad_pin :: "BandwidthSchedule \<Rightarrow> int \<Rightarrow> scheduler \<Rightarrow> scheduler" where
  "note_bad_pin sched pin sc =
     (if pin > 0 then (if HasRung sched pin then sc\<lparr>warnedPin := 0\<rparr> else sc\<lparr>warnedPin := pin\<rparr>) else sc)"

section \<open>Choosing the leg\<close>

definition preferHy2 :: "State \<Rightarrow> bool" where
  "preferHy2 st = (case Balance st of None \<Rightarrow> False
     | Some b \<Rightarrow> BalEnabled b \<and> Hy2Lanes b \<ge> go_div BalanceLanes 2)"

definition leg_choice :: "'w env \<Rightarrow> string \<Rightarrow> string \<Rightarrow> int \<Rightarrow> ('w sys, string \<times> string) state" where
  "leg_choice v member name down = do {
     pin \<leftarrow> asks (e_leg v);
     fb \<leftarrow> onFallback;
     (case pin of
        LegBoth \<Rightarrow> do {
          only_if fb (releaseFallback v);
          hy2 \<leftarrow> st_field preferHy2;
          if hy2 then do {
            (live, e) \<leftarrow> Selection (e_clash v) Hy2ProbeSelectorTag;
            State_Monad.return (if e = None then live else BandwidthRungTag down, ''both/'' @ name)
          } else State_Monad.return (RealityLegTag, ''both/'' @ name)
        }
      | LegReality \<Rightarrow> do {
          only_if fb (releaseFallback v);
          State_Monad.return (RealityLegTag, ''leg-reality'')
        }
      | LegHy2 \<Rightarrow> do {
          only_if fb (releaseFallback v);
          State_Monad.return (member, ''leg-hy2/'' @ name)
        }
      | LegAuto \<Rightarrow> do {
          has \<leftarrow> field hasReality;
          if has then do {
            tryReturnToPrimary v;
            fb \<leftarrow> onFallback;
            State_Monad.return (if fb then (member, ''fallback-hy2/'' @ name)
                                else (RealityLegTag, ''reality/'' @ name))
          } else State_Monad.return (member, name)
        })
   }"

section \<open>Pacing REALITY\<close>

text \<open>The keeper is asked when the rate changed or ten minutes have passed; the first result is
  whether it was, the second the scheduler's new variables.\<close>

definition push_pacing :: "'w env \<Rightarrow> int \<Rightarrow> scheduler \<Rightarrow> ('w sys, bool \<times> scheduler) state" where
  "push_pacing v down sc = do {
     own \<leftarrow> field realityRateMbps;
     has \<leftarrow> field hasReality;
     now \<leftarrow> asks (e_now v);
     ms \<leftarrow> field probeTimeMs;
     let tcpRate = (if own > 0 then own else down);
     if has \<and> tcpRate > 0 \<and> (tcpRate \<noteq> pushedRate sc \<or> time_sub now (pushedAt sc) > 10 * go_minute) then do {
       (res, err) \<leftarrow> e_push v tcpRate ms;
       now \<leftarrow> asks (e_now v);
       let confirmed = (err = None \<and> Applied res \<noteq> 0);
       let sc = (if confirmed then sc\<lparr>pushedRate := tcpRate, pushedAt := now, unconfirmed := 0\<rparr>
                 else sc\<lparr>unconfirmed := unconfirmed sc + 1\<rparr>);
       only_if confirmed (do {
         st_do (\<lambda>st. st\<lparr>RealityRateMbps := tcpRate\<rparr>);
         sup_do (\<lambda>u. u\<lparr>brutalUnpaced := False\<rparr>)
       });
       only_if (unconfirmed sc \<ge> brutalGiveUp) (sup_do (\<lambda>u. u\<lparr>brutalUnpaced := True\<rparr>));
       st_do (\<lambda>st. if unconfirmed sc > 0
         then st\<lparr>RealityPacingState := ''unconfirmed'',
                 RealityPacingError := (case err of Some e \<Rightarrow> e | None \<Rightarrow> Detail res)\<rparr>
         else st\<lparr>RealityPacingState := ''confirmed'', RealityPacingError := []\<rparr>);
       State_Monad.return (True, sc)
     } else State_Monad.return (False, sc)
   }"

section \<open>Applying\<close>

text \<open>Switching the proxy selector; the result tells whether apply goes on or returns.\<close>

definition switch_member :: "'w env \<Rightarrow> 64 word \<Rightarrow> string \<Rightarrow> string \<Rightarrow> ('w sys, bool) state" where
  "switch_member v generation was member = do {
     (live, err) \<leftarrow> Selection (e_clash v) ProxySelectorTag;
     let live = (if err \<noteq> None then was else live);
     if member \<noteq> live then do {
       url \<leftarrow> field probeURL;
       ms \<leftarrow> field probeTimeMs;
       TestDelay (e_clash v) member url ms;
       current \<leftarrow> field probeGeneration;
       if generation \<noteq> current then State_Monad.return False
       else do {
         err \<leftarrow> SelectProxy (e_clash v) ProxySelectorTag member;
         State_Monad.return (err = None)
       }
     } else State_Monad.return True
   }"

definition publish_profile :: "'w env \<Rightarrow> string \<Rightarrow> int \<Rightarrow> bool \<Rightarrow> ('w sys, unit) state" where
  "publish_profile v name down pacingChanged = do {
     stale \<leftarrow> st_field (\<lambda>st. BandwidthProfile st \<noteq> name \<or> BandwidthDownMbps st \<noteq> down);
     only_if stale (st_do (\<lambda>st. st\<lparr>BandwidthProfile := name, BandwidthDownMbps := down\<rparr>));
     only_if (stale \<or> pacingChanged) (writeState v)
   }"

definition apply_tick :: "'w env \<Rightarrow> scheduler \<Rightarrow> ('w sys, scheduler) state" where
  "apply_tick v sc = do {
     generation \<leftarrow> field probeGeneration;
     sched \<leftarrow> field schedule;
     hour \<leftarrow> asks (e_hour v);
     pin \<leftarrow> asks (e_ceiling v);
     let sc = note_bad_pin sched pin sc;
     let sc = sc\<lparr>sc_heal := heal_retarget (sc_heal sc) pin\<rparr>;
     let (member, name, down) = rung_choice sched hour pin (h_backoff (sc_heal sc));
     (member, name) \<leftarrow> leg_choice v member name down;
     (pacingChanged, sc) \<leftarrow> push_pacing v down sc;
     go \<leftarrow> switch_member v generation (applied sc) member;
     if \<not> go then State_Monad.return sc
     else do {
       publish_profile v name down pacingChanged;
       State_Monad.return (sc\<lparr>applied := member\<rparr>)
     }
   }"

definition retune :: "'w env \<Rightarrow> scheduler \<Rightarrow> ('w sys, scheduler) state" where
  "retune v sc = do {
     h \<leftarrow> st_field state_health;
     sightings \<leftarrow> e_take v;
     State_Monad.return (sc\<lparr>sc_heal :=
       (if h = HealthNoLink \<or> h = HealthLocalLink then heal_freeze (sc_heal sc)
        else heal_tick (sc_heal sc) (Usable h) (sightings > 0) (h = HealthPathDead))\<rparr>)
   }"

definition scheduler_tick :: "'w env \<Rightarrow> scheduler \<Rightarrow> ('w sys, scheduler) state" where
  "scheduler_tick v sc = do { sc \<leftarrow> retune v sc; apply_tick v sc }"

section \<open>Restarting the engine\<close>

text \<open>runLifecycle after an exit: how long to wait before the restart, and the next backoff.\<close>

definition lifecycle_exit :: "go_duration \<Rightarrow> go_duration \<Rightarrow> go_duration \<times> go_duration" where
  "lifecycle_exit backoff runFor =
     (let backoff = (if runFor > 30 * go_second then go_second else backoff);
          next = backoff * 2
      in (backoff, if next > 60 * go_second then 60 * go_second else next))"

fun lifecycle_waits :: "go_duration \<Rightarrow> go_duration list \<Rightarrow> go_duration list" where
  "lifecycle_waits backoff [] = []"
| "lifecycle_waits backoff (r # rs) =
     (let (wait, next) = lifecycle_exit backoff r in wait # lifecycle_waits next rs)"

section \<open>Waiting for the control API\<close>

text \<open>
  The polling loop of waitClashReady with the number of polls as fuel: None when it runs out,
  otherwise the error the function returns.
\<close>

fun wait_ready :: "'w env \<Rightarrow> go_time \<Rightarrow> nat \<Rightarrow> ('w sys, go_error option) state" where
  "wait_ready v deadline 0 = State_Monad.return None"
| "wait_ready v deadline (Suc n) = do {
     err \<leftarrow> Ping (e_clash v);
     now \<leftarrow> asks (e_now v);
     if err = None then State_Monad.return (Some None)
     else if now > deadline then State_Monad.return (Some (Some ''timed out waiting for clash api''))
     else do {
       e_sleep v (500 * go_ms);
       halted \<leftarrow> field stopped;
       if halted then State_Monad.return (Some (Some ''stopped''))
       else wait_ready v deadline n
     }
   }"

definition waitClashReady :: "'w env \<Rightarrow> go_duration \<Rightarrow> nat \<Rightarrow> ('w sys, go_error option) state" where
  "waitClashReady v timeout fuel = do {
     now \<leftarrow> asks (e_now v);
     wait_ready v (now + timeout) fuel
   }"

lemma wait_ready_returns:
  assumes "\<And>t. e_now v (world t) \<le> e_now v (world (exec (Ping (e_clash v)) t))"
    and "\<And>t. e_now v (world t) + 500 * go_ms \<le> e_now v (world (exec (e_sleep v (500 * go_ms)) t))"
    and "deadline - e_now v (world s) < int n * (500 * go_ms)"
  shows "result_of (wait_ready v deadline (Suc n)) s \<noteq> None"
  using assms(3)
proof (induction n arbitrary: s)
  case 0
  then show ?case using assms(1) [of s] by simp
next
  case (Suc n)
  let ?s1 = "exec (Ping (e_clash v)) s"
  let ?s2 = "exec (e_sleep v (500 * go_ms)) ?s1"
  have "deadline - e_now v (world ?s2) < int n * (500 * go_ms)"
    using Suc.prems assms(1) [of s] assms(2) [of ?s1] by (simp add: algebra_simps)
  from Suc.IH [OF this] show ?case by (simp del: result_of_bind add: result_of_bind)
qed

section \<open>Properties\<close>

text \<open>Waiting for the control API always ends. If the clock never runs backwards and half a second
  of sleep takes at least half a second, then timeout / 500 ms + 2 polls suffice for an answer.\<close>
theorem waitClashReady_returns:
  assumes "\<And>t. e_now v (world t) \<le> e_now v (world (exec (Ping (e_clash v)) t))"
    and "\<And>t. e_now v (world t) + 500 * go_ms \<le> e_now v (world (exec (e_sleep v (500 * go_ms)) t))"
    and "0 \<le> timeout" and "fuel \<ge> nat (timeout div (500 * go_ms)) + 2"
  shows "result_of (waitClashReady v timeout fuel) s \<noteq> None"
proof -
  obtain n where n: "fuel = Suc n" "nat (timeout div (500 * go_ms)) + 1 \<le> n"
    using assms(4) by (cases fuel) auto
  have "timeout < (timeout div (500 * go_ms) + 1) * (500 * go_ms)"
    by (simp add: algebra_simps)
  also have "\<dots> \<le> int n * (500 * go_ms)"
    using n(2) assms(3) by (intro mult_right_mono) auto
  finally show ?thesis
    using wait_ready_returns [OF assms(1,2), of "e_now v (world s) + timeout" s n]
    by (simp add: waitClashReady_def n(1) del: wait_ready.simps)
qed

text \<open>An engine that never answers, in a world that is its clock.\<close>

definition silent_env :: "int env" where
  "silent_env =
     \<lparr>e_now = \<lambda>w. w, e_leg = \<lambda>_. LegAuto, e_ceiling = \<lambda>_. 0, e_pid = \<lambda>_. 7, e_hour = \<lambda>_. 12,
      e_dials = \<lambda>_. \<lparr>nd_sequence = 0, nd_last = 0\<rparr>, e_flood = \<lambda>_. \<lparr>snap_sequence = 0, snap_last = 0\<rparr>,
      e_take = State_Monad.return 0,
      e_clash = \<lambda>_. State_Monad.return (NoResponse ''connection refused''),
      e_monitor = \<lambda>_. State_Monad.return (Some ''timeout''),
      e_leg_probe = \<lambda>_ _. State_Monad.return (0, Some ''timeout''),
      e_egress_probe = \<lambda>_ _. State_Monad.return (0, Some ''timeout''),
      e_sleep = \<lambda>d. modify (\<lambda>s. s\<lparr>world := world s + d\<rparr>),
      e_tcp = \<lambda>_ _. State_Monad.return (0, ProbeSilent, Some ''timeout''),
      e_udp = \<lambda>_ _. State_Monad.return (0, ProbeSilent, Some ''timeout''),
      e_push = \<lambda>_ _. State_Monad.return (\<lparr>Reachable = False, Rate = 0, Applied = 0, Peers = 0, Detail = []\<rparr>, Some ''timeout'')\<rparr>"

theorem waitClashReady_returns_witness:
  "\<forall>s. result_of (waitClashReady silent_env (10 * go_second) 22) s \<noteq> None"
  using waitClashReady_returns [of silent_env "10 * go_second" 22] by (simp add: silent_env_def Ping_def)

text \<open>A crashing engine is restarted after 1, 2, 4, ... seconds and never later than after a minute:
  the wait before restart number i of an engine that never lives for more than half a minute is
  2^i seconds, capped at sixty.\<close>
theorem restart_backoff_doubles:
  assumes "\<forall>r \<in> set lives. r \<le> 30 * go_second" and "i < length lives"
  shows "lifecycle_waits go_second lives ! i = min (2 ^ i * go_second) (60 * go_second)"
proof -
  have "lifecycle_waits (min (2 ^ k * go_second) (60 * go_second)) rs ! i
      = min (2 ^ (k + i) * go_second) (60 * go_second)"
    if "\<forall>r \<in> set rs. r \<le> 30 * go_second" and "i < length rs" for k rs i
    using that
  proof (induction rs arbitrary: k i)
    case (Cons r rs)
    have doubled: "lifecycle_exit (min (2 ^ k * go_second) (60 * go_second)) r
        = (min (2 ^ k * go_second) (60 * go_second), min (2 ^ Suc k * go_second) (60 * go_second))"
      using Cons.prems(1) by (auto simp: lifecycle_exit_def Let_def)
    show ?case
      using Cons.IH [of "i - 1" "Suc k"] Cons.prems by (cases i) (auto simp: doubled [simplified])
  qed simp
  from this [OF assms, of 0] show ?thesis by simp
qed

theorem restart_backoff_doubles_witness: "lifecycle_waits go_second [5, 5, 5, 5] ! 3 = 8 * go_second"
  using restart_backoff_doubles [of "[5, 5, 5, 5]" 3] by simp

section \<open>What a tick routes and publishes\<close>

lemma base_choice_rung:
  assumes "OffDown sched > 0"
  shows "\<exists>name down. base_choice sched h pin = (BandwidthRungTag down, name, down) \<and> HasRung sched down \<and>
    (pin > 0 \<and> HasRung sched pin \<longrightarrow> down = pin)"
  using assms
  by (auto simp: base_choice_def Member_def Profile_def Enabled_def HasRung_iff set_Rungs)

text \<open>Every rung the scheduler chooses is one the configuration carries, and the member is its tag.
  The descent never raises the ceiling above what the clock or a pin on the ladder asks for, and
  without a descent it is exactly that.\<close>
theorem scheduler_rung_exists:
  assumes "OffDown sched > 0"
  shows "case (base_choice sched h pin, rung_choice sched h pin b) of
    ((_, _, asked), (member, _, down)) \<Rightarrow>
      member = BandwidthRungTag down \<and> HasRung sched down \<and> down \<le> asked \<and>
      (pin > 0 \<and> HasRung sched pin \<longrightarrow> asked = pin) \<and> (b = 0 \<longrightarrow> down = asked)"
proof -
  obtain name asked where base: "base_choice sched h pin = (BandwidthRungTag asked, name, asked)"
    and rung: "HasRung sched asked" and pinned: "pin > 0 \<and> HasRung sched pin \<longrightarrow> asked = pin"
    using base_choice_rung [OF assms] by blast
  have "Rungs sched \<noteq> []" using assms by (simp add: Rungs_Nil_iff)
  then have "HasRung sched (StepDown sched asked b)" "StepDown sched asked b \<le> asked"
    using brutal_ladder.step_down_never_rises [OF assms] rung StepDown_mem by (auto simp: HasRung_iff)
  with rung pinned show ?thesis
    by (simp add: rung_choice_def base Let_def)
qed

theorem scheduler_rung_exists_witness: "fst (rung_choice sample_schedule 14 0 2) = BandwidthRungTag 2"
proof -
  have "rung_choice sample_schedule 14 0 2 = (BandwidthRungTag 2, ''peak'' @ down_arrow @ ''2'', 2)"
    by code_simp
  then show ?thesis
    using scheduler_rung_exists [of sample_schedule 14 0 2] by (simp add: sample_schedule_def)
qed

text \<open>Nothing else changes the supervisor or the pins while the scheduler waits.\<close>

definition tick_quiet :: "'w env \<Rightarrow> ('w \<Rightarrow> string \<Rightarrow> string) \<Rightarrow> bool" where
  "tick_quiet v member =
     (clash_quiet v \<and> selector_engine (e_clash v) (\<lambda>s. member (world s)) \<and>
      (\<forall>s. member (world s) ProxySelectorTag \<noteq> [] \<longrightarrow>
         snd (result_of (Selection (e_clash v) ProxySelectorTag) s) = None) \<and>
      (\<forall>r ms s. sup (exec (e_push v r ms) s) = sup s \<and> e_leg v (world (exec (e_push v r ms) s)) = e_leg v (world s) \<and>
         member (world (exec (e_push v r ms) s)) = member (world s)))"

definition tick_target :: "leg_pin \<Rightarrow> bool \<Rightarrow> string \<Rightarrow> string" where
  "tick_target pin has member =
     (case pin of LegHy2 \<Rightarrow> member | LegReality \<Rightarrow> RealityLegTag
      | _ \<Rightarrow> if has then RealityLegTag else member)"

lemma push_pacing_frame:
  assumes "tick_quiet v member"
  shows "member (world (exec (push_pacing v down sc) s)) = member (world s)"
    "probeGeneration (sup (exec (push_pacing v down sc) s)) = probeGeneration (sup s)"
    "applied (snd (result_of (push_pacing v down sc) s)) = applied sc"
    "fallback (sup (exec (push_pacing v down sc) s)) = fallback (sup s)"
  using assms
  by (simp_all add: tick_quiet_def push_pacing_def Let_def case_prod_beta)

lemma leg_choice_calm:
  assumes "\<not> fb_on (fallback (sup s))" and "e_leg v (world s) \<noteq> LegBoth"
  shows "exec (leg_choice v member name down) s = s"
    "fst (result_of (leg_choice v member name down) s) = tick_target (e_leg v (world s)) (hasReality (sup s)) member"
  using assms
  by (auto simp: leg_choice_def tick_target_def tryReturnToPrimary_def fb_dueBack_def split: leg_pin.splits)

lemma switch_member_calm:
  assumes "tick_quiet v member" and "generation = probeGeneration (sup s)"
    and "member (world s) ProxySelectorTag \<noteq> []"
  shows "sup (exec (switch_member v generation was m) s) = sup s"
    "result_of (switch_member v generation was m) s \<longrightarrow>
       member (world (exec (switch_member v generation was m) s)) ProxySelectorTag = m"
    "(\<forall>t. result_of (SelectProxy (e_clash v) ProxySelectorTag m) t = None) \<Longrightarrow>
       result_of (switch_member v generation was m) s"
proof -
  note eng = assms(1) [unfolded tick_quiet_def]
  then have api: "selector_engine (e_clash v) (\<lambda>s. member (world s))" by blast
  obtain live where live: "result_of (Selection (e_clash v) ProxySelectorTag) s = (live, None)"
    using eng assms(3) by (metis prod.collapse)
  let ?s1 = "exec (Selection (e_clash v) ProxySelectorTag) s"
  let ?s2 = "exec (TestDelay (e_clash v) m (probeURL (sup s)) (probeTimeMs (sup s))) ?s1"
  have told: "member (world s) ProxySelectorTag = live"
    by (rule selector_engine.selection_tells [OF api live])
  have kept: "member (world ?s1) = member (world s)"
    by (rule selector_engine.selection_keeps [OF api])
  have sups: "sup ?s1 = sup s" "sup ?s2 = sup s" "\<And>t x. sup (exec (SelectProxy (e_clash v) t x) ?s2) = sup s"
    using eng by (simp_all add: quiet_client)
  show "sup (exec (switch_member v generation was m) s) = sup s"
    using assms(2) by (simp add: switch_member_def live sups Let_def)
  have set: "member (world (exec (SelectProxy (e_clash v) ProxySelectorTag m) ?s2)) ProxySelectorTag = m"
    if "result_of (SelectProxy (e_clash v) ProxySelectorTag m) ?s2 = None"
    using selector_engine.select_sets [OF api that] by simp
  show "result_of (switch_member v generation was m) s \<longrightarrow>
       member (world (exec (switch_member v generation was m) s)) ProxySelectorTag = m"
    using assms(2) set by (simp add: switch_member_def live sups Let_def told kept)
  show "(\<forall>t. result_of (SelectProxy (e_clash v) ProxySelectorTag m) t = None) \<Longrightarrow>
       result_of (switch_member v generation was m) s"
    using assms(2) by (simp add: switch_member_def live sups Let_def)
qed

lemma exec_publish_profile:
  "world (exec (publish_profile v name down p) s) = world s \<and>
   BandwidthDownMbps (sv_state (sup (exec (publish_profile v name down p) s))) = down \<and>
   BandwidthProfile (sv_state (sup (exec (publish_profile v name down p) s))) = name"
  by (simp add: publish_profile_def)

lemma push_pacing_profile:
  assumes "tick_quiet v member"
  shows "BandwidthDownMbps (sv_state (sup (exec (push_pacing v down sc) s))) = BandwidthDownMbps (sv_state (sup s))"
    "BandwidthProfile (sv_state (sup (exec (push_pacing v down sc) s))) = BandwidthProfile (sv_state (sup s))"
  using assms by (simp_all add: tick_quiet_def push_pacing_def Let_def case_prod_beta)


lemma sample_world [simp]: "world sample_sys = (\<lambda>_. RealityLegTag)" "RealityLegTag \<noteq> []"
  by (simp_all add: sample_sys_def RealityLegTag_def)

lemma calm_tick_quiet: "tick_quiet (calm_env now pin) (\<lambda>w. w)"
  using calm_quiet [of now pin] lifted.selector_engine_axioms
  by (simp add: tick_quiet_def) (simp add: calm_env_def)


lemma switch_member_stale:
  assumes "tick_quiet v member" and "generation \<noteq> probeGeneration (sup s)"
    and "member (world s) ProxySelectorTag \<notin> {[], m}"
  shows "\<not> result_of (switch_member v generation was m) s"
    "member (world (exec (switch_member v generation was m) s)) = member (world s)"
    "sup (exec (switch_member v generation was m) s) = sup s"
proof -
  note eng = assms(1) [unfolded tick_quiet_def]
  then have api: "selector_engine (e_clash v) (\<lambda>s. member (world s))" by blast
  obtain live where live: "result_of (Selection (e_clash v) ProxySelectorTag) s = (live, None)"
    using eng assms(3) by (metis insertCI prod.collapse)
  have "live \<noteq> m"
    using selector_engine.selection_tells [OF api live] assms(3) by auto
  moreover have "sup (exec (Selection (e_clash v) ProxySelectorTag) t) = sup t"
    "sup (exec (TestDelay (e_clash v) m p ms) t) = sup t" for t p ms
    using eng by (simp_all add: quiet_client)
  moreover have "member (world (exec (Selection (e_clash v) ProxySelectorTag) t)) = member (world t)"
    "member (world (exec (TestDelay (e_clash v) m p ms) t)) = member (world t)" for t p ms
    using selector_engine.selection_keeps [OF api] selector_engine.delay_keeps [OF api] by auto
  ultimately show "\<not> result_of (switch_member v generation was m) s"
    "member (world (exec (switch_member v generation was m) s)) = member (world s)"
    "sup (exec (switch_member v generation was m) s) = sup s"
    using assms(2) by (simp_all add: switch_member_def live Let_def)
qed

text \<open>A pin that ends a fallback is not routed by the tick that ends it. Releasing the fallback
  starts a new probe generation, and the tick then takes its own release for a concurrent change
  of the leg: it returns before the selection, with traffic still on the rung of the fallback and
  the profile unpublished. The tick after it routes.\<close>
theorem pin_release_defers_routing:
  assumes "tick_quiet v member" and "hasReality (sup s)" and "fb_on (fallback (sup s))"
    and "e_leg v (world s) = LegReality" and "member (world s) ProxySelectorTag \<notin> {[], RealityLegTag}"
  shows "member (world (exec (apply_tick v sc) s)) ProxySelectorTag = member (world s) ProxySelectorTag \<and>
    \<not> fb_on (fallback (sup (exec (apply_tick v sc) s))) \<and>
    applied (result_of (apply_tick v sc) s) = applied sc"
proof -
  let ?pin = "e_ceiling v (world s)"
  obtain rung name down where choice: "rung_choice (schedule (sup s)) (e_hour v (world s)) ?pin
      (h_backoff (heal_retarget (sc_heal sc) ?pin)) = (rung, name, down)"
    by (metis prod.collapse)
  let ?sc = "(note_bad_pin (schedule (sup s)) ?pin sc)\<lparr>sc_heal := heal_retarget (sc_heal sc) ?pin\<rparr>"
  have heal: "sc_heal (note_bad_pin (schedule (sup s)) ?pin sc) = sc_heal sc" "applied ?sc = applied sc"
    by (simp_all add: note_bad_pin_def)
  let ?s1 = "exec (releaseFallback v) s"
  have leg: "exec (leg_choice v rung name down) s = ?s1"
    "result_of (leg_choice v rung name down) s = (RealityLegTag, ''leg-reality'')"
    using assms(2-4) by (simp_all add: leg_choice_def)
  have s1: "probeGeneration (sup ?s1) = probeGeneration (sup s) + 1" "world ?s1 = world s" "\<not> fb_on (fallback (sup ?s1))"
    using assms(3) by (simp_all add: exec_release exec_reset Let_def fb_leave_on)
  obtain pc sc1 where push: "result_of (push_pacing v down ?sc) ?s1 = (pc, sc1)"
    by (metis prod.collapse)
  then have app: "applied sc1 = applied sc"
    using push_pacing_frame(3) [OF assms(1), of down ?sc ?s1] heal by simp
  let ?s2 = "exec (push_pacing v down ?sc) ?s1"
  have s2: "member (world ?s2) = member (world s)" "probeGeneration (sup ?s2) = probeGeneration (sup s) + 1"
    "\<not> fb_on (fallback (sup ?s2))"
    using s1 push_pacing_frame [OF assms(1)] by simp_all
  then have gen: "probeGeneration (sup s) \<noteq> probeGeneration (sup ?s2)" by simp
  note sw = switch_member_stale [OF assms(1) gen, of RealityLegTag "applied sc"]
  show ?thesis
    using assms(5) choice leg push app s2 sw by (simp add: apply_tick_def heal Let_def)
qed

theorem pin_release_defers_routing_witness:
  "\<exists>s. world s ProxySelectorTag = BandwidthRungTag 5 \<and> \<not> fb_on (fallback (sup s)) \<and>
     s = exec (apply_tick (calm_env 5000 LegReality) zero_scheduler)
           (fallback_sys\<lparr>world := (\<lambda>_. BandwidthRungTag 5)\<rparr>)"
  using pin_release_defers_routing [OF calm_tick_quiet [of 5000 LegReality],
      of "fallback_sys\<lparr>world := (\<lambda>_. BandwidthRungTag 5)\<rparr>" zero_scheduler]
  by (simp add: BandwidthRungTag_def RealityLegTag_def)

end
