(* ===== verification/Balance_Control.thy ===== *)
theory Balance_Control
  imports Handlers
begin

text \<open>
  core/balance_controller.go: one beat of the dual routing. It steers the hysteria2 rung under
  UDP pressure, measures both legs, decides the lanes, writes them and publishes the allocation.
  The two probes of a beat run at the same time in the code; here REALITY's comes first, and no
  result depends on it because each leg has its own record.
\<close>

definition publishBalance :: "'w env \<Rightarrow> BalanceStatus \<Rightarrow> ('w sys, unit) state" where
  "publishBalance v status = do {
     st_do (\<lambda>st. st\<lparr>Balance := Some status\<rparr>);
     writeState v
   }"

definition balanceError :: "'w env \<Rightarrow> string \<Rightarrow> ('w sys, unit) state" where
  "balanceError v e = do {
     status \<leftarrow> st_field (\<lambda>st. case Balance st of None \<Rightarrow> zero_balance\<lparr>Supported := True\<rparr> | Some b \<Rightarrow> b);
     publishBalance v (status\<lparr>BalError := e\<rparr>)
   }"

text \<open>The pin is no longer both: put every lane back on the main selector.\<close>

definition balance_leave :: "'w env \<Rightarrow> balancePolicy \<Rightarrow> ('w sys, balancePolicy) state" where
  "balance_leave v p = do {
     enabled \<leftarrow> st_field (\<lambda>st. case Balance st of None \<Rightarrow> False | Some b \<Rightarrow> BalEnabled b);
     if \<not> enabled then State_Monad.return p
     else do {
       (changed, err) \<leftarrow> ApplyBalancedLanes (e_clash v) (- 1);
       (case err of
          Some e \<Rightarrow> do { balanceError v e; State_Monad.return p }
        | None \<Rightarrow> do {
            publishBalance v (zero_balance\<lparr>Supported := True\<rparr>);
            resetKeepaliveCount;
            State_Monad.return zero_policy
          })
     }
   }"

text \<open>The rung that should carry hysteria2 now: the published ceiling if it is a rung.\<close>

definition balance_desired :: "'w env \<Rightarrow> ('w sys, string) state" where
  "balance_desired v = do {
     target \<leftarrow> ladderTarget v;
     down \<leftarrow> st_field BandwidthDownMbps;
     sched \<leftarrow> field schedule;
     State_Monad.return (if HasRung sched down then BandwidthRungTag down else target)
   }"

text \<open>Under pressure the rung is lowered, the selector follows, and a cooling leg gets no new UDP
  flows while it is probed. The result is the target or the error.\<close>

definition balance_rung :: "'w env \<Rightarrow> balancePolicy \<Rightarrow> ('w sys, (string + string) \<times> balancePolicy) state" where
  "balance_rung v p = do {
     target \<leftarrow> balance_desired v;
     (live, err) \<leftarrow> Selection (e_clash v) Hy2ProbeSelectorTag;
     now \<leftarrow> asks (e_now v);
     event \<leftarrow> asks (e_flood v);
     sched \<leftarrow> field schedule;
     (case err of
        Some e \<Rightarrow> State_Monad.return (Inl e, p)
      | None \<Rightarrow> do {
          let (guarded, pressure) = pressure_target (bp_pressure p) event now (BandwidthRungMbps live)
                (BandwidthRungMbps target) sched (bl_healthy (bp_hy2 p) \<and> bl_slow (bp_hy2 p) = 0);
          let p = p\<lparr>bp_pressure := pressure\<rparr>;
          let target = (if guarded > 0 then BandwidthRungTag guarded else target);
          err \<leftarrow> (if live \<noteq> target then SelectProxy (e_clash v) Hy2ProbeSelectorTag target
                   else State_Monad.return None);
          (case err of
             Some e \<Rightarrow> State_Monad.return (Inl e, p)
           | None \<Rightarrow>
               if cooling (bp_pressure p) now \<and> bl_healthy (bp_reality p) then do {
                 (changed, err) \<leftarrow> ApplyBalancedLanes (e_clash v) 0;
                 State_Monad.return (case err of Some e \<Rightarrow> Inl e | None \<Rightarrow> Inr target, p)
               } else State_Monad.return (Inr target, p))
        })
   }"

definition balance_measure :: "'w env \<Rightarrow> ('w sys, legMeasurement \<times> legMeasurement) state" where
  "balance_measure v = do {
     (d1, e1) \<leftarrow> probeLeg v BrutalKeeperPort;
     (d2, e2) \<leftarrow> probeLeg v LegGatePort;
     State_Monad.return (\<lparr>lm_delay = d1, lm_err = e1\<rparr>, \<lparr>lm_delay = d2, lm_err = e2\<rparr>)
   }"

definition reset_clean :: "balancePolicy \<Rightarrow> balancePolicy" where
  "reset_clean p = p\<lparr>bp_pressure := (bp_pressure p)\<lparr>cleanSince := 0\<rparr>\<rparr>"

definition err_text :: "go_error \<Rightarrow> string" where
  "err_text e = (case e of None \<Rightarrow> [] | Some m \<Rightarrow> m)"

definition balance_status ::
  "balancePolicy \<Rightarrow> legMeasurement \<Rightarrow> legMeasurement \<Rightarrow> string \<Rightarrow> BandwidthSchedule \<Rightarrow> go_time \<Rightarrow> go_error
     \<Rightarrow> BalanceStatus" where
  "balance_status p reality hy2 target sched now aux =
     \<lparr>Supported = True, BalEnabled = True, RealityLanes = BalanceLanes - bp_hy2Lanes p,
      Hy2Lanes = bp_hy2Lanes p, RealityHealthy = bl_healthy (bp_reality p), Hy2Healthy = bl_healthy (bp_hy2 p),
      RealityDegraded = (bl_healthy (bp_reality p) \<and> bl_slow (bp_reality p) > 0),
      Hy2Degraded = (bl_healthy (bp_hy2 p) \<and> bl_slow (bp_hy2 p) > 0),
      RealityLatencyMs = millis (lm_delay reality), Hy2LatencyMs = millis (lm_delay hy2),
      LastCheckedAt = now, RealityError = err_text (lm_err reality), Hy2Error = err_text (lm_err hy2),
      BalError = (case aux of None \<Rightarrow> [] | Some e \<Rightarrow> ''auxiliary route reconciliation pending: '' @ e),
      Hy2DownMbps = BandwidthRungMbps target, Hy2UpMbps = RungUp sched (BandwidthRungMbps target),
      UDPPressureCapMbps = capDown (bp_pressure p), UDPCooldownUntil = coolUntil (bp_pressure p)\<rparr>"

text \<open>Writing the lanes of a decided policy, the main route, and the publication.\<close>

definition balance_commit ::
  "'w env \<Rightarrow> balancePolicy \<Rightarrow> string \<Rightarrow> legMeasurement \<Rightarrow> legMeasurement \<Rightarrow> ('w sys, unit) state" where
  "balance_commit v p target reality hy2 = do {
     (changed, err) \<leftarrow> ApplyBalancedLanes (e_clash v) (bp_hy2Lanes p);
     (case err of
        Some e \<Rightarrow> balanceError v e
      | None \<Rightarrow> do {
          let main = (if bp_hy2Lanes p \<ge> go_div BalanceLanes 2 then target else RealityLegTag);
          (current, err) \<leftarrow> Selection (e_clash v) ProxySelectorTag;
          aux \<leftarrow> (if err \<noteq> None then State_Monad.return err
                   else if current \<noteq> main then SelectProxy (e_clash v) ProxySelectorTag main
                   else State_Monad.return None);
          now \<leftarrow> asks (e_now v);
          sched \<leftarrow> field schedule;
          publishBalance v (balance_status p reality hy2 target sched now aux);
          only_if changed resetKeepaliveCount
        })
   }"

definition balanceOnce :: "'w env \<Rightarrow> balancePolicy \<Rightarrow> ('w sys, balancePolicy) state" where
  "balanceOnce v p = do {
     pin \<leftarrow> asks (e_leg v);
     bad \<leftarrow> linkBad;
     if pin \<noteq> LegBoth then balance_leave v p
     else if bad then State_Monad.return (reset_clean p)
     else do {
       (res, p) \<leftarrow> balance_rung v p;
       (case res of
          Inl e \<Rightarrow> do { balanceError v e; State_Monad.return p }
        | Inr target \<Rightarrow> do {
            (reality, hy2) \<leftarrow> balance_measure v;
            let p = policy_observe p reality hy2;
            pin \<leftarrow> asks (e_leg v);
            bad \<leftarrow> linkBad;
            if pin \<noteq> LegBoth \<or> bad then State_Monad.return (reset_clean p)
            else do { balance_commit v p target reality hy2; State_Monad.return p }
          })
     }
   }"

section \<open>Lemmas\<close>

lemma quiet_lanes:
  assumes "clash_quiet v"
  shows "sup (exec (lanes_loop (e_clash v) n ls ch) s) = sup s"
  using assms
  by (induction ls arbitrary: ch s) (simp_all add: quiet_client Let_def case_prod_beta)

lemma quiet_apply: "clash_quiet v \<Longrightarrow> sup (exec (ApplyBalancedLanes (e_clash v) n) s) = sup s"
  by (simp add: ApplyBalancedLanes_def quiet_lanes)

lemma exec_balanceError:
  "sup (exec (balanceError v e) s) = (sup s)\<lparr>sv_state := (sv_state (sup s))\<lparr>Balance :=
     Some ((case Balance (sv_state (sup s)) of None \<Rightarrow> zero_balance\<lparr>Supported := True\<rparr> | Some b \<Rightarrow> b)\<lparr>BalError := e\<rparr>)\<rparr>\<rparr>"
  "world (exec (balanceError v e) s) = world s"
  by (simp_all add: balanceError_def publishBalance_def)

lemma observed_lanes: "bp_hy2Lanes (policy_observe p r h) \<in> {0, 2, 8}"
  by (simp add: policy_observe_def setLanes_def Let_def)

lemma lane_tag_not_proxy: "BalanceLaneTag l \<noteq> ProxySelectorTag"
  by (simp add: BalanceLaneTag_def ProxySelectorTag_def)

definition lanes_on :: "(string \<Rightarrow> string) \<Rightarrow> string \<Rightarrow> nat" where
  "lanes_on sel t = length (filter (\<lambda>l. sel (BalanceLaneTag l) = t) [0..7])"

lemma lanes_of_targets:
  assumes "n \<in> {0, 2, 8}" and "\<forall>l \<in> {0..7}. sel (BalanceLaneTag l) = lane_target n l"
  shows "int (lanes_on sel Hy2ProbeSelectorTag) = n \<and> int (lanes_on sel RealityLegTag) = 8 - n"
proof -
  have "lanes_on sel t = length (filter (\<lambda>l. lane_target n l = t) [0..7])" for t
    unfolding lanes_on_def using assms(2) by (intro arg_cong [where f = length] filter_cong) auto
  with assms(1) show ?thesis
    by (elim insertE emptyE)
      (simp_all add: lane_target_def upto_rec1 RealityLegTag_def Hy2ProbeSelectorTag_def)
qed

lemma exec_commit_ok:
  assumes "clash_quiet v" and "selector_engine (e_clash v) (\<lambda>s. member (world s))"
    and "snd (result_of (ApplyBalancedLanes (e_clash v) (bp_hy2Lanes p)) s) = None"
  shows "\<exists>b. Balance (sv_state (sup (exec (balance_commit v p target r h) s))) = Some b \<and> BalEnabled b \<and>
      Hy2Lanes b = bp_hy2Lanes p \<and> RealityLanes b = 8 - bp_hy2Lanes p"
    "t \<noteq> ProxySelectorTag \<Longrightarrow> member (world (exec (balance_commit v p target r h) s)) t
       = member (world (exec (ApplyBalancedLanes (e_clash v) (bp_hy2Lanes p)) s)) t"
proof -
  obtain ch where ok: "result_of (ApplyBalancedLanes (e_clash v) (bp_hy2Lanes p)) s = (ch, None)"
    using assms(3) by (metis prod.collapse)
  show "\<exists>b. Balance (sv_state (sup (exec (balance_commit v p target r h) s))) = Some b \<and> BalEnabled b \<and>
      Hy2Lanes b = bp_hy2Lanes p \<and> RealityLanes b = 8 - bp_hy2Lanes p"
    using assms(1)
    by (simp add: balance_commit_def ok publishBalance_def balance_status_def case_prod_beta
        quiet_apply exec_reset Let_def ResetDials_def)
  show "t \<noteq> ProxySelectorTag \<Longrightarrow> member (world (exec (balance_commit v p target r h) s)) t
       = member (world (exec (ApplyBalancedLanes (e_clash v) (bp_hy2Lanes p)) s)) t"
    using selector_engine.selection_keeps [OF assms(2)] selector_engine.select_elsewhere [OF assms(2)]
    by (simp add: balance_commit_def ok publishBalance_def case_prod_beta Let_def)
qed

section \<open>Properties\<close>

text \<open>C22: the published lane split is the one in force. After a beat's decision is committed without an
  error, exactly as many lanes of the engine select hysteria2 and REALITY as the status says, and
  they add up to eight; if the lanes could not be written, the last published split stays and the
  error is published with it.\<close>
theorem published_lanes_are_real:
  assumes "clash_quiet v" and "selector_engine (e_clash v) (\<lambda>s. member (world s))"
    and "p = policy_observe p0 reality hy2" and "s' = exec (balance_commit v p target reality hy2) s"
  shows "case snd (result_of (ApplyBalancedLanes (e_clash v) (bp_hy2Lanes p)) s) of
      None \<Rightarrow> (\<exists>b. Balance (sv_state (sup s')) = Some b \<and> BalEnabled b \<and>
        Hy2Lanes b = int (lanes_on (member (world s')) Hy2ProbeSelectorTag) \<and>
        RealityLanes b = int (lanes_on (member (world s')) RealityLegTag) \<and> RealityLanes b + Hy2Lanes b = 8)
    | Some e \<Rightarrow> sup s' = (sup s)\<lparr>sv_state := (sv_state (sup s))\<lparr>Balance := Some
        ((case Balance (sv_state (sup s)) of None \<Rightarrow> zero_balance\<lparr>Supported := True\<rparr> | Some b \<Rightarrow> b)\<lparr>BalError := e\<rparr>)\<rparr>\<rparr>"
proof (cases "snd (result_of (ApplyBalancedLanes (e_clash v) (bp_hy2Lanes p)) s)")
  case None
  then obtain ch where ok: "result_of (ApplyBalancedLanes (e_clash v) (bp_hy2Lanes p)) s = (ch, None)"
    by (metis prod.collapse)
  have n: "bp_hy2Lanes p \<in> {0, 2, 8}" using observed_lanes assms(3) by blast
  have "\<forall>l \<in> {0..7}. member (world s') (BalanceLaneTag l) = lane_target (bp_hy2Lanes p) l"
    using n ok selector_engine.lanes_loop_ok [OF assms(2), of "[0..7]" "bp_hy2Lanes p" False s ch]
    by (auto simp: assms(4) exec_commit_ok(2) [OF assms(1,2) None] lane_tag_not_proxy ApplyBalancedLanes_def)
  with lanes_of_targets [OF n, of "member (world s')"] exec_commit_ok(1) [OF assms(1,2) None, of target reality hy2]
  show ?thesis by (auto simp: None assms(4))
next
  case (Some e)
  then show ?thesis
    by (simp add: assms(1,4) balance_commit_def case_prod_beta exec_balanceError quiet_apply)
qed

lemma calm_lanes:
  "\<forall>t. world s t \<noteq> [] \<Longrightarrow> snd (result_of (lanes_loop (lift_engine table_engine) n ls ch) s) = None"
proof (induction ls arbitrary: ch s)
  case (Cons l ls)
  have "lane_target n l \<noteq> []"
    by (simp add: lane_target_def ProxySelectorTag_def RealityLegTag_def Hy2ProbeSelectorTag_def)
  with Cons show ?case by (simp add: Let_def)
qed simp

theorem published_lanes_are_real_witness:
  "snd (result_of (ApplyBalancedLanes (lift_engine table_engine) 2) sample_sys) = None \<and>
   (\<exists>b. Balance (sv_state (sup (exec (balance_commit (calm_env 5000 LegBoth)
       (policy_observe (zero_policy\<lparr>bp_hy2 := zero_leg\<lparr>bl_healthy := True\<rparr>, bp_reality := zero_leg\<lparr>bl_healthy := True\<rparr>\<rparr>)
          no_measurement no_measurement) (BandwidthRungTag 5) no_measurement no_measurement) sample_sys))) = Some b \<and>
      RealityLanes b + Hy2Lanes b = 8)"
proof -
  have w: "\<forall>t. world sample_sys t \<noteq> []"
    by (simp add: sample_sys_def RealityLegTag_def)
  have ap: "snd (result_of (ApplyBalancedLanes (lift_engine table_engine) n) sample_sys) = None"
    if "n \<in> {0, 2, 8}" for n
    using that calm_lanes [OF w, of n "[0..7]" False] by (auto simp: ApplyBalancedLanes_def)
  have m: "selector_engine (e_clash (calm_env 5000 LegBoth)) (\<lambda>s. (\<lambda>w. w) (world s))"
    using lifted.selector_engine_axioms by simp
  show ?thesis
    using published_lanes_are_real [where s = sample_sys and target = "BandwidthRungTag 5"
        and ?p0.0 = "zero_policy\<lparr>bp_hy2 := zero_leg\<lparr>bl_healthy := True\<rparr>, bp_reality := zero_leg\<lparr>bl_healthy := True\<rparr>\<rparr>"
        and reality = no_measurement and ?hy2.0 = no_measurement, OF calm_quiet m refl refl]
    by (auto simp: ap observed_lanes [simplified])
qed

text \<open>Leaving dual routing undoes it. When the pin is no longer both, a beat either puts all eight
  lanes back on the main selector, forgets the policy, publishes the routing as off and starts a
  new probe generation, or, if the engine refused a lane, keeps the policy and the published
  split, still marked on, so that the next beat tries again.\<close>
theorem leaving_dual_routing:
  assumes "clash_quiet v" and "selector_engine (e_clash v) (\<lambda>s. member (world s))"
    and "e_leg v (world s) \<noteq> LegBoth" and "Balance (sv_state (sup s)) = Some b" and "BalEnabled b"
    and "s' = exec (balanceOnce v p) s"
  shows "(lanes_on (member (world s')) ProxySelectorTag = 8 \<and> result_of (balanceOnce v p) s = zero_policy \<and>
        Balance (sv_state (sup s')) = Some (zero_balance\<lparr>Supported := True\<rparr>) \<and>
        probeGeneration (sup s') = probeGeneration (sup s) + 1) \<or>
     (result_of (balanceOnce v p) s = p \<and> (\<exists>e. Balance (sv_state (sup s')) = Some (b\<lparr>BalError := e\<rparr>)))"
proof -
  obtain ch err where ap: "result_of (ApplyBalancedLanes (e_clash v) (- 1)) s = (ch, err)"
    by (metis prod.collapse)
  note run = assms(1,3-6)
  show ?thesis
  proof (cases err)
    case (Some e)
    with ap run show ?thesis
      by (auto simp: balanceOnce_def balance_leave_def exec_balanceError quiet_apply)
  next
    case None
    have "\<forall>l \<in> {0..7}. member (world (exec (ApplyBalancedLanes (e_clash v) (- 1)) s)) (BalanceLaneTag l) = ProxySelectorTag"
      using None ap selector_engine.lanes_loop_ok [OF assms(2), of "[0..7]" "- 1" False s ch]
      by (auto simp: ApplyBalancedLanes_def lane_target_def)
    then have "lanes_on (member (world (exec (ApplyBalancedLanes (e_clash v) (- 1)) s))) ProxySelectorTag = 8"
      by (simp add: lanes_on_def upto_rec1)
    with None ap run show ?thesis
      by (simp add: balanceOnce_def balance_leave_def publishBalance_def quiet_apply exec_reset Let_def ResetDials_def)
  qed
qed

definition both_sys :: "(string \<Rightarrow> string) sys" where
  "both_sys = sample_sys\<lparr>sup := (sup sample_sys)\<lparr>sv_state := zero_state\<lparr>Balance :=
     Some (zero_balance\<lparr>Supported := True, BalEnabled := True\<rparr>)\<rparr>\<rparr>\<rparr>"

theorem leaving_dual_routing_witness:
  "lanes_on (world (exec (balanceOnce (calm_env 5000 LegAuto) (zero_policy\<lparr>bp_hy2Lanes := 2\<rparr>)) both_sys)) ProxySelectorTag = 8"
proof -
  let ?v = "calm_env 5000 LegAuto" and ?p = "zero_policy\<lparr>bp_hy2Lanes := 2\<rparr>"
  have m: "selector_engine (e_clash ?v) (\<lambda>s. (\<lambda>w. w) (world s))"
    using lifted.selector_engine_axioms by simp
  have "\<forall>t. world both_sys t \<noteq> []"
    by (simp add: both_sys_def sample_sys_def RealityLegTag_def)
  then have "snd (result_of (ApplyBalancedLanes (lift_engine table_engine) (- 1)) both_sys) = None"
    by (simp add: ApplyBalancedLanes_def calm_lanes)
  then have "result_of (balanceOnce ?v ?p) both_sys = zero_policy"
    by (simp add: balanceOnce_def balance_leave_def both_sys_def case_prod_beta)
  moreover have "zero_policy \<noteq> ?p" by (simp add: zero_policy_def)
  ultimately show ?thesis
    using leaving_dual_routing [OF calm_quiet m, of both_sys "zero_balance\<lparr>Supported := True, BalEnabled := True\<rparr>" _ ?p]
    by (simp add: both_sys_def)
qed

end
