(* ===== verification/Lid_Destroy.thy ===== *)
theory Lid_Destroy
  imports Handlers
begin

text \<open>
  core/destroy.go, the record functions of core/supervisor.go that it uses, and utils/liddebt.go:
  destroying the server when the lid is shut, holding the destroy for a grace period, and
  settling one that failed. Times are wall-clock times. The clamshell, the uplink, the local
  time text and the destroy hook are the parameters of \<^verbatim>\<open>lid\<close>; while the hook runs, other goroutines
  may act, and lidMu is held. HoldAwake and ReleaseAwake are requests to the operating system and
  are left out.
\<close>

datatype destroy_error = NothingToDestroy | DestroyFailed string

record 'w lid =
  l_closed :: "'w \<Rightarrow> int"
  l_uplink :: "'w \<Rightarrow> bool"
  l_stamp :: "go_time \<Rightarrow> string"
  l_destroy :: "(go_duration \<Rightarrow> ('w sys, destroy_error option) state) option"

abbreviation (input) wakeRetryFloor :: go_duration where "wakeRetryFloor \<equiv> go_minute"
abbreviation (input) lidCloseBudget :: go_duration where "lidCloseBudget \<equiv> 20 * go_second"
abbreviation (input) retryBudget :: go_duration where "retryBudget \<equiv> 6 * go_second"

section \<open>The debt file\<close>

definition WriteLidDebt :: "LidDebt \<Rightarrow> ('w sys, unit) state" where
  "WriteLidDebt d = modify (\<lambda>s. s\<lparr>debt := Some d\<rparr>)"

definition ReadLidDebt :: "('w sys, LidDebt option) state" where
  "ReadLidDebt = gets (\<lambda>s. case debt s of None \<Rightarrow> None | Some d \<Rightarrow> if Since d = 0 then None else Some d)"

definition ClearLidDebt :: "('w sys, unit) state" where
  "ClearLidDebt = modify (\<lambda>s. s\<lparr>debt := None\<rparr>)"

definition persistLidDebtLocked :: "('w sys, unit) state" where
  "persistLidDebtLocked = do {
     st \<leftarrow> field sv_state;
     WriteLidDebt \<lparr>DebtServer = StServer st, Since = LidDestroyPendingSince st,
       Attempts = LidDestroyAttempts st, DebtReason = LidDestroyReason st, DebtState = LidDestroy st\<rparr>
   }"

section \<open>Recording\<close>

definition recordLidDestroy :: "bool \<Rightarrow> ('w sys, unit) state" where
  "recordLidDestroy armed = do {
     dry \<leftarrow> field lidDryRun;
     off \<leftarrow> field lidOffReason;
     st_do (\<lambda>st. if armed \<and> dry then st\<lparr>LidDestroy := LidDestroyDryRun, LidDestroyReason := ''--lid-close-dry-run''\<rparr>
                 else if armed then st\<lparr>LidDestroy := LidDestroyArmed, LidDestroyReason := []\<rparr>
                 else st\<lparr>LidDestroy := LidDestroyOff, LidDestroyReason := off\<rparr>)
   }"

definition markLidSettled :: "string \<Rightarrow> ('w sys, unit) state" where
  "markLidSettled reason = do {
     st_do (\<lambda>st. st\<lparr>LidDestroy := LidDestroyFired, LidDestroyReason := reason,
                    LidDestroyPendingSince := 0, LidDestroyAttempts := 0\<rparr>);
     ClearLidDebt
   }"

definition recordLidDestroyed :: "'w lid \<Rightarrow> go_time \<Rightarrow> ('w sys, unit) state" where
  "recordLidDestroyed l at = markLidSettled (''server destroyed on lid close at '' @ l_stamp l at)"

definition recordLidDestroyPending :: "go_time \<Rightarrow> string \<Rightarrow> ('w sys, unit) state" where
  "recordLidDestroyPending at cause = do {
     st_do (\<lambda>st. if LidDestroy st \<noteq> LidDestroyPending
                 then st\<lparr>LidDestroyPendingSince := at, LidDestroyAttempts := 0\<rparr> else st);
     st_do (\<lambda>st. st\<lparr>LidDestroy := LidDestroyPending, LidDestroyAttempts := LidDestroyAttempts st + 1,
                    LidDestroyReason := cause\<rparr>);
     persistLidDebtLocked
   }"

definition recordLidDeferred :: "go_time \<Rightarrow> ('w sys, unit) state" where
  "recordLidDeferred at =
     st_do (\<lambda>st. st\<lparr>LidDestroy := LidDestroyDeferred, LidDestroyPendingSince := at, LidDestroyAttempts := 0,
                    LidDestroyReason := ''lid shut; destroy held for the grace period''\<rparr>)"

definition recordLidReopened :: "('w sys, unit) state" where
  "recordLidReopened =
     st_do (\<lambda>st. st\<lparr>LidDestroy := LidDestroyArmed, LidDestroyPendingSince := 0, LidDestroyAttempts := 0,
                    LidDestroyReason := []\<rparr>)"

definition lidDeferred :: "('w sys, go_time \<times> bool) state" where
  "lidDeferred = st_field (\<lambda>st. (LidDestroyPendingSince st, LidDestroy st = LidDestroyDeferred))"

definition recordLidDestroyCancelled :: "string \<Rightarrow> ('w sys, unit) state" where
  "recordLidDestroyCancelled reason = do {
     st_do (\<lambda>st. st\<lparr>LidDestroy := LidDestroyCancelled, LidDestroyReason := reason\<rparr>);
     persistLidDebtLocked
   }"

definition lidDestroyPending :: "('w sys, go_time \<times> nat \<times> bool) state" where
  "lidDestroyPending =
     st_field (\<lambda>st. (LidDestroyPendingSince st, LidDestroyAttempts st, LidDestroy st = LidDestroyPending))"

section \<open>Attempting\<close>

definition closeLidDestroyed :: "('w sys, unit) state" where
  "closeLidDestroyed = sup_do (\<lambda>u. u\<lparr>lidDestroyedClosed := True\<rparr>)"

definition attemptLidDestroy ::
  "'w env \<Rightarrow> 'w lid \<Rightarrow> (go_duration \<Rightarrow> ('w sys, destroy_error option) state) \<Rightarrow> go_duration \<Rightarrow> ('w sys, bool) state" where
  "attemptLidDestroy v l hook budget = do {
     started \<leftarrow> asks (e_now v);
     sup_do (\<lambda>u. u\<lparr>lastLidAttempt := started\<rparr>);
     err \<leftarrow> hook budget;
     now \<leftarrow> asks (e_now v);
     (case err of
        Some NothingToDestroy \<Rightarrow> do {
          markLidSettled (''no server to destroy at '' @ l_stamp l now @ '' '' @ em_dash @ '' none was running'');
          writeState v;
          closeLidDestroyed;
          State_Monad.return True
        }
      | Some (DestroyFailed e) \<Rightarrow> do {
          recordLidDestroyPending started e;
          writeState v;
          State_Monad.return False
        }
      | None \<Rightarrow> do {
          recordLidDestroyed l now;
          writeState v;
          closeLidDestroyed;
          State_Monad.return True
        })
   }"

text \<open>An attempt under lidMu: the lock is held while the hook runs and given back at the end.\<close>

definition lockedAttempt ::
  "'w env \<Rightarrow> 'w lid \<Rightarrow> (go_duration \<Rightarrow> ('w sys, destroy_error option) state) \<Rightarrow> go_duration \<Rightarrow> ('w sys, unit) state" where
  "lockedAttempt v l hook budget = do {
     sup_do (\<lambda>u. u\<lparr>lidBusy := True\<rparr>);
     attemptLidDestroy v l hook budget;
     sup_do (\<lambda>u. u\<lparr>lidBusy := False\<rparr>)
   }"

text \<open>The watcher only runs with a hook. The result is whether the call has returned: it waits as
  long as lidMu is held.\<close>

definition onLidClose :: "'w env \<Rightarrow> 'w lid \<Rightarrow> ('w sys, bool) state" where
  "onLidClose v l = do {
     dry \<leftarrow> field lidDryRun;
     grace \<leftarrow> field lidGrace;
     (since, held) \<leftarrow> lidDeferred;
     busy \<leftarrow> field lidBusy;
     now \<leftarrow> asks (e_now v);
     if dry then State_Monad.return True
     else if grace > 0 then
       (if held then State_Monad.return True
        else do { recordLidDeferred now; writeState v; State_Monad.return True })
     else if busy then State_Monad.return False
     else (case l_destroy l of
         None \<Rightarrow> State_Monad.return True
       | Some hook \<Rightarrow> do { lockedAttempt v l hook lidCloseBudget; State_Monad.return True })
   }"

section \<open>Settling\<close>

datatype lidGraceAction = lidGraceWait | lidGraceKeep | lidGraceDestroy

definition lidGraceDecision :: "int \<Rightarrow> go_time \<Rightarrow> go_time \<Rightarrow> go_duration \<Rightarrow> lidGraceAction" where
  "lidGraceDecision closed since now grace =
     (if closed = 0 then lidGraceKeep
      else if time_sub now since < grace then lidGraceWait
      else lidGraceDestroy)"

text \<open>time.Duration's Round to whole minutes, half away from zero, and its String of the result.\<close>

definition round_minutes :: "go_duration \<Rightarrow> int" where
  "round_minutes d = sgn d * ((\<bar>d\<bar> + 30 * go_second) div go_minute)"

definition minutes_text :: "int \<Rightarrow> string" where
  "minutes_text m =
     (let h = \<bar>m\<bar> div 60; r = \<bar>m\<bar> mod 60 in
      (if m < 0 then ''-'' else []) @
      (if h > 0 then itoa h @ ''h'' @ itoa r @ ''m0s''
       else if r > 0 then itoa r @ ''m0s'' else ''0s''))"

definition reconcileLidDebt :: "'w env \<Rightarrow> 'w lid \<Rightarrow> ('w sys, unit) state" where
  "reconcileLidDebt v l = do {
     dry \<leftarrow> field lidDryRun;
     busy \<leftarrow> field lidBusy;
     grace \<leftarrow> field lidGrace;
     lastAt \<leftarrow> field lastLidAttempt;
     (heldSince, held) \<leftarrow> lidDeferred;
     (since, attempts, owed) \<leftarrow> lidDestroyPending;
     closed \<leftarrow> asks (l_closed l);
     uplink \<leftarrow> asks (l_uplink l);
     now \<leftarrow> asks (e_now v);
     (case l_destroy l of
        None \<Rightarrow> stop
      | Some hook \<Rightarrow>
          if dry then stop
          else if held then
            (if busy then stop
             else (case lidGraceDecision closed heldSince now grace of
                 lidGraceKeep \<Rightarrow> do { recordLidReopened; writeState v }
               | lidGraceWait \<Rightarrow> stop
               | lidGraceDestroy \<Rightarrow>
                   if time_sub now lastAt < wakeRetryFloor \<or> \<not> uplink then stop
                   else lockedAttempt v l hook retryBudget))
          else if \<not> owed then stop
          else if busy then stop
          else if closed = 0 then do {
            recordLidDestroyCancelled (''lid opened before the destroy could complete; the server billed '' @
              minutes_text (round_minutes (time_sub now since)) @ '' unused and is still running'');
            writeState v
          }
          else if time_sub now lastAt < wakeRetryFloor \<or> \<not> uplink then stop
          else lockedAttempt v l hook retryBudget)
   }"

definition onPowerWake :: "'w env \<Rightarrow> 'w lid \<Rightarrow> ('w sys, unit) state" where
  "onPowerWake v l = reconcileLidDebt v l"

section \<open>Lemmas\<close>

lemma debt_simps [simp]:
  "exec (WriteLidDebt d) s = s\<lparr>debt := Some d\<rparr>" "exec ClearLidDebt s = s\<lparr>debt := None\<rparr>"
  "exec lidDeferred s = s" "exec lidDestroyPending s = s"
  "result_of lidDeferred s = (LidDestroyPendingSince (sv_state (sup s)), LidDestroy (sv_state (sup s)) = LidDestroyDeferred)"
  "result_of lidDestroyPending s = (LidDestroyPendingSince (sv_state (sup s)), LidDestroyAttempts (sv_state (sup s)),
     LidDestroy (sv_state (sup s)) = LidDestroyPending)"
  by (simp_all add: WriteLidDebt_def ClearLidDebt_def lidDeferred_def lidDestroyPending_def)

definition lid_debt_of :: "State \<Rightarrow> LidDebt" where
  "lid_debt_of st = \<lparr>DebtServer = StServer st, Since = LidDestroyPendingSince st, Attempts = LidDestroyAttempts st,
     DebtReason = LidDestroyReason st, DebtState = LidDestroy st\<rparr>"

lemma exec_persist [simp]: "exec persistLidDebtLocked s = s\<lparr>debt := Some (lid_debt_of (sv_state (sup s)))\<rparr>"
  by (simp add: persistLidDebtLocked_def lid_debt_of_def)

definition lid_inv :: "'w sys \<Rightarrow> bool" where
  "lid_inv s =
     (let st = sv_state (sup s) in
      (LidDestroy st = LidDestroyPending \<longrightarrow> LidDestroyAttempts st > 0 \<and> debt s = Some (lid_debt_of st)) \<and>
      (LidDestroy st = LidDestroyCancelled \<longrightarrow> debt s = Some (lid_debt_of st)) \<and>
      (LidDestroy st = LidDestroyFired \<longrightarrow> debt s = None))"

lemma lid_inv_keeps:
  "keeps lid_inv (recordLidDestroy b)" "keeps lid_inv (markLidSettled r)" "keeps lid_inv (recordLidDestroyPending t e)"
  "keeps lid_inv (recordLidDeferred t)" "keeps lid_inv recordLidReopened" "keeps lid_inv (recordLidDestroyCancelled r)"
  "keeps lid_inv closeLidDestroyed" "keeps lid_inv (writeState v)" "keeps lid_inv (sup_do (\<lambda>u. u\<lparr>lidBusy := b\<rparr>))"
  "keeps lid_inv (sup_do (\<lambda>u. u\<lparr>lastLidAttempt := t\<rparr>))"
  by (auto simp: keeps_def lid_inv_def recordLidDestroy_def markLidSettled_def recordLidDestroyPending_def
      recordLidDeferred_def recordLidReopened_def recordLidDestroyCancelled_def closeLidDestroyed_def Let_def)

text \<open>An attempt ends with the condition whatever the hook and the other goroutines did meanwhile: its
  outcome is recorded afresh.\<close>

lemma lid_inv_attempt: "keeps lid_inv (lockedAttempt v l hook budget)"
proof (rule keepsI)
  fix s :: "'a sys"
  let ?s1 = "s\<lparr>sup := (sup s)\<lparr>lidBusy := True, lastLidAttempt := e_now v (world s)\<rparr>\<rparr>"
  note run = lockedAttempt_def attemptLidDestroy_def markLidSettled_def recordLidDestroyed_def
    recordLidDestroyPending_def closeLidDestroyed_def lid_inv_def Let_def
  consider "result_of (hook budget) ?s1 = None" | "result_of (hook budget) ?s1 = Some NothingToDestroy"
    | e where "result_of (hook budget) ?s1 = Some (DestroyFailed e)"
    by (cases "result_of (hook budget) ?s1"; cases "the (result_of (hook budget) ?s1)") auto
  then show "lid_inv (exec (lockedAttempt v l hook budget) s)"
    by cases (simp_all add: run)
qed

lemma keeps_lid_reads [mole_frame]: "keeps I lidDeferred" "keeps I lidDestroyPending"
  by (simp_all add: keeps_def)

lemma lid_inv_handlers: "keeps lid_inv (onLidClose v l)" "keeps lid_inv (reconcileLidDebt v l)"
proof -
  show "keeps lid_inv (onLidClose v l)"
    unfolding onLidClose_def
    by (intro mole_frame lid_inv_keeps)
      (auto intro!: mole_frame lid_inv_keeps lid_inv_attempt split: option.splits)
  show "keeps lid_inv (reconcileLidDebt v l)"
    unfolding reconcileLidDebt_def
    by (intro mole_frame lid_inv_keeps)
      (auto intro!: mole_frame lid_inv_keeps lid_inv_attempt split: option.splits lidGraceAction.splits)
qed

text \<open>Any history of lid closes, ticks and wakes of a daemon, in a world that changes in between.\<close>

inductive lid_reach :: "'w env \<Rightarrow> 'w lid \<Rightarrow> 'w sys \<Rightarrow> bool" for v l where
  lid_start: "LidDestroy (sv_state (sup s)) \<in> {LidDestroyUnknown, LidDestroyArmed, LidDestroyDryRun, LidDestroyOff}
     \<Longrightarrow> lid_reach v l s"
| lid_arm: "lid_reach v l s \<Longrightarrow> lid_reach v l (exec (recordLidDestroy b) s)"
| lid_shut: "lid_reach v l s \<Longrightarrow> lid_reach v l (exec (onLidClose v l) s)"
| lid_settle: "lid_reach v l s \<Longrightarrow> lid_reach v l (exec (reconcileLidDebt v l) s)"
| lid_world: "lid_reach v l s \<Longrightarrow> lid_reach v l (s\<lparr>world := w\<rparr>)"

lemma lid_reach_inv:
  assumes "lid_reach v l s"
  shows "lid_inv s"
  using assms
proof induction
  case (lid_start s)
  then show ?case by (auto simp: lid_inv_def Let_def)
next
  case (lid_world s w)
  then show ?case by (simp add: lid_inv_def)
qed (simp_all add: keepsD [OF lid_inv_keeps(1)] keepsD [OF lid_inv_handlers(1)] keepsD [OF lid_inv_handlers(2)])

section \<open>Properties\<close>


text \<open>A lid that is shut, with a provider that answers as given.\<close>

definition lid_with :: "int \<Rightarrow> destroy_error option \<Rightarrow> 'w lid" where
  "lid_with closed answer = \<lparr>l_closed = \<lambda>_. closed, l_uplink = \<lambda>_. True, l_stamp = \<lambda>_. ''2026-08-09 04:45'',
     l_destroy = Some (\<lambda>_. State_Monad.return answer)\<rparr>"

abbreviation (input) failing_lid :: "int \<Rightarrow> 'w lid" where
  "failing_lid closed \<equiv> lid_with closed (Some (DestroyFailed ''timeout''))"

lemma sample_lid [simp]:
  "lidDryRun (sup sample_sys) = False" "lidGrace (sup sample_sys) = 0" "lidBusy (sup sample_sys) = False"
  "lastLidAttempt (sup sample_sys) = 0"
  by (simp_all add: sample_sys_def NewSupervisor_def opts_defaults_def sample_opts_def)

lemma failed_lid_close:
  "LidDestroy (sv_state (sup (exec (onLidClose (calm_env 5000 LegAuto) (failing_lid 1)) sample_sys))) = LidDestroyPending"
  by (simp add: onLidClose_def lid_with_def lockedAttempt_def attemptLidDestroy_def recordLidDestroyPending_def
      zero_state_def)


text \<open>C13: the server is only ever destroyed from a tick or a wake when there is a destroy to settle and
  nothing speaks against it. In a dry run, while an attempt is in flight, with the lid open,
  within a minute of the last attempt, without an uplink, with nothing held or owed, or inside the
  grace period the destroy hook is not called: the outcome is the same whatever the hook does, and
  the outside world is untouched.\<close>
theorem no_destroy_without_cause:
  assumes "lidDryRun (sup s) \<or> lidBusy (sup s) \<or> l_closed l (world s) = 0 \<or>
      time_sub (e_now v (world s)) (lastLidAttempt (sup s)) < wakeRetryFloor \<or> \<not> l_uplink l (world s) \<or>
      LidDestroy (sv_state (sup s)) \<notin> {LidDestroyDeferred, LidDestroyPending} \<or>
      (LidDestroy (sv_state (sup s)) = LidDestroyDeferred \<and>
        time_sub (e_now v (world s)) (LidDestroyPendingSince (sv_state (sup s))) < lidGrace (sup s))"
  shows "exec (reconcileLidDebt v (l\<lparr>l_destroy := Some h1\<rparr>)) s = exec (reconcileLidDebt v (l\<lparr>l_destroy := Some h2\<rparr>)) s \<and>
    world (exec (reconcileLidDebt v (l\<lparr>l_destroy := Some h1\<rparr>)) s) = world s"
  using assms
  by (auto simp: reconcileLidDebt_def lidGraceDecision_def recordLidReopened_def recordLidDestroyCancelled_def
      split: lidGraceAction.splits)

theorem no_destroy_without_cause_witness:
  "\<forall>h1. exec (reconcileLidDebt (calm_env 5000 LegAuto) (lid_with 0 None\<lparr>l_destroy := Some h1\<rparr>)) sample_sys =
   exec (reconcileLidDebt (calm_env 5000 LegAuto) (lid_with 0 None\<lparr>l_destroy := Some (\<lambda>_. State_Monad.return None)\<rparr>)) sample_sys"
  using no_destroy_without_cause [of sample_sys "lid_with 0 None" "calm_env 5000 LegAuto"] by (simp add: zero_state_def)

text \<open>An attempt settles the matter or is counted. A destroy that worked, and one that finds proof
  of no server, both end with no debt, no attempts and the daemon told to stop; a failed one leaves
  one more attempt on record with its reason, and the time from which it counts is the time of
  the first failure. The lock is free again in every case.\<close>
theorem attempt_settles_or_counts:
  assumes "run_state (hook budget) (s\<lparr>sup := (sup s)\<lparr>lidBusy := True, lastLidAttempt := e_now v (world s)\<rparr>\<rparr>) = (answer, s1)"
    and "sv_state (sup s1) = sv_state (sup s)" and "s' = exec (lockedAttempt v l hook budget) s"
  shows "\<not> lidBusy (sup s') \<and>
    (case answer of
       Some (DestroyFailed e) \<Rightarrow>
         LidDestroy (sv_state (sup s')) = LidDestroyPending \<and> LidDestroyReason (sv_state (sup s')) = e \<and>
         (if LidDestroy (sv_state (sup s)) = LidDestroyPending
          then LidDestroyAttempts (sv_state (sup s')) = LidDestroyAttempts (sv_state (sup s)) + 1 \<and>
               LidDestroyPendingSince (sv_state (sup s')) = LidDestroyPendingSince (sv_state (sup s))
          else LidDestroyAttempts (sv_state (sup s')) = 1 \<and>
               LidDestroyPendingSince (sv_state (sup s')) = e_now v (world s)) \<and>
         debt s' = Some (lid_debt_of (sv_state (sup s')))
     | _ \<Rightarrow> LidDestroy (sv_state (sup s')) = LidDestroyFired \<and> LidDestroyAttempts (sv_state (sup s')) = 0 \<and>
         LidDestroyPendingSince (sv_state (sup s')) = 0 \<and> debt s' = None \<and> lidDestroyedClosed (sup s'))"
proof -
  have hook: "result_of (hook budget) (s\<lparr>sup := (sup s)\<lparr>lidBusy := True, lastLidAttempt := e_now v (world s)\<rparr>\<rparr>) = answer"
    "exec (hook budget) (s\<lparr>sup := (sup s)\<lparr>lidBusy := True, lastLidAttempt := e_now v (world s)\<rparr>\<rparr>) = s1"
    using assms(1) by (simp_all add: exec_def result_of_def)
  note run = lockedAttempt_def attemptLidDestroy_def markLidSettled_def recordLidDestroyed_def
    recordLidDestroyPending_def closeLidDestroyed_def
  consider "answer = None" | "answer = Some NothingToDestroy" | e where "answer = Some (DestroyFailed e)"
    by (cases answer; cases "the answer") auto
  then show ?thesis
    by cases (simp_all add: assms(2,3) hook run)
qed

theorem attempt_settles_or_counts_witness:
  "LidDestroyAttempts (sv_state (sup (exec (lockedAttempt (calm_env 5000 LegAuto) (failing_lid 1)
     (\<lambda>_ :: go_duration. State_Monad.return (Some (DestroyFailed ''timeout''))) retryBudget) sample_sys))) = 1"
proof -
  let ?v = "calm_env 5000 LegAuto" and ?hook = "\<lambda>_ :: go_duration. State_Monad.return (Some (DestroyFailed ''timeout''))"
  let ?s1 = "sample_sys\<lparr>sup := (sup sample_sys)\<lparr>lidBusy := True, lastLidAttempt := e_now ?v (world sample_sys)\<rparr>\<rparr>"
  have run: "run_state (?hook retryBudget) ?s1 = (Some (DestroyFailed ''timeout''), ?s1)"
    by simp
  have st: "sv_state (sup ?s1) = sv_state (sup sample_sys)" by simp
  from attempt_settles_or_counts [OF run st refl, of "failing_lid 1"] show ?thesis
    by (simp add: zero_state_def)
qed

text \<open>A lid that is open again keeps the server. A destroy held for the grace period is withdrawn
  without a trace; one that failed is given up, and stays in the debt file as abandoned with the
  time since which the server bills and the attempts it cost. The provider is not called.\<close>
theorem open_lid_keeps_the_server:
  assumes "l_destroy l = Some hook" and "\<not> lidDryRun (sup s)" and "\<not> lidBusy (sup s)" and "l_closed l (world s) = 0"
    and "s' = exec (reconcileLidDebt v l) s"
  shows "world s' = world s \<and>
    (LidDestroy (sv_state (sup s)) = LidDestroyDeferred \<longrightarrow>
      LidDestroy (sv_state (sup s')) = LidDestroyArmed \<and> LidDestroyPendingSince (sv_state (sup s')) = 0 \<and> debt s' = debt s) \<and>
    (LidDestroy (sv_state (sup s)) = LidDestroyPending \<longrightarrow>
      LidDestroy (sv_state (sup s')) = LidDestroyCancelled \<and>
      (\<exists>d. debt s' = Some d \<and> DebtState d = LidDestroyCancelled \<and> Since d = LidDestroyPendingSince (sv_state (sup s)) \<and>
         Attempts d = LidDestroyAttempts (sv_state (sup s)) \<and> DebtServer d = StServer (sv_state (sup s))))"
  using assms
  by (auto simp: reconcileLidDebt_def lidGraceDecision_def recordLidReopened_def recordLidDestroyCancelled_def
      lid_debt_of_def)

theorem open_lid_keeps_the_server_witness:
  "LidDestroy (sv_state (sup (exec (reconcileLidDebt (calm_env 5000 LegAuto) (failing_lid 0))
     (exec (onLidClose (calm_env 5000 LegAuto) (failing_lid 1)) sample_sys)))) = LidDestroyCancelled"
proof -
  let ?s = "exec (onLidClose (calm_env 5000 LegAuto) (failing_lid 1)) sample_sys"
  have "\<not> lidDryRun (sup ?s)" "\<not> lidBusy (sup ?s)"
    by (simp_all add: onLidClose_def lid_with_def lockedAttempt_def attemptLidDestroy_def recordLidDestroyPending_def)
  then show ?thesis
    using open_lid_keeps_the_server [of "failing_lid 0" _ ?s, OF _ _ _ _ refl] failed_lid_close
    by (simp add: lid_with_def)
qed

end
