(* ===== verification/Route_Rules.thy ===== *)
theory Route_Rules
  imports Balance Leg_Policy Lanes "HOL-Library.AList" "HOL-Library.Char_ord" "HOL-Library.List_Lexorder"
begin

text \<open>
  config/types.go (RouteRule, RuleSet, OutboundConfig), config/hotrules.go, config/balance.go and
  the rule helpers of config/parser.go: which rules move into hot-reloadable rule sets, conflicts
  between them, and the source-port shards that spread new flows over the lanes.

  A Go map from outbounds to rules together with the order of its keys is an association list in
  that order. The text of a conflict report is its list of entries. Files are their paths and
  contents.
\<close>

section \<open>Rules\<close>

record RouteRule =
  SourcePortRange :: "string list"
  Action :: string
  Protocol :: string
  IPCIDR :: "string list"
  DomainSuffix :: "string list"
  DomainKeyword :: "string list"
  RuleSetRefs :: "string list"
  Inbound :: "string list"
  Invert :: bool
  Outbound :: string

definition zero_rule :: RouteRule where
  "zero_rule = \<lparr>SourcePortRange = [], Action = [], Protocol = [], IPCIDR = [], DomainSuffix = [],
     DomainKeyword = [], RuleSetRefs = [], Inbound = [], Invert = False, Outbound = []\<rparr>"

record RuleSet =
  RsType :: string
  RsTag :: string
  RsFormat :: string
  RsURL :: string
  RsPath :: string
  RsDownloadDetour :: string
  RsUpdateInterval :: string

definition zero_ruleset :: RuleSet where
  "zero_ruleset = \<lparr>RsType = [], RsTag = [], RsFormat = [], RsURL = [], RsPath = [], RsDownloadDetour = [],
     RsUpdateInterval = []\<rparr>"

definition isHotEligible :: "RouteRule \<Rightarrow> bool" where
  "isHotEligible r =
     (if length (SourcePortRange r) \<noteq> 0 then False
      else if Outbound r = [] \<or> Action r \<noteq> [] \<or> Protocol r \<noteq> [] \<or> Invert r then False
      else if IPCIDR r \<noteq> [] \<or> RuleSetRefs r \<noteq> [] then False
      else DomainSuffix r \<noteq> [] \<or> DomainKeyword r \<noteq> [])"

type_synonym rule_groups = "(string \<times> RouteRule list) list"

text \<open>Appending a rule to its outbound's group; a new outbound goes to the end of the order.\<close>

fun add_group :: "rule_groups \<Rightarrow> string \<Rightarrow> RouteRule \<Rightarrow> rule_groups" where
  "add_group [] ob r = [(ob, [r])]"
| "add_group ((k, rs) # gs) ob r = (if k = ob then (k, rs @ [r]) # gs else (k, rs) # add_group gs ob r)"

fun split_loop :: "RouteRule list \<Rightarrow> rule_groups \<Rightarrow> RouteRule list \<Rightarrow> rule_groups \<times> RouteRule list" where
  "split_loop [] groups rest = (groups, rest)"
| "split_loop (r # rs) groups rest =
     (if \<not> isHotEligible r then split_loop rs groups (rest @ [r])
      else split_loop rs (add_group groups (Outbound r) r) rest)"

definition SplitHotRules :: "RouteRule list \<Rightarrow> rule_groups \<times> RouteRule list" where
  "SplitHotRules rules = split_loop rules [] []"

section \<open>Conflicts\<close>

definition group_of :: "rule_groups \<Rightarrow> string \<Rightarrow> RouteRule list" where
  "group_of groups ob = (case map_of groups ob of None \<Rightarrow> [] | Some rs \<Rightarrow> rs)"

definition rule_domains :: "RouteRule \<Rightarrow> string list" where
  "rule_domains r = DomainSuffix r @ DomainKeyword r"

definition hot_claims :: "rule_groups \<Rightarrow> (string \<times> string) list" where
  "hot_claims groups =
     concat (map (\<lambda>ob. map (\<lambda>d. (d, ob)) (concat (map rule_domains (group_of groups ob)))) (sort (map fst groups)))"

fun conflict_loop ::
  "(string \<times> string) list \<Rightarrow> (string \<rightharpoonup> string) \<Rightarrow> (string \<times> string \<times> string) list
     \<Rightarrow> (string \<times> string \<times> string) list" where
  "conflict_loop [] owner dup = dup"
| "conflict_loop ((d, ob) # cs) owner dup =
     (case owner d of
        None \<Rightarrow> conflict_loop cs (owner(d \<mapsto> ob)) dup
      | Some prev \<Rightarrow> conflict_loop cs owner (if prev \<noteq> ob then AList.update d (prev, ob) dup else dup))"

text \<open>The report: domain, first outbound, last other outbound, by domain; empty is no error.\<close>

definition DetectHotRuleConflicts :: "rule_groups \<Rightarrow> (string \<times> string \<times> string) list" where
  "DetectHotRuleConflicts groups = sort_key fst (conflict_loop (hot_claims groups) Map.empty [])"

section \<open>Rule sets\<close>

record headlessRule =
  HlSuffix :: "string list"
  HlKeyword :: "string list"

definition hot_source :: "RouteRule list \<Rightarrow> headlessRule list" where
  "hot_source rs = concat (map (\<lambda>r.
     (if DomainSuffix r \<noteq> [] then [\<lparr>HlSuffix = DomainSuffix r, HlKeyword = []\<rparr>] else []) @
     (if DomainKeyword r \<noteq> [] then [\<lparr>HlSuffix = [], HlKeyword = DomainKeyword r\<rparr>] else [])) rs)"

definition hotRuleSetTag :: "string \<Rightarrow> string" where
  "hotRuleSetTag ob = ''mole-hot-'' @ ob"

definition hotRuleSetPath :: "string \<Rightarrow> string \<Rightarrow> string" where
  "hotRuleSetPath dir ob = dir @ ''/mole-'' @ ob @ ''.json''"

text \<open>
  The directory is made, then each group's file is written beside its place and renamed onto it. The
  three system calls are parameters that report an error or none for a path; a refused write or
  rename ends the loop. A refused rename leaves the temporary file.
\<close>

record disk =
  dk_mkdir :: "string \<Rightarrow> go_error"
  dk_write :: "string \<Rightarrow> go_error"
  dk_rename :: "string \<Rightarrow> go_error"

type_synonym rule_files = "string \<rightharpoonup> headlessRule list"

fun write_rule_sets :: "disk \<Rightarrow> string \<Rightarrow> rule_groups \<Rightarrow> rule_files \<Rightarrow> go_error \<times> rule_files" where
  "write_rule_sets dk dir [] files = (None, files)"
| "write_rule_sets dk dir ((ob, rs) # groups) files =
     (let final = hotRuleSetPath dir ob; tmp = final @ ''.tmp'' in
      case dk_write dk tmp of
        Some e \<Rightarrow> (Some (''write rule-set '' @ ob @ '': '' @ e), files)
      | None \<Rightarrow>
          (case dk_rename dk final of
             Some e \<Rightarrow> (Some (''install rule-set '' @ ob @ '': '' @ e), files(tmp \<mapsto> hot_source rs))
           | None \<Rightarrow> write_rule_sets dk dir groups ((files(final \<mapsto> hot_source rs))(tmp := None))))"

definition WriteHotRuleSets :: "disk \<Rightarrow> string \<Rightarrow> rule_groups \<Rightarrow> rule_files \<Rightarrow> go_error \<times> rule_files" where
  "WriteHotRuleSets dk dir groups files =
     (case dk_mkdir dk dir of
        Some e \<Rightarrow> (Some (''create rule-set dir: '' @ e), files)
      | None \<Rightarrow> write_rule_sets dk dir groups files)"

definition HotRuleSetRefs :: "string \<Rightarrow> string list \<Rightarrow> RuleSet list \<times> RouteRule list" where
  "HotRuleSetRefs dir order =
     (map (\<lambda>ob. zero_ruleset\<lparr>RsType := ''local'', RsTag := hotRuleSetTag ob, RsFormat := ''source'',
        RsPath := hotRuleSetPath dir ob\<rparr>) order,
      map (\<lambda>ob. zero_rule\<lparr>RuleSetRefs := [hotRuleSetTag ob], Outbound := ob\<rparr>) order)"

section \<open>Reloading\<close>

text \<open>What reading custom-rules.json gives; the JSON decoder is behind it.\<close>

datatype custom_source = CustomMissing | CustomUnreadable string | CustomMalformed string | CustomRules "RouteRule list"

datatype reload_error = RuleSource string | RuleConflict "(string \<times> string \<times> string) list" | RuleWrite string

definition LoadRoutingRulesStrict :: "RouteRule list \<Rightarrow> custom_source \<Rightarrow> reload_error + RouteRule list" where
  "LoadRoutingRulesStrict builtin custom =
     (case custom of
        CustomMissing \<Rightarrow> Inr builtin
      | CustomUnreadable e \<Rightarrow> Inl (RuleSource (''read custom rules: '' @ e))
      | CustomMalformed e \<Rightarrow> Inl (RuleSource (''parse custom rules: '' @ e))
      | CustomRules rs \<Rightarrow> Inr (builtin @ rs))"

definition domain_count :: "rule_groups \<Rightarrow> nat" where
  "domain_count groups = sum_list (map (\<lambda>(_, rs). sum_list (map (\<lambda>r. length (rule_domains r)) rs)) groups)"

definition RecompileHotRules ::
  "disk \<Rightarrow> string \<Rightarrow> RouteRule list \<Rightarrow> custom_source \<Rightarrow> rule_files \<Rightarrow> (reload_error + nat) \<times> rule_files" where
  "RecompileHotRules dk dir builtin custom files =
     (case LoadRoutingRulesStrict builtin custom of
        Inl e \<Rightarrow> (Inl e, files)
      | Inr rules \<Rightarrow>
          let groups = fst (SplitHotRules rules); report = DetectHotRuleConflicts groups in
          if report \<noteq> [] then (Inl (RuleConflict report), files)
          else case WriteHotRuleSets dk dir groups files of
            (Some e, files) \<Rightarrow> (Inl (RuleWrite e), files)
          | (None, files) \<Rightarrow> (Inr (domain_count groups), files))"

section \<open>Domain lists\<close>

text \<open>The de-duplicating loops of directDomainSuffixes, proxyDomainSuffixes and proxyDomainKeywords.\<close>

fun dedup_loop :: "string list \<Rightarrow> string list \<Rightarrow> string list" where
  "dedup_loop [] out = out"
| "dedup_loop (s # ss) out = dedup_loop ss (if s \<in> set out then out else out @ [s])"

definition directDomainSuffixes :: "RouteRule list \<Rightarrow> string list" where
  "directDomainSuffixes rules =
     dedup_loop (concat (map DomainSuffix (filter (\<lambda>r. Outbound r = ''direct'') rules))) []"

definition proxyDomainSuffixes :: "RouteRule list \<Rightarrow> string list" where
  "proxyDomainSuffixes rules =
     dedup_loop (concat (map DomainSuffix (filter (\<lambda>r. Outbound r = ''proxy'') rules))) []"

definition proxyDomainKeywords :: "RouteRule list \<Rightarrow> string list" where
  "proxyDomainKeywords rules =
     dedup_loop (concat (map DomainKeyword (filter (\<lambda>r. Outbound r = ''proxy'') rules))) []"

definition localReverseZones :: "string list" where
  "localReverseZones =
     [''.10.in-addr.arpa'', ''.168.192.in-addr.arpa'', ''.254.169.in-addr.arpa'', ''.127.in-addr.arpa'',
      ''.0.in-addr.arpa'', ''.d.f.ip6.arpa'', ''.8.e.f.ip6.arpa'', ''.9.e.f.ip6.arpa'', ''.a.e.f.ip6.arpa'',
      ''.b.e.f.ip6.arpa''] @ map (\<lambda>i. ''.'' @ itoa i @ ''.172.in-addr.arpa'') [16..31]"

section \<open>Sharding new flows\<close>

definition shard :: "RouteRule \<Rightarrow> int \<Rightarrow> RouteRule" where
  "shard rule lane = rule\<lparr>SourcePortRange := BalancePortRanges lane, Outbound := BalanceLaneTag lane\<rparr>"

text \<open>strings.IndexAny with the two separators, the trimming and the bounds.\<close>

definition is_sep :: "char \<Rightarrow> bool" where
  "is_sep c = (c = CHR ''-'' \<or> c = CHR '':'')"

definition parsePortRange :: "string \<Rightarrow> (int \<times> int) option" where
  "parsePortRange s =
     (let lo_text = takeWhile (\<lambda>c. \<not> is_sep c) s; rest = dropWhile (\<lambda>c. \<not> is_sep c) s
      in if rest = [] \<or> lo_text = [] then None
         else case (atoi (trim_space lo_text), atoi (trim_space (tl rest))) of
           (Some lo, Some hi) \<Rightarrow> if lo < 1 \<or> hi > 65535 \<or> lo \<ge> hi then None else Some (lo, hi)
         | _ \<Rightarrow> None)"

definition shardable :: "RouteRule \<Rightarrow> bool" where
  "shardable rule = (Outbound rule = ProxySelectorTag \<and> \<not> Invert rule \<and> length (SourcePortRange rule) = 0)"

definition flowRoutes :: "RouteRule list \<Rightarrow> RouteRule list" where
  "flowRoutes rules =
     concat (map (\<lambda>rule. (if shardable rule then map (shard rule) [0..BalanceLanes - 1] else []) @ [rule]) rules) @
     map (shard zero_rule) [0..BalanceLanes - 1]"

section \<open>Lemmas\<close>

lemma group_of_add:
  "group_of (add_group gs ob r) k = (if k = ob then group_of gs k @ [r] else group_of gs k)"
  by (induction gs ob r rule: add_group.induct) (auto simp: group_of_def)

lemma keys_add: "map fst (add_group gs ob r) = (if ob \<in> fst ` set gs then map fst gs else map fst gs @ [ob])"
  by (induction gs ob r rule: add_group.induct) auto

lemma split_loop_rest: "snd (split_loop rs gs rest) = rest @ filter (\<lambda>r. \<not> isHotEligible r) rs"
  by (induction rs gs rest rule: split_loop.induct) auto

lemma split_loop_group:
  "group_of (fst (split_loop rs gs rest)) ob =
     group_of gs ob @ filter (\<lambda>r. isHotEligible r \<and> Outbound r = ob) rs"
  by (induction rs gs rest rule: split_loop.induct) (auto simp: group_of_add)

lemma split_loop_keys:
  "distinct (map fst gs) \<Longrightarrow> distinct (map fst (fst (split_loop rs gs rest))) \<and>
   set (map fst (fst (split_loop rs gs rest))) = set (map fst gs) \<union> Outbound ` {r \<in> set rs. isHotEligible r}"
proof (induction rs gs rest rule: split_loop.induct)
  case (2 r rs gs rest)
  then show ?case by (auto simp: keys_add)
qed simp

lemma split_groups:
  "group_of (fst (SplitHotRules rules)) ob = filter (\<lambda>r. isHotEligible r \<and> Outbound r = ob) rules"
  "distinct (map fst (fst (SplitHotRules rules)))"
  "set (map fst (fst (SplitHotRules rules))) = Outbound ` {r \<in> set rules. isHotEligible r}"
  using split_loop_group [of rules "[]" "[]" ob] split_loop_keys [of "[]" rules "[]"]
  by (simp_all add: SplitHotRules_def group_of_def)

lemma group_mem:
  assumes "distinct (map fst gs)" and "(ob, rs) \<in> set gs"
  shows "group_of gs ob = rs"
  using assms by (simp add: group_of_def map_of_is_SomeI)

lemma update_nonempty [simp]: "AList.update k v xs \<noteq> []"
  by (cases xs) auto

text \<open>What the claims still to come must satisfy for the report to stay empty.\<close>

definition claims_agree :: "('k \<times> 'v) set \<Rightarrow> ('k \<rightharpoonup> 'v) \<Rightarrow> bool" where
  "claims_agree C owner =
     ((\<forall>x \<in> C. owner (fst x) = None \<or> owner (fst x) = Some (snd x)) \<and>
      (\<forall>x \<in> C. \<forall>y \<in> C. fst x = fst y \<longrightarrow> snd x = snd y))"

lemma claims_agree_insert:
  "claims_agree (insert (d, ob) C) owner \<longleftrightarrow>
     (owner d = None \<or> owner d = Some ob) \<and> (\<forall>y \<in> C. fst y = d \<longrightarrow> snd y = ob) \<and> claims_agree C owner"
  unfolding claims_agree_def by (simp add: ball_conj_distrib) blast

lemma claims_agree_upd:
  "owner d = None \<Longrightarrow> claims_agree C (owner(d \<mapsto> ob)) \<longleftrightarrow>
     (\<forall>y \<in> C. fst y = d \<longrightarrow> snd y = ob) \<and> claims_agree C owner"
  by (auto simp: claims_agree_def fun_upd_apply split: if_splits)

lemma claims_agree_known:
  "owner d = Some ob \<Longrightarrow> claims_agree C owner \<Longrightarrow> \<forall>y \<in> C. fst y = d \<longrightarrow> snd y = ob"
  unfolding claims_agree_def by (metis option.distinct(1) option.inject)

lemma conflict_loop_nil:
  "conflict_loop cs owner dup = [] \<longleftrightarrow> dup = [] \<and> claims_agree (set cs) owner"
proof (induction cs owner dup rule: conflict_loop.induct)
  case (1 owner dup)
  then show ?case by (simp add: claims_agree_def)
next
  case (2 d ob cs owner dup)
  show ?case
  proof (cases "owner d")
    case None
    with 2(1) show ?thesis
      by (simp add: claims_agree_insert claims_agree_upd del: fun_upd_apply)
  next
    case (Some prev)
    with 2(2) [OF Some] show ?thesis
      using claims_agree_known [of owner d prev "set cs"]
      by (cases "prev = ob") (auto simp: claims_agree_insert)
  qed
qed

lemma hot_claims_iff:
  "(d, ob) \<in> set (hot_claims groups) \<longleftrightarrow> ob \<in> fst ` set groups \<and> (\<exists>r \<in> set (group_of groups ob). d \<in> set (rule_domains r))"
  by (auto simp: hot_claims_def)

lemma hot_claims_split:
  "(d, ob) \<in> set (hot_claims (fst (SplitHotRules rules))) \<longleftrightarrow>
     (\<exists>r \<in> set rules. isHotEligible r \<and> Outbound r = ob \<and> d \<in> set (rule_domains r))"
  using split_groups(1) [of rules ob] split_groups(3) [of rules] by (auto simp: hot_claims_iff)

lemma sort_key_nil: "sort_key f xs = [] \<longleftrightarrow> xs = []"
  by (metis length_0_conv length_sort)

lemma no_conflict_iff:
  "DetectHotRuleConflicts groups = [] \<longleftrightarrow>
     (\<forall>d ob ob'. (d, ob) \<in> set (hot_claims groups) \<and> (d, ob') \<in> set (hot_claims groups) \<longrightarrow> ob = ob')"
  by (simp add: DetectHotRuleConflicts_def sort_key_nil conflict_loop_nil claims_agree_def) (metis fst_conv prod.collapse snd_conv)

section \<open>Properties\<close>

text \<open>Splitting loses no rule and keeps every order. The inlined rest is the ineligible rules, each
  outbound's group is its eligible rules, both in their original order, and no outbound has two
  groups.\<close>
theorem split_is_a_stable_partition:
  "snd (SplitHotRules rules) = filter (\<lambda>r. \<not> isHotEligible r) rules \<and>
   group_of (fst (SplitHotRules rules)) ob = filter (\<lambda>r. isHotEligible r \<and> Outbound r = ob) rules \<and>
   distinct (map fst (fst (SplitHotRules rules)))"
  using split_groups by (simp add: SplitHotRules_def split_loop_rest)

text \<open>The conflict check is exact for what it names: it reports nothing if and only if no domain is
  given to two outbounds by rules that move into rule sets. In particular a custom rule can not
  send a domain of a built-in rule elsewhere: the configuration is then refused.\<close>
theorem conflicts_are_shared_domains:
  "DetectHotRuleConflicts (fst (SplitHotRules rules)) = [] \<longleftrightarrow>
     (\<forall>r \<in> set rules. \<forall>r' \<in> set rules. isHotEligible r \<and> isHotEligible r' \<and>
        set (rule_domains r) \<inter> set (rule_domains r') \<noteq> {} \<longrightarrow> Outbound r = Outbound r')"
  by (auto simp: no_conflict_iff hot_claims_split)

theorem conflicts_are_shared_domains_witness:
  "DetectHotRuleConflicts (fst (SplitHotRules
     [zero_rule\<lparr>DomainSuffix := [''qq.com''], Outbound := ''direct''\<rparr>,
      zero_rule\<lparr>DomainSuffix := [''qq.com''], Outbound := ''proxy''\<rparr>])) \<noteq> []"
  using conflicts_are_shared_domains [of "[zero_rule\<lparr>DomainSuffix := [''qq.com''], Outbound := ''direct''\<rparr>,
      zero_rule\<lparr>DomainSuffix := [''qq.com''], Outbound := ''proxy''\<rparr>]"]
  by (simp add: isHotEligible_def zero_rule_def rule_domains_def)

section \<open>Routing\<close>

text \<open>
  The engine's documented use of a rule list: the first rule that matches a flow decides. The
  matcher of one rule set entry, or of one rule, is a parameter; so is the kind of flow.
\<close>

definition rule_hits :: "(headlessRule \<Rightarrow> 'h \<Rightarrow> bool) \<Rightarrow> RouteRule \<Rightarrow> 'h \<Rightarrow> bool" where
  "rule_hits m r h = list_ex (\<lambda>hl. m hl h) (hot_source [r])"

definition route_inline :: "(headlessRule \<Rightarrow> 'h \<Rightarrow> bool) \<Rightarrow> RouteRule list \<Rightarrow> 'h \<Rightarrow> string option" where
  "route_inline m rules h = map_option Outbound (find (\<lambda>r. rule_hits m r h) rules)"

definition route_grouped :: "(headlessRule \<Rightarrow> 'h \<Rightarrow> bool) \<Rightarrow> rule_groups \<Rightarrow> 'h \<Rightarrow> string option" where
  "route_grouped m groups h = map_option fst (find (\<lambda>(ob, rs). list_ex (\<lambda>hl. m hl h) (hot_source rs)) groups)"

lemma hot_source_ex: "list_ex (\<lambda>hl. m hl h) (hot_source rs) \<longleftrightarrow> (\<exists>r \<in> set rs. rule_hits m r h)"
  by (induction rs) (auto simp: hot_source_def rule_hits_def)

lemma find_some_iff: "(\<exists>x. find P xs = Some x) \<longleftrightarrow> (\<exists>x \<in> set xs. P x)"
  using find_None_iff [of P xs] by (metis not_None_eq)

lemma route_inline_Some: "route_inline m rules h = Some ob \<Longrightarrow> \<exists>r \<in> set rules. rule_hits m r h \<and> Outbound r = ob"
  by (auto simp: route_inline_def dest!: find_someD)

lemma group_hits:
  assumes "(ob, rs) \<in> set (fst (SplitHotRules rules))"
  shows "list_ex (\<lambda>hl. m hl h) (hot_source rs) \<longleftrightarrow>
    (\<exists>r \<in> set rules. isHotEligible r \<and> Outbound r = ob \<and> rule_hits m r h)"
  using group_mem [OF split_groups(2) assms] split_groups(1) [of rules ob] by (auto simp: hot_source_ex)

lemma route_grouped_Some:
  assumes "route_grouped m (fst (SplitHotRules rules)) h = Some ob"
  shows "\<exists>r \<in> set rules. isHotEligible r \<and> rule_hits m r h \<and> Outbound r = ob"
proof -
  obtain g where g: "find (\<lambda>(ob, rs). list_ex (\<lambda>hl. m hl h) (hot_source rs)) (fst (SplitHotRules rules)) = Some g"
      "fst g = ob"
    using assms unfolding route_grouped_def by (cases "find (\<lambda>(ob, rs). list_ex (\<lambda>hl. m hl h) (hot_source rs)) (fst (SplitHotRules rules))") simp_all
  obtain rs where rs: "g = (ob, rs)" using g(2) by (cases g) simp
  have "(ob, rs) \<in> set (fst (SplitHotRules rules))" and "list_ex (\<lambda>hl. m hl h) (hot_source rs)"
    using find_someD [OF g(1)] unfolding rs by simp_all
  then show ?thesis using group_hits [of ob rs rules m h] by blast
qed

lemma route_grouped_None:
  "route_grouped m (fst (SplitHotRules rules)) h = None \<longleftrightarrow>
     \<not> (\<exists>r \<in> set rules. isHotEligible r \<and> rule_hits m r h)"
proof -
  let ?gs = "fst (SplitHotRules rules)"
  let ?P = "\<lambda>(ob, rs). list_ex (\<lambda>hl. m hl h) (hot_source rs)"
  have "(\<exists>g \<in> set ?gs. ?P g) \<longleftrightarrow> (\<exists>r \<in> set rules. isHotEligible r \<and> rule_hits m r h)"
  proof
    assume "\<exists>g \<in> set ?gs. ?P g"
    then obtain ob rs where "(ob, rs) \<in> set ?gs" "list_ex (\<lambda>hl. m hl h) (hot_source rs)" by auto
    then show "\<exists>r \<in> set rules. isHotEligible r \<and> rule_hits m r h"
      using group_hits [of ob rs rules m h] by blast
  next
    assume "\<exists>r \<in> set rules. isHotEligible r \<and> rule_hits m r h"
    then obtain r where r: "r \<in> set rules" "isHotEligible r" "rule_hits m r h" by blast
    then have "Outbound r \<in> set (map fst ?gs)" unfolding split_groups(3) by blast
    then obtain rs where g: "(Outbound r, rs) \<in> set ?gs" by auto
    then have "list_ex (\<lambda>hl. m hl h) (hot_source rs)"
      using group_hits [of "Outbound r" rs rules m h] r by blast
    with g show "\<exists>g \<in> set ?gs. ?P g" by blast
  qed
  moreover have "route_grouped m ?gs h = None \<longleftrightarrow> \<not> (\<exists>g \<in> set ?gs. ?P g)"
    unfolding route_grouped_def option.map_disc_iff find_None_iff Bex_def by (rule refl)
  ultimately show ?thesis by (simp only: not_not)
qed

text \<open>Moving the domain rules into one rule set per outbound keeps where every unambiguous host
  goes. If all the domain rules that match it name one outbound, the grouped configuration sends
  it there as the inlined list did, and a host that no rule matches stays unmatched.\<close>
theorem grouping_keeps_unambiguous_routes:
  assumes "\<And>r r'. r \<in> set rules \<Longrightarrow> r' \<in> set rules \<Longrightarrow> isHotEligible r \<Longrightarrow> isHotEligible r' \<Longrightarrow>
      rule_hits m r h \<Longrightarrow> rule_hits m r' h \<Longrightarrow> Outbound r = Outbound r'"
  shows "route_grouped m (fst (SplitHotRules rules)) h = route_inline m (filter isHotEligible rules) h"
proof (cases "route_inline m (filter isHotEligible rules) h")
  case None
  then have "\<not> (\<exists>r \<in> set rules. isHotEligible r \<and> rule_hits m r h)"
    by (auto simp: route_inline_def find_None_iff)
  with None show ?thesis using route_grouped_None by metis
next
  case (Some ob)
  then obtain r where r: "r \<in> set rules" "isHotEligible r" "rule_hits m r h" "Outbound r = ob"
    using route_inline_Some [OF Some] by auto
  then obtain ob' where g: "route_grouped m (fst (SplitHotRules rules)) h = Some ob'"
    using route_grouped_None [of m rules h] by (cases "route_grouped m (fst (SplitHotRules rules)) h") auto
  obtain r' where "r' \<in> set rules" "isHotEligible r'" "rule_hits m r' h" "Outbound r' = ob'"
    using route_grouped_Some [OF g] by blast
  then have "ob' = ob" using assms r by metis
  with g Some show ?thesis by simp
qed

text \<open>A matcher with the engine's two kinds: suffixes align on labels, keywords are substrings.\<close>

definition domain_match :: "headlessRule \<Rightarrow> string \<Rightarrow> bool" where
  "domain_match hl h =
     ((HlSuffix hl = [] \<or> list_ex (\<lambda>s. h = s \<or> has_suffix h (''.'' @ s)) (HlSuffix hl)) \<and>
      (HlKeyword hl = [] \<or> list_ex (\<lambda>k. str_contains h k) (HlKeyword hl)))"

definition exception_rules :: "RouteRule list" where
  "exception_rules =
     [zero_rule\<lparr>DomainSuffix := [''qq.com''], Outbound := ''direct''\<rparr>,
      zero_rule\<lparr>DomainSuffix := [''connect.apple.com''], Outbound := ''proxy''\<rparr>,
      zero_rule\<lparr>DomainSuffix := [''apple.com''], Outbound := ''direct''\<rparr>]"

theorem grouping_keeps_unambiguous_routes_witness:
  "route_grouped domain_match (fst (SplitHotRules exception_rules)) ''im.qq.com'' = Some ''direct''"
proof -
  have "route_inline domain_match (filter isHotEligible exception_rules) ''im.qq.com'' = Some ''direct''"
    by code_simp
  moreover have "\<forall>r \<in> set exception_rules. rule_hits domain_match r ''im.qq.com'' \<longrightarrow> Outbound r = ''direct''"
    by code_simp
  ultimately show ?thesis
    using grouping_keeps_unambiguous_routes [of exception_rules domain_match "''im.qq.com''"] by fastforce
qed

text \<open>An ambiguous host can change its route, and the conflict check does not see it. With a
  built-in direct rule in front, a proxy exception for a host under a domain that is direct, listed
  before that domain, loses its precedence: the inlined list sends the host to the proxy, the
  grouped one sends it direct, and no conflict is reported.\<close>
theorem grouping_reverses_an_exception:
  "DetectHotRuleConflicts (fst (SplitHotRules exception_rules)) = [] \<and>
   snd (SplitHotRules exception_rules) = [] \<and>
   route_inline domain_match exception_rules ''connect.apple.com'' = Some ''proxy'' \<and>
   route_grouped domain_match (fst (SplitHotRules exception_rules)) ''connect.apple.com'' = Some ''direct''"
  by code_simp

section \<open>Shards\<close>

lemma find_append: "find P (xs @ ys) = (case find P xs of None \<Rightarrow> find P ys | Some x \<Rightarrow> Some x)"
  by (induction xs) auto

text \<open>Of the eight shards at most one matches: the one of the lane that owns the source port.\<close>

lemma find_shard:
  assumes "\<And>lane. 0 \<le> lane \<Longrightarrow> lane < 8 \<Longrightarrow> m (shard r lane) \<longleftrightarrow> hit \<and> in_bands p (lane_bands lane)"
    and "1 \<le> p" and "p \<le> 65535"
  shows "find m (map (shard r) [0..7]) = (if hit then Some (shard r ((p div 32) mod 8)) else None)"
proof -
  have m: "0 \<le> lane \<Longrightarrow> lane < 8 \<Longrightarrow> m (shard r lane) \<longleftrightarrow> hit \<and> (p div 32) mod 8 = lane" for lane
    using assms by (auto simp: in_lane_bands)
  have "0 \<le> (p div 32) mod 8" and "(p div 32) mod 8 < 8" by simp_all
  moreover have "\<And>k :: int. 0 \<le> k \<Longrightarrow> k < 8 \<Longrightarrow> k \<in> {0, 1, 2, 3, 4, 5, 6, 7}" by auto
  ultimately have "(p div 32) mod 8 \<in> {0, 1, 2, 3, 4, 5, 6, 7}" by blast
  then show ?thesis
    by (elim insertE emptyE) (simp_all add: m upto_rec1)
qed

definition flow_hits :: "(RouteRule \<Rightarrow> 'f \<Rightarrow> bool) \<Rightarrow> ('f \<Rightarrow> int) \<Rightarrow> 'f \<Rightarrow> bool" where
  "flow_hits m port f =
     ((\<forall>r lane. SourcePortRange r = [] \<and> \<not> Invert r \<and> 0 \<le> lane \<and> lane < BalanceLanes \<longrightarrow>
         m (shard r lane) f = (m r f \<and> in_bands (port f) (lane_bands lane))) \<and>
      (\<forall>lane. 0 \<le> lane \<and> lane < BalanceLanes \<longrightarrow>
         m (shard zero_rule lane) f = in_bands (port f) (lane_bands lane)))"

text \<open>C37: sharding changes nothing but the spread of new tunnel flows. Given the engine's documented
  meaning of a source port range, a flow with a source port is decided by the same rule as
  before: if that rule sent it to the main selector, or no rule matched, it now goes to the one
  lane that owns its port, and every direct, blocking or inverted decision stands.\<close>
theorem shards_keep_every_decision:
  assumes "flow_hits m port f" and "1 \<le> port f" and "port f \<le> 65535"
  shows "map_option Outbound (find (\<lambda>r. m r f) (flowRoutes rules)) =
    Some (case find (\<lambda>r. m r f) rules of
        None \<Rightarrow> BalanceLaneTag ((port f div 32) mod 8)
      | Some r \<Rightarrow> if shardable r then BalanceLaneTag ((port f div 32) mod 8) else Outbound r)"
proof (induction rules)
  case Nil
  have "find (\<lambda>r. m r f) (map (shard zero_rule) [0..7]) = Some (shard zero_rule ((port f div 32) mod 8))"
    using find_shard [of "\<lambda>r. m r f" zero_rule True "port f"] assms by (simp add: flow_hits_def)
  then show ?case by (simp add: flowRoutes_def shard_def)
next
  case (Cons r rules)
  have more: "flowRoutes (r # rules) = (if shardable r then map (shard r) [0..7] else []) @ r # flowRoutes rules"
    by (simp add: flowRoutes_def)
  show ?case
  proof (cases "shardable r")
    case True
    then have "find (\<lambda>r. m r f) (map (shard r) [0..7]) = (if m r f then Some (shard r ((port f div 32) mod 8)) else None)"
      using find_shard [of "\<lambda>r. m r f" r "m r f" "port f"] assms by (simp add: flow_hits_def shardable_def)
    with True Cons.IH show ?thesis by (simp add: more find_append shard_def)
  next
    case False
    with Cons.IH show ?thesis by (simp add: more)
  qed
qed

section \<open>Port ranges\<close>

lemma nat_text_digits: "c \<in> set (nat_text n) \<Longrightarrow> \<exists>d < 10. c = digit_char d"
proof (induction n arbitrary: c rule: nat_text.induct)
  case (1 n)
  show ?case
  proof (cases "n < 10")
    case True
    with 1(2) show ?thesis by (subst (asm) nat_text.simps) auto
  next
    case False
    have "c \<in> set (nat_text (n div 10)) \<or> c = digit_char (n mod 10)"
      using 1(2) False by (subst (asm) nat_text.simps) auto
    with 1(1) [OF False] show ?thesis by (auto intro: exI [of _ "n mod 10"])
  qed
qed

lemma digit_char_plain: "d < 10 \<Longrightarrow> \<not> is_sep (digit_char d) \<and> \<not> is_space (digit_char d)"
proof -
  assume "d < 10"
  then have "digit_value (digit_char d) = Some d" by (rule digit_char_value)
  then show ?thesis by (auto simp: digit_value_def is_sep_def is_space_def Let_def split: if_splits)
qed

lemma itoa_plain:
  assumes "0 \<le> i" and "c \<in> set (itoa i)"
  shows "\<not> is_sep c" and "\<not> is_space c"
  using assms nat_text_digits [of c "nat i"] digit_char_plain by (auto simp: itoa_def)

lemma itoa_nonempty [simp]: "itoa i \<noteq> []"
  by (simp add: itoa_def)

lemma dropWhile_none: "(\<And>x. x \<in> set xs \<Longrightarrow> \<not> P x) \<Longrightarrow> dropWhile P xs = xs"
  by (cases xs) auto

lemma trim_itoa: "0 \<le> i \<Longrightarrow> trim_space (itoa i) = itoa i"
proof -
  assume i: "0 \<le> i"
  then have "dropWhile is_space (itoa i) = itoa i" and "dropWhile is_space (rev (itoa i)) = rev (itoa i)"
    by (auto intro!: dropWhile_none dest: itoa_plain(2))
  then show ?thesis by (simp add: trim_space_def)
qed

lemma parse_range:
  assumes "1 \<le> lo" and "lo < hi" and "hi \<le> 65535" and "is_sep c"
  shows "parsePortRange (itoa lo @ c # itoa hi) = Some (lo, hi)"
proof -
  have "takeWhile (\<lambda>c. \<not> is_sep c) (itoa lo @ c # itoa hi) = itoa lo"
    and "dropWhile (\<lambda>c. \<not> is_sep c) (itoa lo @ c # itoa hi) = c # itoa hi"
    using assms itoa_plain(1) [of lo] by (simp_all add: takeWhile_append2 dropWhile_append2)
  moreover have "atoi (itoa lo) = Some lo" and "atoi (itoa hi) = Some hi"
    using assms by (simp_all add: atoi_itoa)
  ultimately show ?thesis using assms by (simp add: parsePortRange_def trim_itoa)
qed

text \<open>A hop range never leaves the UDP ports, and both spellings of one parse to it. What is accepted
  is an increasing pair inside 1 to 65535, and every such pair is accepted, with a dash as the
  server writes it or with a colon as the engine does.\<close>
theorem port_range_roundtrip:
  "(parsePortRange s = Some (lo, hi) \<longrightarrow> 1 \<le> lo \<and> lo < hi \<and> hi \<le> 65535) \<and>
   (1 \<le> lo \<and> lo < hi \<and> hi \<le> 65535 \<longrightarrow>
      parsePortRange (itoa lo @ CHR ''-'' # itoa hi) = Some (lo, hi) \<and>
      parsePortRange (itoa lo @ CHR '':'' # itoa hi) = Some (lo, hi))"
proof (intro conjI impI)
  assume "parsePortRange s = Some (lo, hi)"
  then show "1 \<le> lo" and "lo < hi" and "hi \<le> 65535"
    by (auto simp: parsePortRange_def Let_def split: if_splits option.splits)
qed (auto intro!: parse_range simp: is_sep_def)

lemma digit_chars:
  "digit_char 0 = CHR ''0''" "digit_char 2 = CHR ''2''" "digit_char 5 = CHR ''5''"
  by code_simp+

theorem port_range_roundtrip_witness:
  "parsePortRange ''20000-50000'' = Some (20000, 50000) \<and> parsePortRange (itoa 20000 @ '':'' @ itoa 50000) = Some (20000, 50000)"
proof -
  have "itoa 20000 @ CHR ''-'' # itoa 50000 = ''20000-50000''"
    by (simp add: itoa_def nat_text.simps digit_chars)
  then show ?thesis using port_range_roundtrip [of "[]" 20000 50000] by simp
qed

text \<open>A flow is its source port and its host; a rule matches by port ranges and host suffixes.\<close>

definition port_match :: "int \<Rightarrow> string \<Rightarrow> bool" where
  "port_match p s = (case parsePortRange s of None \<Rightarrow> False | Some (lo, hi) \<Rightarrow> lo \<le> p \<and> p \<le> hi)"

definition sample_match :: "RouteRule \<Rightarrow> int \<times> string \<Rightarrow> bool" where
  "sample_match r f =
     ((SourcePortRange r = [] \<or> list_ex (port_match (fst f)) (SourcePortRange r)) \<and>
      (DomainSuffix r = [] \<or> list_ex (\<lambda>s. snd f = s \<or> has_suffix (snd f) (''.'' @ s)) (DomainSuffix r)))"

lemma port_bands_ranges:
  "32 dvd low \<Longrightarrow> 0 \<le> low \<Longrightarrow> (lo, hi) \<in> set (port_bands low) \<Longrightarrow> 1 \<le> lo \<and> lo < hi \<and> hi \<le> 65535"
proof (induction low rule: port_bands.induct)
  case (1 low)
  show ?case
  proof (cases "low > 65535")
    case True
    with 1(4) show ?thesis by (simp add: port_bands.simps [of low])
  next
    case False
    obtain k where k: "low = 32 * k" using 1(2) by blast
    have "k \<le> 2047" using False k by simp
    then have "low + 31 \<le> 65535" using k by simp
    then have eq: "port_bands low = (if low = 0 then 1 else low, low + 31) # port_bands (low + 256)"
      using False 1(2) by (subst port_bands.simps) (auto simp: Let_def)
    have "32 dvd low + 256" using 1(2) by presburger
    with 1 eq False \<open>low + 31 \<le> 65535\<close> show ?thesis by (auto simp: Let_def split: if_splits)
  qed
qed

lemma lane_port_match:
  assumes "0 \<le> lane" and "lane < BalanceLanes"
  shows "list_ex (port_match p) (BalancePortRanges lane) = in_bands p (lane_bands lane)"
proof -
  have "port_match p (itoa lo @ '':'' @ itoa hi) = (lo \<le> p \<and> p \<le> hi)" if "(lo, hi) \<in> set (lane_bands lane)" for lo hi
    using that assms port_bands_ranges [of "lane * 32" lo hi]
    by (auto simp: lane_bands_def port_match_def parse_range is_sep_def)
  then show ?thesis
    unfolding BalancePortRanges_def in_bands_def list_ex_iff by fastforce
qed

lemma BalancePortRanges_nonempty: "0 \<le> lane \<Longrightarrow> lane < BalanceLanes \<Longrightarrow> BalancePortRanges lane \<noteq> []"
  by (simp add: BalancePortRanges_def lane_bands_def, subst port_bands.simps) (simp add: Let_def)

lemma sample_flow_hits: "flow_hits sample_match fst f"
  by (auto simp: flow_hits_def sample_match_def shard_def zero_rule_def lane_port_match BalancePortRanges_nonempty)

text \<open>A rule that names an inbound moves into a rule set like one that does not, and the rule that
  stands for the set names none: the restriction is lost.\<close>

theorem hot_rules_forget_inbound:
  "isHotEligible (r\<lparr>Inbound := i\<rparr>) = isHotEligible r \<and>
   hot_source [r\<lparr>Inbound := i\<rparr>] = hot_source [r] \<and>
   list_all (\<lambda>ref. Inbound ref = []) (snd (HotRuleSetRefs dir order))"
  by (simp add: isHotEligible_def hot_source_def HotRuleSetRefs_def list_all_iff zero_rule_def)

section \<open>Installing the rule sets\<close>

lemma path_inject [simp]: "hotRuleSetPath dir a = hotRuleSetPath dir b \<longleftrightarrow> a = b"
  by (simp add: hotRuleSetPath_def)

lemma path_not_tmp [simp]: "hotRuleSetPath dir a \<noteq> hotRuleSetPath dir b @ ''.tmp''"
proof
  assume "hotRuleSetPath dir a = hotRuleSetPath dir b @ ''.tmp''"
  then have "last (hotRuleSetPath dir a) = last (hotRuleSetPath dir b @ ''.tmp'')" by simp
  then show False by (simp add: hotRuleSetPath_def)
qed

lemma write_rule_sets_other:
  "ob \<notin> fst ` set groups \<Longrightarrow>
     snd (write_rule_sets dk dir groups files) (hotRuleSetPath dir ob) = files (hotRuleSetPath dir ob)"
  by (induction dk dir groups files rule: write_rule_sets.induct) (auto simp: Let_def split: option.splits)

lemma write_rule_sets_mem:
  "distinct (map fst groups) \<Longrightarrow> (ob, rs) \<in> set groups \<Longrightarrow>
     snd (write_rule_sets dk dir groups files) (hotRuleSetPath dir ob) = Some (hot_source rs) \<or>
     (fst (write_rule_sets dk dir groups files) \<noteq> None \<and>
      snd (write_rule_sets dk dir groups files) (hotRuleSetPath dir ob) = files (hotRuleSetPath dir ob))"
proof (induction dk dir groups files rule: write_rule_sets.induct)
  case (2 dk dir k ks groups files)
  show ?case
  proof (cases "ob = k")
    case True
    with 2(2,3) have "rs = ks" and "ob \<notin> fst ` set groups" by (auto simp: image_iff)
    with True show ?thesis by (auto simp: Let_def write_rule_sets_other split: option.splits)
  next
    case False
    let ?files = "(files(hotRuleSetPath dir k \<mapsto> hot_source ks))(hotRuleSetPath dir k @ ''.tmp'' := None)"
    have "?files (hotRuleSetPath dir ob) = files (hotRuleSetPath dir ob)" using False by simp
    moreover have "(files(hotRuleSetPath dir k @ ''.tmp'' \<mapsto> hot_source ks)) (hotRuleSetPath dir ob)
        = files (hotRuleSetPath dir ob)" by simp
    ultimately show ?thesis using 2 False by (auto simp: Let_def simp del: fun_upd_apply split: option.splits)
  qed
qed simp

lemma rule_sets_whole:
  assumes "(ob, rs) \<in> set (fst (SplitHotRules rules))"
  shows "snd (WriteHotRuleSets dk dir (fst (SplitHotRules rules)) files) (hotRuleSetPath dir ob) = Some (hot_source rs) \<or>
    (fst (WriteHotRuleSets dk dir (fst (SplitHotRules rules)) files) \<noteq> None \<and>
     snd (WriteHotRuleSets dk dir (fst (SplitHotRules rules)) files) (hotRuleSetPath dir ob) = files (hotRuleSetPath dir ob))"
  using write_rule_sets_mem [OF split_groups(2) assms, of dk dir files]
  by (auto simp: WriteHotRuleSets_def split: option.splits)

text \<open>The engine, which watches the rule set files, never reads a half-written one and never a mix of
  versions inside one. Whatever fails, each outbound's file is afterwards its whole old content or
  its whole new one, and without an error all are new.\<close>
theorem rule_sets_install_whole:
  assumes "(ob, rs) \<in> set (fst (SplitHotRules rules))"
  shows "case WriteHotRuleSets dk dir (fst (SplitHotRules rules)) files of (err, files') \<Rightarrow>
    files' (hotRuleSetPath dir ob) = Some (hot_source rs) \<or>
      (err \<noteq> None \<and> files' (hotRuleSetPath dir ob) = files (hotRuleSetPath dir ob))"
  using rule_sets_whole [OF assms, of dk dir files] by (auto split: prod.splits)

definition full_disk :: disk where
  "full_disk = \<lparr>dk_mkdir = \<lambda>_. None,
     dk_write = \<lambda>p. if p = ''d/mole-proxy.json.tmp'' then Some ''no space'' else None, dk_rename = \<lambda>_. None\<rparr>"

theorem rule_sets_install_whole_witness:
  "case WriteHotRuleSets full_disk ''d'' (fst (SplitHotRules exception_rules)) (\<lambda>_. None) of (err, files') \<Rightarrow>
     files' ''d/mole-proxy.json'' = None \<and> err \<noteq> None"
proof -
  have "(''proxy'', [zero_rule\<lparr>DomainSuffix := [''connect.apple.com''], Outbound := ''proxy''\<rparr>])
      \<in> set (fst (SplitHotRules exception_rules))"
    by code_simp
  moreover have "hotRuleSetPath ''d'' ''proxy'' = ''d/mole-proxy.json''" by code_simp
  moreover have "snd (WriteHotRuleSets full_disk ''d'' (fst (SplitHotRules exception_rules)) (\<lambda>_. None))
      ''d/mole-proxy.json'' = None"
    by code_simp
  ultimately show ?thesis
    using rule_sets_install_whole [where rules = exception_rules and dk = full_disk and dir = "''d''"
        and files = "\<lambda>_. None"] by fastforce
qed

text \<open>A reload that is refused changes no file, and one that succeeds installs every outbound's rules.
  A custom file that can not be read or parsed, or a domain given to two outbounds, leaves the last
  good rule sets in place.\<close>
theorem reload_all_or_nothing:
  "case RecompileHotRules dk dir builtin custom files of
     (Inl (RuleSource _), files') \<Rightarrow> files' = files
   | (Inl (RuleConflict _), files') \<Rightarrow> files' = files
   | (Inl (RuleWrite _), files') \<Rightarrow> True
   | (Inr n, files') \<Rightarrow> \<exists>rules. LoadRoutingRulesStrict builtin custom = Inr rules \<and>
        n = domain_count (fst (SplitHotRules rules)) \<and>
        list_all (\<lambda>(ob, rs). files' (hotRuleSetPath dir ob) = Some (hot_source rs)) (fst (SplitHotRules rules))"
proof (cases "LoadRoutingRulesStrict builtin custom")
  case (Inl e)
  then show ?thesis
    by (auto simp: RecompileHotRules_def LoadRoutingRulesStrict_def split: custom_source.splits)
next
  case (Inr rules)
  let ?w = "WriteHotRuleSets dk dir (fst (SplitHotRules rules)) files"
  have "fst ?w = None \<Longrightarrow> list_all (\<lambda>(ob, rs). snd ?w (hotRuleSetPath dir ob) = Some (hot_source rs)) (fst (SplitHotRules rules))"
    using rule_sets_whole [of _ _ rules dk dir files] by (fastforce simp: list_all_iff)
  with Inr show ?thesis
    by (cases "fst ?w") (auto simp: RecompileHotRules_def Let_def split: prod.splits)
qed

text \<open>A reload does not withdraw the last rule of an outbound. If no rule names the outbound any more,
  its rule set file, which the running engine still routes by, keeps the old domains.\<close>
theorem reload_keeps_a_removed_outbound:
  assumes "LoadRoutingRulesStrict builtin custom = Inr rules"
    and "\<forall>r \<in> set rules. isHotEligible r \<longrightarrow> Outbound r \<noteq> ob"
  shows "snd (RecompileHotRules dk dir builtin custom files) (hotRuleSetPath dir ob) = files (hotRuleSetPath dir ob)"
proof -
  have "ob \<notin> fst ` set (fst (SplitHotRules rules))"
    using split_groups(3) [of rules] assms(2) by auto
  then have "snd (WriteHotRuleSets dk dir (fst (SplitHotRules rules)) files) (hotRuleSetPath dir ob)
      = files (hotRuleSetPath dir ob)"
    by (simp add: WriteHotRuleSets_def write_rule_sets_other split: option.splits)
  with assms(1) show ?thesis
    by (auto simp: RecompileHotRules_def Let_def split: prod.splits option.splits)
qed

definition good_disk :: disk where
  "good_disk = \<lparr>dk_mkdir = \<lambda>_. None, dk_write = \<lambda>_. None, dk_rename = \<lambda>_. None\<rparr>"

theorem reload_keeps_a_removed_outbound_witness:
  "(let old = [hotRuleSetPath ''d'' ''proxy'' \<mapsto> [\<lparr>HlSuffix = [''apple.com''], HlKeyword = []\<rparr>]] in
    fst (RecompileHotRules good_disk ''d'' [] (CustomRules []) old) = Inr 0 \<and>
    snd (RecompileHotRules good_disk ''d'' [] (CustomRules []) old) (hotRuleSetPath ''d'' ''proxy'') =
      Some [\<lparr>HlSuffix = [''apple.com''], HlKeyword = []\<rparr>])"
proof -
  have "fst (RecompileHotRules good_disk ''d'' [] (CustomRules []) old) = Inr 0" for old by code_simp
  then show ?thesis
    using reload_keeps_a_removed_outbound [of "[]" "CustomRules []" "[]" "''proxy''" good_disk "''d''"]
    by (simp add: LoadRoutingRulesStrict_def Let_def)
qed

definition sample_rules :: "RouteRule list" where
  "sample_rules =
     [zero_rule\<lparr>DomainSuffix := [''cn''], Outbound := ''direct''\<rparr>,
      zero_rule\<lparr>DomainSuffix := [''github.com''], Outbound := ''proxy''\<rparr>]"

theorem shards_keep_every_decision_witness:
  "map_option Outbound (find (\<lambda>r. sample_match r (4431, ''github.com'')) (flowRoutes sample_rules)) = Some ''flow-2'' \<and>
   map_option Outbound (find (\<lambda>r. sample_match r (4431, ''gov.cn'')) (flowRoutes sample_rules)) = Some ''direct''"
proof -
  have "(case find (\<lambda>r. sample_match r (4431, ''github.com'')) sample_rules of
      None \<Rightarrow> BalanceLaneTag ((fst (4431, ''github.com'') div 32) mod 8)
    | Some r \<Rightarrow> if shardable r then BalanceLaneTag ((fst (4431, ''github.com'') div 32) mod 8) else Outbound r) = ''flow-2''"
    and "(case find (\<lambda>r. sample_match r (4431, ''gov.cn'')) sample_rules of
      None \<Rightarrow> BalanceLaneTag ((fst (4431, ''gov.cn'') div 32) mod 8)
    | Some r \<Rightarrow> if shardable r then BalanceLaneTag ((fst (4431, ''gov.cn'') div 32) mod 8) else Outbound r) = ''direct''"
    by code_simp+
  with shards_keep_every_decision [OF sample_flow_hits, of "(4431, ''github.com'')" sample_rules]
    shards_keep_every_decision [OF sample_flow_hits, of "(4431, ''gov.cn'')" sample_rules]
  show ?thesis by simp
qed

end
