(* ===== verification/Config_Parse.thy ===== *)
theory Config_Parse
  imports Route_Rules
begin

text \<open>
  config/types.go (the outbound records) and the link parser of config/parser.go: parseServerURL with
  parseVLESS and parseHysteria2, and insecureProxyTLS. Package net/url and the base64 decoders are
  parameters: a link is parsed by a function from text to an error or the parts of the URL, and the
  payload of a pin is decoded by a function from encodings.
\<close>

section \<open>Outbounds\<close>

record UTLSConfig =
  ut_Enabled :: bool
  ut_Fingerprint :: string

record RealityConfig =
  rl_Enabled :: bool
  rl_PublicKey :: string
  rl_ShortID :: string

record TLSConfig =
  tls_Enabled :: bool
  tls_ServerName :: string
  tls_Insecure :: bool
  tls_Certificate :: "string list"
  tls_UTLS :: "UTLSConfig option"
  tls_Reality :: "RealityConfig option"

record TransportConfig =
  tr_Type :: string
  tr_Path :: string
  tr_Headers :: "string \<rightharpoonup> string"

record MultiplexConfig =
  mx_Enabled :: bool
  mx_Protocol :: string
  mx_MaxConnections :: int
  mx_MinStreams :: int

record Hy2Obfs =
  of_Type :: string
  of_Password :: string

record OutboundConfig =
  ob_Type :: string
  ob_Tag :: string
  ob_Server :: string
  ob_ServerPort :: int
  ob_UUID :: string
  ob_Password :: string
  ob_UpMbps :: int
  ob_DownMbps :: int
  ob_ServerPorts :: "string list"
  ob_HopInterval :: string
  ob_Obfs :: "Hy2Obfs option"
  ob_Flow :: string
  ob_Network :: string
  ob_Version :: string
  ob_Outbounds :: "string list"
  ob_Default :: string
  ob_TLS :: "TLSConfig option"
  ob_Transport :: "TransportConfig option"
  ob_InitialPacketSize :: int
  ob_DisablePathMTU :: bool
  ob_TCPFastOpen :: bool
  ob_Multiplex :: "MultiplexConfig option"

definition zero_outbound :: OutboundConfig where
  "zero_outbound = \<lparr>ob_Type = [], ob_Tag = [], ob_Server = [], ob_ServerPort = 0, ob_UUID = [], ob_Password = [],
     ob_UpMbps = 0, ob_DownMbps = 0, ob_ServerPorts = [], ob_HopInterval = [], ob_Obfs = None, ob_Flow = [],
     ob_Network = [], ob_Version = [], ob_Outbounds = [], ob_Default = [], ob_TLS = None, ob_Transport = None,
     ob_InitialPacketSize = 0, ob_DisablePathMTU = False, ob_TCPFastOpen = False, ob_Multiplex = None\<rparr>"

definition zero_tls :: TLSConfig where
  "zero_tls = \<lparr>tls_Enabled = False, tls_ServerName = [], tls_Insecure = False, tls_Certificate = [],
     tls_UTLS = None, tls_Reality = None\<rparr>"

section \<open>Links\<close>

text \<open>The parts of a parsed URL: Scheme, User.Username, Hostname, Port and the first value of each query
  key, the empty string when there is none.\<close>

record go_url =
  u_Scheme :: string
  u_Username :: string
  u_Hostname :: string
  u_Port :: string
  u_Query :: "string \<Rightarrow> string"

type_synonym url_parser = "string \<Rightarrow> string + go_url"

datatype b64_encoding = RawURLEncoding | StdEncoding | URLEncoding | RawStdEncoding

type_synonym b64_decoder = "b64_encoding \<Rightarrow> string \<Rightarrow> string option"

text \<open>
  The value of strconv.Atoi when its error is dropped: zero for a malformed number, and the nearest
  64-bit integer for one out of range. The digits are read until the accumulator leaves uint64, so
  what follows is then not looked at.
\<close>

fun uint_scan :: "nat \<Rightarrow> string \<Rightarrow> nat option" where
  "uint_scan acc [] = Some acc"
| "uint_scan acc (c # cs) =
     (case digit_value c of None \<Rightarrow> None
      | Some d \<Rightarrow> if 10 * acc + d \<ge> 2 ^ 64 then Some (2 ^ 64 - 1) else uint_scan (10 * acc + d) cs)"

definition atoi_value :: "string \<Rightarrow> int" where
  "atoi_value s =
     (let (neg, ds) = (case s of [] \<Rightarrow> (False, [])
                       | c # cs \<Rightarrow> if c = CHR ''-'' then (True, cs)
                                    else if c = CHR ''+'' then (False, cs) else (False, s))
      in if ds = [] then 0
         else case uint_scan 0 ds of None \<Rightarrow> 0
         | Some n \<Rightarrow> if neg then (if n > 2 ^ 63 then - (2 ^ 63) else - int n)
                    else (if n \<ge> 2 ^ 63 then 2 ^ 63 - 1 else int n))"

definition url_port :: "go_url \<Rightarrow> int" where
  "url_port u = (let port = atoi_value (u_Port u) in if port = 0 then 443 else port)"

definition defaultRealityDest :: string where
  "defaultRealityDest = ''www.apple.com''"

text \<open>The TLS part of a vless link: none, plain TLS, or REALITY with a forged hello.\<close>

definition vless_tls :: "(string \<Rightarrow> string) \<Rightarrow> TLSConfig option" where
  "vless_tls q =
     (let sec = q ''security'' in
      if sec = ''tls'' then
        Some (zero_tls\<lparr>tls_Enabled := True, tls_ServerName := q ''sni'', tls_Insecure := (q ''allowInsecure'' = ''1'')\<rparr>)
      else if sec = ''reality'' then
        Some (zero_tls\<lparr>tls_Enabled := True,
          tls_ServerName := (if q ''sni'' = [] then defaultRealityDest else q ''sni''),
          tls_Insecure := False,
          tls_Reality := Some \<lparr>rl_Enabled = True, rl_PublicKey = q ''pbk'', rl_ShortID = q ''sid''\<rparr>,
          tls_UTLS := Some \<lparr>ut_Enabled = True, ut_Fingerprint = (if q ''fp'' = [] then ''chrome'' else q ''fp'')\<rparr>\<rparr>)
      else None)"

definition parseVLESS :: "go_url \<Rightarrow> string + OutboundConfig" where
  "parseVLESS u =
     (let q = u_Query u; mux = q ''mux'';
          network = (if q ''type'' \<noteq> [] \<and> q ''type'' \<noteq> ''tcp'' then q ''type'' else []);
          headers = (if q ''host'' \<noteq> [] then [''Host'' \<mapsto> q ''host''] else Map.empty)
      in if mux \<noteq> [] \<and> mux \<noteq> ''smux'' then Inl (''unsupported VLESS multiplex protocol '' @ [CHR 0x22] @ mux @ [CHR 0x22] @ '' (want smux)'')
         else Inr (zero_outbound\<lparr>ob_Type := ''vless'', ob_Tag := ''proxy'', ob_Server := u_Hostname u,
           ob_ServerPort := url_port u, ob_UUID := u_Username u, ob_TCPFastOpen := True,
           ob_Multiplex := (if mux = [] then None
             else Some \<lparr>mx_Enabled = True, mx_Protocol = mux, mx_MaxConnections = 8, mx_MinStreams = 1\<rparr>),
           ob_Flow := q ''flow'', ob_Network := network, ob_TLS := vless_tls q,
           ob_Transport := (if network = ''ws''
             then Some \<lparr>tr_Type = ''ws'', tr_Path = q ''path'', tr_Headers = headers\<rparr> else None)\<rparr>))"

text \<open>The first encoding whose payload is not empty, with the spaces around it dropped.\<close>

fun decode_first :: "b64_decoder \<Rightarrow> b64_encoding list \<Rightarrow> string \<Rightarrow> string" where
  "decode_first dec [] s = []"
| "decode_first dec (enc # encs) s =
     (case dec enc s of
        Some b \<Rightarrow> if b \<noteq> [] then trim_space b else decode_first dec encs s
      | None \<Rightarrow> decode_first dec encs s)"

definition decodeB64 :: "b64_decoder \<Rightarrow> string \<Rightarrow> string" where
  "decodeB64 dec s = decode_first dec [RawURLEncoding, StdEncoding, URLEncoding, RawStdEncoding] s"

text \<open>strings.Split at newlines.\<close>

fun split_lines :: "string \<Rightarrow> string list" where
  "split_lines [] = [[]]"
| "split_lines (c # cs) =
     (if c = CHR 0x0A then [] # split_lines cs
      else (case split_lines cs of [] \<Rightarrow> [[c]] | l # ls \<Rightarrow> (c # l) # ls))"

text \<open>strings.Trim with the cutset of the two brackets.\<close>

definition trim_brackets :: "string \<Rightarrow> string" where
  "trim_brackets s =
     rev (dropWhile (\<lambda>c. c \<in> set ''[]'') (rev (dropWhile (\<lambda>c. c \<in> set ''[]'') s)))"

text \<open>Brutal's two rates: a negative one switches both off, zero keeps the default.\<close>

definition DefaultUpMbps :: int where "DefaultUpMbps = 5"
definition DefaultDownMbps :: int where "DefaultDownMbps = 20"

definition hy2_rates :: "(string \<Rightarrow> string) \<Rightarrow> int \<times> int" where
  "hy2_rates q =
     (let up = atoi_value (q ''upmbps''); down = atoi_value (q ''downmbps'') in
      if up < 0 \<or> down < 0 then (0, 0)
      else (if up > 0 then up else DefaultUpMbps, if down > 0 then down else DefaultDownMbps))"

definition hy2_hops :: "(string \<Rightarrow> string) \<Rightarrow> string list \<times> string" where
  "hy2_hops q =
     (if q ''ports'' = [] then ([], [])
      else case parsePortRange (q ''ports'') of
        None \<Rightarrow> ([], [])
      | Some (lo, hi) \<Rightarrow>
          ([itoa lo @ '':'' @ itoa hi],
           itoa (case atoi (q ''hop'') of Some n \<Rightarrow> if n \<ge> 5 then n else 30 | None \<Rightarrow> 30) @ ''s''))"

text \<open>Server name, the insecure flag and last the pin, which overrules the flag.\<close>

definition tls_or_new :: "TLSConfig option \<Rightarrow> TLSConfig" where
  "tls_or_new t = (case t of None \<Rightarrow> zero_tls\<lparr>tls_Enabled := True\<rparr> | Some c \<Rightarrow> c)"

definition hy2_tls :: "b64_decoder \<Rightarrow> (string \<Rightarrow> string) \<Rightarrow> TLSConfig option" where
  "hy2_tls dec q =
     (let t = (if q ''sni'' \<noteq> [] then Some (zero_tls\<lparr>tls_Enabled := True, tls_ServerName := q ''sni''\<rparr>) else None);
          t = (if q ''insecure'' = ''1'' then Some ((tls_or_new t)\<lparr>tls_Insecure := True\<rparr>) else t);
          pem = (if q ''pinnedcert'' \<noteq> [] then decodeB64 dec (q ''pinnedcert'') else [])
      in if pem \<noteq> [] then Some ((tls_or_new t)\<lparr>tls_Certificate := split_lines pem, tls_Insecure := False\<rparr>) else t)"

definition parseHysteria2 :: "b64_decoder \<Rightarrow> go_url \<Rightarrow> string + OutboundConfig" where
  "parseHysteria2 dec u =
     (let q = u_Query u; (up, down) = hy2_rates q; (ports, hop) = hy2_hops q in
      Inr (zero_outbound\<lparr>ob_Type := ''hysteria2'', ob_Tag := ''proxy'', ob_Server := trim_brackets (u_Hostname u),
        ob_ServerPort := url_port u, ob_Password := u_Username u, ob_UpMbps := up, ob_DownMbps := down,
        ob_InitialPacketSize := 1200, ob_DisablePathMTU := True,
        ob_Obfs := (if q ''obfs'' \<noteq> [] then Some \<lparr>of_Type = q ''obfs'', of_Password = q ''obfs-password''\<rparr> else None),
        ob_ServerPorts := ports, ob_HopInterval := hop, ob_TLS := hy2_tls dec q\<rparr>))"

definition parseServerURL :: "url_parser \<Rightarrow> b64_decoder \<Rightarrow> string \<Rightarrow> string + OutboundConfig" where
  "parseServerURL parse dec s =
     (case parse s of
        Inl e \<Rightarrow> Inl (''invalid server URL: '' @ e)
      | Inr u \<Rightarrow>
          if u_Scheme u = ''vless'' then parseVLESS u
          else if u_Scheme u = ''hy2'' \<or> u_Scheme u = ''hysteria2'' then parseHysteria2 dec u
          else Inl (''unsupported protocol: '' @ u_Scheme u))"

text \<open>Whether some outbound skips verification with no pin in its place.\<close>

definition insecure_outbound :: "OutboundConfig \<Rightarrow> bool" where
  "insecure_outbound ob =
     (case ob_TLS ob of None \<Rightarrow> False | Some t \<Rightarrow> tls_Insecure t \<and> length (tls_Certificate t) = 0)"

definition insecureProxyTLS :: "OutboundConfig list \<Rightarrow> bool" where
  "insecureProxyTLS obs = list_ex insecure_outbound obs"

section \<open>Lemmas\<close>

lemma uint_scan_digits:
  "digits_value acc ds = Some n \<Longrightarrow> n < 2 ^ 64 \<Longrightarrow> uint_scan acc ds = Some n"
proof (induction acc ds rule: digits_value.induct)
  case (2 acc c cs)
  then obtain d where d: "digit_value c = Some d" and rest: "digits_value (10 * acc + d) cs = Some n"
    by (auto split: option.splits)
  have "m \<le> n" if "digits_value m xs = Some n" for m xs
    using that
  proof (induction m xs rule: digits_value.induct)
    case (2 a x xs)
    then obtain y where "digit_value x = Some y" "digits_value (10 * a + y) xs = Some n"
      by (auto split: option.splits)
    with 2 show ?case by fastforce
  qed simp
  from this [OF rest] 2 d rest show ?case by auto
qed simp

text \<open>On an accepted number the dropped-error value is the number.\<close>

lemma atoi_value_atoi: "atoi s = Some v \<Longrightarrow> atoi_value s = v"
  by (auto simp: atoi_def atoi_value_def Let_def uint_scan_digits simp del: uint_scan.simps digits_value.simps
      split: list.splits if_splits option.splits)

lemma atoi_value_itoa: "- (2 ^ 63) \<le> i \<Longrightarrow> i < 2 ^ 63 \<Longrightarrow> atoi_value (itoa i) = i"
  by (rule atoi_value_atoi) (rule atoi_itoa)

lemma split_lines_nonempty [simp]: "split_lines s \<noteq> []"
  by (induction s) (auto split: list.splits)

lemma hy2_rates_cases:
  "hy2_rates q = (0, 0) \<or> (fst (hy2_rates q) > 0 \<and> snd (hy2_rates q) > 0)"
  by (auto simp: hy2_rates_def Let_def DefaultUpMbps_def DefaultDownMbps_def)

lemma parse_type:
  "parseServerURL parse dec s = Inr ob \<Longrightarrow> ob_Type ob = ''vless'' \<or> ob_Type ob = ''hysteria2''"
  by (auto simp: parseServerURL_def parseVLESS_def parseHysteria2_def Let_def split: sum.splits if_splits prod.splits)

section \<open>Properties\<close>

text \<open>No link parses to an outbound that trusts an unverified REALITY server or ignores its pin.
  A vless link with REALITY security verifies, names a server and forges a browser hello; a
  hysteria2 link whose pin decodes verifies against exactly that pin, also when it asks for
  insecure.\<close>
theorem pins_and_reality_verify:
  assumes "parse s = Inr u" and "parseServerURL parse dec s = Inr ob"
  shows "(u_Scheme u = ''vless'' \<and> u_Query u ''security'' = ''reality'' \<longrightarrow>
      (\<exists>t ut rl. ob_TLS ob = Some t \<and> tls_Enabled t \<and> \<not> tls_Insecure t \<and> tls_ServerName t \<noteq> [] \<and>
        tls_UTLS t = Some ut \<and> ut_Fingerprint ut \<noteq> [] \<and> tls_Reality t = Some rl \<and>
        rl_PublicKey rl = u_Query u ''pbk'')) \<and>
    (u_Scheme u \<noteq> ''vless'' \<and> decodeB64 dec (u_Query u ''pinnedcert'') \<noteq> [] \<and> u_Query u ''pinnedcert'' \<noteq> [] \<longrightarrow>
      (\<exists>t. ob_TLS ob = Some t \<and> tls_Enabled t \<and> \<not> tls_Insecure t \<and>
        tls_Certificate t = split_lines (decodeB64 dec (u_Query u ''pinnedcert''))))"
  using assms
  by (auto simp: parseServerURL_def parseVLESS_def parseHysteria2_def vless_tls_def hy2_tls_def tls_or_new_def
      defaultRealityDest_def zero_tls_def zero_outbound_def Let_def split: if_splits prod.splits option.splits)

definition link_query :: "(string \<times> string) list \<Rightarrow> string \<Rightarrow> string" where
  "link_query kvs k = (case map_of kvs k of None \<Rightarrow> [] | Some v \<Rightarrow> v)"

text \<open>A parser that knows two links: the REALITY leg and a pinned hysteria2 leg.\<close>

definition two_links :: url_parser where
  "two_links s =
     (if s = ''r'' then Inr \<lparr>u_Scheme = ''vless'', u_Username = ''id'', u_Hostname = ''203.0.113.7'', u_Port = [],
         u_Query = link_query [(''security'', ''reality''), (''pbk'', ''k''), (''sid'', ''1'')]\<rparr>
      else if s = ''h'' then Inr \<lparr>u_Scheme = ''hy2'', u_Username = ''pw'', u_Hostname = ''203.0.113.7'', u_Port = ''443'',
         u_Query = link_query [(''insecure'', ''1''), (''pinnedcert'', ''UEVN''), (''downmbps'', ''20''), (''ports'', ''20000-50000'')]\<rparr>
      else Inl ''no link'')"

definition one_pin :: b64_decoder where
  "one_pin enc s = (if s = ''UEVN'' then Some ''PEM'' else None)"

theorem pins_and_reality_verify_witness:
  "(case parseServerURL two_links one_pin ''h'' of
      Inr ob \<Rightarrow> \<exists>t. ob_TLS ob = Some t \<and> \<not> tls_Insecure t \<and> tls_Certificate t = [''PEM'']
    | Inl _ \<Rightarrow> False) \<and>
   (case parseServerURL two_links one_pin ''r'' of
      Inr ob \<Rightarrow> \<exists>t. ob_TLS ob = Some t \<and> \<not> tls_Insecure t \<and> tls_ServerName t \<noteq> []
    | Inl _ \<Rightarrow> False)"
proof -
  have link: "\<exists>u ob. two_links ''h'' = Inr u \<and> parseServerURL two_links one_pin ''h'' = Inr ob \<and>
      u_Scheme u \<noteq> ''vless'' \<and> u_Query u ''pinnedcert'' = ''UEVN''"
    by (simp add: two_links_def parseServerURL_def parseHysteria2_def link_query_def Let_def split: prod.splits)
  have reality: "\<exists>u ob. two_links ''r'' = Inr u \<and> parseServerURL two_links one_pin ''r'' = Inr ob \<and>
      u_Scheme u = ''vless'' \<and> u_Query u ''security'' = ''reality''"
    by (simp add: two_links_def parseServerURL_def parseVLESS_def link_query_def Let_def)
  have pem: "decodeB64 one_pin ''UEVN'' = ''PEM''" "split_lines ''PEM'' = [''PEM'']" by code_simp+
  from link obtain u ob where h: "two_links ''h'' = Inr u" "parseServerURL two_links one_pin ''h'' = Inr ob"
      "u_Scheme u \<noteq> ''vless''" "u_Query u ''pinnedcert'' = ''UEVN''" by blast
  from reality obtain u' ob' where r: "two_links ''r'' = Inr u'" "parseServerURL two_links one_pin ''r'' = Inr ob'"
      "u_Scheme u' = ''vless''" "u_Query u' ''security'' = ''reality''" by blast
  show ?thesis
    using pins_and_reality_verify [OF h(1,2)] pins_and_reality_verify [OF r(1,2)] h r pem by auto
qed

end
