(* ===== verification/Keeper.thy ===== *)
theory Keeper
  imports Supervisor Config_Parse
begin

text \<open>
  core/brutal.go (the client of the node's pacing keeper), core/egress_targets.go and
  core/egress_probe.go (the external delivery checks), and fetchMonitor of core/monitor.go. What a
  request brings back is a value of the model; the requests that run at the same time are the list
  of their results in the order they arrive.
\<close>

section \<open>The keeper's reply\<close>

text \<open>strings.Cut at the first equals sign.\<close>

fun cut_equals :: "string \<Rightarrow> (string \<times> string) option" where
  "cut_equals [] = None"
| "cut_equals (c # cs) =
     (if c = CHR ''='' then Some ([], cs)
      else map_option (\<lambda>(k, v). (c # k, v)) (cut_equals cs))"

text \<open>bufio.ScanLines: no line after a final newline, and a carriage return at its end is dropped.\<close>

definition drop_cr :: "string \<Rightarrow> string" where
  "drop_cr l = (if l \<noteq> [] \<and> List.last l = CHR 0x0D then butlast l else l)"

definition scan_lines :: "string \<Rightarrow> string list" where
  "scan_lines s = (let ls = split_lines s in map drop_cr (if List.last ls = [] then butlast ls else ls))"

definition zero_reply :: BrutalResult where
  "zero_reply = \<lparr>Reachable = False, Rate = 0, Applied = 0, Peers = 0, Detail = []\<rparr>"

definition reply_line :: "BrutalResult \<Rightarrow> string \<Rightarrow> BrutalResult" where
  "reply_line res line =
     (case cut_equals (trim_space line) of
        None \<Rightarrow> res
      | Some (k, v) \<Rightarrow>
          if k = ''reachable'' then res\<lparr>Reachable := (v = ''1'')\<rparr>
          else if k = ''rate'' then res\<lparr>Rate := atoi_value v\<rparr>
          else if k = ''applied'' then res\<lparr>Applied := atoi_value v\<rparr>
          else if k = ''peers'' then res\<lparr>Peers := atoi_value v\<rparr>
          else if k = ''detail'' then res\<lparr>Detail := v\<rparr>
          else res)"

definition parseBrutalReply :: "string \<Rightarrow> BrutalResult" where
  "parseBrutalReply body = foldl reply_line zero_reply (scan_lines body)"

text \<open>The loop that demands the three counters: the key of the first bad one, or the keys seen.\<close>

definition counter_keys :: "string list" where
  "counter_keys = [''rate'', ''applied'', ''peers'']"

fun reply_fields :: "string list \<Rightarrow> string list \<Rightarrow> string + string list" where
  "reply_fields [] seen = Inr seen"
| "reply_fields (line # lines) seen =
     (case cut_equals (trim_space line) of
        None \<Rightarrow> reply_fields lines seen
      | Some (key, v) \<Rightarrow>
          if key \<notin> set counter_keys then reply_fields lines seen
          else (case atoi v of
              None \<Rightarrow> Inl key
            | Some n \<Rightarrow> if n < 0 then Inl key else reply_fields lines (key # seen)))"

text \<open>What a GET brings back: no response, a response whose body breaks off, or one with its body.\<close>

datatype get_result = NoAnswer string | BodyBroken int string | Reply int string

datatype keeper_error = KeeperHTTP int string | KeeperError string

definition keeperHTTPError_text :: "keeper_error \<Rightarrow> string" where
  "keeperHTTPError_text e =
     (case e of KeeperHTTP status detail \<Rightarrow> ''keeper HTTP '' @ itoa status @ '': '' @ detail | KeeperError m \<Rightarrow> m)"

definition brutalGET :: "get_result \<Rightarrow> BrutalResult \<times> keeper_error option" where
  "brutalGET answer =
     (case answer of
        NoAnswer e \<Rightarrow> (zero_reply, Some (KeeperError e))
      | BodyBroken status e \<Rightarrow> (zero_reply, Some (KeeperError (''keeper body incomplete: '' @ e)))
      | Reply status body \<Rightarrow>
          if length body > 8192 then (zero_reply, Some (KeeperError ''keeper body exceeds 8 KiB''))
          else
            let res = parseBrutalReply body in
            if status \<ge> 300 then
              (let res = (if Detail res = [] then res\<lparr>Detail := trim_space body\<rparr> else res)
               in (res, Some (KeeperHTTP status (Detail res))))
            else case reply_fields (split_lines body) [] of
              Inl key \<Rightarrow> (res, Some (KeeperError (''keeper invalid '' @ key)))
            | Inr seen \<Rightarrow>
                if list_all (\<lambda>k. k \<in> set seen) counter_keys then (res, None)
                else (res, Some (KeeperError ''keeper reply missing rate/applied/peers'')))"

section \<open>Requests\<close>

text \<open>A request is an action of the world that is given its URL and its budget.\<close>

type_synonym 'w getter = "string \<Rightarrow> int \<Rightarrow> ('w, get_result) state"

definition keeper_url :: "int \<Rightarrow> string \<Rightarrow> string" where
  "keeper_url port path = ''http://127.0.0.1:'' @ itoa port @ path"

definition BrutalRateURL :: "int \<Rightarrow> string" where
  "BrutalRateURL mbps = keeper_url BrutalKeeperPort (''/rate?mbps='' @ itoa mbps)"

definition PushBrutalRate :: "'w getter \<Rightarrow> int \<Rightarrow> int \<Rightarrow> ('w, BrutalResult \<times> keeper_error option) state" where
  "PushBrutalRate get mbps timeoutMs = do {
     answer \<leftarrow> get (BrutalRateURL mbps) timeoutMs;
     State_Monad.return (brutalGET answer)
   }"

definition LegProbe :: "('w \<Rightarrow> go_time) \<Rightarrow> 'w getter \<Rightarrow> int \<Rightarrow> int \<Rightarrow> ('w, go_duration \<times> go_error) state" where
  "LegProbe clock get port timeoutMs = do {
     start \<leftarrow> gets clock;
     answer \<leftarrow> get (keeper_url port ''/reachable'') timeoutMs;
     let (res, err) = brutalGET answer;
     err \<leftarrow>
       (case err of
          Some (KeeperHTTP status detail) \<Rightarrow>
            if status = 404 then do {
              answer \<leftarrow> get (keeper_url port ''/health'') timeoutMs;
              State_Monad.return (snd (brutalGET answer))
            } else State_Monad.return err
        | Some (KeeperError e) \<Rightarrow> State_Monad.return err
        | None \<Rightarrow>
            State_Monad.return (if \<not> Reachable res
              then Some (KeeperError ''keeper did not confirm transport delivery'') else None));
     now \<leftarrow> gets clock;
     State_Monad.return (time_sub now start, map_option keeperHTTPError_text err)
   }"

section \<open>External targets\<close>

record LegEgressTarget =
  eg_Host :: string
  eg_Path :: string
  eg_Status :: int
  eg_RequireBody :: bool
  eg_RealityTag :: string
  eg_Hy2Tag :: string
  eg_RealityPort :: int
  eg_Hy2Port :: int

definition LegEgressTargets :: "LegEgressTarget list" where
  "LegEgressTargets =
     [\<lparr>eg_Host = ''cloudflare.com'', eg_Path = ''/cdn-cgi/trace'', eg_Status = 200, eg_RequireBody = True,
       eg_RealityTag = ''egress-reality-in'', eg_Hy2Tag = ''egress-hy2-in'', eg_RealityPort = 8100, eg_Hy2Port = 8101\<rparr>,
      \<lparr>eg_Host = ''www.gstatic.com'', eg_Path = ''/generate_204'', eg_Status = 204, eg_RequireBody = False,
       eg_RealityTag = ''egress-reality-alt-in'', eg_Hy2Tag = ''egress-hy2-alt-in'', eg_RealityPort = 8102, eg_Hy2Port = 8103\<rparr>]"

text \<open>The response: its status, the bytes its body holds and the error the body ends with, if any. At
  most one byte more than the limit is read.\<close>

definition validateEgressResponse :: "LegEgressTarget \<Rightarrow> int \<Rightarrow> int \<Rightarrow> go_error \<Rightarrow> go_error" where
  "validateEgressResponse target status body broken =
     (let limit = 1048576; n = min body (limit + 1); err = (if body > limit then None else broken) in
      if status \<noteq> eg_Status target then Some (''http '' @ itoa status @ '', want '' @ itoa (eg_Status target))
      else case err of
        Some e \<Rightarrow> Some (''read external body: '' @ e)
      | None \<Rightarrow>
          if n > limit then Some ''external body exceeds 1 MiB''
          else if eg_RequireBody target \<and> n = 0 then Some ''external response carried no body''
          else if eg_Status target = 204 \<and> n \<noteq> 0 then Some ''204 response unexpectedly carried a body''
          else None)"

definition egress_port :: "int \<Rightarrow> LegEgressTarget \<Rightarrow> int" where
  "egress_port keeperPort target = (if keeperPort = LegGatePort then eg_Hy2Port target else eg_RealityPort target)"

text \<open>
  The race. An event is the result of one target's probe, with whether the parent context had
  ended by the time it is received, or the end of the context itself. Failures are kept in the
  order they arrive; errors.Join writes one per line. No more events is a race still waiting.
\<close>

datatype race_event = Arrived string go_duration go_error go_error | ContextDone string

fun join_errors :: "string list \<Rightarrow> string" where
  "join_errors [] = []"
| "join_errors [e] = e"
| "join_errors (e # es) = e @ CHR 0x0A # join_errors es"

fun race_loop :: "nat \<Rightarrow> race_event list \<Rightarrow> string list \<Rightarrow> go_duration \<Rightarrow> (go_duration \<times> go_error) option" where
  "race_loop 0 es failures worst = Some (worst, if failures = [] then None else Some (join_errors failures))"
| "race_loop (Suc n) [] failures worst = None"
| "race_loop (Suc n) (ContextDone e # es) failures worst = Some (worst, Some e)"
| "race_loop (Suc n) (Arrived host delay err parent # es) failures worst =
     (case parent of
        Some e \<Rightarrow> Some (worst, Some e)
      | None \<Rightarrow>
          (case err of
             None \<Rightarrow> Some (delay, None)
           | Some e \<Rightarrow> race_loop n es (failures @ [host @ '': '' @ e]) (if delay > worst then delay else worst)))"

definition raceEgress :: "go_error \<Rightarrow> LegEgressTarget list \<Rightarrow> race_event list \<Rightarrow> (go_duration \<times> go_error) option" where
  "raceEgress parent targets es =
     (case parent of
        Some e \<Rightarrow> Some (0, Some e)
      | None \<Rightarrow> if length targets = 0 then Some (0, Some ''no egress targets'')
                else race_loop (length targets) es [] 0)"

definition LegEgressProbe :: "int \<Rightarrow> int \<Rightarrow> race_event list \<Rightarrow> (go_duration \<times> go_error) option" where
  "LegEgressProbe keeperPort timeoutMs es =
     (if keeperPort \<noteq> BrutalKeeperPort \<and> keeperPort \<noteq> LegGatePort
      then Some (0, Some (''unknown keeper port '' @ itoa keeperPort))
      else if timeoutMs \<le> 0 then Some (0, Some ''invalid egress timeout'')
      else raceEgress None LegEgressTargets es)"

definition fetchMonitor :: "race_event list \<Rightarrow> go_error option" where
  "fetchMonitor es = map_option snd (raceEgress None LegEgressTargets es)"

section \<open>Lemmas\<close>

lemma cut_equals_key: "CHR ''='' \<notin> set k \<Longrightarrow> cut_equals (k @ CHR ''='' # v) = Some (k, v)"
  by (induction k) auto

text \<open>The counter that a line carries; the check accepts the lines whose counters are all numbers.\<close>

definition counter_of :: "string \<Rightarrow> (string \<times> string) option" where
  "counter_of line = (case cut_equals (trim_space line) of None \<Rightarrow> None
     | Some (k, v) \<Rightarrow> if k \<in> set counter_keys then Some (k, v) else None)"

definition good_counter :: "string \<Rightarrow> bool" where
  "good_counter line = (case counter_of line of None \<Rightarrow> True
     | Some (k, v) \<Rightarrow> (case atoi v of None \<Rightarrow> False | Some n \<Rightarrow> 0 \<le> n))"

definition counters_in :: "string list \<Rightarrow> string set" where
  "counters_in lines = {k. \<exists>line \<in> set lines. \<exists>v. counter_of line = Some (k, v)}"

lemma counters_in_Cons:
  "counters_in (line # lines) = (case counter_of line of None \<Rightarrow> {} | Some (k, v) \<Rightarrow> {k}) \<union> counters_in lines"
  by (auto simp: counters_in_def split: option.splits)

lemma reply_fields_step:
  "reply_fields (line # lines) seen =
     (case counter_of line of None \<Rightarrow> reply_fields lines seen
      | Some (k, v) \<Rightarrow> if good_counter line then reply_fields lines (k # seen) else Inl k)"
  by (auto simp: counter_of_def good_counter_def split: option.splits)

lemma reply_fields_seen:
  "reply_fields lines seen = Inr seen' \<Longrightarrow>
     list_all good_counter lines \<and> set seen' = set seen \<union> counters_in lines"
proof (induction lines arbitrary: seen)
  case Nil
  then show ?case by (simp add: counters_in_def)
next
  case (Cons line lines)
  show ?case
  proof (cases "counter_of line")
    case None
    with Cons show ?thesis by (simp add: reply_fields_step counters_in_Cons good_counter_def del: reply_fields.simps)
  next
    case (Some kv)
    obtain k v where kv: "kv = (k, v)" by (cases kv)
    from Cons.prems Some kv have "good_counter line" and "reply_fields lines (k # seen) = Inr seen'"
      by (auto simp: reply_fields_step simp del: reply_fields.simps split: if_splits)
    with Cons.IH [of "k # seen"] Some kv show ?thesis by (auto simp: counters_in_Cons)
  qed
qed

lemma race_success:
  "race_loop n es failures worst = Some (d, None) \<Longrightarrow> n > 0 \<or> failures \<noteq> [] \<Longrightarrow>
     \<exists>host i. i < length es \<and> i < n \<and> es ! i = Arrived host d None None"
proof (induction n es failures worst rule: race_loop.induct)
  case (4 n host delay err parent es failures worst)
  show ?case
  proof (cases "parent = None \<and> err \<noteq> None")
    case True
    then obtain e where "parent = None" "err = Some e" by blast
    with 4 obtain h i where "i < length es" "i < n" "es ! i = Arrived h d None None" by fastforce
    then have "Suc i < length (Arrived host delay err parent # es)" "Suc i < Suc n"
      "(Arrived host delay err parent # es) ! Suc i = Arrived h d None None" by simp_all
    then show ?thesis by blast
  next
    case False
    with 4(2) have "parent = None" "err = None" "delay = d" by (auto split: option.splits)
    then show ?thesis by (intro exI [of _ host] exI [of _ 0]) simp
  qed
qed (auto split: if_splits)

lemma trim_space_snoc: "is_space c \<Longrightarrow> trim_space (l @ [c]) = trim_space l"
proof (cases "\<forall>x \<in> set l. is_space x")
  case True
  assume "is_space c"
  with True have "dropWhile is_space (l @ [c]) = []" and "dropWhile is_space l = []"
    by (auto simp: dropWhile_eq_Nil_conv)
  then show ?thesis unfolding trim_space_def by (simp only:)
next
  case False
  assume "is_space c"
  moreover from False have "dropWhile is_space (l @ [c]) = dropWhile is_space l @ [c]" by (auto simp: dropWhile_append1)
  ultimately show ?thesis by (simp add: trim_space_def)
qed

lemma trim_drop_cr: "trim_space (drop_cr l) = trim_space l"
proof (cases "l \<noteq> [] \<and> List.last l = CHR 0x0D")
  case True
  have "is_space (CHR 0x0D)" by code_simp
  then have "trim_space (butlast l @ [List.last l]) = trim_space (butlast l)"
    using True by (simp only: trim_space_snoc)
  with True show ?thesis by (simp add: drop_cr_def append_butlast_last_id del: append_butlast_last_id) (metis append_butlast_last_id)
qed (auto simp: drop_cr_def)

text \<open>A line that the check accepts leaves the parsed counters where no counter is negative.\<close>

definition counters_ok :: "BrutalResult \<Rightarrow> bool" where
  "counters_ok r = (0 \<le> Rate r \<and> 0 \<le> Applied r \<and> 0 \<le> Peers r)"

lemma good_counter_value:
  assumes "good_counter line" and "cut_equals (trim_space line) = Some (k, v)" and "k \<in> {''rate'', ''applied'', ''peers''}"
  shows "0 \<le> atoi_value v"
proof -
  have "counter_of line = Some (k, v)" using assms(2,3) by (simp add: counter_of_def counter_keys_def)
  then obtain n where "atoi v = Some n" "0 \<le> n"
    using assms(1) by (auto simp: good_counter_def split: option.splits)
  then show ?thesis using atoi_value_atoi by simp
qed

lemma reply_line_ok: "good_counter line \<Longrightarrow> counters_ok r \<Longrightarrow> counters_ok (reply_line r line)"
  using good_counter_value [of line "''rate''"] good_counter_value [of line "''applied''"]
    good_counter_value [of line "''peers''"]
  by (simp add: reply_line_def counters_ok_def split: option.splits)

lemma parse_counters: "list_all good_counter lines \<Longrightarrow> counters_ok r \<Longrightarrow> counters_ok (foldl reply_line r lines)"
  by (induction lines arbitrary: r) (simp_all add: reply_line_ok)

lemma good_drop_cr: "good_counter (drop_cr l) = good_counter l"
  by (simp add: good_counter_def counter_of_def trim_drop_cr)

lemma scan_lines_good: "list_all good_counter (split_lines s) \<Longrightarrow> list_all good_counter (scan_lines s)"
  by (auto simp: scan_lines_def Let_def list_all_iff good_drop_cr dest: in_set_butlastD)

section \<open>Properties\<close>

text \<open>Only the keeper's own contract confirms a delivery. A GET is accepted only for a response below
  status 300 whose body is at most 8 KiB and carries all three counters, every one of them a
  number that is not negative; no redirect, error page, empty, broken or oversized body passes,
  and the counters that are then reported are not negative.\<close>
theorem keeper_contract_confirms:
  assumes "brutalGET answer = (res, None)"
  shows "\<exists>status body. answer = Reply status body \<and> status < 300 \<and> length body \<le> 8192 \<and>
    counters_in (split_lines body) = {''rate'', ''applied'', ''peers''} \<and>
    list_all good_counter (split_lines body) \<and>
    0 \<le> Rate res \<and> 0 \<le> Applied res \<and> 0 \<le> Peers res"
proof -
  obtain status body seen where a: "answer = Reply status body" "status < 300" "length body \<le> 8192"
    and f: "reply_fields (split_lines body) [] = Inr seen" "list_all (\<lambda>k. k \<in> set seen) counter_keys"
    and r: "res = parseBrutalReply body"
    using assms by (auto simp: brutalGET_def Let_def split: get_result.splits if_splits sum.splits)
  have good: "list_all good_counter (split_lines body)" and seen: "set seen = counters_in (split_lines body)"
    using reply_fields_seen [OF f(1)] by simp_all
  have "counters_in (split_lines body) \<subseteq> set counter_keys"
    by (auto simp: counters_in_def counter_of_def split: option.splits if_splits)
  with f(2) seen have "counters_in (split_lines body) = {''rate'', ''applied'', ''peers''}"
    by (auto simp: counter_keys_def)
  moreover have "counters_ok res"
    unfolding r parseBrutalReply_def using scan_lines_good [OF good]
    by (rule parse_counters) (simp add: counters_ok_def zero_reply_def)
  ultimately show ?thesis using a good by (simp add: counters_ok_def)
qed

text \<open>The reply the node's keeper writes.\<close>

definition keeper_body :: "int \<Rightarrow> int \<Rightarrow> int \<Rightarrow> string" where
  "keeper_body rate applied peers =
     ''reachable=1'' @ CHR 0x0A # ''rate='' @ itoa rate @ CHR 0x0A # ''applied='' @ itoa applied @
     CHR 0x0A # ''peers='' @ itoa peers @ [CHR 0x0A]"

lemma split_lines_line: "CHR 0x0A \<notin> set l \<Longrightarrow> split_lines (l @ CHR 0x0A # s) = l # split_lines s"
  by (induction l) auto

lemma plain_line:
  assumes "0 \<le> i" and "list_all (\<lambda>c. \<not> is_space c) k" and "CHR ''='' \<notin> set k"
  shows "cut_equals (trim_space (k @ CHR ''='' # itoa i)) = Some (k, itoa i)"
    and "CHR 0x0A \<notin> set (k @ CHR ''='' # itoa i)" and "drop_cr (k @ CHR ''='' # itoa i) = k @ CHR ''='' # itoa i"
proof -
  have sp: "\<not> is_space c" if "c \<in> set (k @ CHR ''='' # itoa i)" for c
  proof -
    have "\<not> is_space (CHR ''='')" by code_simp
    with that assms itoa_plain(2) [of i c] show ?thesis by (auto simp: list_all_iff)
  qed
  have "dropWhile is_space (k @ CHR ''='' # itoa i) = k @ CHR ''='' # itoa i"
    by (rule dropWhile_none) (rule sp)
  moreover have "dropWhile is_space (rev (k @ CHR ''='' # itoa i)) = rev (k @ CHR ''='' # itoa i)"
    by (rule dropWhile_none) (rule sp, simp only: set_rev)
  ultimately have "trim_space (k @ CHR ''='' # itoa i) = k @ CHR ''='' # itoa i"
    unfolding trim_space_def by (simp only: rev_rev_ident)
  then show "cut_equals (trim_space (k @ CHR ''='' # itoa i)) = Some (k, itoa i)"
    by (simp add: cut_equals_key assms(3))
  have "is_space (CHR 0x0A)" "is_space (CHR 0x0D)" by code_simp+
  with sp show "CHR 0x0A \<notin> set (k @ CHR ''='' # itoa i)" by blast
  have "List.last (k @ CHR ''='' # itoa i) \<in> set (k @ CHR ''='' # itoa i)" by (rule last_in_set) simp
  with sp \<open>is_space (CHR 0x0D)\<close> have "List.last (k @ CHR ''='' # itoa i) \<noteq> CHR 0x0D" by metis
  then show "drop_cr (k @ CHR ''='' # itoa i) = k @ CHR ''='' # itoa i" unfolding drop_cr_def by (simp only: simp_thms if_False)
qed

lemma counter_names:
  "list_all (\<lambda>c. \<not> is_space c) ''rate''" "list_all (\<lambda>c. \<not> is_space c) ''applied''" "list_all (\<lambda>c. \<not> is_space c) ''peers''"
  by code_simp+

lemma keeper_lines:
  assumes "0 \<le> rate" and "0 \<le> applied" and "0 \<le> peers"
  shows "split_lines (keeper_body rate applied peers) =
      [''reachable=1'', ''rate='' @ itoa rate, ''applied='' @ itoa applied, ''peers='' @ itoa peers, []]"
proof -
  have "CHR 0x0A \<notin> set ''reachable=1''" by code_simp
  moreover have "CHR 0x0A \<notin> set (itoa rate)" "CHR 0x0A \<notin> set (itoa applied)" "CHR 0x0A \<notin> set (itoa peers)"
    using plain_line(2) [OF assms(1) counter_names(1)] plain_line(2) [OF assms(2) counter_names(1)]
      plain_line(2) [OF assms(3) counter_names(1)] by simp_all
  then have "CHR 0x0A \<notin> set (''rate='' @ itoa rate)" "CHR 0x0A \<notin> set (''applied='' @ itoa applied)"
      "CHR 0x0A \<notin> set (''peers='' @ itoa peers)" by simp_all
  note this [THEN split_lines_line]
  ultimately show ?thesis
    unfolding keeper_body_def by (simp add: split_lines_line)
qed

lemma keeper_fields:
  assumes "0 \<le> i" and "i < 2 ^ 63" and "k \<in> {''rate'', ''applied'', ''peers''}"
  shows "counter_of (k @ CHR ''='' # itoa i) = Some (k, itoa i)" and "good_counter (k @ CHR ''='' # itoa i)"
    and "drop_cr (k @ CHR ''='' # itoa i) = k @ CHR ''='' # itoa i"
    and "cut_equals (trim_space (k @ CHR ''='' # itoa i)) = Some (k, itoa i)"
proof -
  have k: "list_all (\<lambda>c. \<not> is_space c) k" "CHR ''='' \<notin> set k" "k \<in> set counter_keys"
    using assms(3) counter_names by (auto simp: counter_keys_def)
  note line = plain_line [OF assms(1) k(1,2)]
  show "cut_equals (trim_space (k @ CHR ''='' # itoa i)) = Some (k, itoa i)" by (rule line(1))
  show "drop_cr (k @ CHR ''='' # itoa i) = k @ CHR ''='' # itoa i" by (rule line(3))
  show c: "counter_of (k @ CHR ''='' # itoa i) = Some (k, itoa i)" by (simp add: counter_of_def line(1) k(3))
  have "atoi (itoa i) = Some i" using assms(1,2) by (intro atoi_itoa) simp_all
  with c assms(1) show "good_counter (k @ CHR ''='' # itoa i)" by (simp add: good_counter_def)
qed

lemma keeper_reply_accepted:
  assumes "0 \<le> rate" and "rate < 2 ^ 63" and "0 \<le> applied" and "applied < 2 ^ 63" and "0 \<le> peers" and "peers < 2 ^ 63"
    and "length (keeper_body rate applied peers) \<le> 8192" and "status < 300"
  shows "brutalGET (Reply status (keeper_body rate applied peers)) =
    (\<lparr>Reachable = True, Rate = rate, Applied = applied, Peers = peers, Detail = []\<rparr>, None)"
proof -
  let ?lines = "[''reachable=1'', ''rate'' @ CHR ''='' # itoa rate, ''applied'' @ CHR ''='' # itoa applied,
    ''peers'' @ CHR ''='' # itoa peers]"
  have lines: "split_lines (keeper_body rate applied peers) = ?lines @ [[]]"
    using keeper_lines [OF assms(1,3,5)] by simp
  have first: "drop_cr ''reachable=1'' = ''reachable=1''" "cut_equals (trim_space ''reachable=1'') = Some (''reachable'', ''1'')"
    "counter_of ''reachable=1'' = None" "counter_of [] = None" "good_counter ''reachable=1''" "good_counter []"
    by code_simp+
  note fields = keeper_fields [OF assms(1,2), of "''rate''"] keeper_fields [OF assms(3,4), of "''applied''"]
    keeper_fields [OF assms(5,6), of "''peers''"]
  have scan: "scan_lines (keeper_body rate applied peers) = ?lines"
    unfolding scan_lines_def lines Let_def by (simp only: map_append list.map first fields insert_iff simp_thms butlast_snoc last_snoc if_True)
  have "atoi_value (itoa rate) = rate" "atoi_value (itoa applied) = applied" "atoi_value (itoa peers) = peers"
    using assms by (simp_all add: atoi_value_itoa)
  then have "parseBrutalReply (keeper_body rate applied peers) =
      \<lparr>Reachable = True, Rate = rate, Applied = applied, Peers = peers, Detail = []\<rparr>"
    unfolding parseBrutalReply_def scan
    by (simp only: foldl.simps reply_line_def first fields insert_iff simp_thms option.case prod.case) (simp add: zero_reply_def)
  moreover have "reply_fields (split_lines (keeper_body rate applied peers)) [] = Inr [''peers'', ''applied'', ''rate'']"
    unfolding lines
    by (simp only: append_Cons append_Nil reply_fields_step first insert_iff simp_thms option.case prod.case if_True
        fields [unfolded append_Cons append_Nil insert_iff simp_thms]) simp
  ultimately show ?thesis using assms(7,8) by (simp add: brutalGET_def counter_keys_def)
qed

text \<open>What the keeper says is what the client hears. The reply that reports a reached transport and the
  three counters is accepted for every value they can have, and read back unchanged.\<close>
theorem keeper_roundtrip:
  assumes "0 \<le> rate" and "rate < 2 ^ 63" and "0 \<le> applied" and "applied < 2 ^ 63" and "0 \<le> peers" and "peers < 2 ^ 63"
    and "length (keeper_body rate applied peers) \<le> 8192" and "status < 300"
  shows "brutalGET (Reply status (keeper_body rate applied peers)) =
    (\<lparr>Reachable = True, Rate = rate, Applied = applied, Peers = peers, Detail = []\<rparr>, None)"
  using assms by (rule keeper_reply_accepted)

lemma short_body: "length (keeper_body 20 1 2) \<le> 8192"
  by (simp add: keeper_body_def itoa_def nat_text.simps)

lemma sample_reply:
  "brutalGET (Reply 200 (keeper_body 20 1 2)) = (\<lparr>Reachable = True, Rate = 20, Applied = 1, Peers = 2, Detail = []\<rparr>, None)"
  using keeper_reply_accepted [OF _ _ _ _ _ _ short_body, of 200] by simp

theorem keeper_roundtrip_witness:
  "brutalGET (Reply 200 (keeper_body 20 1 2)) = (\<lparr>Reachable = True, Rate = 20, Applied = 1, Peers = 2, Detail = []\<rparr>, None)"
  using keeper_roundtrip [OF _ _ _ _ _ _ short_body, of 200] by simp

theorem keeper_contract_confirms_witness:
  "counters_in (split_lines (keeper_body 20 1 2)) = {''rate'', ''applied'', ''peers''}"
  using keeper_contract_confirms [OF sample_reply] by simp

text \<open>A leg is reported as delivering only on the keeper's word. The probe has no error exactly when the
  keeper confirmed that it was reached, or an older keeper answered 404 to that question and then
  gave its counters; a second request is sent in the latter case only.\<close>
theorem leg_probe_needs_the_keeper:
  assumes "run_state (get (keeper_url port ''/reachable'') ms) s = (first, s1)"
    and "run_state (get (keeper_url port ''/health'') ms) s1 = (second, s2)"
  shows "case run_state (LegProbe clock get port ms) s of ((_, err), s') \<Rightarrow>
    (err = None \<longleftrightarrow> (snd (brutalGET first) = None \<and> Reachable (fst (brutalGET first))) \<or>
      (\<exists>detail. snd (brutalGET first) = Some (KeeperHTTP 404 detail) \<and> snd (brutalGET second) = None)) \<and>
    s' = (if \<exists>detail. snd (brutalGET first) = Some (KeeperHTTP 404 detail) then s2 else s1)"
proof (cases "snd (brutalGET first)")
  case None
  with assms(1) show ?thesis by (simp add: LegProbe_def Let_def case_prod_beta)
next
  case (Some e)
  with assms show ?thesis
    by (cases e) (simp_all add: LegProbe_def Let_def case_prod_beta)
qed

definition old_keeper :: "nat getter" where
  "old_keeper url ms = State (\<lambda>n. (if url = keeper_url BrutalKeeperPort ''/reachable'' then Reply 404 ''not found''
     else Reply 200 (keeper_body 20 1 2), Suc n))"

theorem leg_probe_needs_the_keeper_witness:
  "snd (fst (run_state (LegProbe int old_keeper BrutalKeeperPort 5000) 0)) = None \<and>
   snd (run_state (LegProbe int old_keeper BrutalKeeperPort 5000) 0) = 2"
proof -
  have first: "run_state (old_keeper (keeper_url BrutalKeeperPort ''/reachable'') 5000) 0 = (Reply 404 ''not found'', 1)"
    and second: "run_state (old_keeper (keeper_url BrutalKeeperPort ''/health'') 5000) 1 = (Reply 200 (keeper_body 20 1 2), 2)"
    by (simp_all add: old_keeper_def keeper_url_def)
  have "snd (brutalGET (Reply 404 ''not found'')) = Some (KeeperHTTP 404 ''not found'')" by code_simp
  then show ?thesis
    using leg_probe_needs_the_keeper [where get = old_keeper and clock = int, OF first second] sample_reply
    by (auto split: prod.splits)
qed

text \<open>One origin's outage does not convict the tunnel, and nothing but a delivery acquits it. If both
  targets answer while the deadline has not passed, in either order, the check fails only when
  both failed; and whenever it succeeds, some target's own response was valid and its delay is the
  one reported.\<close>
theorem one_origin_cannot_convict:
  "fetchMonitor [Arrived h1 d1 e1 None, Arrived h2 d2 e2 None] \<noteq> None \<and>
   (fetchMonitor [Arrived h1 d1 e1 None, Arrived h2 d2 e2 None] = Some None \<longleftrightarrow> e1 = None \<or> e2 = None) \<and>
   (LegEgressProbe port ms es = Some (d, None) \<longrightarrow>
      (port = BrutalKeeperPort \<or> port = LegGatePort) \<and> 0 < ms \<and>
      (\<exists>host i. i < length es \<and> i < length LegEgressTargets \<and> es ! i = Arrived host d None None))"
proof -
  have n: "length LegEgressTargets = Suc (Suc 0)" by (simp add: LegEgressTargets_def)
  have "LegEgressProbe port ms es = Some (d, None) \<Longrightarrow>
      \<exists>host i. i < length es \<and> i < length LegEgressTargets \<and> es ! i = Arrived host d None None"
    using race_success [of "length LegEgressTargets" es "[]" 0 d]
    by (auto simp: LegEgressProbe_def raceEgress_def n split: if_splits)
  moreover have "LegEgressProbe port ms es = Some (d, None) \<Longrightarrow> (port = BrutalKeeperPort \<or> port = LegGatePort) \<and> 0 < ms"
    by (auto simp: LegEgressProbe_def split: if_splits)
  ultimately show ?thesis
    by (auto simp: fetchMonitor_def raceEgress_def n split: option.splits)
qed

theorem one_origin_cannot_convict_witness:
  "\<exists>host i. i < 2 \<and> [Arrived ''a'' 9 (Some ''eof'') None, Arrived ''b'' 7 None None] ! i = Arrived host 7 None None"
proof -
  have "LegEgressProbe 8098 5000 [Arrived ''a'' 9 (Some ''eof'') None, Arrived ''b'' 7 None None] = Some (7, None)"
    by code_simp
  then show ?thesis
    using one_origin_cannot_convict [where ?h1.0 = "[]" and ?h2.0 = "[]" and ?d1.0 = 1 and ?d2.0 = 1 and ?e1.0 = None and ?e2.0 = None and port = 8098 and ms = 5000 and d = 7
        and es = "[Arrived ''a'' 9 (Some ''eof'') None, Arrived ''b'' 7 None None]"]
    by (simp add: LegEgressTargets_def numeral_2_eq_2)
qed

text \<open>An external response is accepted exactly when it has the wanted status, is complete and at most one
  mebibyte long, and has a body where one is due and none where none is.\<close>

lemma egress_response_iff:
  assumes "0 \<le> body"
  shows "validateEgressResponse target status body broken = None \<longleftrightarrow>
    status = eg_Status target \<and> body \<le> 1048576 \<and> broken = None \<and>
    (eg_RequireBody target \<longrightarrow> 0 < body) \<and> (eg_Status target = 204 \<longrightarrow> body = 0)"
  using assms by (auto simp: validateEgressResponse_def Let_def split: option.splits)

end
