(* ===== verification/Config_Build.thy ===== *)
theory Config_Build
  imports Keeper
begin

text \<open>
  config/types.go and config/parser.go: BuildWithStandby with buildProxyOutbounds, and Validate. The
  parts of the long function are definitions in its order: the outbounds, the DNS rules, the
  inbounds, the base rules, the system rules and the rule sets. What it reads from outside is a
  record: the link parsers, the address parser of package net with its printing, the local hour,
  the rule files, the sizes of files and the directory.
\<close>

section \<open>The configuration\<close>

record LogConfig =
  lg_Level :: string
  lg_Output :: string
  lg_Timestamp :: bool

record DNSServer =
  ds_Type :: string
  ds_Server :: string
  ds_Tag :: string
  ds_Detour :: string
  ds_Inet4Range :: string

record DNSRule =
  dr_Domain :: "string list"
  dr_DomainSuffix :: "string list"
  dr_DomainKeyword :: "string list"
  dr_RuleSet :: "string list"
  dr_QueryType :: "string list"
  dr_Server :: string
  dr_Action :: string

record DNSConfig =
  dc_Servers :: "DNSServer list"
  dc_Rules :: "DNSRule list"
  dc_Final :: string
  dc_Strategy :: string
  dc_IndependentCache :: bool

record InboundConfig =
  ib_Type :: string
  ib_Tag :: string
  ib_Address :: "string list"
  ib_MTU :: int
  ib_AutoRoute :: bool
  ib_StrictRoute :: bool
  ib_Stack :: string
  ib_Listen :: string
  ib_ListenPort :: int
  ib_OverrideAddress :: string
  ib_OverridePort :: int

record RouteConfig =
  rc_Rules :: "RouteRule list"
  rc_RuleSet :: "RuleSet list"
  rc_AutoDetectInterface :: bool
  rc_Final :: string
  rc_ResolverServer :: string
  rc_ResolverDetour :: string

record ExperimentalConfig =
  ex_ExternalController :: string
  ex_Secret :: string
  ex_CacheEnabled :: bool
  ex_CachePath :: string
  ex_StoreFakeIP :: bool

record SingboxConfig =
  cfg_Log :: LogConfig
  cfg_DNS :: DNSConfig
  cfg_Inbounds :: "InboundConfig list"
  cfg_Outbounds :: "OutboundConfig list"
  cfg_Route :: RouteConfig
  cfg_Experimental :: ExperimentalConfig

definition zero_dns_rule :: DNSRule where
  "zero_dns_rule = \<lparr>dr_Domain = [], dr_DomainSuffix = [], dr_DomainKeyword = [], dr_RuleSet = [],
     dr_QueryType = [], dr_Server = [], dr_Action = []\<rparr>"

definition zero_inbound :: InboundConfig where
  "zero_inbound = \<lparr>ib_Type = [], ib_Tag = [], ib_Address = [], ib_MTU = 0, ib_AutoRoute = False,
     ib_StrictRoute = False, ib_Stack = [], ib_Listen = [], ib_ListenPort = 0, ib_OverrideAddress = [],
     ib_OverridePort = 0\<rparr>"

text \<open>
  What the build reads. The built-in rules are the cached copy if it can be read and parsed,
  otherwise the embedded one if that can be parsed.
\<close>

record build_env =
  bv_parse :: url_parser
  bv_dec :: b64_decoder
  bv_ip :: "string \<Rightarrow> string option"
  bv_hour :: int
  bv_cached :: "RouteRule list option"
  bv_embedded :: "RouteRule list option"
  bv_custom :: custom_source
  bv_stat :: "string \<Rightarrow> nat option"
  bv_dir :: string
  bv_disk :: disk

definition loadBuiltinRules :: "build_env \<Rightarrow> RouteRule list" where
  "loadBuiltinRules b =
     (case bv_cached b of Some rs \<Rightarrow> rs
      | None \<Rightarrow> (case bv_embedded b of Some rs \<Rightarrow> rs | None \<Rightarrow> []))"

definition loadCustomRules :: "build_env \<Rightarrow> RouteRule list" where
  "loadCustomRules b = (case bv_custom b of CustomRules rs \<Rightarrow> rs | _ \<Rightarrow> [])"

definition geositeCNPath :: "build_env \<Rightarrow> string" where
  "geositeCNPath b =
     (let path = bv_dir b @ ''/geosite-cn.srs'' in
      case bv_stat b path of None \<Rightarrow> [] | Some n \<Rightarrow> if n = 0 then [] else path)"

definition HotRuleSetDir :: "build_env \<Rightarrow> string" where
  "HotRuleSetDir b = bv_dir b @ ''/rule-sets''"

section \<open>Outbounds\<close>

definition selector :: "string \<Rightarrow> string list \<Rightarrow> string \<Rightarrow> OutboundConfig" where
  "selector tag members def = zero_outbound\<lparr>ob_Type := ''selector'', ob_Tag := tag,
     ob_Outbounds := members, ob_Default := def\<rparr>"

definition standby_leg :: "build_env \<Rightarrow> string \<Rightarrow> OutboundConfig option" where
  "standby_leg b standbyURI =
     (if standbyURI = [] then None
      else case parseServerURL (bv_parse b) (bv_dec b) standbyURI of
        Inl e \<Rightarrow> None
      | Inr ob \<Rightarrow> if ob_Type ob = ''vless'' then Some (ob\<lparr>ob_Tag := RealityLegTag\<rparr>) else None)"

text \<open>The closures single and selectOver of buildProxyOutbounds.\<close>

definition single_outbound :: "OutboundConfig \<Rightarrow> OutboundConfig list \<times> string" where
  "single_outbound outbound = ([outbound\<lparr>ob_Tag := ProxySelectorTag\<rparr>], [])"

definition selectOver ::
  "OutboundConfig option \<Rightarrow> OutboundConfig \<Rightarrow> string list \<Rightarrow> OutboundConfig list \<Rightarrow> string \<Rightarrow> OutboundConfig list" where
  "selectOver standby outbound members rungs def =
     (case standby of
        None \<Rightarrow> selector ProxySelectorTag members def # rungs
      | Some sb \<Rightarrow>
          selector ProxySelectorTag (members @ [ob_Tag sb]) def # rungs @
          (if ob_Type outbound = ''hysteria2''
           then [selector Hy2ProbeSelectorTag members (List.last members)] else []) @ [sb])"

definition build_schedule :: "(string \<Rightarrow> string) \<Rightarrow> OutboundConfig \<Rightarrow> BandwidthSchedule" where
  "build_schedule q outbound =
     \<lparr>OffUp = ob_UpMbps outbound, OffDown = ob_DownMbps outbound,
      PeakUp = atoi_value (q ''peakupmbps''), PeakDown = atoi_value (q ''peakdownmbps''),
      StartHour = atoi_value (q ''peakstart''), EndHour = atoi_value (q ''peakend'')\<rparr>"

definition rung_outbound :: "BandwidthSchedule \<Rightarrow> OutboundConfig \<Rightarrow> int \<Rightarrow> OutboundConfig" where
  "rung_outbound sched outbound down =
     outbound\<lparr>ob_Tag := BandwidthRungTag down, ob_UpMbps := RungUp sched down, ob_DownMbps := down\<rparr>"

definition buildProxyOutbounds :: "build_env \<Rightarrow> string \<Rightarrow> string \<Rightarrow> OutboundConfig \<Rightarrow> OutboundConfig list \<times> string" where
  "buildProxyOutbounds b serverURI standbyURI outbound =
     (let standby = standby_leg b standbyURI in
      if ob_Type outbound \<noteq> ''hysteria2'' then
        (case standby of
           None \<Rightarrow> single_outbound outbound
         | Some sb \<Rightarrow>
             (selectOver standby outbound [''proxy-primary''] [outbound\<lparr>ob_Tag := ''proxy-primary''\<rparr>] (ob_Tag sb), []))
      else case bv_parse b serverURI of
        Inl e \<Rightarrow> single_outbound outbound
      | Inr u \<Rightarrow>
          let sched = build_schedule (u_Query u) outbound; rungs = Rungs sched in
          if length rungs < 2 then
            (case standby of
               None \<Rightarrow> single_outbound outbound
             | Some sb \<Rightarrow>
                 (let tag = BandwidthRungTag (ob_DownMbps outbound) in
                  (selectOver standby outbound [tag] [outbound\<lparr>ob_Tag := tag\<rparr>] (ob_Tag sb), Hy2ProbeSelectorTag)))
          else
            let members = map BandwidthRungTag rungs; ladder = map (rung_outbound sched outbound) rungs in
            (case standby of
               Some sb \<Rightarrow> (selectOver standby outbound members ladder (ob_Tag sb), Hy2ProbeSelectorTag)
             | None \<Rightarrow> (selectOver standby outbound members ladder (Member sched (bv_hour b)), List.last members)))"

definition flowSelectors :: "OutboundConfig list" where
  "flowSelectors = map (\<lambda>lane. zero_outbound\<lparr>ob_Type := ''selector'', ob_Tag := BalanceLaneTag lane,
     ob_Default := ProxySelectorTag, ob_Outbounds := [ProxySelectorTag, RealityLegTag, Hy2ProbeSelectorTag]\<rparr>)
     [0..BalanceLanes - 1]"

section \<open>DNS\<close>

definition dns_servers :: "DNSServer list" where
  "dns_servers =
     [\<lparr>ds_Type = ''udp'', ds_Server = ''223.5.5.5'', ds_Tag = ''dns-direct'', ds_Detour = [], ds_Inet4Range = []\<rparr>,
      \<lparr>ds_Type = ''tls'', ds_Server = ''1.1.1.1'', ds_Tag = ''dns-remote'', ds_Detour = ''proxy'', ds_Inet4Range = []\<rparr>,
      \<lparr>ds_Type = ''fakeip'', ds_Server = [], ds_Tag = ''dns-fake'', ds_Detour = [], ds_Inet4Range = ''198.18.0.0/15''\<rparr>]"

definition suffix_rule :: "string list \<Rightarrow> string \<Rightarrow> DNSRule" where
  "suffix_rule names server = zero_dns_rule\<lparr>dr_DomainSuffix := names, dr_Server := server\<rparr>"

definition zhongguo :: string where
  "zhongguo = [CHR ''.'', CHR 0xE4, CHR 0xB8, CHR 0xAD, CHR 0xE5, CHR 0x9B, CHR 0xBD]"

definition dns_rules :: "build_env \<Rightarrow> string \<Rightarrow> DNSRule list" where
  "dns_rules b server =
     (let sources = loadBuiltinRules b @ loadCustomRules b;
          proxied = proxyDomainSuffixes sources; keywords = proxyDomainKeywords sources;
          direct = directDomainSuffixes sources
      in (if server \<noteq> [] \<and> bv_ip b server = None
          then [zero_dns_rule\<lparr>dr_Domain := [server], dr_Server := ''dns-direct''\<rparr>] else []) @
         [zero_dns_rule\<lparr>dr_QueryType := [''HTTPS'', ''SVCB''], dr_Action := ''reject''\<rparr>,
          zero_dns_rule\<lparr>dr_DomainSuffix := localReverseZones, dr_Action := ''reject''\<rparr>,
          suffix_rule [''.in-addr.arpa'', ''.ip6.arpa''] ''dns-direct'',
          suffix_rule [''.cn'', ''.com.cn'', ''.net.cn'', ''.org.cn'', ''.gov.cn'', ''.edu.cn'', ''.mil.cn'', zhongguo]
            ''dns-direct''] @
         (if length proxied > 0 then [suffix_rule proxied ''dns-fake''] else []) @
         (if length keywords > 0
          then [zero_dns_rule\<lparr>dr_DomainKeyword := keywords, dr_Server := ''dns-fake''\<rparr>] else []) @
         (if length direct > 0 then [suffix_rule direct ''dns-direct''] else []) @
         (if geositeCNPath b \<noteq> []
          then [zero_dns_rule\<lparr>dr_RuleSet := [''geosite-cn''], dr_Server := ''dns-direct''\<rparr>] else []) @
         [zero_dns_rule\<lparr>dr_QueryType := [''A'', ''AAAA''], dr_Server := ''dns-fake''\<rparr>])"

section \<open>Inbounds and rules\<close>

definition BrutalInboundTag :: string where "BrutalInboundTag = ''brutal-in''"
definition LegGateInboundTag :: string where "LegGateInboundTag = ''gate-hy2-in''"

definition forwarder :: "string \<Rightarrow> int \<Rightarrow> string \<Rightarrow> int \<Rightarrow> InboundConfig" where
  "forwarder tag port host override =
     zero_inbound\<lparr>ib_Type := ''direct'', ib_Tag := tag, ib_Listen := ''127.0.0.1'', ib_ListenPort := port,
       ib_OverrideAddress := host, ib_OverridePort := override\<rparr>"

definition probe_inbounds :: "bool \<Rightarrow> string \<Rightarrow> InboundConfig list" where
  "probe_inbounds reality gate =
     (if \<not> reality then []
      else forwarder BrutalInboundTag BrutalKeeperPort ''127.0.0.1'' BrutalKeeperPort #
        (if gate = [] then []
         else forwarder LegGateInboundTag LegGatePort ''127.0.0.1'' BrutalKeeperPort #
           concat (map (\<lambda>t. [forwarder (eg_RealityTag t) (eg_RealityPort t) (eg_Host t) 443,
                             forwarder (eg_Hy2Tag t) (eg_Hy2Port t) (eg_Host t) 443]) LegEgressTargets)))"

definition inbounds :: "bool \<Rightarrow> string \<Rightarrow> InboundConfig list" where
  "inbounds reality gate =
     [zero_inbound\<lparr>ib_Type := ''tun'', ib_Tag := ''tun-in'', ib_Address := [''172.19.0.1/28''], ib_MTU := 9000,
        ib_AutoRoute := True, ib_StrictRoute := True, ib_Stack := ''gvisor''\<rparr>,
      zero_inbound\<lparr>ib_Type := ''direct'', ib_Tag := ''dns-in'', ib_Listen := ''172.19.0.1'', ib_ListenPort := 53\<rparr>] @
     probe_inbounds reality gate"

definition from_inbound :: "string \<Rightarrow> string \<Rightarrow> RouteRule" where
  "from_inbound tag out = zero_rule\<lparr>Inbound := [tag], Outbound := out\<rparr>"

definition probe_rules :: "bool \<Rightarrow> string \<Rightarrow> RouteRule list" where
  "probe_rules reality gate =
     (if \<not> reality then []
      else from_inbound BrutalInboundTag RealityLegTag #
        (if gate = [] then []
         else from_inbound LegGateInboundTag gate #
           concat (map (\<lambda>t. [from_inbound (eg_RealityTag t) RealityLegTag, from_inbound (eg_Hy2Tag t) gate])
             LegEgressTargets)))"

definition base_rules :: "bool \<Rightarrow> string \<Rightarrow> RouteRule list" where
  "base_rules reality gate =
     [zero_rule\<lparr>Action := ''sniff''\<rparr>,
      zero_rule\<lparr>Protocol := ''dns'', IPCIDR := [''223.5.5.5/32'', ''1.1.1.1/32''], Outbound := ''direct''\<rparr>,
      zero_rule\<lparr>Protocol := ''dns'', Action := ''hijack-dns''\<rparr>,
      zero_rule\<lparr>Protocol := ''quic'', Action := ''reject''\<rparr>] @
     probe_rules reality gate"

definition cidr_rule :: "string list \<Rightarrow> string \<Rightarrow> RouteRule" where
  "cidr_rule cidrs out = zero_rule\<lparr>IPCIDR := cidrs, Outbound := out\<rparr>"

definition node_rule :: "build_env \<Rightarrow> string \<Rightarrow> RouteRule list" where
  "node_rule b server = (case bv_ip b server of None \<Rightarrow> [] | Some ip \<Rightarrow> [cidr_rule [ip @ ''/32''] ''direct''])"

definition standby_rule :: "build_env \<Rightarrow> string \<Rightarrow> string \<Rightarrow> RouteRule list" where
  "standby_rule b standbyURI server =
     (if standbyURI = [] then []
      else case parseServerURL (bv_parse b) (bv_dec b) standbyURI of
        Inl e \<Rightarrow> []
      | Inr sb \<Rightarrow> if ob_Server sb \<noteq> server then node_rule b (ob_Server sb) else [])"

definition system_rules :: "build_env \<Rightarrow> string \<Rightarrow> string \<Rightarrow> RouteRule list" where
  "system_rules b standbyURI server =
     [cidr_rule [''1.1.1.1/32'', ''223.5.5.5/32''] ''direct'',
      cidr_rule [''192.168.0.0/16'', ''127.0.0.0/8''] ''direct'',
      cidr_rule [''10.0.0.0/8'', ''172.16.0.0/12'', ''169.254.0.0/16''] ''block''] @
     node_rule b server @ standby_rule b standbyURI server @
     [cidr_rule [''198.18.0.0/15''] ''proxy'',
      zero_rule\<lparr>RuleSetRefs := [''geoip-cn''], Outbound := ''direct''\<rparr>,
      cidr_rule [''0.0.0.0/0''] ''proxy'']"

definition binary_set :: "string \<Rightarrow> string \<Rightarrow> RuleSet" where
  "binary_set tag path = zero_ruleset\<lparr>RsType := ''local'', RsTag := tag, RsFormat := ''binary'', RsPath := path\<rparr>"

definition rule_sets :: "build_env \<Rightarrow> RuleSet list \<Rightarrow> RuleSet list" where
  "rule_sets b hot =
     binary_set ''geoip-cn'' (bv_dir b @ ''/geoip-cn.srs'') #
     (if geositeCNPath b \<noteq> [] then [binary_set ''geosite-cn'' (geositeCNPath b)] else []) @ hot"

section \<open>The build\<close>

datatype build_error = BadServer string | BadRules reload_error

definition route_rules :: "build_env \<Rightarrow> string \<Rightarrow> string \<Rightarrow> bool \<Rightarrow> string \<Rightarrow> RouteRule list \<Rightarrow> RouteRule list \<Rightarrow> RouteRule list" where
  "route_rules b standbyURI server reality gate inline hotRefs =
     (let rules = base_rules reality gate @ inline @ hotRefs @ system_rules b standbyURI server
      in if reality \<and> gate \<noteq> [] then flowRoutes rules else rules)"

definition assemble ::
  "build_env \<Rightarrow> OutboundConfig list \<Rightarrow> string \<Rightarrow> bool \<Rightarrow> string \<Rightarrow> RouteRule list \<Rightarrow> RuleSet list \<Rightarrow> SingboxConfig" where
  "assemble b proxies server reality gate rules hotDecls =
     \<lparr>cfg_Log = \<lparr>lg_Level = ''warn'', lg_Output = [], lg_Timestamp = False\<rparr>,
      cfg_DNS = \<lparr>dc_Servers = dns_servers, dc_Rules = dns_rules b server, dc_Final = ''dns-remote'',
        dc_Strategy = ''ipv4_only'', dc_IndependentCache = False\<rparr>,
      cfg_Inbounds = inbounds reality gate,
      cfg_Outbounds = proxies @ (if reality \<and> gate \<noteq> [] then flowSelectors else []) @
        [zero_outbound\<lparr>ob_Type := ''direct'', ob_Tag := ''direct''\<rparr>, zero_outbound\<lparr>ob_Type := ''block'', ob_Tag := ''block''\<rparr>],
      cfg_Route = \<lparr>rc_Rules = rules, rc_RuleSet = rule_sets b hotDecls, rc_AutoDetectInterface = True,
        rc_Final = ''proxy'', rc_ResolverServer = ''dns-direct'', rc_ResolverDetour = []\<rparr>,
      cfg_Experimental = \<lparr>ex_ExternalController = ''127.0.0.1:9090'', ex_Secret = [], ex_CacheEnabled = True,
        ex_CachePath = bv_dir b @ ''/sing-box-cache.db'', ex_StoreFakeIP = True\<rparr>\<rparr>"

definition BuildWithStandby ::
  "build_env \<Rightarrow> string \<Rightarrow> string \<Rightarrow> rule_files \<Rightarrow> (build_error + SingboxConfig) \<times> rule_files" where
  "BuildWithStandby b serverURI standbyURI files =
     (case parseServerURL (bv_parse b) (bv_dec b) serverURI of
        Inl e \<Rightarrow> (Inl (BadServer e), files)
      | Inr outbound \<Rightarrow>
          let server = ob_Server outbound;
              (proxies, gate) = buildProxyOutbounds b serverURI standbyURI outbound;
              reality = list_ex (\<lambda>ob. ob_Tag ob = RealityLegTag) proxies;
              (groups, inline) = SplitHotRules (loadBuiltinRules b @ loadCustomRules b);
              report = DetectHotRuleConflicts groups
          in if report \<noteq> [] then (Inl (BadRules (RuleConflict report)), files)
             else case WriteHotRuleSets (bv_disk b) (HotRuleSetDir b) groups files of
               (Some e, files) \<Rightarrow> (Inl (BadRules (RuleWrite e)), files)
             | (None, files) \<Rightarrow>
                 let (hotDecls, hotRefs) = HotRuleSetRefs (HotRuleSetDir b) (map fst groups);
                     rules = route_rules b standbyURI server reality gate inline hotRefs
                 in (Inr (assemble b proxies server reality gate rules hotDecls), files))"

definition Build :: "build_env \<Rightarrow> string \<Rightarrow> rule_files \<Rightarrow> (build_error + SingboxConfig) \<times> rule_files" where
  "Build b serverURI files = BuildWithStandby b serverURI [] files"

section \<open>Validation\<close>

text \<open>The loop over the declared rule sets: an error, or the tags in order.\<close>

fun declared_sets :: "(string \<Rightarrow> nat option) \<Rightarrow> RuleSet list \<Rightarrow> string list \<Rightarrow> string + string list" where
  "declared_sets stat [] declared = Inr declared"
| "declared_sets stat (rs # rest) declared =
     (if RsType rs = ''remote''
      then Inl (''config references remote rule-set '' @ RsTag rs @ '' - should use local only'')
      else if RsType rs = ''local'' \<and> RsPath rs \<noteq> [] \<and> (case stat (RsPath rs) of None \<Rightarrow> True | Some n \<Rightarrow> n = 0)
      then Inl (''rule-set '' @ RsTag rs @ '' references non-existent or empty file: '' @ RsPath rs)
      else declared_sets stat rest (RsTag rs # declared))"

definition first_undeclared :: "string list \<Rightarrow> string list \<Rightarrow> string option" where
  "first_undeclared declared refs = find (\<lambda>r. r \<notin> set declared) refs"

definition Validate :: "(string \<Rightarrow> nat option) \<Rightarrow> SingboxConfig \<Rightarrow> go_error" where
  "Validate stat cfg =
     (case declared_sets stat (rc_RuleSet (cfg_Route cfg)) [] of
        Inl e \<Rightarrow> Some e
      | Inr declared \<Rightarrow>
          (case first_undeclared declared (concat (map dr_RuleSet (dc_Rules (cfg_DNS cfg)))) of
             Some r \<Rightarrow> Some (''DNS rule references undeclared rule-set '' @ r)
           | None \<Rightarrow>
               (case first_undeclared declared (concat (map RuleSetRefs (rc_Rules (cfg_Route cfg)))) of
                  Some r \<Rightarrow> Some (''route rule references undeclared rule-set '' @ r)
                | None \<Rightarrow> None)))"

section \<open>The outbounds and their references\<close>

definition ob_refs :: "OutboundConfig \<Rightarrow> string list" where
  "ob_refs ob = ob_Outbounds ob @ (if ob_Default ob = [] then [] else [ob_Default ob])"

definition tags_of :: "OutboundConfig list \<Rightarrow> string set" where
  "tags_of obs = ob_Tag ` set obs"

text \<open>No tag twice, and every selector's members and default are tags.\<close>

definition refs_ok :: "string set \<Rightarrow> OutboundConfig list \<Rightarrow> bool" where
  "refs_ok tags obs = list_all (\<lambda>ob. set (ob_refs ob) \<subseteq> tags) obs"

text \<open>Tags the proxies can have: none of them is a lane, direct or block.\<close>

definition proxy_tag :: "string \<Rightarrow> bool" where
  "proxy_tag t = (t = ProxySelectorTag \<or> t = Hy2ProbeSelectorTag \<or> t = RealityLegTag \<or> t = ''proxy-primary'' \<or>
     (\<exists>d. t = BandwidthRungTag d))"

lemmas tag_defs = ProxySelectorTag_def Hy2ProbeSelectorTag_def RealityLegTag_def BandwidthRungTag_def BalanceLaneTag_def

lemma parsed_plain:
  "parseServerURL parse dec s = Inr ob \<Longrightarrow> ob_refs ob = []"
  by (auto simp: parseServerURL_def parseVLESS_def parseHysteria2_def zero_outbound_def ob_refs_def Let_def
      split: sum.splits if_splits prod.splits)

lemma ob_refs_simps [simp]:
  "ob_refs (ob\<lparr>ob_Tag := t\<rparr>) = ob_refs ob"
  "ob_refs (rung_outbound sched ob d) = ob_refs ob"
  "set (ob_refs (selector tag members def)) = set members \<union> (if def = [] then {} else {def})"
  "ob_Tag (selector tag members def) = tag"
  "ob_Tag (rung_outbound sched ob d) = BandwidthRungTag d"
  by (auto simp: ob_refs_def rung_outbound_def selector_def zero_outbound_def)

lemma rung_tag_inject: "0 < a \<Longrightarrow> 0 < b \<Longrightarrow> BandwidthRungTag a = BandwidthRungTag b \<longleftrightarrow> a = b"
  using itoa_inject [of a b] by (auto simp: BandwidthRungTag_def)

lemma rung_tags_distinct: "distinct (map BandwidthRungTag (Rungs s))"
  using distinct_Rungs [of s] Rungs_pos [of _ s] by (auto simp: distinct_map inj_on_def rung_tag_inject)

lemma rung_tag_other [simp]:
  "BandwidthRungTag d \<noteq> ProxySelectorTag" "BandwidthRungTag d \<noteq> Hy2ProbeSelectorTag"
  "BandwidthRungTag d \<noteq> RealityLegTag" "BandwidthRungTag d \<noteq> ''proxy-primary''" "BandwidthRungTag d \<noteq> []"
  "ProxySelectorTag \<noteq> BandwidthRungTag d" "Hy2ProbeSelectorTag \<noteq> BandwidthRungTag d"
  "RealityLegTag \<noteq> BandwidthRungTag d"
  by (auto simp: tag_defs)

lemma Member_rung:
  assumes "Rungs s \<noteq> []"
  shows "Member s h \<in> BandwidthRungTag ` set (Rungs s)"
proof -
  have "OffDown s > 0" using assms Rungs_Nil_iff [of s] by simp
  then show ?thesis by (auto simp: Member_def Profile_def Enabled_def set_Rungs)
qed

lemma standby_leg_tag:
  assumes "standby_leg b uri = Some sb"
  shows "ob_Tag sb = RealityLegTag" and "ob_refs sb = []"
proof -
  obtain ob where ob: "parseServerURL (bv_parse b) (bv_dec b) uri = Inr ob" "sb = ob\<lparr>ob_Tag := RealityLegTag\<rparr>"
    using assms by (auto simp: standby_leg_def split: if_splits sum.splits)
  with parsed_plain [OF ob(1)] show "ob_Tag sb = RealityLegTag" and "ob_refs sb = []" by simp_all
qed

text \<open>selectOver over a ladder of distinct rungs.\<close>

lemma selectOver_ok:
  fixes outbound :: OutboundConfig
  assumes "map ob_Tag rungs = members" and "distinct members" and "members \<noteq> []"
    and "\<forall>t \<in> set members. t = ''proxy-primary'' \<or> (\<exists>d. t = BandwidthRungTag d)"
    and "\<forall>ob \<in> set rungs. ob_refs ob = []"
    and "\<And>sb. standby = Some sb \<Longrightarrow> ob_Tag sb = RealityLegTag \<and> ob_refs sb = []"
    and "def \<in> set members \<or> (standby \<noteq> None \<and> def = RealityLegTag)"
  defines "obs \<equiv> selectOver standby outbound members rungs def"
  shows "distinct (map ob_Tag obs)" and "refs_ok (tags_of obs) obs" and "\<forall>ob \<in> set obs. proxy_tag (ob_Tag ob)"
    and "ProxySelectorTag \<in> tags_of obs" and "RealityLegTag \<in> tags_of obs \<longleftrightarrow> standby \<noteq> None"
    and "standby \<noteq> None \<and> ob_Type outbound = ''hysteria2'' \<Longrightarrow> Hy2ProbeSelectorTag \<in> tags_of obs"
    and "set members \<subseteq> tags_of obs"
proof -
  have last: "List.last members \<in> set members" using assms(3) by simp
  have m: "set members = ob_Tag ` set rungs" using assms(1) by auto
  have primary: "''proxy-primary'' \<noteq> ProxySelectorTag" "''proxy-primary'' \<noteq> Hy2ProbeSelectorTag"
    "''proxy-primary'' \<noteq> RealityLegTag" by (simp_all add: tag_defs)
  have other: "ProxySelectorTag \<notin> set members" "Hy2ProbeSelectorTag \<notin> set members" "RealityLegTag \<notin> set members"
    using assms(4) primary by (metis rung_tag_other)+
  have pt: "\<forall>t \<in> set members. proxy_tag t" using assms(4) by (auto simp: proxy_tag_def)
  have base: "proxy_tag ProxySelectorTag" "proxy_tag Hy2ProbeSelectorTag" "proxy_tag RealityLegTag"
    "ProxySelectorTag \<noteq> RealityLegTag" "ProxySelectorTag \<noteq> Hy2ProbeSelectorTag" "Hy2ProbeSelectorTag \<noteq> RealityLegTag"
    by (auto simp: proxy_tag_def) (simp_all add: tag_defs)
  have dist: "distinct (map ob_Tag rungs)" using assms(1,2) by simp
  show "distinct (map ob_Tag obs)"
    using dist other base assms(6) unfolding obs_def selectOver_def m by (auto split: option.splits)
  show "refs_ok (tags_of obs) obs"
    using assms(5,6,7) last unfolding obs_def selectOver_def refs_ok_def tags_of_def list_all_iff m
    by (auto simp: m split: option.splits if_splits)
  show "\<forall>ob \<in> set obs. proxy_tag (ob_Tag ob)"
    using pt base assms(6) unfolding obs_def selectOver_def m by (auto split: option.splits)
  show "ProxySelectorTag \<in> tags_of obs" and "set members \<subseteq> tags_of obs"
    unfolding obs_def selectOver_def tags_of_def m by (auto split: option.splits)
  show "RealityLegTag \<in> tags_of obs \<longleftrightarrow> standby \<noteq> None"
    using other base assms(6) unfolding obs_def selectOver_def tags_of_def m by (auto split: option.splits)
  show "standby \<noteq> None \<and> ob_Type outbound = ''hysteria2'' \<Longrightarrow> Hy2ProbeSelectorTag \<in> tags_of obs"
    unfolding obs_def selectOver_def tags_of_def by (auto split: option.splits)
qed

text \<open>What buildProxyOutbounds returns for a link that parsed.\<close>

definition proxies_ok :: "bool \<Rightarrow> OutboundConfig list \<Rightarrow> string \<Rightarrow> bool" where
  "proxies_ok two ps gate =
     (distinct (map ob_Tag ps) \<and> refs_ok (tags_of ps) ps \<and> (\<forall>ob \<in> set ps. proxy_tag (ob_Tag ob)) \<and>
      ProxySelectorTag \<in> tags_of ps \<and> (RealityLegTag \<in> tags_of ps \<longleftrightarrow> two) \<and>
      (two \<and> gate \<noteq> [] \<longrightarrow> gate = Hy2ProbeSelectorTag \<and> Hy2ProbeSelectorTag \<in> tags_of ps))"

lemma single_ok: "ob_refs outbound = [] \<Longrightarrow> proxies_ok False (fst (single_outbound outbound)) (snd (single_outbound outbound))"
  by (auto simp: proxies_ok_def single_outbound_def refs_ok_def tags_of_def proxy_tag_def tag_defs)

lemma build_proxies_ok:
  assumes "parseServerURL (bv_parse b) (bv_dec b) uri = Inr outbound"
  shows "proxies_ok (standby_leg b sb_uri \<noteq> None) (fst (buildProxyOutbounds b uri sb_uri outbound))
    (snd (buildProxyOutbounds b uri sb_uri outbound))"
proof -
  let ?sb = "standby_leg b sb_uri"
  have plain: "ob_refs outbound = []" using parsed_plain [OF assms] .
  have sb: "\<And>sb. ?sb = Some sb \<Longrightarrow> ob_Tag sb = RealityLegTag \<and> ob_refs sb = []" using standby_leg_tag by blast
  obtain u where u: "bv_parse b uri = Inr u" using assms by (auto simp: parseServerURL_def split: sum.splits)
  let ?sched = "build_schedule (u_Query u) outbound"
  show ?thesis
  proof (cases "ob_Type outbound = ''hysteria2''")
    case False
    show ?thesis
    proof (cases ?sb)
      case None
      with False plain single_ok show ?thesis by (simp add: buildProxyOutbounds_def)
    next
      case (Some s)
      have def: "ob_Tag s = RealityLegTag" using sb [OF Some] by simp
      note ok = selectOver_ok [of "[outbound\<lparr>ob_Tag := ''proxy-primary''\<rparr>]" "[''proxy-primary'']" ?sb "ob_Tag s" outbound]
      show ?thesis
        using ok sb plain Some False def by (simp add: buildProxyOutbounds_def proxies_ok_def)
    qed
  next
    case True
    show ?thesis
    proof (cases "length (Rungs ?sched) < 2")
      case few: True
      show ?thesis
      proof (cases ?sb)
        case None
        with True few u plain single_ok show ?thesis by (simp add: buildProxyOutbounds_def)
      next
        case (Some s)
        let ?tag = "BandwidthRungTag (ob_DownMbps outbound)"
        have def: "ob_Tag s = RealityLegTag" using sb [OF Some] by simp
        have rung: "\<exists>d. ?tag = BandwidthRungTag d" by blast
        note ok = selectOver_ok [of "[outbound\<lparr>ob_Tag := ?tag\<rparr>]" "[?tag]" ?sb "ob_Tag s" outbound]
        show ?thesis
          using ok rung sb plain Some True few u def by (simp add: buildProxyOutbounds_def proxies_ok_def Let_def)
      qed
    next
      case False
      then have ne: "Rungs ?sched \<noteq> []" by auto
      let ?members = "map BandwidthRungTag (Rungs ?sched)"
      let ?ladder = "map (rung_outbound ?sched outbound) (Rungs ?sched)"
      have tags: "map ob_Tag ?ladder = ?members" by simp
      have plains: "\<forall>ob \<in> set ?ladder. ob_refs ob = []" using plain by simp
      have members: "\<forall>t \<in> set ?members. t = ''proxy-primary'' \<or> (\<exists>d. t = BandwidthRungTag d)" by auto
      show ?thesis
      proof (cases ?sb)
        case None
        have mem: "Member ?sched (bv_hour b) \<in> set ?members" using Member_rung [OF ne] by auto
        note ok = selectOver_ok [OF tags rung_tags_distinct _ members plains, of None "Member ?sched (bv_hour b)" outbound]
        show ?thesis
          using ok mem None True False u ne by (simp add: buildProxyOutbounds_def proxies_ok_def Let_def)
      next
        case (Some s)
        have def: "ob_Tag s = RealityLegTag" using sb [OF Some] by simp
        note ok = selectOver_ok [OF tags rung_tags_distinct _ members plains, of "Some s" "ob_Tag s" outbound]
        show ?thesis
          using ok sb Some True False u def ne by (simp add: buildProxyOutbounds_def proxies_ok_def Let_def)
      qed
    qed
  qed
qed

text \<open>A successful build, taken apart.\<close>

lemma build_parts:
  assumes "BuildWithStandby b uri sb files = (Inr cfg, files')"
  obtains outbound ps gate where
    "parseServerURL (bv_parse b) (bv_dec b) uri = Inr outbound"
    "buildProxyOutbounds b uri sb outbound = (ps, gate)"
    "DetectHotRuleConflicts (fst (SplitHotRules (loadBuiltinRules b @ loadCustomRules b))) = []"
    "WriteHotRuleSets (bv_disk b) (HotRuleSetDir b) (fst (SplitHotRules (loadBuiltinRules b @ loadCustomRules b))) files = (None, files')"
    "cfg = assemble b ps (ob_Server outbound) (RealityLegTag \<in> tags_of ps) gate
       (route_rules b sb (ob_Server outbound) (RealityLegTag \<in> tags_of ps) gate
          (snd (SplitHotRules (loadBuiltinRules b @ loadCustomRules b)))
          (snd (HotRuleSetRefs (HotRuleSetDir b) (map fst (fst (SplitHotRules (loadBuiltinRules b @ loadCustomRules b)))))))
       (fst (HotRuleSetRefs (HotRuleSetDir b) (map fst (fst (SplitHotRules (loadBuiltinRules b @ loadCustomRules b))))))"
proof -
  let ?user = "loadBuiltinRules b @ loadCustomRules b"
  let ?groups = "fst (SplitHotRules ?user)"
  obtain outbound where ob: "parseServerURL (bv_parse b) (bv_dec b) uri = Inr outbound"
    using assms by (auto simp: BuildWithStandby_def split: sum.splits)
  obtain ps gate where pg: "buildProxyOutbounds b uri sb outbound = (ps, gate)" by force
  have two: "list_ex (\<lambda>ob. ob_Tag ob = RealityLegTag) ps = (RealityLegTag \<in> tags_of ps)"
    by (force simp: list_ex_iff tags_of_def)
  note build = assms [unfolded BuildWithStandby_def Let_def case_prod_beta ob pg fst_conv snd_conv sum.case two]
  have clean: "DetectHotRuleConflicts ?groups = []"
    using build by (simp split: if_splits)
  obtain files'' where written: "WriteHotRuleSets (bv_disk b) (HotRuleSetDir b) ?groups files = (None, files'')"
    using build clean by (cases "WriteHotRuleSets (bv_disk b) (HotRuleSetDir b) ?groups files") (auto split: option.splits)
  show thesis
    by (rule that [OF ob pg clean]) (use build clean written in simp_all)
qed

lemma flowRoutes_mem:
  assumes "r \<in> set (flowRoutes rules)"
  shows "(\<exists>r' \<in> set rules. Outbound r = Outbound r') \<or> (\<exists>lane \<in> {0..BalanceLanes - 1}. Outbound r = BalanceLaneTag lane)"
    and "RuleSetRefs r = [] \<or> (\<exists>r' \<in> set rules. RuleSetRefs r = RuleSetRefs r')"
  using assms by (auto simp: flowRoutes_def shard_def zero_rule_def split: if_splits)

text \<open>The outbounds that the rules of the file may name.\<close>

definition known_outbound :: "string \<Rightarrow> bool" where
  "known_outbound t = (t = [] \<or> t = ''direct'' \<or> t = ''block'' \<or> t = ''proxy'')"

lemma system_outbounds: "r \<in> set (system_rules b sb server) \<Longrightarrow> known_outbound (Outbound r)"
  by (auto simp: system_rules_def cidr_rule_def node_rule_def standby_rule_def zero_rule_def known_outbound_def
      split: option.splits if_splits sum.splits)

lemma base_outbounds:
  "r \<in> set (base_rules two gate) \<Longrightarrow> known_outbound (Outbound r) \<or> (two \<and> (Outbound r = RealityLegTag \<or> Outbound r = gate))"
  by (auto simp: base_rules_def probe_rules_def from_inbound_def zero_rule_def known_outbound_def split: if_splits)

lemma base_gate:
  "r \<in> set (base_rules two gate) \<Longrightarrow> Outbound r = gate \<Longrightarrow> gate \<noteq> [] \<or> known_outbound (Outbound r)"
  by (auto simp: known_outbound_def)

lemma lane_tags_of: "lane \<in> {0..BalanceLanes - 1} \<Longrightarrow> BalanceLaneTag lane \<in> tags_of flowSelectors"
  by (auto simp: flowSelectors_def tags_of_def image_iff)

lemma lane_tag_inject: "0 \<le> a \<Longrightarrow> 0 \<le> b \<Longrightarrow> BalanceLaneTag a = BalanceLaneTag b \<longleftrightarrow> a = b"
  using itoa_inject [of a b] by (auto simp: BalanceLaneTag_def)

lemma flow_selectors_ok:
  "distinct (map ob_Tag flowSelectors)"
  "ob \<in> set flowSelectors \<Longrightarrow> set (ob_refs ob) = {ProxySelectorTag, RealityLegTag, Hy2ProbeSelectorTag}"
  "ob \<in> set flowSelectors \<Longrightarrow> \<exists>lane. ob_Tag ob = BalanceLaneTag lane"
  by (auto simp: flowSelectors_def distinct_map inj_on_def lane_tag_inject ob_refs_def zero_outbound_def ProxySelectorTag_def)

text \<open>All the tags of an assembled configuration are distinct, and every selector's members are tags.\<close>

lemma assemble_outbounds:
  fixes b :: build_env and server :: string and rules :: "RouteRule list" and hot :: "RuleSet list"
  assumes "proxies_ok two ps gate"
  defines "obs \<equiv> cfg_Outbounds (assemble b ps server two gate rules hot)"
  shows "distinct (map ob_Tag obs)" and "refs_ok (tags_of obs) obs" and "tags_of ps \<subseteq> tags_of obs"
    and "known_outbound t \<Longrightarrow> t \<noteq> [] \<Longrightarrow> t \<in> tags_of obs"
    and "two \<and> gate \<noteq> [] \<Longrightarrow> tags_of flowSelectors \<subseteq> tags_of obs"
proof -
  let ?flow = "if two \<and> gate \<noteq> [] then flowSelectors else []"
  let ?rest = "[zero_outbound\<lparr>ob_Type := ''direct'', ob_Tag := ''direct''\<rparr>, zero_outbound\<lparr>ob_Type := ''block'', ob_Tag := ''block''\<rparr>]"
  have obs: "obs = ps @ ?flow @ ?rest" by (simp add: obs_def assemble_def)
  have ps: "distinct (map ob_Tag ps)" "refs_ok (tags_of ps) ps" "\<forall>ob \<in> set ps. proxy_tag (ob_Tag ob)"
      "ProxySelectorTag \<in> tags_of ps" "two \<Longrightarrow> RealityLegTag \<in> tags_of ps"
      "two \<and> gate \<noteq> [] \<Longrightarrow> Hy2ProbeSelectorTag \<in> tags_of ps"
    using assms(1) by (simp_all add: proxies_ok_def)
  have apart: "\<not> proxy_tag (BalanceLaneTag l)" "\<not> proxy_tag ''direct''" "\<not> proxy_tag ''block''"
      "BalanceLaneTag l \<noteq> ''direct''" "BalanceLaneTag l \<noteq> ''block''" for l
    by (auto simp: proxy_tag_def tag_defs)
  have rest: "map ob_Tag ?rest = [''direct'', ''block'']" "\<forall>ob \<in> set ?rest. ob_refs ob = []"
    by (simp_all add: zero_outbound_def ob_refs_def)
  have flow: "distinct (map ob_Tag ?flow)" "\<forall>ob \<in> set ?flow. \<exists>lane. ob_Tag ob = BalanceLaneTag lane"
      "\<forall>ob \<in> set ?flow. set (ob_refs ob) \<subseteq> tags_of ps"
    using flow_selectors_ok ps(4,5,6) by auto
  show "distinct (map ob_Tag obs)"
    unfolding obs map_append rest(1) using ps(1,3) flow(1,2) apart by (fastforce simp: zero_outbound_def)
  show sub: "tags_of ps \<subseteq> tags_of obs" by (auto simp: obs tags_of_def)
  show "refs_ok (tags_of obs) obs"
    unfolding refs_ok_def list_all_iff obs
    using ps(2) flow(3) rest(2) sub unfolding refs_ok_def list_all_iff obs by fastforce
  show "known_outbound t \<Longrightarrow> t \<noteq> [] \<Longrightarrow> t \<in> tags_of obs"
    using ps(4) sub by (auto simp: known_outbound_def obs tags_of_def zero_outbound_def ProxySelectorTag_def)
  show "two \<and> gate \<noteq> [] \<Longrightarrow> tags_of flowSelectors \<subseteq> tags_of obs"
    by (auto simp: obs tags_of_def)
qed

section \<open>Properties\<close>

text \<open>The DNS servers that rules and the final entry name.\<close>

definition dns_tags :: "string set" where
  "dns_tags = ds_Tag ` set dns_servers"

lemma dns_rule_servers: "r \<in> set (dns_rules b server) \<Longrightarrow> dr_Server r = [] \<or> dr_Server r \<in> dns_tags"
  by (auto simp: dns_rules_def dns_tags_def dns_servers_def suffix_rule_def zero_dns_rule_def Let_def split: if_splits)

lemma hot_outbounds:
  "ref \<in> set (snd (HotRuleSetRefs dir (map fst (fst (SplitHotRules rules))))) \<Longrightarrow>
     \<exists>r \<in> set rules. Outbound ref = Outbound r"
  using split_groups(3) [of rules] by (auto simp: HotRuleSetRefs_def zero_rule_def) (metis (no_types, lifting) fst_conv image_iff mem_Collect_eq)

lemma inline_sub: "r \<in> set (snd (SplitHotRules rules)) \<Longrightarrow> r \<in> set rules"
  by (simp add: SplitHotRules_def split_loop_rest)

text \<open>C23: A configuration that is built has no dangling and no ambiguous name. If the rule files name only
  the outbounds direct, block and proxy, then all tags are distinct, every member and default of
  a selector is a tag, every routing rule and the final route go to an existing outbound, and
  every DNS rule, the final one and the default resolver ask an existing server. The engine
  refuses to start otherwise.\<close>
theorem built_names_resolve:
  assumes "BuildWithStandby b uri sb files = (Inr cfg, files')"
    and "\<forall>r \<in> set (loadBuiltinRules b @ loadCustomRules b). known_outbound (Outbound r)"
  shows "distinct (map ob_Tag (cfg_Outbounds cfg)) \<and> refs_ok (tags_of (cfg_Outbounds cfg)) (cfg_Outbounds cfg) \<and>
    list_all (\<lambda>r. Outbound r = [] \<or> Outbound r \<in> tags_of (cfg_Outbounds cfg)) (rc_Rules (cfg_Route cfg)) \<and>
    rc_Final (cfg_Route cfg) \<in> tags_of (cfg_Outbounds cfg) \<and>
    list_all (\<lambda>r. dr_Server r = [] \<or> dr_Server r \<in> ds_Tag ` set (dc_Servers (cfg_DNS cfg))) (dc_Rules (cfg_DNS cfg)) \<and>
    {dc_Final (cfg_DNS cfg), rc_ResolverServer (cfg_Route cfg)} \<subseteq> ds_Tag ` set (dc_Servers (cfg_DNS cfg))"
proof -
  let ?user = "loadBuiltinRules b @ loadCustomRules b"
  obtain outbound ps gate where p: "parseServerURL (bv_parse b) (bv_dec b) uri = Inr outbound"
      "buildProxyOutbounds b uri sb outbound = (ps, gate)"
    and cfg: "cfg = assemble b ps (ob_Server outbound) (RealityLegTag \<in> tags_of ps) gate
       (route_rules b sb (ob_Server outbound) (RealityLegTag \<in> tags_of ps) gate (snd (SplitHotRules ?user))
          (snd (HotRuleSetRefs (HotRuleSetDir b) (map fst (fst (SplitHotRules ?user))))))
       (fst (HotRuleSetRefs (HotRuleSetDir b) (map fst (fst (SplitHotRules ?user)))))"
    using build_parts [OF assms(1)] by metis
  let ?two = "RealityLegTag \<in> tags_of ps"
  let ?hot = "snd (HotRuleSetRefs (HotRuleSetDir b) (map fst (fst (SplitHotRules ?user))))"
  have ok: "proxies_ok ?two ps gate"
    using build_proxies_ok [OF p(1), of sb] p(2) by (auto simp: proxies_ok_def)
  note obs = assemble_outbounds [OF ok]
  have sub: "tags_of ps \<subseteq> tags_of (cfg_Outbounds cfg)"
    and known: "\<And>t. known_outbound t \<Longrightarrow> t \<noteq> [] \<Longrightarrow> t \<in> tags_of (cfg_Outbounds cfg)"
    and lanes: "?two \<Longrightarrow> gate \<noteq> [] \<Longrightarrow> tags_of flowSelectors \<subseteq> tags_of (cfg_Outbounds cfg)"
    unfolding cfg using obs(3,4,5) by auto
  have gate: "?two \<Longrightarrow> gate \<noteq> [] \<Longrightarrow> gate \<in> tags_of ps" using ok by (simp add: proxies_ok_def)
  have rule: "Outbound r = [] \<or> Outbound r \<in> tags_of (cfg_Outbounds cfg)"
    if "r \<in> set (base_rules ?two gate @ snd (SplitHotRules ?user) @ ?hot @ system_rules b sb (ob_Server outbound))" for r
  proof -
    have "known_outbound (Outbound r) \<or> (?two \<and> (Outbound r = RealityLegTag \<or> Outbound r = gate))"
      using that base_outbounds [of r ?two gate] system_outbounds [of r b sb] hot_outbounds [of r "HotRuleSetDir b" ?user]
        inline_sub [of r ?user] assms(2) by (metis UnE set_append)
    then show ?thesis
    proof (elim disjE conjE)
      assume "known_outbound (Outbound r)"
      then show ?thesis using known [of "Outbound r"] by blast
    next
      assume "?two" "Outbound r = RealityLegTag"
      then show ?thesis using sub by auto
    next
      assume "?two" "Outbound r = gate"
      then show ?thesis using sub gate by (cases "gate = []") auto
    qed
  qed
  have "Outbound r = [] \<or> Outbound r \<in> tags_of (cfg_Outbounds cfg)" if "r \<in> set (rc_Rules (cfg_Route cfg))" for r
  proof (cases "?two \<and> gate \<noteq> []")
    case True
    then have "r \<in> set (flowRoutes (base_rules ?two gate @ snd (SplitHotRules ?user) @ ?hot @ system_rules b sb (ob_Server outbound)))"
      using that by (simp add: cfg assemble_def route_rules_def)
    from flowRoutes_mem(1) [OF this] show ?thesis
    proof (elim disjE bexE)
      fix r' assume "r' \<in> set (base_rules ?two gate @ snd (SplitHotRules ?user) @ ?hot @ system_rules b sb (ob_Server outbound))"
        "Outbound r = Outbound r'"
      then show ?thesis using rule [of r'] by simp
    next
      fix lane assume "lane \<in> {0..BalanceLanes - 1}" "Outbound r = BalanceLaneTag lane"
      then show ?thesis using lane_tags_of [of lane] lanes True by auto
    qed
  next
    case False
    then have "r \<in> set (base_rules ?two gate @ snd (SplitHotRules ?user) @ ?hot @ system_rules b sb (ob_Server outbound))"
      using that by (auto simp: cfg assemble_def route_rules_def Let_def)
    then show ?thesis by (rule rule)
  qed
  moreover have "rc_Final (cfg_Route cfg) \<in> tags_of (cfg_Outbounds cfg)"
    using known [of "''proxy''"] by (simp add: cfg assemble_def known_outbound_def)
  moreover have "dc_Servers (cfg_DNS cfg) = dns_servers" "dc_Rules (cfg_DNS cfg) = dns_rules b (ob_Server outbound)"
      "dc_Final (cfg_DNS cfg) = ''dns-remote''" "rc_ResolverServer (cfg_Route cfg) = ''dns-direct''"
    by (simp_all add: cfg assemble_def)
  moreover have "{''dns-remote'', ''dns-direct''} \<subseteq> dns_tags" by (simp add: dns_tags_def dns_servers_def)
  ultimately show ?thesis
    using obs(1,2) dns_rule_servers [of _ b "ob_Server outbound"] cfg
    by (simp add: list_all_iff dns_tags_def)
qed

end
