(* ===== verification/Config_Laws.thy ===== *)
theory Config_Laws
  imports Config_Build
begin

text \<open>
  Laws of a built configuration: which files and rule sets make it valid, where the inbounds of the
  probes lead, and how the DNS rules decide. The engine's matchers are parameters; what the laws
  need of them is stated where they are used.
\<close>

section \<open>A sample environment\<close>

text \<open>A Hysteria2 link with a peak window, a REALITY standby, one direct rule and one exception to it.\<close>

definition sample_links :: url_parser where
  "sample_links s =
     (if s = ''hy2'' then Inr \<lparr>u_Scheme = ''hysteria2'', u_Username = ''pw'', u_Hostname = ''203.0.113.7'',
         u_Port = ''443'', u_Query = link_query [(''upmbps'', ''5''), (''downmbps'', ''40''),
           (''peakupmbps'', ''3''), (''peakdownmbps'', ''10''), (''peakstart'', ''19''), (''peakend'', ''24'')]\<rparr>
      else if s = ''vless'' then Inr \<lparr>u_Scheme = ''vless'', u_Username = ''id'', u_Hostname = ''203.0.113.7'',
         u_Port = ''443'', u_Query = link_query [(''security'', ''reality''), (''pbk'', ''key'')]\<rparr>
      else Inl ''bad link'')"

definition sample_env :: build_env where
  "sample_env = \<lparr>bv_parse = sample_links, bv_dec = one_pin, bv_ip = (\<lambda>s. Some s), bv_hour = 9,
     bv_cached = None,
     bv_embedded = Some [zero_rule\<lparr>DomainSuffix := [''apple.com''], Outbound := ''direct''\<rparr>],
     bv_custom = CustomRules [zero_rule\<lparr>DomainSuffix := [''developer.apple.com''], Outbound := ''proxy''\<rparr>],
     bv_stat = (\<lambda>_. Some 1), bv_dir = ''/m'', bv_disk = good_disk\<rparr>"

lemma sample_rules_of: "loadBuiltinRules sample_env @ loadCustomRules sample_env =
    [zero_rule\<lparr>DomainSuffix := [''apple.com''], Outbound := ''direct''\<rparr>,
     zero_rule\<lparr>DomainSuffix := [''developer.apple.com''], Outbound := ''proxy''\<rparr>]"
  by (simp add: loadBuiltinRules_def loadCustomRules_def sample_env_def)

lemma sample_conflicts:
  "DetectHotRuleConflicts (fst (SplitHotRules (loadBuiltinRules sample_env @ loadCustomRules sample_env))) = []"
  unfolding sample_rules_of by code_simp

lemma sample_writes: "\<exists>files'. WriteHotRuleSets (bv_disk sample_env) dir groups files = (None, files')"
proof -
  have "\<exists>files'. write_rule_sets good_disk dir groups files = (None, files')" for files
    by (induction groups arbitrary: files) (auto simp: good_disk_def Let_def)
  then show ?thesis by (simp add: WriteHotRuleSets_def sample_env_def) (simp add: good_disk_def)
qed

lemma sample_parses: "\<exists>ob. parseServerURL (bv_parse sample_env) (bv_dec sample_env) ''hy2'' = Inr ob \<and> ob_Type ob = ''hysteria2''"
  by (simp add: sample_env_def sample_links_def parseServerURL_def parseHysteria2_def link_query_def Let_def
      split: prod.splits)

lemma sample_builds: "\<exists>cfg files'. BuildWithStandby sample_env ''hy2'' sb files = (Inr cfg, files')"
proof -
  obtain ob where "parseServerURL (bv_parse sample_env) (bv_dec sample_env) ''hy2'' = Inr ob"
    using sample_parses by blast
  moreover obtain ps gate where "buildProxyOutbounds sample_env ''hy2'' sb ob = (ps, gate)" by force
  moreover obtain files' where
    "WriteHotRuleSets (bv_disk sample_env) (HotRuleSetDir sample_env)
       (fst (SplitHotRules (loadBuiltinRules sample_env @ loadCustomRules sample_env))) files = (None, files')"
    using sample_writes by blast
  ultimately show ?thesis
    using sample_conflicts by (simp add: BuildWithStandby_def Let_def case_prod_beta)
qed

theorem built_names_resolve_witness:
  "\<exists>cfg files'. BuildWithStandby sample_env ''hy2'' ''vless'' (\<lambda>_. None) = (Inr cfg, files') \<and>
     distinct (map ob_Tag (cfg_Outbounds cfg)) \<and> refs_ok (tags_of (cfg_Outbounds cfg)) (cfg_Outbounds cfg) \<and>
     rc_Final (cfg_Route cfg) \<in> tags_of (cfg_Outbounds cfg)"
proof -
  obtain cfg files' where b: "BuildWithStandby sample_env ''hy2'' ''vless'' (\<lambda>_. None) = (Inr cfg, files')"
    using sample_builds by blast
  have "\<forall>r \<in> set (loadBuiltinRules sample_env @ loadCustomRules sample_env). known_outbound (Outbound r)"
    unfolding sample_rules_of by (simp add: known_outbound_def)
  from built_names_resolve [OF b this] b show ?thesis by blast
qed

section \<open>Validation of a build\<close>

definition file_present :: "(string \<Rightarrow> nat option) \<Rightarrow> RuleSet \<Rightarrow> bool" where
  "file_present stat rs =
     (RsType rs \<noteq> ''local'' \<or> RsPath rs = [] \<or> (case stat (RsPath rs) of None \<Rightarrow> False | Some n \<Rightarrow> 0 < n))"

lemma declared_sets_Inr:
  "declared_sets stat rss acc = Inr d \<longleftrightarrow>
     (\<forall>rs \<in> set rss. RsType rs \<noteq> ''remote'' \<and> file_present stat rs) \<and> d = rev (map RsTag rss) @ acc"
  by (induction rss arbitrary: acc) (auto simp: file_present_def split: option.splits)

lemma first_undeclared_None: "first_undeclared d refs = None \<longleftrightarrow> set refs \<subseteq> set d"
  by (auto simp: first_undeclared_def find_None_iff)

lemma Validate_None:
  "Validate stat cfg = None \<longleftrightarrow>
     (\<forall>rs \<in> set (rc_RuleSet (cfg_Route cfg)). RsType rs \<noteq> ''remote'' \<and> file_present stat rs) \<and>
     (\<forall>r \<in> set (dc_Rules (cfg_DNS cfg)). set (dr_RuleSet r) \<subseteq> RsTag ` set (rc_RuleSet (cfg_Route cfg))) \<and>
     (\<forall>r \<in> set (rc_Rules (cfg_Route cfg)). set (RuleSetRefs r) \<subseteq> RsTag ` set (rc_RuleSet (cfg_Route cfg)))"
proof (cases "declared_sets stat (rc_RuleSet (cfg_Route cfg)) []")
  case (Inl e)
  then have "\<not> (\<forall>rs \<in> set (rc_RuleSet (cfg_Route cfg)). RsType rs \<noteq> ''remote'' \<and> file_present stat rs)"
    using declared_sets_Inr [of stat "rc_RuleSet (cfg_Route cfg)" "[]" "rev (map RsTag (rc_RuleSet (cfg_Route cfg)))"] by auto
  with Inl show ?thesis by (auto simp: Validate_def)
next
  case (Inr d)
  then have "(\<forall>rs \<in> set (rc_RuleSet (cfg_Route cfg)). RsType rs \<noteq> ''remote'' \<and> file_present stat rs)"
    and d: "set d = RsTag ` set (rc_RuleSet (cfg_Route cfg))"
    by (auto simp: declared_sets_Inr)
  moreover have "first_undeclared d (concat (map dr_RuleSet (dc_Rules (cfg_DNS cfg)))) = None \<longleftrightarrow>
      (\<forall>r \<in> set (dc_Rules (cfg_DNS cfg)). set (dr_RuleSet r) \<subseteq> set d)"
    and "first_undeclared d (concat (map RuleSetRefs (rc_Rules (cfg_Route cfg)))) = None \<longleftrightarrow>
      (\<forall>r \<in> set (rc_Rules (cfg_Route cfg)). set (RuleSetRefs r) \<subseteq> set d)"
    by (auto simp: first_undeclared_None)
  ultimately show ?thesis
    using Inr by (cases "first_undeclared d (concat (map dr_RuleSet (dc_Rules (cfg_DNS cfg))))";
        cases "first_undeclared d (concat (map RuleSetRefs (rc_Rules (cfg_Route cfg))))") (auto simp: Validate_def)
qed

lemma dns_rule_sets: "r \<in> set (dns_rules b server) \<Longrightarrow> set (dr_RuleSet r) \<subseteq> RsTag ` set (rule_sets b hot)"
  by (auto simp: dns_rules_def rule_sets_def binary_set_def suffix_rule_def zero_dns_rule_def Let_def split: if_splits)

lemma no_refs:
  "r \<in> set (base_rules two gate) \<Longrightarrow> RuleSetRefs r = []"
  "r \<in> set (system_rules b sb server) \<Longrightarrow> set (RuleSetRefs r) \<subseteq> {''geoip-cn''}"
  by (auto simp: base_rules_def probe_rules_def from_inbound_def system_rules_def cidr_rule_def node_rule_def
      standby_rule_def zero_rule_def split: option.splits if_splits sum.splits)

lemma hot_refs_declared:
  "r \<in> set (snd (HotRuleSetRefs dir order)) \<Longrightarrow> set (RuleSetRefs r) \<subseteq> RsTag ` set (fst (HotRuleSetRefs dir order))"
  by (auto simp: HotRuleSetRefs_def image_image)

lemma rule_set_tags: "RsTag ` set (rule_sets b hot) = {''geoip-cn''} \<union> (if geositeCNPath b \<noteq> [] then {''geosite-cn''} else {}) \<union> RsTag ` set hot"
  by (auto simp: rule_sets_def binary_set_def)

lemma rule_set_types: "rs \<in> set (rule_sets b (fst (HotRuleSetRefs dir order))) \<Longrightarrow> RsType rs = ''local''"
  by (auto simp: rule_sets_def binary_set_def HotRuleSetRefs_def split: if_splits)

lemma flowRoutes_refs: "(\<Union>r \<in> set (flowRoutes rules). set (RuleSetRefs r)) = (\<Union>r \<in> set rules. set (RuleSetRefs r))"
  by (auto simp: flowRoutes_def shard_def zero_rule_def split: if_splits)

lemma hot_eligible_refs: "isHotEligible r \<Longrightarrow> RuleSetRefs r = []"
  by (auto simp: isHotEligible_def split: if_splits)

text \<open>The rule sets that the routing rules of a build name.\<close>

lemma route_refs:
  assumes "\<And>r. r \<in> set hotRefs \<Longrightarrow> set (RuleSetRefs r) \<subseteq> T"
    and "''geoip-cn'' \<in> T"
  shows "(\<forall>r \<in> set (route_rules b sb server two gate inline hotRefs). set (RuleSetRefs r) \<subseteq> T) \<longleftrightarrow>
    (\<forall>r \<in> set inline. set (RuleSetRefs r) \<subseteq> T)"
proof -
  let ?rules = "base_rules two gate @ inline @ hotRefs @ system_rules b sb server"
  have "(\<forall>r \<in> set (route_rules b sb server two gate inline hotRefs). set (RuleSetRefs r) \<subseteq> T) \<longleftrightarrow>
      (\<Union>r \<in> set ?rules. set (RuleSetRefs r)) \<subseteq> T"
    by (simp add: route_rules_def Let_def UN_subset_iff [symmetric] flowRoutes_refs del: UN_subset_iff UN_simps)
  also have "\<dots> \<longleftrightarrow> (\<forall>r \<in> set inline. set (RuleSetRefs r) \<subseteq> T)"
    using assms no_refs by (fastforce simp: UN_subset_iff)
  finally show ?thesis .
qed

text \<open>What validation comes to for a built configuration.\<close>

lemma validate_built:
  assumes "BuildWithStandby b uri sb files = (Inr cfg, files')"
  shows "Validate stat cfg = None \<longleftrightarrow>
    (\<forall>rs \<in> set (rc_RuleSet (cfg_Route cfg)). file_present stat rs) \<and>
    (\<forall>r \<in> set (loadBuiltinRules b @ loadCustomRules b).
       set (RuleSetRefs r) \<subseteq> RsTag ` set (rc_RuleSet (cfg_Route cfg)))"
proof -
  let ?user = "loadBuiltinRules b @ loadCustomRules b"
  let ?order = "map fst (fst (SplitHotRules ?user))"
  let ?inline = "snd (SplitHotRules ?user)"
  let ?decls = "fst (HotRuleSetRefs (HotRuleSetDir b) ?order)"
  let ?refs = "snd (HotRuleSetRefs (HotRuleSetDir b) ?order)"
  let ?T = "RsTag ` set (rule_sets b ?decls)"
  obtain outbound :: OutboundConfig and ps gate where cfg: "cfg = assemble b ps (ob_Server outbound) (RealityLegTag \<in> tags_of ps) gate
       (route_rules b sb (ob_Server outbound) (RealityLegTag \<in> tags_of ps) gate ?inline ?refs) ?decls"
    by (rule build_parts [OF assms]) (rule that)
  have sets: "rc_RuleSet (cfg_Route cfg) = rule_sets b ?decls"
      "rc_Rules (cfg_Route cfg) = route_rules b sb (ob_Server outbound) (RealityLegTag \<in> tags_of ps) gate ?inline ?refs"
      "dc_Rules (cfg_DNS cfg) = dns_rules b (ob_Server outbound)"
    by (simp_all add: cfg assemble_def)
  have refs: "\<And>r. r \<in> set ?refs \<Longrightarrow> set (RuleSetRefs r) \<subseteq> ?T"
    using hot_refs_declared by (fastforce simp: rule_set_tags)
  have inline: "(\<forall>r \<in> set ?inline. set (RuleSetRefs r) \<subseteq> ?T) \<longleftrightarrow> (\<forall>r \<in> set ?user. set (RuleSetRefs r) \<subseteq> ?T)"
    using hot_eligible_refs unfolding SplitHotRules_def split_loop_rest by fastforce
  have route: "(\<forall>r \<in> set (route_rules b sb server two gate ?inline ?refs). set (RuleSetRefs r) \<subseteq> ?T) \<longleftrightarrow>
      (\<forall>r \<in> set ?inline. set (RuleSetRefs r) \<subseteq> ?T)" for server two gate
    by (rule route_refs) (use refs in \<open>simp_all add: rule_set_tags\<close>)
  show ?thesis
    unfolding Validate_None sets route inline using dns_rule_sets [of _ b "ob_Server outbound" ?decls]
    by (auto dest: rule_set_types)
qed

text \<open>C25: The pre-flight check accepts a built configuration exactly when every rule set file it declares
  is there with content and every rule set that a rule file refers to is declared. All the
  references of its own (geoip-cn, geosite-cn, the hot sets) are always declared, so only the
  files on disk and the user's references can make it fail.\<close>
theorem built_config_validates:
  assumes "BuildWithStandby b uri sb files = (Inr cfg, files')"
  shows "Validate stat cfg = None \<longleftrightarrow>
    (\<forall>rs \<in> set (rc_RuleSet (cfg_Route cfg)). file_present stat rs) \<and>
    (\<forall>r \<in> set (loadBuiltinRules b @ loadCustomRules b).
       set (RuleSetRefs r) \<subseteq> RsTag ` set (rc_RuleSet (cfg_Route cfg)))"
  by (rule validate_built [OF assms])

theorem built_config_validates_witness:
  "\<exists>cfg files'. BuildWithStandby sample_env ''hy2'' ''vless'' (\<lambda>_. None) = (Inr cfg, files') \<and>
     Validate (\<lambda>_. Some 1) cfg = None \<and> Validate (\<lambda>_. Some 0) cfg \<noteq> None"
proof -
  obtain cfg files' where b: "BuildWithStandby sample_env ''hy2'' ''vless'' (\<lambda>_. None) = (Inr cfg, files')"
    using sample_builds by blast
  have "\<forall>r \<in> set (loadBuiltinRules sample_env @ loadCustomRules sample_env). RuleSetRefs r = []"
    unfolding sample_rules_of by (simp add: zero_rule_def)
  moreover obtain outbound :: OutboundConfig and ps gate rules hot where
    "cfg = assemble sample_env ps (ob_Server outbound) (RealityLegTag \<in> tags_of ps) gate rules hot"
    by (rule build_parts [OF b]) (rule that)
  then have "\<exists>rs \<in> set (rc_RuleSet (cfg_Route cfg)). \<not> file_present (\<lambda>_. Some 0) rs"
    by (simp add: assemble_def rule_sets_def binary_set_def file_present_def zero_ruleset_def)
  ultimately have "Validate (\<lambda>_. Some 1) cfg = None" and "Validate (\<lambda>_. Some 0) cfg \<noteq> None"
    unfolding built_config_validates [OF b] by (auto simp: file_present_def)
  with b show ?thesis by blast
qed

section \<open>Where the probes lead\<close>

text \<open>The leg that the probe behind an inbound is there to time.\<close>

definition probe_leg :: "string \<Rightarrow> string" where
  "probe_leg tag =
     (if tag = BrutalInboundTag \<or> tag \<in> set (map eg_RealityTag LegEgressTargets) then RealityLegTag
      else Hy2ProbeSelectorTag)"

text \<open>
  The engine's matcher on a flow from one of the local forwarders: a rule that only names inbounds
  matches the flows of those inbounds, a sniffing rule decides nothing, and the flow, HTTP over a
  stream, is neither DNS nor QUIC.
\<close>

definition forwarder_flow :: "(RouteRule \<Rightarrow> 'f \<Rightarrow> bool) \<Rightarrow> string \<Rightarrow> 'f \<Rightarrow> bool" where
  "forwarder_flow m tag f =
     ((\<forall>t out. m (from_inbound t out) f = (t = tag)) \<and>
      (\<forall>r. Action r = ''sniff'' \<or> Protocol r \<in> {''dns'', ''quic''} \<longrightarrow> \<not> m r f))"

lemma flowRoutes_keeps:
  assumes "\<And>r. r \<in> set rules \<Longrightarrow> \<not> shardable r"
  shows "flowRoutes (rules @ rest) = rules @ flowRoutes rest"
  using assms by (induction rules) (auto simp: flowRoutes_def)

lemma base_not_shardable: "gate \<noteq> ''proxy'' \<Longrightarrow> r \<in> set (base_rules two gate) \<Longrightarrow> \<not> shardable r"
  by (auto simp: base_rules_def probe_rules_def from_inbound_def zero_rule_def shardable_def tag_defs split: if_splits)

lemma find_base:
  assumes "forwarder_flow m tag f"
  shows "find (\<lambda>r. m r f) (base_rules two gate @ rest) =
    find (\<lambda>r. m r f) (probe_rules two gate @ rest)"
  using assms by (simp add: base_rules_def forwarder_flow_def zero_rule_def)

lemma probe_inbound_tags:
  "ib \<in> set (probe_inbounds True Hy2ProbeSelectorTag) \<Longrightarrow>
     ib_Tag ib \<in> {''brutal-in'', ''gate-hy2-in'', ''egress-reality-in'', ''egress-hy2-in'', ''egress-reality-alt-in'',
       ''egress-hy2-alt-in''}"
  by (auto simp: probe_inbounds_def forwarder_def LegEgressTargets_def BrutalInboundTag_def LegGateInboundTag_def
      Hy2ProbeSelectorTag_def)

lemma probe_decision:
  assumes "forwarder_flow m tag f"
    and "tag \<in> {''brutal-in'', ''gate-hy2-in'', ''egress-reality-in'', ''egress-hy2-in'', ''egress-reality-alt-in'',
       ''egress-hy2-alt-in''}"
  shows "map_option Outbound (find (\<lambda>r. m r f) (probe_rules True Hy2ProbeSelectorTag @ rest)) = Some (probe_leg tag)"
proof -
  have m: "m (from_inbound t out) f = (t = tag)" for t out using assms(1) by (simp add: forwarder_flow_def)
  have out: "Outbound (from_inbound t out) = out" for t out by (simp add: from_inbound_def)
  have ne: "Hy2ProbeSelectorTag \<noteq> []" by (simp add: tag_defs)
  show ?thesis
    using assms(2)
    by (auto simp: probe_rules_def ne m out LegEgressTargets_def BrutalInboundTag_def LegGateInboundTag_def probe_leg_def)
qed

text \<open>C24: A probe always measures the leg it is named after. In a configuration built with a standby leg
  for a Hysteria2 link, every local forwarder beside the tunnel and the DNS port is routed to one
  fixed outbound: the Brutal channel and the REALITY probes to the REALITY leg, the gate and the
  Hysteria2 probes to the Hysteria2 ladder. The rule files, the loopback rule and the spreading of
  flows over lanes cannot send them elsewhere.\<close>
theorem probes_stay_on_their_leg:
  assumes "BuildWithStandby b uri sb files = (Inr cfg, files')"
    and "parseServerURL (bv_parse b) (bv_dec b) uri = Inr outbound" and "ob_Type outbound = ''hysteria2''"
    and "standby_leg b sb \<noteq> None"
    and "ib \<in> set (cfg_Inbounds cfg)" and "ib_Tag ib \<notin> {''tun-in'', ''dns-in''}"
    and "forwarder_flow m (ib_Tag ib) f"
  shows "map_option Outbound (find (\<lambda>r. m r f) (rc_Rules (cfg_Route cfg))) = Some (probe_leg (ib_Tag ib))"
proof -
  obtain out ps gate inline hot decls where p: "parseServerURL (bv_parse b) (bv_dec b) uri = Inr out"
      "buildProxyOutbounds b uri sb out = (ps, gate)"
    and cfg: "cfg = assemble b ps (ob_Server out) (RealityLegTag \<in> tags_of ps) gate
       (route_rules b sb (ob_Server out) (RealityLegTag \<in> tags_of ps) gate inline hot) decls"
    by (rule build_parts [OF assms(1)]) (rule that)
  have "out = outbound" using p(1) assms(2) by simp
  then have gate: "gate = Hy2ProbeSelectorTag"
    using p(2) assms(2,3,4)
    by (auto simp: buildProxyOutbounds_def Let_def parseServerURL_def split: option.splits if_splits sum.splits)
  have two: "RealityLegTag \<in> tags_of ps"
    using build_proxies_ok [OF p(1), of sb] p(2) assms(4) by (simp add: proxies_ok_def)
  have ne: "Hy2ProbeSelectorTag \<noteq> []" "Hy2ProbeSelectorTag \<noteq> ''proxy''" by (simp_all add: tag_defs)
  have ib: "ib \<in> set (probe_inbounds True Hy2ProbeSelectorTag)"
    using assms(5,6) by (auto simp: cfg assemble_def inbounds_def two gate)
  obtain rest where "rc_Rules (cfg_Route cfg) = base_rules True Hy2ProbeSelectorTag @ rest"
    using flowRoutes_keeps [of "base_rules True Hy2ProbeSelectorTag"] base_not_shardable [OF ne(2)]
    by (auto simp: cfg assemble_def route_rules_def two gate ne Let_def)
  then show ?thesis
    using find_base [OF assms(7)] probe_decision [OF assms(7) probe_inbound_tags [OF ib]] by simp
qed

definition sample_forwarder :: "RouteRule \<Rightarrow> string \<Rightarrow> bool" where
  "sample_forwarder r tag =
     (Action r = [] \<and> Protocol r = [] \<and> (Inbound r = [] \<or> tag \<in> set (Inbound r)))"

theorem probes_stay_on_their_leg_witness:
  "\<exists>cfg files'. BuildWithStandby sample_env ''hy2'' ''vless'' (\<lambda>_. None) = (Inr cfg, files') \<and>
     map_option Outbound (find (\<lambda>r. sample_forwarder r ''gate-hy2-in'') (rc_Rules (cfg_Route cfg))) =
       Some Hy2ProbeSelectorTag \<and>
     map_option Outbound (find (\<lambda>r. sample_forwarder r ''brutal-in'') (rc_Rules (cfg_Route cfg))) = Some RealityLegTag"
proof -
  obtain cfg files' where b: "BuildWithStandby sample_env ''hy2'' ''vless'' (\<lambda>_. None) = (Inr cfg, files')"
    using sample_builds by blast
  obtain outbound where ob: "parseServerURL (bv_parse sample_env) (bv_dec sample_env) ''hy2'' = Inr outbound"
    and hy2: "ob_Type outbound = ''hysteria2''"
    using sample_parses by blast
  have sb: "standby_leg sample_env ''vless'' \<noteq> None"
    by (simp add: standby_leg_def sample_env_def sample_links_def parseServerURL_def parseVLESS_def link_query_def Let_def)
  have flow: "forwarder_flow sample_forwarder tag tag" for tag
    by (auto simp: forwarder_flow_def sample_forwarder_def from_inbound_def zero_rule_def)
  have "forwarder LegGateInboundTag LegGatePort ''127.0.0.1'' BrutalKeeperPort \<in> set (cfg_Inbounds cfg)"
    and "forwarder BrutalInboundTag BrutalKeeperPort ''127.0.0.1'' BrutalKeeperPort \<in> set (cfg_Inbounds cfg)"
  proof -
    obtain out :: OutboundConfig and ps gate rules decls where p: "parseServerURL (bv_parse sample_env) (bv_dec sample_env) ''hy2'' = Inr out"
        "buildProxyOutbounds sample_env ''hy2'' ''vless'' out = (ps, gate)"
      and cfg: "cfg = assemble sample_env ps (ob_Server out) (RealityLegTag \<in> tags_of ps) gate rules decls"
      by (rule build_parts [OF b]) (rule that)
    have "RealityLegTag \<in> tags_of ps"
      using build_proxies_ok [OF p(1), of "''vless''"] p(2) sb by (simp add: proxies_ok_def)
    moreover have "gate = Hy2ProbeSelectorTag"
      using p ob hy2 sb
      by (auto simp: buildProxyOutbounds_def Let_def parseServerURL_def split: option.splits if_splits sum.splits)
    ultimately show "forwarder LegGateInboundTag LegGatePort ''127.0.0.1'' BrutalKeeperPort \<in> set (cfg_Inbounds cfg)"
      and "forwarder BrutalInboundTag BrutalKeeperPort ''127.0.0.1'' BrutalKeeperPort \<in> set (cfg_Inbounds cfg)"
      by (simp_all add: cfg assemble_def inbounds_def probe_inbounds_def tag_defs)
  qed
  note ibs = this
  have tags: "ib_Tag (forwarder t p h q) = t" for t p h q by (simp add: forwarder_def)
  have leg: "probe_leg ''gate-hy2-in'' = Hy2ProbeSelectorTag" "probe_leg ''brutal-in'' = RealityLegTag"
    by (simp_all add: probe_leg_def LegEgressTargets_def BrutalInboundTag_def)
  show ?thesis
    using probes_stay_on_their_leg [OF b ob hy2 sb ibs(1), unfolded tags, OF _ flow]
      probes_stay_on_their_leg [OF b ob hy2 sb ibs(2), unfolded tags, OF _ flow] b leg
    by (auto simp: LegGateInboundTag_def BrutalInboundTag_def)
qed

section \<open>How a name is resolved\<close>

text \<open>The engine's matcher on one query: any suffix, any keyword, the rule set, or the query type.\<close>

definition dns_matcher ::
  "(DNSRule \<Rightarrow> 'q \<Rightarrow> bool) \<Rightarrow> (string \<Rightarrow> 'q \<Rightarrow> bool) \<Rightarrow> (string \<Rightarrow> 'q \<Rightarrow> bool) \<Rightarrow> bool \<Rightarrow> string \<Rightarrow> 'q \<Rightarrow> bool" where
  "dns_matcher m sfx kw cn qtype q =
     ((\<forall>ss server act. ss \<noteq> [] \<longrightarrow> m (zero_dns_rule\<lparr>dr_DomainSuffix := ss, dr_Server := server, dr_Action := act\<rparr>) q =
         list_ex (\<lambda>s. sfx s q) ss) \<and>
      (\<forall>ks server. ks \<noteq> [] \<longrightarrow> m (zero_dns_rule\<lparr>dr_DomainKeyword := ks, dr_Server := server\<rparr>) q = list_ex (\<lambda>k. kw k q) ks) \<and>
      (\<forall>server. m (zero_dns_rule\<lparr>dr_RuleSet := [''geosite-cn''], dr_Server := server\<rparr>) q = cn) \<and>
      (\<forall>types server act. types \<noteq> [] \<longrightarrow> m (zero_dns_rule\<lparr>dr_QueryType := types, dr_Server := server, dr_Action := act\<rparr>) q =
         (qtype \<in> set types)))"

definition cn_suffixes :: "string list" where
  "cn_suffixes = [''.cn'', ''.com.cn'', ''.net.cn'', ''.org.cn'', ''.gov.cn'', ''.edu.cn'', ''.mil.cn'', zhongguo]"

lemma dns_matcher_rules:
  assumes "dns_matcher m sfx kw cn qtype q"
  shows "ss \<noteq> [] \<Longrightarrow> m (suffix_rule ss server) q = list_ex (\<lambda>s. sfx s q) ss"
    and "ss \<noteq> [] \<Longrightarrow> m (zero_dns_rule\<lparr>dr_DomainSuffix := ss, dr_Action := act\<rparr>) q = list_ex (\<lambda>s. sfx s q) ss"
    and "ks \<noteq> [] \<Longrightarrow> m (zero_dns_rule\<lparr>dr_DomainKeyword := ks, dr_Server := server\<rparr>) q = list_ex (\<lambda>k. kw k q) ks"
    and "m (zero_dns_rule\<lparr>dr_RuleSet := [''geosite-cn''], dr_Server := server\<rparr>) q = cn"
    and "types \<noteq> [] \<Longrightarrow> m (zero_dns_rule\<lparr>dr_QueryType := types, dr_Server := server\<rparr>) q = (qtype \<in> set types)"
    and "types \<noteq> [] \<Longrightarrow> m (zero_dns_rule\<lparr>dr_QueryType := types, dr_Action := act\<rparr>) q = (qtype \<in> set types)"
proof -
  have sfx: "ss \<noteq> [] \<Longrightarrow> m (zero_dns_rule\<lparr>dr_DomainSuffix := ss, dr_Server := server, dr_Action := act\<rparr>) q = list_ex (\<lambda>s. sfx s q) ss"
    and by_type: "types \<noteq> [] \<Longrightarrow> m (zero_dns_rule\<lparr>dr_QueryType := types, dr_Server := server, dr_Action := act\<rparr>) q = (qtype \<in> set types)"
    for ss server act types using assms by (simp_all add: dns_matcher_def)
  show "m (suffix_rule ss server) q = list_ex (\<lambda>s. sfx s q) ss" if "ss \<noteq> []"
    using sfx [where ss = ss and server = server and act = "[]"] that by (simp add: suffix_rule_def zero_dns_rule_def)
  show "m (zero_dns_rule\<lparr>dr_DomainSuffix := ss, dr_Action := act\<rparr>) q = list_ex (\<lambda>s. sfx s q) ss" if "ss \<noteq> []"
    using sfx [where ss = ss and server = "[]" and act = act] that by (simp add: zero_dns_rule_def)
  show "m (zero_dns_rule\<lparr>dr_QueryType := types, dr_Server := server\<rparr>) q = (qtype \<in> set types)" if "types \<noteq> []"
    using by_type [where types = types and server = server and act = "[]"] that by (simp add: zero_dns_rule_def)
  show "m (zero_dns_rule\<lparr>dr_QueryType := types, dr_Action := act\<rparr>) q = (qtype \<in> set types)" if "types \<noteq> []"
    using by_type [where types = types and server = "[]" and act = act] that by (simp add: zero_dns_rule_def)
qed (use assms in \<open>simp_all add: dns_matcher_def\<close>)

lemma zones_nonempty: "localReverseZones \<noteq> []" "cn_suffixes \<noteq> []"
  by (simp_all add: localReverseZones_def cn_suffixes_def)

text \<open>Which resolver answers an address query, for a name that is neither the node's own nor in a
  reverse zone. A Chinese top-level domain is asked directly whatever the rule files say; then a
  proxied suffix or keyword of the rule files gives a fake address, also under a suffix that is
  direct; then a direct suffix or a name in geosite-cn is asked directly, and all else is fake.\<close>
theorem resolver_of_a_name:
  assumes "dns_matcher m sfx kw cn qtype q" and "qtype \<in> {''A'', ''AAAA''}"
    and "\<not> m (zero_dns_rule\<lparr>dr_Domain := [server], dr_Server := ''dns-direct''\<rparr>) q"
    and "\<not> list_ex (\<lambda>s. sfx s q) (localReverseZones @ [''.in-addr.arpa'', ''.ip6.arpa''])"
  shows "map_option dr_Server (find (\<lambda>r. m r q) (dns_rules b server)) = Some
    (let rules = loadBuiltinRules b @ loadCustomRules b in
     if list_ex (\<lambda>s. sfx s q) cn_suffixes then ''dns-direct''
     else if list_ex (\<lambda>s. sfx s q) (proxyDomainSuffixes rules) \<or> list_ex (\<lambda>k. kw k q) (proxyDomainKeywords rules)
     then ''dns-fake''
     else if list_ex (\<lambda>s. sfx s q) (directDomainSuffixes rules) \<or> (geositeCNPath b \<noteq> [] \<and> cn) then ''dns-direct''
     else ''dns-fake'')"
proof -
  let ?rules = "loadBuiltinRules b @ loadCustomRules b"
  note m = dns_matcher_rules [OF assms(1)]
  have type: "qtype \<noteq> ''HTTPS''" "qtype \<noteq> ''SVCB''" using assms(2) by auto
  have srv: "dr_Server (suffix_rule ss s) = s" for ss s by (simp add: suffix_rule_def)
  let ?rest = "(if length (proxyDomainSuffixes ?rules) > 0 then [suffix_rule (proxyDomainSuffixes ?rules) ''dns-fake''] else []) @
         (if length (proxyDomainKeywords ?rules) > 0
          then [zero_dns_rule\<lparr>dr_DomainKeyword := proxyDomainKeywords ?rules, dr_Server := ''dns-fake''\<rparr>] else []) @
         (if length (directDomainSuffixes ?rules) > 0 then [suffix_rule (directDomainSuffixes ?rules) ''dns-direct''] else []) @
         (if geositeCNPath b \<noteq> []
          then [zero_dns_rule\<lparr>dr_RuleSet := [''geosite-cn''], dr_Server := ''dns-direct''\<rparr>] else []) @
         [zero_dns_rule\<lparr>dr_QueryType := [''A'', ''AAAA''], dr_Server := ''dns-fake''\<rparr>]"
  have "find (\<lambda>r. m r q) (dns_rules b server) =
      find (\<lambda>r. m r q) (suffix_rule cn_suffixes ''dns-direct'' # ?rest)"
    using assms(3,4) type zones_nonempty by (simp add: dns_rules_def Let_def m cn_suffixes_def)
  moreover have "map_option dr_Server (find (\<lambda>r. m r q) ?rest) = Some
     (if list_ex (\<lambda>s. sfx s q) (proxyDomainSuffixes ?rules) \<or> list_ex (\<lambda>k. kw k q) (proxyDomainKeywords ?rules)
      then ''dns-fake''
      else if list_ex (\<lambda>s. sfx s q) (directDomainSuffixes ?rules) \<or> (geositeCNPath b \<noteq> [] \<and> cn) then ''dns-direct''
      else ''dns-fake'')"
    using assms(2) by (auto simp: find_append m srv)
  moreover have "find (\<lambda>r. m r q) (suffix_rule cn_suffixes ''dns-direct'' # ?rest) =
      (if list_ex (\<lambda>s. sfx s q) cn_suffixes then Some (suffix_rule cn_suffixes ''dns-direct'')
       else find (\<lambda>r. m r q) ?rest)"
    by (simp only: find.simps m(1) [OF zones_nonempty(2)])
  ultimately show ?thesis by (simp only: Let_def srv option.map split: if_split) simp
qed

definition name_ends :: "string \<Rightarrow> string \<Rightarrow> bool" where
  "name_ends s host = (suffix s host \<or> suffix (CHR ''.'' # s) host)"

definition sample_dns :: "DNSRule \<Rightarrow> string \<Rightarrow> bool" where
  "sample_dns r host =
     ((dr_Domain r = [] \<or> host \<in> set (dr_Domain r)) \<and>
      (dr_DomainSuffix r = [] \<or> list_ex (\<lambda>s. name_ends s host) (dr_DomainSuffix r)) \<and>
      (dr_DomainKeyword r = [] \<or> list_ex (\<lambda>k. sublist k host) (dr_DomainKeyword r)) \<and>
      dr_RuleSet r = [] \<and> (dr_QueryType r = [] \<or> ''A'' \<in> set (dr_QueryType r)))"

lemma sample_dns_matcher: "dns_matcher sample_dns name_ends sublist False ''A'' host"
  by (auto simp: dns_matcher_def sample_dns_def zero_dns_rule_def)

theorem resolver_of_a_name_witness:
  "map_option dr_Server (find (\<lambda>r. sample_dns r ''developer.apple.com'') (dns_rules sample_env ''203.0.113.7'')) =
     Some ''dns-fake'' \<and>
   map_option dr_Server (find (\<lambda>r. sample_dns r ''www.apple.com'') (dns_rules sample_env ''203.0.113.7'')) =
     Some ''dns-direct''"
proof -
  have apart: "\<not> sample_dns (zero_dns_rule\<lparr>dr_Domain := [''203.0.113.7''], dr_Server := ''dns-direct''\<rparr>) h \<and>
      \<not> list_ex (\<lambda>s. name_ends s h) (localReverseZones @ [''.in-addr.arpa'', ''.ip6.arpa'']) \<and>
      \<not> list_ex (\<lambda>s. name_ends s h) cn_suffixes"
    if "h = ''developer.apple.com'' \<or> h = ''www.apple.com''" for h
    using that by (elim disjE) (simp only:, code_simp)+
  have names: "proxyDomainSuffixes (loadBuiltinRules sample_env @ loadCustomRules sample_env) = [''developer.apple.com'']"
      "proxyDomainKeywords (loadBuiltinRules sample_env @ loadCustomRules sample_env) = []"
      "directDomainSuffixes (loadBuiltinRules sample_env @ loadCustomRules sample_env) = [''apple.com'']"
    unfolding sample_rules_of by code_simp+
  have ends: "name_ends ''developer.apple.com'' ''developer.apple.com''" "name_ends ''apple.com'' ''www.apple.com''"
      "\<not> name_ends ''developer.apple.com'' ''www.apple.com''"
    by code_simp+
  show ?thesis
    using resolver_of_a_name [OF sample_dns_matcher [of "''developer.apple.com''"], of "''203.0.113.7''" sample_env]
      resolver_of_a_name [OF sample_dns_matcher [of "''www.apple.com''"], of "''203.0.113.7''" sample_env]
      apart names ends by (simp add: Let_def)
qed

end
