(* ===== verification/Server_Store.thy ===== *)
theory Server_Store
  imports Config_Laws "HOL-Library.Word"
begin

text \<open>
  cmd/server_store.go, the Server type of cmd/server.go with its ladder, and the use, address and
  status operations on the stored list. The file servers.json is a list of servers, or missing,
  unreadable or malformed; the system calls around it are parameters that report an error or none.
\<close>

section \<open>Servers\<close>

text \<open>cmd/nodecheck.go and cmd/network_tuning.go: what a verification recorded. A leg's report carries the
  verdict and the error text.\<close>

record legReport =
  lr_Verdict :: string
  lr_RTT :: go_duration
  lr_Err :: go_error
  lr_Detail :: string

record nodeTuningReport =
  nt_Status :: string
  nt_CheckedAt :: string
  nt_Interface :: string
  nt_Qdisc :: string
  nt_DefaultQdisc :: string
  nt_CongestionControl :: string
  nt_TCPFastOpen :: string
  nt_ServerTCPFastOpen :: bool
  nt_ApplyStatus :: string
  nt_Versions :: "string \<rightharpoonup> string"
  nt_Services :: "string \<rightharpoonup> string"
  nt_ActiveTCPCC :: "string list"
  nt_Errors :: "string list"

definition zero_tuning :: nodeTuningReport where
  "zero_tuning = \<lparr>nt_Status = [], nt_CheckedAt = [], nt_Interface = [], nt_Qdisc = [], nt_DefaultQdisc = [],
     nt_CongestionControl = [], nt_TCPFastOpen = [], nt_ServerTCPFastOpen = False, nt_ApplyStatus = [],
     nt_Versions = (\<lambda>_. None), nt_Services = (\<lambda>_. None), nt_ActiveTCPCC = [], nt_Errors = []\<rparr>"

text \<open>The argument is what the JSON decoder made of the node's answer.\<close>

definition decodeNodeTuning :: "nodeTuningReport option \<Rightarrow> nodeTuningReport" where
  "decodeNodeTuning decoded =
     (case decoded of
        None \<Rightarrow> zero_tuning\<lparr>nt_Status := ''unobserved''\<rparr>
      | Some r \<Rightarrow>
          if nt_Interface r = [] \<or> nt_Qdisc r = [] \<or> nt_DefaultQdisc r = [] \<or>
             (nt_Status r \<noteq> ''ready'' \<and> nt_Status r \<noteq> ''degraded'')
          then zero_tuning\<lparr>nt_Status := ''unobserved''\<rparr> else r)"

record nodeVerification =
  nv_Status :: string
  nv_Tuning :: "nodeTuningReport option"
  nv_CheckedAt :: string
  nv_HY2 :: legReport
  nv_Reality :: legReport

record Server =
  sv_DeployID :: string
  sv_Verification :: "nodeVerification option"
  sv_Name :: string
  sv_InstanceID :: string
  sv_Region :: string
  sv_IP :: string
  sv_IPv6 :: string
  sv_Port :: "16 word"
  sv_Password :: string
  sv_CreatedAt :: string
  sv_Active :: bool
  sv_Stopped :: bool
  sv_Obfs :: string
  sv_ObfsPassword :: string
  sv_UpMbps :: int
  sv_DownMbps :: int
  sv_RealityDownMbps :: int
  sv_TLSCertPEM :: string
  sv_SNI :: string
  sv_PeakUpMbps :: int
  sv_PeakDownMbps :: int
  sv_PeakStartHour :: int
  sv_PeakEndHour :: int
  sv_HopPorts :: string
  sv_HopSeconds :: int
  sv_Proto :: string
  sv_UUID :: string
  sv_RealityPubKey :: string
  sv_RealityShortID :: string
  sv_RealityDest :: string
  sv_RealityPort :: "16 word"
  sv_RealityMultiplex :: bool

definition zero_server :: Server where
  "zero_server = \<lparr>sv_DeployID = [], sv_Verification = None, sv_Name = [], sv_InstanceID = [], sv_Region = [],
     sv_IP = [], sv_IPv6 = [], sv_Port = 0, sv_Password = [], sv_CreatedAt = [], sv_Active = False,
     sv_Stopped = False, sv_Obfs = [], sv_ObfsPassword = [], sv_UpMbps = 0, sv_DownMbps = 0,
     sv_RealityDownMbps = 0, sv_TLSCertPEM = [], sv_SNI = [], sv_PeakUpMbps = 0, sv_PeakDownMbps = 0,
     sv_PeakStartHour = 0, sv_PeakEndHour = 0, sv_HopPorts = [], sv_HopSeconds = 0, sv_Proto = [],
     sv_UUID = [], sv_RealityPubKey = [], sv_RealityShortID = [], sv_RealityDest = [], sv_RealityPort = 0,
     sv_RealityMultiplex = False\<rparr>"

definition isReality :: "Server \<Rightarrow> bool" where
  "isReality s = (sv_Proto s = ''reality'')"

definition defaultUpMbps :: int where "defaultUpMbps = 5"
definition defaultDownMbps :: int where "defaultDownMbps = 20"
definition defaultPeakUpMbps :: int where "defaultPeakUpMbps = 2"
definition defaultPeakDownMbps :: int where "defaultPeakDownMbps = 5"
definition defaultPeakStartHour :: int where "defaultPeakStartHour = 12"
definition defaultPeakEndHour :: int where "defaultPeakEndHour = 2"

lemmas ceiling_defaults = DefaultUpMbps_def DefaultDownMbps_def defaultUpMbps_def defaultDownMbps_def defaultPeakUpMbps_def defaultPeakDownMbps_def
  defaultPeakStartHour_def defaultPeakEndHour_def

definition peakWindow :: "Server \<Rightarrow> int \<times> int" where
  "peakWindow s =
     (if sv_PeakStartHour s = sv_PeakEndHour s then (defaultPeakStartHour, defaultPeakEndHour)
      else (sv_PeakStartHour s, sv_PeakEndHour s))"

text \<open>The effective ceiling: up, down, peak up, peak down, start and end hour.\<close>

definition ladder :: "Server \<Rightarrow> int \<times> int \<times> int \<times> int \<times> int \<times> int" where
  "ladder s =
     (if isReality s then (0, 0, 0, 0, 0, 0)
      else if sv_UpMbps s < 0 \<or> sv_DownMbps s < 0 then (sv_UpMbps s, sv_DownMbps s, 0, 0, 0, 0)
      else
        let up = (if sv_UpMbps s = 0 then defaultUpMbps else sv_UpMbps s);
            down = (if sv_DownMbps s = 0 then defaultDownMbps else sv_DownMbps s);
            (peakUp, peakDown) =
              (if sv_PeakDownMbps s = 0 then (defaultPeakUpMbps, defaultPeakDownMbps)
               else (if sv_PeakUpMbps s = 0 then defaultPeakUpMbps else sv_PeakUpMbps s, sv_PeakDownMbps s));
            (start, end_hour) = peakWindow s
        in (up, down, peakUp, peakDown, start, end_hour))"

definition server_schedule :: "Server \<Rightarrow> BandwidthSchedule" where
  "server_schedule s =
     (case ladder s of (up, down, peakUp, peakDown, start, end_hour) \<Rightarrow>
        \<lparr>OffUp = up, OffDown = down, PeakUp = peakUp, PeakDown = peakDown,
         StartHour = start, EndHour = end_hour\<rparr>)"

definition HasAddress :: "Server \<Rightarrow> bool" where
  "HasAddress s = (sv_IP s \<noteq> [] \<or> sv_IPv6 s \<noteq> [])"

definition hasStandbyLeg :: "Server \<Rightarrow> bool" where
  "hasStandbyLeg s = (\<not> isReality s \<and> sv_UUID s \<noteq> [] \<and> sv_RealityPubKey s \<noteq> [])"

definition deployStatus :: "Server \<Rightarrow> string" where
  "deployStatus s =
     (if sv_Stopped s then ''stopped''
      else if \<not> HasAddress s then ''provisioning''
      else case sv_Verification s of None \<Rightarrow> ''unverified'' | Some v \<Rightarrow> nv_Status v)"

definition serverHost :: "Server \<Rightarrow> string" where
  "serverHost s = (if sv_IP s \<noteq> [] then sv_IP s else sv_IPv6 s)"

section \<open>The list\<close>

fun indexByName :: "Server list \<Rightarrow> string \<Rightarrow> nat option" where
  "indexByName [] name = None"
| "indexByName (s # ss) name = (if sv_Name s = name then Some 0 else map_option Suc (indexByName ss name))"

text \<open>How a server is named in a change: by instance when the caller knows it, otherwise by name.\<close>

definition names_server :: "string \<Rightarrow> string \<Rightarrow> Server \<Rightarrow> bool" where
  "names_server inst name s = ((inst \<noteq> [] \<and> sv_InstanceID s = inst) \<or> (inst = [] \<and> sv_Name s = name))"

definition append_server :: "Server \<Rightarrow> Server list \<Rightarrow> string + Server list" where
  "append_server srv servers =
     (if list_ex (\<lambda>s. sv_Name s = sv_Name srv \<or> (sv_InstanceID srv \<noteq> [] \<and> sv_InstanceID s = sv_InstanceID srv)) servers
      then Inl ''server name or instance already recorded''
      else Inr (servers @ [srv\<lparr>sv_Active := (servers = [])\<rparr>]))"

fun change_first :: "(Server \<Rightarrow> bool) \<Rightarrow> (Server \<Rightarrow> Server) \<Rightarrow> Server list \<Rightarrow> Server list option" where
  "change_first p f [] = None"
| "change_first p f (s # ss) = (if p s then Some (f s # ss) else map_option ((#) s) (change_first p f ss))"

definition change_server :: "string \<Rightarrow> string \<Rightarrow> (Server \<Rightarrow> Server) \<Rightarrow> Server list \<Rightarrow> string + Server list" where
  "change_server inst name change servers =
     (case change_first (names_server inst name) change servers of
        Some servers \<Rightarrow> Inr servers
      | None \<Rightarrow> Inl (''server '' @ name @ '' no longer exists locally; refusing to recreate it''))"

fun remove_first :: "(Server \<Rightarrow> bool) \<Rightarrow> Server list \<Rightarrow> (Server \<times> Server list) option" where
  "remove_first p [] = None"
| "remove_first p (s # ss) = (if p s then Some (s, ss) else map_option (\<lambda>(r, rest). (r, s # rest)) (remove_first p ss))"

definition remove_server :: "string \<Rightarrow> string \<Rightarrow> Server list \<Rightarrow> string + Server list" where
  "remove_server inst name servers =
     (case remove_first (names_server inst name) servers of
        None \<Rightarrow> Inr servers
      | Some (s, rest) \<Rightarrow>
          Inr (if sv_Active s then (case rest of [] \<Rightarrow> [] | r # rs \<Rightarrow> r\<lparr>sv_Active := True\<rparr> # rs) else rest))"

text \<open>The update of the use command.\<close>

definition use_server :: "string \<Rightarrow> Server list \<Rightarrow> string + Server list" where
  "use_server name current =
     (case indexByName current name of
        None \<Rightarrow> Inl ''server no longer exists''
      | Some selected \<Rightarrow> Inr (map (\<lambda>i. (current ! i)\<lparr>sv_Active := (i = selected)\<rparr>) [0..<length current]))"

record serverInstance =
  si_ID :: string
  si_Label :: string
  si_Region :: string
  si_MainIP :: string
  si_V6MainIP :: string

text \<open>The map by id keeps the last instance of an id.\<close>

definition by_id :: "serverInstance list \<Rightarrow> string \<Rightarrow> serverInstance option" where
  "by_id remote inst = find (\<lambda>r. si_ID r = inst) (rev remote)"

definition needs_address :: "serverInstance list \<Rightarrow> Server \<Rightarrow> serverInstance option" where
  "needs_address remote s =
     (if sv_InstanceID s = [] \<or> sv_IP s \<noteq> [] then None
      else case by_id remote (sv_InstanceID s) of
        None \<Rightarrow> None
      | Some r \<Rightarrow> if si_MainIP r = [] \<or> si_MainIP r = ''0.0.0.0'' then None else Some r)"

definition fill_address :: "serverInstance list \<Rightarrow> Server \<Rightarrow> Server" where
  "fill_address remote s =
     (case needs_address remote s of
        None \<Rightarrow> s
      | Some r \<Rightarrow> s\<lparr>sv_IP := si_MainIP r, sv_IPv6 := si_V6MainIP r\<rparr>)"

definition fillAddresses :: "Server list \<Rightarrow> serverInstance list \<Rightarrow> Server list \<times> nat" where
  "fillAddresses local remote =
     (map (fill_address remote) local, length (filter (\<lambda>s. needs_address remote s \<noteq> None) local))"

datatype active_error = ErrServerStopped string | ErrServerProvisioning string | NoServers | NoActive | StoreError string

definition active_of :: "Server list \<Rightarrow> active_error + Server" where
  "active_of servers =
     (case find sv_Active servers of
        Some s \<Rightarrow>
          if sv_Stopped s then Inl (ErrServerStopped (sv_Name s))
          else if \<not> HasAddress s then Inl (ErrServerProvisioning (sv_Name s))
          else Inr s
      | None \<Rightarrow> if servers = [] then Inl NoServers else Inl NoActive)"

definition server_ips :: "Server \<Rightarrow> string list" where
  "server_ips s = filter (\<lambda>ip. ip \<noteq> []) [sv_IP s, sv_IPv6 s]"

definition knownServerIPs :: "Server list \<Rightarrow> string list" where
  "knownServerIPs servers =
     concat (map server_ips (filter sv_Active servers)) @ concat (map server_ips (filter (\<lambda>s. \<not> sv_Active s) servers))"

section \<open>The file\<close>

datatype store_file = Missing | Unreadable string | Malformed string | Stored "Server list"

definition readServersAt :: "store_file \<Rightarrow> string + Server list" where
  "readServersAt f =
     (case f of
        Missing \<Rightarrow> Inr []
      | Unreadable e \<Rightarrow> Inl e
      | Malformed e \<Rightarrow> Inl (''invalid server store: '' @ e @ '' (preserve the file for recovery)'')
      | Stored servers \<Rightarrow> Inr servers)"

text \<open>
  Writing: a temporary file is created, written, synced and closed, then renamed over the store, and
  the directory is synced. Each stage reports an error or none. What was written before a failing
  stage is gone with the temporary file, except that nothing undoes the rename.
\<close>

record write_calls =
  wc_create :: go_error
  wc_write :: go_error
  wc_sync :: go_error
  wc_close :: go_error
  wc_rename :: go_error
  wc_opendir :: go_error
  wc_syncdir :: go_error

definition first_error :: "go_error \<Rightarrow> go_error \<Rightarrow> go_error" where
  "first_error e1 e2 = (if e1 = None then e2 else e1)"

definition writePrivateJSON :: "write_calls \<Rightarrow> 'a \<Rightarrow> 'a \<Rightarrow> go_error \<times> 'a" where
  "writePrivateJSON w old new =
     (if wc_create w \<noteq> None then (wc_create w, old)
      else
        let err = (if wc_write w = None then wc_sync w else wc_write w);
            err = first_error err (wc_close w)
        in if err \<noteq> None then (err, old)
           else if wc_rename w \<noteq> None then (wc_rename w, old)
           else if wc_opendir w \<noteq> None then (wc_opendir w, new)
           else (wc_syncdir w, new))"

text \<open>
  The lock is tried until it is free, another error comes back, or the five seconds are over. The
  list is what the successive tries find; waiting on an exhausted list is the deadline.
\<close>

datatype lock_try = LockFree | LockBusy | LockError string

fun take_lock :: "lock_try list \<Rightarrow> go_error" where
  "take_lock [] = Some ''server store lock: context deadline exceeded''"
| "take_lock (LockFree # ts) = None"
| "take_lock (LockBusy # ts) = take_lock ts"
| "take_lock (LockError e # ts) = Some e"

record store_env =
  se_open :: go_error
  se_lock :: "lock_try list"
  se_write :: write_calls

definition updateServersAt :: "store_env \<Rightarrow> (Server list \<Rightarrow> string + Server list) \<Rightarrow> store_file \<Rightarrow> go_error \<times> store_file" where
  "updateServersAt e fn stored =
     (if se_open e \<noteq> None then (se_open e, stored)
      else if take_lock (se_lock e) \<noteq> None then (take_lock (se_lock e), stored)
      else case readServersAt stored of
        Inl err \<Rightarrow> (Some err, stored)
      | Inr servers \<Rightarrow>
          (case fn servers of
             Inl err \<Rightarrow> (Some err, stored)
           | Inr servers \<Rightarrow> writePrivateJSON (se_write e) stored (Stored servers)))"

definition appendServer :: "store_env \<Rightarrow> Server \<Rightarrow> store_file \<Rightarrow> go_error \<times> store_file" where
  "appendServer e srv = updateServersAt e (append_server srv)"

definition changeServer :: "store_env \<Rightarrow> string \<Rightarrow> string \<Rightarrow> (Server \<Rightarrow> Server) \<Rightarrow> store_file \<Rightarrow> go_error \<times> store_file" where
  "changeServer e inst name change = updateServersAt e (change_server inst name change)"

definition removeRecordedServer :: "store_env \<Rightarrow> string \<Rightarrow> string \<Rightarrow> store_file \<Rightarrow> go_error \<times> store_file" where
  "removeRecordedServer e inst name = updateServersAt e (remove_server inst name)"

definition ActiveServer :: "store_file \<Rightarrow> active_error + Server" where
  "ActiveServer stored =
     (case readServersAt stored of Inl e \<Rightarrow> Inl (StoreError e) | Inr servers \<Rightarrow> active_of servers)"

definition runUse :: "store_env \<Rightarrow> string \<Rightarrow> store_file \<Rightarrow> go_error \<times> store_file" where
  "runUse e name stored =
     (case readServersAt stored of
        Inl err \<Rightarrow> (Some ''no servers'', stored)
      | Inr servers \<Rightarrow>
          if servers = [] then (Some ''no servers'', stored)
          else if indexByName servers name = None then (Some (''server '' @ name @ '' not found''), stored)
          else updateServersAt e (use_server name) stored)"

section \<open>Lemmas\<close>

text \<open>Unique names, unique instances, and one active server unless the list is empty.\<close>

definition instance_ids :: "Server list \<Rightarrow> string list" where
  "instance_ids ss = filter (\<lambda>i. i \<noteq> []) (map sv_InstanceID ss)"

definition one_active :: "Server list \<Rightarrow> bool" where
  "one_active ss = (ss = [] \<or> length (filter sv_Active ss) = 1)"

definition store_ok :: "Server list \<Rightarrow> bool" where
  "store_ok ss = (distinct (map sv_Name ss) \<and> distinct (instance_ids ss) \<and> one_active ss)"

lemma instance_ids_simps [simp]:
  "instance_ids [] = []"
  "instance_ids (s # ss) = (if sv_InstanceID s = [] then instance_ids ss else sv_InstanceID s # instance_ids ss)"
  "instance_ids (xs @ ys) = instance_ids xs @ instance_ids ys"
  by (simp_all add: instance_ids_def)

lemma set_instance_ids: "set (instance_ids ss) = sv_InstanceID ` set ss - {[]}"
  by (auto simp: instance_ids_def)

text \<open>A change that keeps name, instance and the active flag keeps all three properties.\<close>

definition keeps_identity :: "(Server \<Rightarrow> Server) \<Rightarrow> bool" where
  "keeps_identity f = (\<forall>s. sv_Name (f s) = sv_Name s \<and> sv_InstanceID (f s) = sv_InstanceID s \<and> sv_Active (f s) = sv_Active s)"

lemma same_identity_ok:
  assumes "map (\<lambda>s. (sv_Name s, sv_InstanceID s, sv_Active s)) ss' = map (\<lambda>s. (sv_Name s, sv_InstanceID s, sv_Active s)) ss"
  shows "store_ok ss' = store_ok ss"
proof -
  have "map sv_Name ss' = map sv_Name ss" "map sv_InstanceID ss' = map sv_InstanceID ss" "map sv_Active ss' = map sv_Active ss"
    using arg_cong [OF assms, of "map fst"] arg_cong [OF assms, of "map (fst \<circ> snd)"]
      arg_cong [OF assms, of "map (snd \<circ> snd)"] by (simp_all add: comp_def)
  moreover have "length (filter sv_Active xs) = length (filter id (map sv_Active xs))" for xs
    by (simp add: filter_map)
  ultimately show ?thesis
    unfolding store_ok_def one_active_def instance_ids_def by (metis map_is_Nil_conv)
qed

lemma change_first_identity:
  assumes "change_first p f ss = Some ss'" and "keeps_identity f"
  shows "map (\<lambda>s. (sv_Name s, sv_InstanceID s, sv_Active s)) ss' = map (\<lambda>s. (sv_Name s, sv_InstanceID s, sv_Active s)) ss"
  using assms by (induction ss arbitrary: ss') (auto simp: keeps_identity_def split: if_splits)

lemma fill_address_identity: "keeps_identity (fill_address remote)"
  by (auto simp: keeps_identity_def fill_address_def split: option.splits)

lemma remove_first_Some:
  "remove_first p ss = Some (s, rest) \<Longrightarrow> \<exists>xs ys. ss = xs @ s # ys \<and> rest = xs @ ys \<and> p s \<and> (\<forall>x \<in> set xs. \<not> p x)"
proof (induction ss arbitrary: rest)
  case (Cons a ss)
  show ?case
  proof (cases "p a")
    case True
    then have "a # ss = [] @ s # rest" "rest = [] @ rest" "p s" using Cons.prems by simp_all
    then show ?thesis by (metis empty_iff empty_set)
  next
    case False
    then obtain r where "remove_first p ss = Some (s, r)" "rest = a # r" using Cons.prems by auto
    then obtain xs ys where "ss = xs @ s # ys" "r = xs @ ys" "p s" "\<forall>x \<in> set xs. \<not> p x" using Cons.IH by blast
    with False \<open>rest = a # r\<close> have "a # ss = (a # xs) @ s # ys" "rest = (a # xs) @ ys" "p s" "\<forall>x \<in> set (a # xs). \<not> p x"
      by simp_all
    then show ?thesis by blast
  qed
qed simp

lemma remove_first_None: "remove_first p ss = None \<longleftrightarrow> (\<forall>s \<in> set ss. \<not> p s)"
  by (induction ss) auto

lemma append_ok:
  assumes "append_server srv ss = Inr ss'" and "store_ok ss"
  shows "store_ok ss'"
proof -
  have new: "\<forall>s \<in> set ss. sv_Name s \<noteq> sv_Name srv \<and> (sv_InstanceID srv \<noteq> [] \<longrightarrow> sv_InstanceID s \<noteq> sv_InstanceID srv)"
    and ss': "ss' = ss @ [srv\<lparr>sv_Active := (ss = [])\<rparr>]"
    using assms(1) by (auto simp: append_server_def list_ex_iff split: if_splits)
  then show ?thesis
    using assms(2) by (auto simp: store_ok_def one_active_def set_instance_ids)
qed

lemma remove_ok:
  assumes "remove_server inst name ss = Inr ss'" and "store_ok ss"
  shows "store_ok ss'"
proof (cases "remove_first (names_server inst name) ss")
  case None
  with assms show ?thesis by (simp add: remove_server_def)
next
  case (Some r)
  obtain s rest where r: "r = (s, rest)" by force
  obtain xs ys where ss: "ss = xs @ s # ys" "rest = xs @ ys"
    using remove_first_Some [OF Some [unfolded r]] by blast
  have ids: "distinct (map sv_Name rest)" "distinct (instance_ids rest)"
    using assms(2) by (auto simp: ss store_ok_def split: if_splits)
  have active: "length (filter sv_Active rest) = (if sv_Active s then 0 else 1)"
    using assms(2) by (auto simp: ss store_ok_def one_active_def split: if_splits)
  have ss': "ss' = (if sv_Active s then (case rest of [] \<Rightarrow> [] | r # rs \<Rightarrow> r\<lparr>sv_Active := True\<rparr> # rs) else rest)"
    using assms(1) by (simp add: remove_server_def Some r)
  show ?thesis
  proof (cases "sv_Active s")
    case True
    with active have "filter sv_Active rest = []" by simp
    with True ids show ?thesis
      by (cases rest) (auto simp: ss' store_ok_def one_active_def split: if_splits)
  next
    case False
    with ids active show ?thesis by (simp add: ss' store_ok_def one_active_def)
  qed
qed

lemma indexByName_Some: "indexByName ss name = Some i \<Longrightarrow> i < length ss \<and> sv_Name (ss ! i) = name"
proof (induction ss arbitrary: i)
  case (Cons s ss)
  then show ?case by (cases "sv_Name s = name") auto
qed simp

lemma use_ok:
  assumes "use_server name ss = Inr ss'" and "store_ok ss"
  shows "store_ok ss'" and "\<exists>s \<in> set ss'. sv_Name s = name \<and> sv_Active s"
proof -
  obtain i where i: "indexByName ss name = Some i"
    and ss': "ss' = map (\<lambda>j. (ss ! j)\<lparr>sv_Active := (j = i)\<rparr>) [0..<length ss]"
    using assms(1) by (auto simp: use_server_def split: option.splits)
  have bound: "i < length ss" "sv_Name (ss ! i) = name" using indexByName_Some [OF i] by simp_all
  have names: "map sv_Name ss' = map sv_Name ss" "map sv_InstanceID ss' = map sv_InstanceID ss"
    by (rule nth_equalityI; simp add: ss')+
  have "filter sv_Active ss' = map (\<lambda>j. (ss ! j)\<lparr>sv_Active := (j = i)\<rparr>) (filter (\<lambda>j. j = i) [0..<length ss])"
    by (simp add: ss' filter_map comp_def)
  also have "filter (\<lambda>j. j = i) [0..<length ss] = [i]"
    using bound(1) by (induction ss rule: rev_induct) (auto simp: nth_append)
  finally show "store_ok ss'"
    using names assms(2) by (simp add: store_ok_def one_active_def instance_ids_def)
  have "ss' ! i = (ss ! i)\<lparr>sv_Active := True\<rparr>" "i < length ss'" using bound by (simp_all add: ss')
  then show "\<exists>s \<in> set ss'. sv_Name s = name \<and> sv_Active s"
    using bound(2) by (metis nth_mem Server.select_convs(11) Server.surjective Server.update_convs(11) Server.select_convs(3))
qed

section \<open>Properties\<close>

text \<open>One committed change of the stored list: adding, removing, selecting, changing or filling in.\<close>

inductive store_step :: "Server list \<Rightarrow> Server list \<Rightarrow> bool" where
  Append: "append_server srv ss = Inr ss' \<Longrightarrow> store_step ss ss'"
| Remove: "remove_server inst name ss = Inr ss' \<Longrightarrow> store_step ss ss'"
| Use: "use_server name ss = Inr ss' \<Longrightarrow> store_step ss ss'"
| Change: "change_server inst name f ss = Inr ss' \<Longrightarrow> keeps_identity f \<Longrightarrow> store_step ss ss'"
| Fill: "fillAddresses ss remote = (ss', n) \<Longrightarrow> store_step ss ss'"

text \<open>C26: whatever servers are deployed, imported, adopted, selected, halted, verified, renumbered and
  destroyed, in any order: names are unique, no instance is recorded twice, and exactly one
  server is active as long as one is recorded.\<close>
theorem store_stays_consistent:
  assumes "store_step\<^sup>*\<^sup>* [] ss"
  shows "store_ok ss"
  using assms
proof (induction rule: rtranclp_induct)
  case base
  show ?case by (simp add: store_ok_def one_active_def)
next
  case (step ss ss')
  from step.hyps(2) step.IH show ?case
  proof (cases rule: store_step.cases)
    case (Append srv)
    then show ?thesis using append_ok step.IH by blast
  next
    case (Remove inst name)
    then show ?thesis using remove_ok step.IH by blast
  next
    case (Use name)
    then show ?thesis using use_ok step.IH by blast
  next
    case (Change inst name f)
    then show ?thesis
      using same_identity_ok [OF change_first_identity] step.IH by (auto simp: change_server_def split: option.splits)
  next
    case (Fill remote n)
    then have "ss' = map (fill_address remote) ss" by (simp add: fillAddresses_def)
    then show ?thesis
      using same_identity_ok [of ss' ss] fill_address_identity step.IH by (simp add: keeps_identity_def comp_def)
  qed
qed

definition two_servers :: "Server list" where
  "two_servers =
     [zero_server\<lparr>sv_Name := ''a'', sv_InstanceID := ''i1'', sv_Active := True\<rparr>,
      zero_server\<lparr>sv_Name := ''b'', sv_InstanceID := ''i2'', sv_Active := False\<rparr>]"

theorem store_stays_consistent_witness:
  "store_ok two_servers \<and>
   (case remove_server ''i1'' ''a'' two_servers of Inr ss \<Rightarrow> store_ok ss \<and> map sv_Active ss = [True] | Inl _ \<Rightarrow> False)"
proof -
  let ?a = "zero_server\<lparr>sv_Name := ''a'', sv_InstanceID := ''i1''\<rparr>"
  let ?b = "zero_server\<lparr>sv_Name := ''b'', sv_InstanceID := ''i2''\<rparr>"
  have "append_server ?a [] = Inr [?a\<lparr>sv_Active := True\<rparr>]" by (simp add: append_server_def)
  moreover have "append_server ?b [?a\<lparr>sv_Active := True\<rparr>] = Inr two_servers"
    by (simp add: append_server_def two_servers_def zero_server_def)
  ultimately have two: "store_step\<^sup>*\<^sup>* [] two_servers"
    by (meson store_step.Append rtranclp.rtrancl_refl rtranclp.rtrancl_into_rtrancl)
  have gone: "remove_server ''i1'' ''a'' two_servers = Inr [?b\<lparr>sv_Active := True\<rparr>]"
    by (simp add: remove_server_def names_server_def two_servers_def zero_server_def)
  then have "store_step\<^sup>*\<^sup>* [] [?b\<lparr>sv_Active := True\<rparr>]"
    using two by (meson store_step.Remove rtranclp.rtrancl_into_rtrancl)
  then show ?thesis
    using store_stays_consistent [OF two] store_stays_consistent [of "[?b\<lparr>sv_Active := True\<rparr>]"] gone by simp
qed

lemma writePrivateJSON_cases:
  "snd (writePrivateJSON w old new) = old \<or> snd (writePrivateJSON w old new) = new"
  "fst (writePrivateJSON w old new) = None \<Longrightarrow> snd (writePrivateJSON w old new) = new"
  "wc_rename w \<noteq> None \<Longrightarrow> fst (writePrivateJSON w old new) \<noteq> None \<and> snd (writePrivateJSON w old new) = old"
  by (cases "wc_create w"; cases "wc_write w"; cases "wc_sync w"; cases "wc_close w"; cases "wc_rename w";
      simp add: writePrivateJSON_def first_error_def Let_def)+

text \<open>An update of the store is all or nothing. The file afterwards is the one before or holds exactly
  the changed list; success means it holds it. A file that cannot be read or decoded, a refused
  change, a held lock and a failing write leave it untouched with an error, so that a damaged
  store is never overwritten.\<close>
theorem store_update_all_or_nothing:
  assumes "updateServersAt e fn stored = (err, stored')"
  shows "(stored' = stored \<or> (\<exists>servers servers'. readServersAt stored = Inr servers \<and> fn servers = Inr servers' \<and>
      stored' = Stored servers')) \<and>
    (err = None \<longrightarrow> (\<exists>servers servers'. readServersAt stored = Inr servers \<and> fn servers = Inr servers' \<and>
      stored' = Stored servers')) \<and>
    (\<forall>msg. stored \<in> {Unreadable msg, Malformed msg} \<longrightarrow> err \<noteq> None \<and> stored' = stored) \<and>
    (LockFree \<notin> set (se_lock e) \<or> wc_rename (se_write e) \<noteq> None \<longrightarrow> err \<noteq> None \<and> stored' = stored)"
proof -
  have lock: "LockFree \<notin> set ts \<Longrightarrow> take_lock ts \<noteq> None" for ts
    by (induction ts rule: take_lock.induct) auto
  show ?thesis
  proof (cases "se_open e \<noteq> None \<or> take_lock (se_lock e) \<noteq> None")
    case True
    then have "err \<noteq> None \<and> stored' = stored" using assms
      by (cases "se_open e"; simp add: updateServersAt_def split: if_splits)
    then show ?thesis by blast
  next
    case False
    then have free: "LockFree \<in> set (se_lock e)" using lock by blast
    have open_lock: "se_open e = None" "take_lock (se_lock e) = None" using False by simp_all
    show ?thesis
    proof (cases "readServersAt stored")
      case (Inl m)
      then show ?thesis using assms open_lock by (auto simp: updateServersAt_def)
    next
      case (Inr servers)
      then have shape: "stored \<noteq> Unreadable msg" "stored \<noteq> Malformed msg" for msg by (auto simp: readServersAt_def)
      show ?thesis
      proof (cases "fn servers")
        case (Inl m)
        then show ?thesis using assms open_lock Inr shape by (auto simp: updateServersAt_def)
      next
        case new: (Inr servers')
        then have "writePrivateJSON (se_write e) stored (Stored servers') = (err, stored')"
          using assms open_lock Inr by (simp add: updateServersAt_def)
        then show ?thesis
          using writePrivateJSON_cases [of "se_write e" stored "Stored servers'"] Inr new free shape by auto
      qed
    qed
  qed
qed

definition good_calls :: write_calls where
  "good_calls = \<lparr>wc_create = None, wc_write = None, wc_sync = None, wc_close = None, wc_rename = None,
     wc_opendir = None, wc_syncdir = None\<rparr>"

theorem store_update_all_or_nothing_witness:
  "(let e = \<lparr>se_open = None, se_lock = [LockBusy, LockFree], se_write = good_calls\<rparr> in
    fst (appendServer e zero_server Missing) = None \<and>
    snd (appendServer e zero_server (Malformed ''x'')) = Malformed ''x'' \<and>
    (\<exists>servers. snd (appendServer e zero_server Missing) = Stored servers))"
proof -
  let ?e = "\<lparr>se_open = None, se_lock = [LockBusy, LockFree], se_write = good_calls\<rparr>"
  have ok: "updateServersAt ?e (append_server zero_server) Missing = (None, snd (appendServer ?e zero_server Missing))"
    by (simp add: appendServer_def updateServersAt_def readServersAt_def append_server_def writePrivateJSON_def
        good_calls_def first_error_def)
  have bad: "updateServersAt ?e (append_server zero_server) (Malformed ''x'') =
      (fst (appendServer ?e zero_server (Malformed ''x'')), snd (appendServer ?e zero_server (Malformed ''x'')))"
    by (simp add: appendServer_def)
  have "\<exists>servers. snd (appendServer ?e zero_server Missing) = Stored servers"
    using store_update_all_or_nothing [OF ok] by blast
  moreover have "snd (appendServer ?e zero_server (Malformed ''x'')) = Malformed ''x''"
    using store_update_all_or_nothing [OF bad] by blast
  moreover have "fst (appendServer ?e zero_server Missing) = None"
    using arg_cong [OF ok, of fst] by (simp add: appendServer_def)
  ultimately show ?thesis by (simp only: Let_def)
qed

end
