(* ===== verification/Server_Links.thy ===== *)
theory Server_Links
  imports Server_Store
begin

text \<open>
  The links of cmd/server.go and cmd/link.go: printing a server as a share link and reading one back.
  Query escaping (net/url) and raw URL base64 are parameters, as is the URL parser; a parsed link has
  a fragment beside the parts that config/parser.go reads.
\<close>

section \<open>Printing\<close>

record link_coder =
  lc_escape :: "string \<Rightarrow> string"
  lc_base64 :: "string \<Rightarrow> string"

definition linkHost :: "Server \<Rightarrow> string" where
  "linkHost s =
     (let host = serverHost s in
      if CHR '':'' \<in> set host \<and> (host = [] \<or> hd host \<noteq> CHR ''['') then ''['' @ host @ '']'' else host)"

text \<open>A query value is escaped, or printed as it is (numbers and base64).\<close>

datatype query_value = Escaped string | Plain string

fun value_text :: "link_coder \<Rightarrow> query_value \<Rightarrow> string" where
  "value_text c (Escaped v) = lc_escape c v"
| "value_text c (Plain v) = v"

fun value_of :: "query_value \<Rightarrow> string" where
  "value_of (Escaped v) = v"
| "value_of (Plain v) = v"

type_synonym query = "(string \<times> query_value) list"

fun query_text :: "link_coder \<Rightarrow> query \<Rightarrow> string" where
  "query_text c [] = []"
| "query_text c [(k, v)] = k @ ''='' @ value_text c v"
| "query_text c ((k, v) # kv # kvs) = k @ ''='' @ value_text c v @ ''&'' @ query_text c (kv # kvs)"

definition link_line :: "link_coder \<Rightarrow> string \<Rightarrow> string \<Rightarrow> string \<Rightarrow> 16 word \<Rightarrow> query \<Rightarrow> string \<Rightarrow> string" where
  "link_line c scheme user host port q name =
     scheme @ ''://'' @ user @ ''@'' @ host @ '':'' @ itoa (uint port) @ ''?'' @ query_text c q @ ''#'' @ name"

definition reality_port :: "Server \<Rightarrow> 16 word" where
  "reality_port s = (if sv_RealityPort s = 0 then sv_Port s else sv_RealityPort s)"

definition reality_dest :: "Server \<Rightarrow> string" where
  "reality_dest s = (if sv_RealityDest s = [] then defaultRealityDest else sv_RealityDest s)"

text \<open>url.Values prints its keys in alphabetical order.\<close>

definition reality_query :: "Server \<Rightarrow> query" where
  "reality_query s =
     [(''encryption'', Escaped ''none''), (''flow'', Escaped ''xtls-rprx-vision''), (''fp'', Escaped ''chrome'')] @
     (if sv_RealityMultiplex s then [(''mux'', Escaped ''smux'')] else []) @
     [(''pbk'', Escaped (sv_RealityPubKey s)), (''security'', Escaped ''reality'')] @
     (if sv_RealityShortID s \<noteq> [] then [(''sid'', Escaped (sv_RealityShortID s))] else []) @
     [(''sni'', Escaped (reality_dest s)), (''type'', Escaped ''tcp'')]"

definition realityURI :: "link_coder \<Rightarrow> Server \<Rightarrow> string \<Rightarrow> string" where
  "realityURI c s host = link_line c ''vless'' (sv_UUID s) host (reality_port s) (reality_query s) (sv_Name s)"

definition link_sni :: "Server \<Rightarrow> string" where
  "link_sni s = (if sv_SNI s = [] then ''bing.com'' else sv_SNI s)"

definition identity_query :: "link_coder \<Rightarrow> Server \<Rightarrow> query" where
  "identity_query c s =
     (if sv_TLSCertPEM s \<noteq> []
      then [(''sni'', Escaped (link_sni s)), (''pinnedcert'', Plain (lc_base64 c (sv_TLSCertPEM s)))]
      else [(''insecure'', Plain ''1''), (''sni'', Escaped (link_sni s))])"

definition obfs_query :: "Server \<Rightarrow> query" where
  "obfs_query s =
     (if sv_Obfs s = [] then []
      else (''obfs'', Escaped (sv_Obfs s)) #
        (if sv_ObfsPassword s = [] then [] else [(''obfs-password'', Escaped (sv_ObfsPassword s))]))"

definition ladder_query :: "Server \<Rightarrow> query" where
  "ladder_query s =
     (case ladder s of (up, down, peakUp, peakDown, start, end_hour) \<Rightarrow>
        [(''upmbps'', Plain (itoa up)), (''downmbps'', Plain (itoa down))] @
        (if peakDown > 0
         then [(''peakdownmbps'', Plain (itoa peakDown)), (''peakupmbps'', Plain (itoa peakUp)),
               (''peakstart'', Plain (itoa start)), (''peakend'', Plain (itoa end_hour))] else []))"

definition hop_query :: "Server \<Rightarrow> query" where
  "hop_query s =
     (if sv_HopPorts s = [] then []
      else (''ports'', Escaped (sv_HopPorts s)) #
        (if sv_HopSeconds s > 0 then [(''hop'', Plain (itoa (sv_HopSeconds s)))] else []))"

definition hy2_query :: "link_coder \<Rightarrow> Server \<Rightarrow> query" where
  "hy2_query c s = identity_query c s @ obfs_query s @ ladder_query s @ hop_query s"

definition URI :: "link_coder \<Rightarrow> Server \<Rightarrow> string" where
  "URI c s =
     (if isReality s then realityURI c s (linkHost s)
      else link_line c ''hy2'' (sv_Password s) (linkHost s) (sv_Port s) (hy2_query c s) (sv_Name s))"

definition StandbyURI :: "link_coder \<Rightarrow> Server \<Rightarrow> string" where
  "StandbyURI c s = (if \<not> hasStandbyLeg s then [] else realityURI c s (linkHost s))"

definition realityAddr :: "Server \<Rightarrow> string" where
  "realityAddr s =
     (if (\<not> hasStandbyLeg s \<and> \<not> isReality s) \<or> serverHost s = [] then []
      else linkHost s @ '':'' @ itoa (uint (reality_port s)))"

definition portable_query :: "Server \<Rightarrow> query" where
  "portable_query s =
     [(''insecure'', Escaped ''1'')] @ obfs_query s @ (if sv_SNI s \<noteq> [] then [(''sni'', Escaped (sv_SNI s))] else [])"

definition portableHy2Link :: "link_coder \<Rightarrow> Server \<Rightarrow> string" where
  "portableHy2Link c s =
     link_line c ''hysteria2'' (sv_Password s) (linkHost s) (sv_Port s) (portable_query s) (sv_Name s)"

definition portableLink :: "link_coder \<Rightarrow> Server \<Rightarrow> string + string \<times> string" where
  "portableLink c s =
     (if hasStandbyLeg s then Inr (StandbyURI c s, ''the TCP leg beside hysteria2'')
      else if isReality s then Inr (URI c s, ''this node's only leg'')
      else Inl (''server '' @ sv_Name s @ '' has no REALITY leg''))"

text \<open>The named server or the active one, halted or not, if it has an address.\<close>

definition linkTarget :: "string list \<Rightarrow> store_file \<Rightarrow> string + Server" where
  "linkTarget args stored =
     (case readServersAt stored of
        Inl err \<Rightarrow> Inl (''read local servers: '' @ err)
      | Inr servers \<Rightarrow>
          let with_address = (\<lambda>s. if \<not> HasAddress s then Inl (''server '' @ sv_Name s @ '' has no address yet'') else Inr s) in
          if servers = [] then Inl ''no servers deployed''
          else case args of
            [name] \<Rightarrow> (case indexByName servers name of
                None \<Rightarrow> Inl (''server '' @ name @ '' not found'') | Some i \<Rightarrow> with_address (servers ! i))
          | _ \<Rightarrow> (case find sv_Active servers of
                None \<Rightarrow> Inl ''no active server'' | Some s \<Rightarrow> with_address s))"

section \<open>Reading\<close>

record full_url = go_url +
  u_Fragment :: string

type_synonym link_parser = "string \<Rightarrow> string + full_url"

text \<open>Whether net.ParseIP reads an address that is not IPv4.\<close>

type_synonym ip_test = "string \<Rightarrow> bool"

definition with_host :: "ip_test \<Rightarrow> string \<Rightarrow> Server \<Rightarrow> Server" where
  "with_host six host s = (if six host then s\<lparr>sv_IPv6 := host\<rparr> else s\<lparr>sv_IP := host\<rparr>)"

definition realityServerFromURI :: "ip_test \<Rightarrow> full_url \<Rightarrow> string + Server" where
  "realityServerFromURI six u =
     (let q = u_Query u in
      if q ''mux'' \<noteq> [] \<and> q ''mux'' \<noteq> ''smux''
      then Inl (''unsupported VLESS multiplex protocol '' @ q ''mux'' @ '' (want smux)'')
      else if q ''security'' \<noteq> ''reality''
      then Inl (''vless link is not REALITY (security='' @ q ''security'' @ '')'')
      else if u_Username u = [] then Inl ''URI missing uuid''
      else if u_Hostname u = [] then Inl ''URI missing host''
      else if q ''pbk'' = [] then Inl ''URI missing ?pbk= (the server's REALITY public key)''
      else Inr (with_host six (u_Hostname u)
        (zero_server\<lparr>sv_Proto := ''reality'', sv_UUID := u_Username u, sv_Port := word_of_int (url_port (go_url.truncate u)),
           sv_RealityPubKey := q ''pbk'', sv_RealityShortID := q ''sid'',
           sv_RealityDest := (if q ''sni'' = [] then defaultRealityDest else q ''sni''),
           sv_RealityMultiplex := (q ''mux'' = ''smux''), sv_Name := u_Fragment u\<rparr>)))"

definition link_cert :: "b64_decoder \<Rightarrow> string \<Rightarrow> string" where
  "link_cert dec v =
     (if v = [] then []
      else case dec RawURLEncoding v of Some b \<Rightarrow> b
        | None \<Rightarrow> (case dec StdEncoding v of Some b \<Rightarrow> b | None \<Rightarrow> []))"

definition serverFromURI :: "link_parser \<Rightarrow> b64_decoder \<Rightarrow> ip_test \<Rightarrow> string \<Rightarrow> string + Server" where
  "serverFromURI parse dec six raw =
     (case parse raw of
        Inl e \<Rightarrow> Inl (''invalid URI: '' @ e)
      | Inr u \<Rightarrow>
          if u_Scheme u = ''vless'' then realityServerFromURI six u
          else if u_Scheme u \<noteq> ''hy2'' \<and> u_Scheme u \<noteq> ''hysteria2''
          then Inl (''unsupported scheme '' @ u_Scheme u)
          else if u_Username u = [] then Inl ''URI missing password''
          else if u_Hostname u = [] then Inl ''URI missing host''
          else
            let q = u_Query u in
            Inr (with_host six (u_Hostname u)
              (zero_server\<lparr>sv_Password := u_Username u, sv_Port := word_of_int (url_port (go_url.truncate u)),
                 sv_Obfs := q ''obfs'', sv_ObfsPassword := (if q ''obfs'' = [] then [] else q ''obfs-password''),
                 sv_SNI := q ''sni'', sv_TLSCertPEM := link_cert dec (q ''pinnedcert''),
                 sv_UpMbps := atoi_value (q ''upmbps''), sv_DownMbps := atoi_value (q ''downmbps''),
                 sv_PeakDownMbps := atoi_value (q ''peakdownmbps''), sv_PeakUpMbps := atoi_value (q ''peakupmbps''),
                 sv_PeakStartHour := atoi_value (q ''peakstart''), sv_PeakEndHour := atoi_value (q ''peakend''),
                 sv_Name := u_Fragment u\<rparr>)))"

section \<open>Importing\<close>

text \<open>
  The list is read once before the checks, an unreadable one counting as empty, and once more under
  the lock by appendServer.
\<close>

definition runImport ::
  "store_env \<Rightarrow> link_parser \<Rightarrow> b64_decoder \<Rightarrow> ip_test \<Rightarrow> string \<Rightarrow> string \<Rightarrow> string \<Rightarrow> store_file \<Rightarrow> go_error \<times> store_file" where
  "runImport e parse dec six name now raw stored =
     (case serverFromURI parse dec six raw of
        Inl err \<Rightarrow> (Some err, stored)
      | Inr srv \<Rightarrow>
          let srv = (if name \<noteq> [] then srv\<lparr>sv_Name := name\<rparr> else srv);
              srv = (if sv_Name srv = []
                     then srv\<lparr>sv_Name := (if serverHost srv = [] then ''imported'' else serverHost srv)\<rparr> else srv);
              servers = (case readServersAt stored of Inl _ \<Rightarrow> [] | Inr servers \<Rightarrow> servers)
          in if indexByName servers (sv_Name srv) \<noteq> None
             then (Some (''local server '' @ sv_Name srv @ '' already exists; pass --name to use a different one''), stored)
             else case find (\<lambda>s. serverHost s = serverHost srv \<and> sv_Port s = sv_Port srv) servers of
               Some s \<Rightarrow> (Some (''a server at '' @ serverHost srv @ '' already exists as '' @ sv_Name s), stored)
             | None \<Rightarrow>
                 appendServer e (srv\<lparr>sv_Active := (if servers = [] then True else sv_Active srv), sv_CreatedAt := now\<rparr>) stored)"

section \<open>Lemmas\<close>

text \<open>
  What net/url documents of the links printed here: the parser finds the scheme, the user, the host
  without the brackets of a literal address, the port, the query with its values unescaped and the
  fragment.
\<close>

definition parsed_line :: "string \<Rightarrow> string \<Rightarrow> string \<Rightarrow> 16 word \<Rightarrow> query \<Rightarrow> string \<Rightarrow> full_url" where
  "parsed_line scheme user host port q name =
     \<lparr>u_Scheme = scheme, u_Username = user, u_Hostname = host, u_Port = itoa (uint port),
      u_Query = link_query (map (\<lambda>(k, v). (k, value_of v)) q), u_Fragment = name\<rparr>"

text \<open>The line of a hysteria2 server, read back.\<close>

definition hy2_line :: "link_coder \<Rightarrow> Server \<Rightarrow> full_url" where
  "hy2_line c s = parsed_line ''hy2'' (sv_Password s) (serverHost s) (sv_Port s) (hy2_query c s) (sv_Name s)"

definition int64 :: "int \<Rightarrow> bool" where
  "int64 i = (- (2 ^ 63) \<le> i \<and> i < 2 ^ 63)"

definition printable :: "Server \<Rightarrow> bool" where
  "printable s =
     (\<not> isReality s \<and> sv_Password s \<noteq> [] \<and> serverHost s \<noteq> [] \<and> sv_Port s \<noteq> 0 \<and>
      list_all int64 [sv_UpMbps s, sv_DownMbps s, sv_PeakUpMbps s, sv_PeakDownMbps s, sv_PeakStartHour s, sv_PeakEndHour s])"

lemma port_back: "p \<noteq> 0 \<Longrightarrow> word_of_int (url_port \<lparr>u_Scheme = a, u_Username = b, u_Hostname = h, u_Port = itoa (uint p), u_Query = q\<rparr>) = (p :: 16 word)"
proof -
  assume "p \<noteq> 0"
  have "uint p < 2 ^ 16" using uint_lt2p [of p] by simp
  then have "atoi_value (itoa (uint p)) = uint p"
    by (intro atoi_value_itoa) (rule order_trans [of _ 0], simp_all)
  moreover have "uint p \<noteq> 0" using \<open>p \<noteq> 0\<close> by (simp add: unsigned_eq_0_iff)
  ultimately show ?thesis by (simp add: url_port_def)
qed

lemma ladder_int64:
  assumes "printable s" and "ladder s = (up, down, peakUp, peakDown, start, end_hour)"
  shows "list_all int64 [up, down, peakUp, peakDown, start, end_hour]"
  using assms by (auto simp: printable_def ladder_def peakWindow_def ceiling_defaults int64_def split: if_splits)

lemma int64_back: "int64 i \<Longrightarrow> atoi_value (itoa i) = i"
  by (simp add: int64_def atoi_value_itoa)

lemma hy2_lookup:
  assumes "ladder s = (up, down, peakUp, peakDown, start, end_hour)"
  shows "u_Query (hy2_line c s) ''sni'' = link_sni s"
    and "u_Query (hy2_line c s) ''pinnedcert'' = (if sv_TLSCertPEM s \<noteq> [] then lc_base64 c (sv_TLSCertPEM s) else [])"
    and "u_Query (hy2_line c s) ''obfs'' = sv_Obfs s"
    and "sv_Obfs s \<noteq> [] \<Longrightarrow> u_Query (hy2_line c s) ''obfs-password'' = sv_ObfsPassword s"
    and "u_Query (hy2_line c s) ''upmbps'' = itoa up"
    and "u_Query (hy2_line c s) ''downmbps'' = itoa down"
    and "u_Query (hy2_line c s) ''peakdownmbps'' = (if peakDown > 0 then itoa peakDown else [])"
    and "u_Query (hy2_line c s) ''peakupmbps'' = (if peakDown > 0 then itoa peakUp else [])"
    and "u_Query (hy2_line c s) ''peakstart'' = (if peakDown > 0 then itoa start else [])"
    and "u_Query (hy2_line c s) ''peakend'' = (if peakDown > 0 then itoa end_hour else [])"
  using assms
  by (simp_all add: hy2_line_def parsed_line_def hy2_query_def identity_query_def obfs_query_def ladder_query_def
      hop_query_def link_query_def)


definition sample_node :: Server where
  "sample_node = zero_server\<lparr>sv_Name := ''n'', sv_IP := ''203.0.113.7'', sv_Port := 443, sv_Password := ''pw'',
     sv_TLSCertPEM := ''PEM'', sv_SNI := ''h.example'', sv_UpMbps := 5, sv_DownMbps := 60, sv_PeakDownMbps := 20\<rparr>"

definition sample_coder :: link_coder where
  "sample_coder = \<lparr>lc_escape = (\<lambda>v. v), lc_base64 = (\<lambda>v. ''UEVN'')\<rparr>"


section \<open>The configuration and the supervisor\<close>

lemma Rungs_off: "OffDown s \<le> 0 \<Longrightarrow> Rungs s = []"
  by (simp add: Rungs_def)

lemma Rungs_cong:
  assumes "OffDown s = OffDown t" and "PeakDown s = PeakDown t \<or> (PeakDown s \<le> 0 \<and> PeakDown t \<le> 0)"
  shows "Rungs s = Rungs t"
proof (cases "PeakDown s = PeakDown t")
  case True
  with assms(1) show ?thesis by (simp add: Rungs_def)
next
  case False
  with assms show ?thesis by (auto simp: Rungs_def rung_add_def Let_def)
qed

lemma parse_hy2_rates:
  assumes "parse t = Inr u" and "u_Scheme u = ''hy2''"
  obtains ob where "parseServerURL parse dec t = Inr ob" and "ob_UpMbps ob = fst (hy2_rates (u_Query u))"
    and "ob_DownMbps ob = snd (hy2_rates (u_Query u))"
  by (cases "hy2_rates (u_Query u)"; cases "hy2_hops (u_Query u)")
    (use assms that in \<open>simp add: parseServerURL_def parseHysteria2_def zero_outbound_def Let_def\<close>)

text \<open>C31: the configuration and the supervisor ladder over the same ceilings. The link of a hysteria2 server
  parses to an outbound whose ladder has exactly the rungs of the schedule the supervisor is
  given, whatever is unset, unless only the upload rate carries the sentinel that switches Brutal
  off: then the configuration has no ladder at all while the supervisor schedules over one.\<close>
theorem config_and_supervisor_agree:
  assumes "printable s" and "parse (URI c s) = Inr (go_url.truncate (hy2_line c s))"
  shows "\<exists>ob. parseServerURL parse dec (URI c s) = Inr ob \<and>
    (Rungs (build_schedule (u_Query (hy2_line c s)) ob) = Rungs (server_schedule s) \<longleftrightarrow>
      \<not> (sv_UpMbps s < 0 \<and> 0 < sv_DownMbps s)) \<and>
    (0 \<le> sv_UpMbps s \<and> 0 \<le> sv_DownMbps s \<and> 0 \<le> sv_PeakDownMbps s \<longrightarrow>
      build_schedule (u_Query (hy2_line c s)) ob = server_schedule s)"
proof -
  obtain up down peakUp peakDown start end_hour where lad: "ladder s = (up, down, peakUp, peakDown, start, end_hour)"
    by (cases "ladder s") auto
  note look = hy2_lookup [OF lad, of c]
  have nums: "atoi_value (itoa up) = up" "atoi_value (itoa down) = down" "atoi_value (itoa peakUp) = peakUp"
      "atoi_value (itoa peakDown) = peakDown" "atoi_value (itoa start) = start" "atoi_value (itoa end_hour) = end_hour"
    using ladder_int64 [OF assms(1) lad] by (simp_all add: int64_back)
  have zero: "atoi_value [] = 0" by (simp add: atoi_value_def)
  let ?q = "u_Query (hy2_line c s)"
  have q: "u_Query (go_url.truncate (hy2_line c s)) = ?q" "u_Scheme (go_url.truncate (hy2_line c s)) = ''hy2''"
    by (simp_all add: hy2_line_def parsed_line_def go_url.defs)
  obtain ob where ob: "parseServerURL parse dec (URI c s) = Inr ob"
      "ob_UpMbps ob = fst (hy2_rates ?q)" "ob_DownMbps ob = snd (hy2_rates ?q)"
    using parse_hy2_rates [where parse = parse and t = "URI c s", OF assms(2) q(2)] q(1) by metis
  have rates: "hy2_rates ?q = (if up < 0 \<or> down < 0 then (0, 0)
      else (if up > 0 then up else DefaultUpMbps, if down > 0 then down else DefaultDownMbps))"
    by (simp add: hy2_rates_def look nums Let_def)
  let ?b = "build_schedule ?q ob"
  have b: "OffUp ?b = fst (hy2_rates ?q)" "OffDown ?b = snd (hy2_rates ?q)"
      "PeakDown ?b = (if peakDown > 0 then peakDown else 0)" "PeakUp ?b = (if peakDown > 0 then peakUp else 0)"
      "StartHour ?b = (if peakDown > 0 then start else 0)" "EndHour ?b = (if peakDown > 0 then end_hour else 0)"
    by (simp_all add: build_schedule_def ob look nums zero)
  have sched: "server_schedule s = \<lparr>OffUp = up, OffDown = down, PeakUp = peakUp, PeakDown = peakDown,
      StartHour = start, EndHour = end_hour\<rparr>" by (simp add: server_schedule_def lad)
  have real: "\<not> isReality s" using assms(1) by (simp add: printable_def)
  have rungs: "Rungs ?b = Rungs (server_schedule s) \<longleftrightarrow> \<not> (sv_UpMbps s < 0 \<and> 0 < sv_DownMbps s)"
  proof (cases "sv_UpMbps s < 0 \<or> sv_DownMbps s < 0")
    case True
    then have l: "up = sv_UpMbps s" "down = sv_DownMbps s" using lad real by (auto simp: ladder_def)
    then have none: "Rungs ?b = []" using True rates b by (intro Rungs_off) auto
    have "Rungs (server_schedule s) = [] \<longleftrightarrow> down \<le> 0" using Rungs_Nil_iff [of "server_schedule s"] by (auto simp: sched)
    with none l True show ?thesis by auto
  next
    case False
    then have "0 < up" "0 < down" using lad real by (auto simp: ladder_def ceiling_defaults split: if_splits)
    then have "Rungs ?b = Rungs (server_schedule s)"
      by (intro Rungs_cong) (simp_all add: b rates sched)
    with False show ?thesis by simp
  qed
  moreover have "?b = server_schedule s" if pos: "0 \<le> sv_UpMbps s \<and> 0 \<le> sv_DownMbps s \<and> 0 \<le> sv_PeakDownMbps s"
  proof -
    have "0 < up" "0 < down" "0 < peakDown"
      using lad real pos by (auto simp: ladder_def ceiling_defaults split: if_splits prod.splits)
    then show ?thesis unfolding sched by (intro BandwidthSchedule.equality) (simp_all add: b rates)
  qed
  ultimately show ?thesis using ob(1) by blast
qed

theorem config_and_supervisor_agree_witness:
  "(let s = sample_node\<lparr>sv_UpMbps := -1\<rparr>; line = URI sample_coder s;
        parse = (\<lambda>t. if t = line then Inr (go_url.truncate (hy2_line sample_coder s)) else Inl ''?'') in
    \<exists>ob. parseServerURL parse one_pin line = Inr ob \<and>
      Rungs (build_schedule (u_Query (hy2_line sample_coder s)) ob) \<noteq> Rungs (server_schedule s))"
proof -
  let ?s = "sample_node\<lparr>sv_UpMbps := -1\<rparr>"
  let ?parse = "\<lambda>t. if t = URI sample_coder ?s then Inr (go_url.truncate (hy2_line sample_coder ?s)) else Inl ''?''"
  have "printable ?s" "sv_UpMbps ?s < 0 \<and> 0 < sv_DownMbps ?s"
    by (simp_all add: printable_def sample_node_def zero_server_def isReality_def serverHost_def int64_def)
  then show ?thesis
    using config_and_supervisor_agree [of ?s ?parse sample_coder one_pin] by (auto simp: Let_def)
qed

section \<open>REALITY links\<close>

definition reality_line :: "Server \<Rightarrow> full_url" where
  "reality_line s = parsed_line ''vless'' (sv_UUID s) (serverHost s) (reality_port s) (reality_query s) (sv_Name s)"

lemma reality_lookup:
  "u_Query (reality_line s) ''security'' = ''reality''" "u_Query (reality_line s) ''pbk'' = sv_RealityPubKey s"
  "u_Query (reality_line s) ''sid'' = sv_RealityShortID s" "u_Query (reality_line s) ''sni'' = reality_dest s"
  "u_Query (reality_line s) ''mux'' = (if sv_RealityMultiplex s then ''smux'' else [])"
  by (simp_all add: reality_line_def parsed_line_def reality_query_def link_query_def)

text \<open>The REALITY link of a server, also the standby leg of a dual server, imports as a REALITY server
  whose link is the same to the byte, and it is accepted whenever the server has an address, a
  uuid, a public key and a port.\<close>
theorem reality_import_inverts_print:
  assumes "parse (realityURI c s (linkHost s)) = Inr (reality_line s)"
    and "sv_UUID s \<noteq> []" and "serverHost s \<noteq> []" and "sv_RealityPubKey s \<noteq> []" and "reality_port s \<noteq> 0"
  shows "\<exists>s'. serverFromURI parse dec six (realityURI c s (linkHost s)) = Inr s' \<and> isReality s' \<and>
    URI c s' = realityURI c s (linkHost s)"
proof -
  note look = reality_lookup [of s]
  have dest: "reality_dest s \<noteq> []" by (simp add: reality_dest_def defaultRealityDest_def)
  have fields: "u_Scheme (reality_line s) = ''vless''" "u_Username (reality_line s) = sv_UUID s"
      "u_Hostname (reality_line s) = serverHost s" "u_Fragment (reality_line s) = sv_Name s"
    by (simp_all add: reality_line_def parsed_line_def)
  have port: "word_of_int (url_port (go_url.truncate (reality_line s))) = reality_port s"
    using assms(5) by (simp add: reality_line_def parsed_line_def go_url.defs port_back)
  let ?s = "with_host six (serverHost s) (zero_server\<lparr>sv_Proto := ''reality'', sv_UUID := sv_UUID s,
      sv_Port := reality_port s, sv_RealityPubKey := sv_RealityPubKey s, sv_RealityShortID := sv_RealityShortID s,
      sv_RealityDest := reality_dest s, sv_RealityMultiplex := sv_RealityMultiplex s, sv_Name := sv_Name s\<rparr>)"
  have read: "serverFromURI parse dec six (realityURI c s (linkHost s)) = Inr ?s"
    using assms look fields port dest by (simp add: serverFromURI_def realityServerFromURI_def Let_def)
  have host: "serverHost ?s = serverHost s"
    using assms(3) by (simp add: serverHost_def with_host_def zero_server_def)
  have query: "reality_query ?s = reality_query s" and rport: "reality_port ?s = reality_port s"
    using dest assms(5)
    by (simp_all add: reality_query_def reality_dest_def reality_port_def with_host_def zero_server_def)
  have plain: "isReality ?s" "sv_UUID ?s = sv_UUID s" "sv_Name ?s = sv_Name s"
    by (simp_all add: isReality_def with_host_def zero_server_def)
  have lhost: "linkHost ?s = linkHost s" unfolding linkHost_def host ..
  have "URI c ?s = realityURI c s (linkHost s)"
    unfolding URI_def realityURI_def query rport lhost plain(2,3) using plain(1) by simp
  with read plain(1) show ?thesis by blast
qed

definition sample_reality :: Server where
  "sample_reality = zero_server\<lparr>sv_Name := ''r'', sv_IPv6 := ''2001:db8::1'', sv_Port := 443, sv_UUID := ''u'',
     sv_RealityPubKey := ''k''\<rparr>"

theorem reality_import_inverts_print_witness:
  "(let line = StandbyURI sample_coder sample_reality;
        parse = (\<lambda>t. if t = line then Inr (reality_line sample_reality) else Inl ''?'') in
    \<exists>s'. serverFromURI parse one_pin (\<lambda>h. CHR '':'' \<in> set h) line = Inr s' \<and> URI sample_coder s' = line)"
proof -
  let ?line = "realityURI sample_coder sample_reality (linkHost sample_reality)"
  let ?parse = "\<lambda>t. if t = ?line then Inr (reality_line sample_reality) else Inl ''?''"
  have "StandbyURI sample_coder sample_reality = ?line"
    by (simp add: StandbyURI_def hasStandbyLeg_def sample_reality_def zero_server_def isReality_def)
  moreover have "sv_UUID sample_reality \<noteq> []" "serverHost sample_reality \<noteq> []" "sv_RealityPubKey sample_reality \<noteq> []"
      "reality_port sample_reality \<noteq> 0"
    by (simp_all add: sample_reality_def zero_server_def serverHost_def reality_port_def)
  ultimately show ?thesis
    using reality_import_inverts_print [of ?parse sample_coder sample_reality one_pin "\<lambda>h. CHR '':'' \<in> set h"]
    by (auto simp: Let_def)
qed

end
