(* ===== verification/Server_Ops.thy ===== *)
theory Server_Ops
  imports Server_Links Lid_Destroy
begin

text \<open>
  The management API of cmd/server.go and what changes servers through it: destroying, halting,
  starting and waking an instance, filling in addresses, reconciling with the account, and the
  ladder memory of cmd/ladder_memory.go. The provider, the clock and the JSON decoders are
  parameters over a world; the files are state.
\<close>

section \<open>The management API\<close>

text \<open>One exchange: a body below status 400, a status of at least 400 with its body, or a transport
  error.\<close>

datatype call_result = Answer string | Status int string | Transport string

datatype api_error = NoKey | ServerError int string | TransportError string | CallExpired "string option"

text \<open>
  A call is told whether the socket is bound to the physical interface, its time limit, the method
  and the path. The key is read from the environment or the key file; the exemption of the host
  from the kill switch is an effect whose failure is only logged.
\<close>

record 'w api =
  a_key :: bool
  a_clock :: "'w \<Rightarrow> go_time"
  a_exempt :: "'w \<Rightarrow> 'w"
  a_bound :: "'w \<Rightarrow> bool"
  a_call :: "bool \<Rightarrow> go_duration \<Rightarrow> string \<Rightarrow> string \<Rightarrow> 'w \<Rightarrow> call_result \<times> 'w"
  a_instances :: "string \<Rightarrow> string + serverInstance list"
  a_status :: "string \<Rightarrow> string option"

definition apiBudget :: go_duration where "apiBudget = 20 * go_second"
definition apiAttempt :: go_duration where "apiAttempt = 2 * go_second"

definition idempotent :: "string \<Rightarrow> bool" where
  "idempotent verb = (verb \<in> set [''GET'', ''HEAD'', ''PUT'', ''DELETE''])"

definition IsServerNotFound :: "api_error \<Rightarrow> bool" where
  "IsServerNotFound e = (case e of ServerError status body \<Rightarrow> status = 404 | _ \<Rightarrow> False)"

text \<open>
  The retry loop. The context is over once the clock has reached the deadline; fuel bounds the
  number of rounds, and None is running out of it. Even attempts use the bound client if there is
  one.
\<close>

fun api_loop ::
  "'w api \<Rightarrow> go_time \<Rightarrow> string \<Rightarrow> string \<Rightarrow> nat \<Rightarrow> nat \<Rightarrow> string option \<Rightarrow> 'w \<Rightarrow> ((api_error + string) \<times> 'w) option" where
  "api_loop a deadline verb path 0 attempt lastErr w =
     (if a_clock a w \<ge> deadline then Some (Inl (CallExpired lastErr), w) else None)"
| "api_loop a deadline verb path (Suc fuel) attempt lastErr w =
     (if a_clock a w \<ge> deadline then Some (Inl (CallExpired lastErr), w)
      else
        let limit = min apiAttempt (deadline - a_clock a w) in
        case a_call a (even attempt \<and> a_bound a w) limit verb path w of
          (Answer d, w) \<Rightarrow> Some (Inr d, w)
        | (Status status body, w) \<Rightarrow> Some (Inl (ServerError status body), w)
        | (Transport e, w) \<Rightarrow> api_loop a deadline verb path fuel (Suc attempt) (Some e) w)"

definition serverAPIWithin ::
  "'w api \<Rightarrow> nat \<Rightarrow> go_duration \<Rightarrow> string \<Rightarrow> string \<Rightarrow> 'w \<Rightarrow> ((api_error + string) \<times> 'w) option" where
  "serverAPIWithin a fuel budget verb path w =
     (let deadline = a_clock a w + budget in
      if \<not> a_key a then Some (Inl NoKey, w)
      else
        let w = a_exempt a w in
        if a_clock a w \<ge> deadline then Some (Inl (CallExpired None), w)
        else if \<not> idempotent verb then
          (case a_call a (a_bound a w) (deadline - a_clock a w) verb path w of
             (Answer d, w) \<Rightarrow> Some (Inr d, w)
           | (Status status body, w) \<Rightarrow> Some (Inl (ServerError status body), w)
           | (Transport e, w) \<Rightarrow> Some (Inl (TransportError e), w))
        else api_loop a deadline verb path fuel 0 None w)"

text \<open>
  Every call takes time on the clock, a nanosecond at least, so that the budget in nanoseconds is
  fuel enough (management_contract below); the operations use that much.
\<close>

definition call_api :: "'w api \<Rightarrow> go_duration \<Rightarrow> string \<Rightarrow> string \<Rightarrow> 'w \<Rightarrow> (api_error + string) \<times> 'w" where
  "call_api a budget verb path w =
     (case serverAPIWithin a (nat budget) budget verb path w of
        Some r \<Rightarrow> r
      | None \<Rightarrow> (Inl (CallExpired None), w))"

definition serverListInstancesWithin :: "'w api \<Rightarrow> go_duration \<Rightarrow> 'w \<Rightarrow> (string option + serverInstance list) \<times> 'w" where
  "serverListInstancesWithin a budget w =
     (case call_api a budget ''GET'' ''/instances?per_page=100'' w of
        (Inl e, w) \<Rightarrow> (Inl None, w)
      | (Inr d, w) \<Rightarrow> (case a_instances a d of Inl e \<Rightarrow> Inl (Some e) | Inr is \<Rightarrow> Inr is, w))"

section \<open>The ladder memory\<close>

record regionLadder =
  rl_UpMbps :: int
  rl_DownMbps :: int
  rl_PeakUpMbps :: int
  rl_PeakDownMbps :: int
  rl_RealityDownMbps :: int
  rl_PeakStartHour :: int
  rl_PeakEndHour :: int
  rl_RememberedAt :: string

datatype ladder_file = NoLadders | BadLadders string | Ladders "string \<rightharpoonup> regionLadder"

definition loadLadderMemory :: "ladder_file \<Rightarrow> string + (string \<rightharpoonup> regionLadder)" where
  "loadLadderMemory f =
     (case f of NoLadders \<Rightarrow> Inr (\<lambda>_. None) | BadLadders e \<Rightarrow> Inl e | Ladders m \<Rightarrow> Inr m)"

text \<open>saveLadderMemory writes the file in place: a write that fails leaves the file it is given.\<close>

definition rememberLadder :: "ladder_file option \<Rightarrow> string \<Rightarrow> Server \<Rightarrow> ladder_file \<Rightarrow> ladder_file" where
  "rememberLadder failed now s f =
     (if sv_Region s = [] then f
      else case ladder s of (up, down, peakUp, peakDown, start, end_hour) \<Rightarrow>
        if down \<le> 0 then f
        else
          let m = (case loadLadderMemory f of Inl _ \<Rightarrow> (\<lambda>_. None) | Inr m \<Rightarrow> m);
              rl = \<lparr>rl_UpMbps = up, rl_DownMbps = down, rl_PeakUpMbps = peakUp, rl_PeakDownMbps = peakDown,
                    rl_RealityDownMbps = sv_RealityDownMbps s, rl_PeakStartHour = start, rl_PeakEndHour = end_hour,
                    rl_RememberedAt = now\<rparr>
          in case failed of None \<Rightarrow> Ladders (m(sv_Region s \<mapsto> rl)) | Some left \<Rightarrow> left)"

definition recallLadder :: "string \<Rightarrow> ladder_file \<Rightarrow> regionLadder option" where
  "recallLadder region f =
     (if region = [] then None
      else case loadLadderMemory f of
        Inl _ \<Rightarrow> None
      | Inr m \<Rightarrow> (case m region of None \<Rightarrow> None | Some l \<Rightarrow> if rl_DownMbps l \<le> 0 then None else Some l))"

definition DefaultPeakUpMbps :: int where "DefaultPeakUpMbps = 2"
definition DefaultPeakDownMbps :: int where "DefaultPeakDownMbps = 5"

definition configureDeployCeiling :: "ladder_file \<Rightarrow> Server \<Rightarrow> Server" where
  "configureDeployCeiling f srv =
     (if isReality srv then srv
      else
        let srv = srv\<lparr>sv_UpMbps := DefaultUpMbps, sv_DownMbps := DefaultDownMbps,
                      sv_PeakUpMbps := DefaultPeakUpMbps, sv_PeakDownMbps := DefaultPeakDownMbps,
                      sv_PeakStartHour := defaultPeakStartHour, sv_PeakEndHour := defaultPeakEndHour\<rparr>
        in case recallLadder (sv_Region srv) f of
          None \<Rightarrow> srv
        | Some l \<Rightarrow> srv\<lparr>sv_UpMbps := rl_UpMbps l, sv_DownMbps := rl_DownMbps l,
            sv_PeakUpMbps := rl_PeakUpMbps l, sv_PeakDownMbps := rl_PeakDownMbps l,
            sv_RealityDownMbps := rl_RealityDownMbps l,
            sv_PeakStartHour := rl_PeakStartHour l, sv_PeakEndHour := rl_PeakEndHour l\<rparr>)"

section \<open>The host\<close>

text \<open>The files an operation works on, and the world outside; the environment of the file calls.\<close>

record 'w host =
  h_world :: 'w
  h_store :: store_file
  h_ladders :: ladder_file
  h_debt :: "LidDebt option"

record file_env =
  f_store :: store_env
  f_ladders :: "ladder_file option"
  f_now :: string

definition host_call :: "'w api \<Rightarrow> go_duration \<Rightarrow> string \<Rightarrow> string \<Rightarrow> 'w host \<Rightarrow> (api_error + string) \<times> 'w host" where
  "host_call a budget verb path h =
     (case call_api a budget verb path (h_world h) of (r, w) \<Rightarrow> (r, h\<lparr>h_world := w\<rparr>))"

definition debt_of :: "'w host \<Rightarrow> LidDebt option" where
  "debt_of h = (case h_debt h of None \<Rightarrow> None | Some d \<Rightarrow> if Since d = 0 then None else Some d)"

section \<open>Destroying\<close>

text \<open>What follows the provider's answer: the ceiling is remembered, the entry dropped, the debt paid.\<close>

definition drop_server :: "file_env \<Rightarrow> string \<Rightarrow> Server \<Rightarrow> 'w host \<Rightarrow> destroy_error option \<times> 'w host" where
  "drop_server e name target h =
     (let h = h\<lparr>h_ladders := rememberLadder (f_ladders e) (f_now e) target (h_ladders h)\<rparr> in
      case removeRecordedServer (f_store e) (sv_InstanceID target) (sv_Name target) (h_store h) of
        (Some err, stored) \<Rightarrow> (Some (DestroyFailed err), h\<lparr>h_store := stored\<rparr>)
      | (None, stored) \<Rightarrow>
          let h = h\<lparr>h_store := stored\<rparr> in
          (None, case debt_of h of None \<Rightarrow> h | Some d \<Rightarrow> if DebtServer d = name then h\<lparr>h_debt := None\<rparr> else h))"

definition destroyServerWithin ::
  "'w api \<Rightarrow> file_env \<Rightarrow> string \<Rightarrow> bool \<Rightarrow> go_duration \<Rightarrow> 'w host \<Rightarrow> destroy_error option \<times> 'w host" where
  "destroyServerWithin a e name forceLocal budget h =
     (case readServersAt (h_store h) of
        Inl err \<Rightarrow> (Some (DestroyFailed (''read local servers: '' @ err)), h)
      | Inr servers \<Rightarrow>
          if servers = [] then (Some (DestroyFailed ''no servers''), h)
          else case indexByName servers name of
            None \<Rightarrow> (Some (DestroyFailed (''server '' @ name @ '' not found'')), h)
          | Some idx \<Rightarrow>
              let target = servers ! idx in
              if sv_InstanceID target = [] then drop_server e name target h
              else case host_call a budget ''DELETE'' (''/instances/'' @ sv_InstanceID target) h of
                (Inr _, h) \<Rightarrow> drop_server e name target h
              | (Inl err, h) \<Rightarrow>
                  if IsServerNotFound err \<or> forceLocal then drop_server e name target h
                  else (Some (DestroyFailed ''server delete failed''), h))"

definition destroyActiveServerWithin ::
  "'w api \<Rightarrow> file_env \<Rightarrow> go_duration \<Rightarrow> 'w host \<Rightarrow> destroy_error option \<times> 'w host" where
  "destroyActiveServerWithin a e budget h =
     (case readServersAt (h_store h) of
        Inl err \<Rightarrow> (Some (DestroyFailed (''read local servers: '' @ err)), h)
      | Inr servers \<Rightarrow>
          (case find sv_Active servers of
             Some s \<Rightarrow> destroyServerWithin a e (sv_Name s) False budget h
           | None \<Rightarrow>
               if servers \<noteq> [] then (Some (DestroyFailed ''server(s) deployed but none is active''), h)
               else case serverListInstancesWithin a budget (h_world h) of
                 (Inl _, w) \<Rightarrow> (Some (DestroyFailed ''checking the account for an orphan failed''), h\<lparr>h_world := w\<rparr>)
               | (Inr [], w) \<Rightarrow> (Some NothingToDestroy, h\<lparr>h_world := w\<rparr>)
               | (Inr (r # rs), w) \<Rightarrow> (Some (DestroyFailed ''instance(s) are still on the account''), h\<lparr>h_world := w\<rparr>)))"

section \<open>Halting, starting and waking\<close>

definition mark_stopped :: "bool \<Rightarrow> Server \<Rightarrow> Server" where
  "mark_stopped halted s = s\<lparr>sv_Stopped := halted, sv_Verification := None\<rparr>"

definition record_stopped :: "file_env \<Rightarrow> Server \<Rightarrow> bool \<Rightarrow> 'w host \<Rightarrow> go_error \<times> 'w host" where
  "record_stopped e target halted h =
     (case changeServer (f_store e) (sv_InstanceID target) (sv_Name target) (mark_stopped halted) (h_store h) of
        (err, stored) \<Rightarrow> (err, h\<lparr>h_store := stored\<rparr>))"

text \<open>The entry of a name, or the error the commands report.\<close>

definition lookup_server :: "string \<Rightarrow> 'w host \<Rightarrow> string + Server" where
  "lookup_server name h =
     (case readServersAt (h_store h) of
        Inl err \<Rightarrow> Inl (''read local servers: '' @ err)
      | Inr servers \<Rightarrow>
          (case indexByName servers name of
             None \<Rightarrow> Inl (''server '' @ name @ '' not found'')
           | Some idx \<Rightarrow> Inr (servers ! idx)))"

definition runStop :: "'w api \<Rightarrow> file_env \<Rightarrow> string \<Rightarrow> 'w host \<Rightarrow> go_error \<times> 'w host" where
  "runStop a e name h =
     (case lookup_server name h of
        Inl err \<Rightarrow> (Some err, h)
      | Inr target \<Rightarrow>
          if sv_Stopped target then (None, h)
          else if sv_InstanceID target = [] then (Some (''server '' @ name @ '' has no instance ID''), h)
          else case host_call a apiBudget ''POST'' (''/instances/'' @ sv_InstanceID target @ ''/halt'') h of
            (Inl _, h) \<Rightarrow> (Some ''halt instance'', h)
          | (Inr _, h) \<Rightarrow> record_stopped e target True h)"

text \<open>One look at the instance: whether it is active. Waiting between two looks is part of the world.\<close>

definition poll_active :: "'w api \<Rightarrow> string \<Rightarrow> 'w host \<Rightarrow> bool \<times> 'w host" where
  "poll_active a inst h =
     (case host_call a apiBudget ''GET'' (''/instances/'' @ inst) h of
        (Inl _, h) \<Rightarrow> (False, h)
      | (Inr d, h) \<Rightarrow> (a_status a d = Some ''active'', h))"

fun poll_times :: "'w api \<Rightarrow> string \<Rightarrow> nat \<Rightarrow> 'w host \<Rightarrow> bool \<times> 'w host" where
  "poll_times a inst 0 h = (False, h)"
| "poll_times a inst (Suc n) h =
     (case poll_active a inst h of (True, h) \<Rightarrow> (True, h) | (False, h) \<Rightarrow> poll_times a inst n h)"

definition runStart :: "'w api \<Rightarrow> file_env \<Rightarrow> string \<Rightarrow> 'w host \<Rightarrow> go_error \<times> 'w host" where
  "runStart a e name h =
     (case lookup_server name h of
        Inl err \<Rightarrow> (Some err, h)
      | Inr target \<Rightarrow>
          if \<not> sv_Stopped target then (None, h)
          else if sv_InstanceID target = [] then (Some (''server '' @ name @ '' has no instance ID''), h)
          else case host_call a apiBudget ''POST'' (''/instances/'' @ sv_InstanceID target @ ''/start'') h of
            (Inl _, h) \<Rightarrow> (Some ''start instance'', h)
          | (Inr _, h) \<Rightarrow>
              (case poll_times a (sv_InstanceID target) 30 h of
                 (_, h) \<Rightarrow> record_stopped e target False h))"

text \<open>The wake-up of the up command polls until its deadline; polls is how many fit before it.\<close>

definition autoWakeServer :: "'w api \<Rightarrow> file_env \<Rightarrow> nat \<Rightarrow> 'w host \<Rightarrow> go_error \<times> 'w host" where
  "autoWakeServer a e polls h =
     (case readServersAt (h_store h) of
        Inl err \<Rightarrow> (Some err, h)
      | Inr servers \<Rightarrow>
          (case find sv_Active servers of
             None \<Rightarrow> (Some ''no active server'', h)
           | Some target \<Rightarrow>
               if sv_InstanceID target = [] then (Some ''server has no instance ID'', h)
               else case host_call a apiBudget ''POST'' (''/instances/'' @ sv_InstanceID target @ ''/start'') h of
                 (Inl _, h) \<Rightarrow> (Some ''start instance'', h)
               | (Inr _, h) \<Rightarrow>
                   (case poll_times a (sv_InstanceID target) polls h of
                      (False, h) \<Rightarrow> (Some (''start was accepted but '' @ sv_Name target @ '' is still not running after 3m''), h)
                    | (True, h) \<Rightarrow> record_stopped e target False h)))"

section \<open>Reconciling\<close>

definition reconcileAddresses :: "'w api \<Rightarrow> file_env \<Rightarrow> 'w host \<Rightarrow> (go_error \<times> nat) \<times> 'w host" where
  "reconcileAddresses a e h =
     (case readServersAt (h_store h) of
        Inl err \<Rightarrow> ((Some err, 0), h)
      | Inr local \<Rightarrow>
          if \<not> list_ex (\<lambda>s. sv_InstanceID s \<noteq> [] \<and> sv_IP s = [] \<and> sv_IPv6 s = []) local then ((None, 0), h)
          else case serverListInstancesWithin a apiBudget (h_world h) of
            (Inl _, w) \<Rightarrow> ((Some ''list instances'', 0), h\<lparr>h_world := w\<rparr>)
          | (Inr remote, w) \<Rightarrow>
              let fill = (\<lambda>current. Inr (fst (fillAddresses current remote)));
                  filled = (case readServersAt (h_store h) of Inl _ \<Rightarrow> 0 | Inr current \<Rightarrow> snd (fillAddresses current remote))
              in case updateServersAt (f_store e) fill (h_store h) of
                (Some err, stored) \<Rightarrow> ((Some err, 0), h\<lparr>h_world := w, h_store := stored\<rparr>)
              | (None, stored) \<Rightarrow> ((None, filled), h\<lparr>h_world := w, h_store := stored\<rparr>))"

text \<open>The ids on the account that no local entry has, in order and once each.\<close>

definition remote_only :: "Server list \<Rightarrow> serverInstance list \<Rightarrow> string list" where
  "remote_only local remote =
     filter (\<lambda>i. \<not> list_ex (\<lambda>s. sv_InstanceID s \<noteq> [] \<and> sv_InstanceID s = i) local)
       (sorted_list_of_set (set (map si_ID remote)))"

fun destroy_orphans :: "'w api \<Rightarrow> serverInstance list \<Rightarrow> string list \<Rightarrow> 'w host \<Rightarrow> 'w host" where
  "destroy_orphans a remote [] h = h"
| "destroy_orphans a remote (i # is) h =
     (case host_call a apiBudget ''DELETE'' (''/instances/'' @ i) h of
        (Inl _, h) \<Rightarrow> destroy_orphans a remote is h
      | (Inr _, h) \<Rightarrow>
          let h = (case (debt_of h, by_id remote i) of
                     (Some d, Some r) \<Rightarrow> if DebtServer d \<noteq> [] \<and> DebtServer d = si_Label r then h\<lparr>h_debt := None\<rparr> else h
                   | _ \<Rightarrow> h)
          in destroy_orphans a remote is h)"

definition runReconcile :: "'w api \<Rightarrow> file_env \<Rightarrow> bool \<Rightarrow> 'w host \<Rightarrow> go_error \<times> 'w host" where
  "runReconcile a e destroyRemote h =
     (case reconcileAddresses a e h of
        ((Some err, _), h) \<Rightarrow> (Some err, h)
      | ((None, _), h) \<Rightarrow>
          (case readServersAt (h_store h) of
             Inl err \<Rightarrow> (Some (''read local servers: '' @ err), h)
           | Inr local \<Rightarrow>
               (case serverListInstancesWithin a apiBudget (h_world h) of
                  (Inl _, w) \<Rightarrow> (Some ''list server instances'', h\<lparr>h_world := w\<rparr>)
                | (Inr remote, w) \<Rightarrow>
                    let h = h\<lparr>h_world := w\<rparr> in
                    (None, if destroyRemote then destroy_orphans a remote (remote_only local remote) h else h))))"

section \<open>Lemmas\<close>

text \<open>A journal of the calls, in order: what a world may record of them.\<close>

definition journals :: "'w api \<Rightarrow> ('w \<Rightarrow> (string \<times> string) list) \<Rightarrow> bool" where
  "journals a log =
     ((\<forall>bnd limit verb path w. log (snd (a_call a bnd limit verb path w)) = log w @ [(verb, path)]) \<and>
      (\<forall>w. log (a_exempt a w) = log w))"

text \<open>Time passes: a call takes at least a nanosecond, the exemption may take none.\<close>

definition time_passes :: "'w api \<Rightarrow> bool" where
  "time_passes a =
     ((\<forall>bnd limit verb path w. a_clock a w < a_clock a (snd (a_call a bnd limit verb path w))) \<and>
      (\<forall>w. a_clock a w \<le> a_clock a (a_exempt a w)))"

lemma api_loop_returns:
  assumes "time_passes a"
  shows "deadline \<le> a_clock a w + int fuel \<Longrightarrow> \<exists>r w'. api_loop a deadline verb path fuel attempt lastErr w = Some (r, w')"
proof (induction fuel arbitrary: attempt lastErr w)
  case (Suc fuel)
  show ?case
  proof (cases "a_clock a w \<ge> deadline")
    case False
    let ?limit = "min apiAttempt (deadline - a_clock a w)"
    obtain r w' where r: "a_call a (even attempt \<and> a_bound a w) ?limit verb path w = (r, w')" by force
    have "a_clock a w < a_clock a w'"
      using assms r unfolding time_passes_def by (metis snd_conv)
    then have "deadline \<le> a_clock a w' + int fuel" using Suc.prems by simp
    from Suc.IH [OF this] r False show ?thesis by (cases r) (auto simp: Let_def)
  qed simp
qed simp

lemma api_loop_journal:
  assumes "journals a log"
  shows "api_loop a deadline verb path fuel attempt lastErr w = Some (r, w') \<Longrightarrow> \<exists>n. log w' = log w @ replicate n (verb, path)"
proof (induction fuel arbitrary: attempt lastErr w)
  case 0
  then show ?case by (auto split: if_splits intro: exI [of _ 0])
next
  case (Suc fuel)
  show ?case
  proof (cases "a_clock a w \<ge> deadline")
    case True
    with Suc.prems show ?thesis by (auto intro: exI [of _ 0])
  next
    case False
    let ?limit = "min apiAttempt (deadline - a_clock a w)"
    obtain c w1 where c: "a_call a (even attempt \<and> a_bound a w) ?limit verb path w = (c, w1)" by force
    then have log1: "log w1 = log w @ [(verb, path)]"
      using assms unfolding journals_def by (metis snd_conv)
    show ?thesis
    proof (cases c)
      case (Transport e)
      then have "api_loop a deadline verb path fuel (Suc attempt) (Some e) w1 = Some (r, w')"
        using Suc.prems c False by (simp add: Let_def)
      from Suc.IH [OF this] obtain n where "log w' = log w1 @ replicate n (verb, path)" by blast
      then have "log w' = log w @ replicate (Suc n) (verb, path)" by (simp add: log1)
      then show ?thesis by blast
    qed (use Suc.prems c False log1 in \<open>auto simp: Let_def intro!: exI [of _ 1]\<close>)
  qed
qed

lemma api_loop_expired:
  "api_loop a deadline verb path fuel attempt lastErr w = Some (Inl e, w') \<Longrightarrow>
     (\<exists>status body. e = ServerError status body) \<or> (\<exists>last. e = CallExpired last \<and> deadline \<le> a_clock a w')"
proof (induction fuel arbitrary: attempt lastErr w)
  case (Suc fuel)
  show ?case
    using Suc.prems Suc.IH by (auto simp: Let_def split: if_splits prod.splits call_result.splits)
qed (auto split: if_splits)

section \<open>Properties\<close>

lemma management_contract:
  assumes "time_passes a" and "journals a log"
  shows "\<exists>r w'. serverAPIWithin a (nat budget) budget verb path w = Some (r, w') \<and>
    (\<exists>n. log w' = log w @ replicate n (verb, path) \<and> (\<not> idempotent verb \<longrightarrow> n \<le> 1)) \<and>
    (\<forall>last. r = Inl (CallExpired last) \<longrightarrow> a_clock a w + budget \<le> a_clock a w') \<and>
    (idempotent verb \<longrightarrow> (\<forall>e. r \<noteq> Inl (TransportError e)))"
proof (cases "\<not> a_key a")
  case True
  then show ?thesis by (auto simp: serverAPIWithin_def Let_def intro!: exI [of _ 0])
next
  case key: False
  let ?w = "a_exempt a w" and ?dl = "a_clock a w + budget"
  have log0: "log ?w = log w" using assms(2) by (simp add: journals_def)
  have later: "a_clock a w \<le> a_clock a ?w" using assms(1) by (simp add: time_passes_def)
  show ?thesis
  proof (cases "a_clock a ?w \<ge> ?dl")
    case True
    with key log0 show ?thesis by (auto simp: serverAPIWithin_def Let_def intro!: exI [of _ 0])
  next
    case open_time: False
    show ?thesis
    proof (cases "idempotent verb")
      case True
      have "?dl \<le> a_clock a ?w + int (nat budget)" using later by simp
      from api_loop_returns [OF assms(1) this]
      obtain r w' where r: "api_loop a ?dl verb path (nat budget) 0 None ?w = Some (r, w')" by blast
      then have run: "serverAPIWithin a (nat budget) budget verb path w = Some (r, w')"
        using key open_time True by (simp add: serverAPIWithin_def Let_def)
      obtain n where "log w' = log w @ replicate n (verb, path)"
        using api_loop_journal [OF assms(2) r] log0 by auto
      moreover have "\<forall>last. r = Inl (CallExpired last) \<longrightarrow> ?dl \<le> a_clock a w'"
        and "\<forall>e. r \<noteq> Inl (TransportError e)"
        using api_loop_expired [of a ?dl verb path "nat budget" 0 None ?w _ w'] r by blast+
      ultimately show ?thesis using run True by blast
    next
      case False
      obtain c w1 where c: "a_call a (a_bound a ?w) (?dl - a_clock a ?w) verb path ?w = (c, w1)" by force
      then have "log w1 = log w @ replicate 1 (verb, path)"
        using assms(2) log0 unfolding journals_def by (metis snd_conv replicate_0 replicate_Suc One_nat_def)
      moreover obtain r where "serverAPIWithin a (nat budget) budget verb path w = Some (r, w1)"
          "\<forall>last. r \<noteq> Inl (CallExpired last)"
        using key open_time False c by (cases c) (auto simp: serverAPIWithin_def Let_def)
      ultimately show ?thesis using False by (metis le_refl)
    qed
  qed
qed

text \<open>A management call ends within its budget and never acts twice on its own. Every call returns, a
  request that creates something is sent once at most, only transport errors are ever retried, and
  a repeatable request is given up only when the deadline has passed.\<close>
theorem management_call_contract:
  assumes "time_passes a" and "journals a log"
  shows "\<exists>r w'. serverAPIWithin a (nat budget) budget verb path w = Some (r, w') \<and>
    (\<exists>n. log w' = log w @ replicate n (verb, path) \<and> (verb \<notin> set [''GET'', ''HEAD'', ''PUT'', ''DELETE''] \<longrightarrow> n \<le> 1)) \<and>
    (\<forall>last. r = Inl (CallExpired last) \<longrightarrow> a_clock a w + budget \<le> a_clock a w') \<and>
    (verb \<in> set [''GET'', ''HEAD'', ''PUT'', ''DELETE''] \<longrightarrow> (\<forall>e. r \<noteq> Inl (TransportError e)))"
  using management_contract [OF assms, of budget verb path w] unfolding idempotent_def
  by (simp only:)

text \<open>Whether the provider answered that the instance is deleted or was gone already.\<close>

definition confirmed_gone :: "'w api \<Rightarrow> go_duration \<Rightarrow> string \<Rightarrow> 'w \<Rightarrow> bool" where
  "confirmed_gone a budget inst w =
     (case fst (call_api a budget ''DELETE'' (''/instances/'' @ inst) w) of
        Inr _ \<Rightarrow> True
      | Inl e \<Rightarrow> IsServerNotFound e)"

definition files_of :: "'w host \<Rightarrow> store_file \<times> ladder_file \<times> LidDebt option" where
  "files_of h = (h_store h, h_ladders h, h_debt h)"

lemma drop_server_None:
  assumes "drop_server e name target h = (None, h')"
  shows "\<exists>servers servers'. readServersAt (h_store h) = Inr servers \<and>
    remove_server (sv_InstanceID target) (sv_Name target) servers = Inr servers' \<and> h_store h' = Stored servers'"
proof -
  obtain stored where r: "removeRecordedServer (f_store e) (sv_InstanceID target) (sv_Name target) (h_store h) = (None, stored)"
    and h': "h_store h' = stored"
    using assms by (auto simp: drop_server_def Let_def split: prod.splits option.splits if_splits)
  have "snd (writePrivateJSON w old new) = new" if "fst (writePrivateJSON w old new) = None" for w and old new :: store_file
    by (rule writePrivateJSON_cases(2) [OF that])
  with r h' show ?thesis
    by (auto simp: removeRecordedServer_def updateServersAt_def split: if_splits sum.splits)
      (metis fst_conv snd_conv)
qed

lemma drop_server_world: "h_world (snd (drop_server e name target h)) = h_world h"
  by (auto simp: drop_server_def Let_def split: prod.splits option.splits)

lemma destroy_forgets:
  assumes "readServersAt (h_store h) = Inr servers" and "indexByName servers name = Some idx"
    and "destroyServerWithin a e name forceLocal budget h = (r, h')"
  shows "(sv_InstanceID (servers ! idx) \<noteq> [] \<and> \<not> confirmed_gone a budget (sv_InstanceID (servers ! idx)) (h_world h) \<and> \<not> forceLocal \<longrightarrow>
      r \<noteq> None \<and> files_of h' = files_of h) \<and>
    (r = None \<longrightarrow> (\<exists>servers'. remove_server (sv_InstanceID (servers ! idx)) (sv_Name (servers ! idx)) servers = Inr servers' \<and>
      h_store h' = Stored servers'))"
proof -
  let ?target = "servers ! idx"
  have ne: "servers \<noteq> []" using assms(2) by auto
  obtain c h1 where c: "host_call a budget ''DELETE'' (''/instances/'' @ sv_InstanceID ?target) h = (c, h1)" by force
  have h1: "files_of h1 = files_of h" "h_store h1 = h_store h"
    and gone: "confirmed_gone a budget (sv_InstanceID ?target) (h_world h) = (case c of Inr _ \<Rightarrow> True | Inl err \<Rightarrow> IsServerNotFound err)"
    using c by (auto simp: host_call_def confirmed_gone_def files_of_def split: prod.splits)
  have run: "(r, h') = (if sv_InstanceID ?target = [] then drop_server e name ?target h
      else case c of Inr _ \<Rightarrow> drop_server e name ?target h1
        | Inl err \<Rightarrow> if IsServerNotFound err \<or> forceLocal then drop_server e name ?target h1
                     else (Some (DestroyFailed ''server delete failed''), h1))"
    using assms ne c by (auto simp: destroyServerWithin_def Let_def split: sum.splits)
  have dropped: "\<exists>servers'. remove_server (sv_InstanceID ?target) (sv_Name ?target) servers = Inr servers' \<and> h_store h' = Stored servers'"
    if "(None, h') = drop_server e name ?target g" "h_store g = h_store h" for g
    using drop_server_None [OF that(1) [symmetric]] assms(1) that(2) by auto
  show ?thesis
    using run gone h1 dropped by (auto split: sum.splits if_splits)
qed

text \<open>A server is only forgotten when the provider confirmed that it is gone. Destroying a recorded
  server leaves the list, the remembered ceilings and the lid debt as they are, and reports the
  failure, unless the delete was answered, the instance was already gone, the entry has no
  instance, or the operator forces it; and a destroy that reports success has removed the entry
  from the list.\<close>
theorem destroy_forgets_only_what_is_gone:
  assumes "readServersAt (h_store h) = Inr servers" and "indexByName servers name = Some idx"
    and "destroyServerWithin a e name forceLocal budget h = (r, h')"
  shows "(sv_InstanceID (servers ! idx) \<noteq> [] \<and> \<not> confirmed_gone a budget (sv_InstanceID (servers ! idx)) (h_world h) \<and> \<not> forceLocal \<longrightarrow>
      r \<noteq> None \<and> files_of h' = files_of h) \<and>
    (r = None \<longrightarrow> (\<exists>servers'. remove_server (sv_InstanceID (servers ! idx)) (sv_Name (servers ! idx)) servers = Inr servers' \<and>
      h_store h' = Stored servers'))"
  using assms by (rule destroy_forgets)

section \<open>The lid and the server\<close>

text \<open>The destroy hook of the daemon, on the lid's state whose world is the host.\<close>

definition lid_hook :: "'w api \<Rightarrow> file_env \<Rightarrow> go_duration \<Rightarrow> ('w host sys, destroy_error option) state" where
  "lid_hook a e budget = State (\<lambda>s.
     case destroyActiveServerWithin a e budget ((world s)\<lparr>h_debt := debt s\<rparr>) of
       (r, h) \<Rightarrow> (r, s\<lparr>world := h, debt := h_debt h\<rparr>))"

lemma list_answer:
  "serverListInstancesWithin a budget w = (Inr is, w') \<Longrightarrow>
     \<exists>d. fst (call_api a budget ''GET'' ''/instances?per_page=100'' w) = Inr d \<and> a_instances a d = Inr is"
  by (auto simp: serverListInstancesWithin_def split: prod.splits sum.splits)


section \<open>A sample provider\<close>

text \<open>A provider that answers by method and path, a clock that ticks once per call, and a journal.\<close>

type_synonym sample_world = "int \<times> (string \<times> string) list"

definition provider :: "(string \<Rightarrow> string \<Rightarrow> call_result) \<Rightarrow> sample_world api" where
  "provider answer = \<lparr>a_key = True, a_clock = fst, a_exempt = (\<lambda>w. w), a_bound = (\<lambda>_. True),
     a_call = (\<lambda>_ _ verb path w. (answer verb path, (fst w + 1, snd w @ [(verb, path)]))),
     a_instances = (\<lambda>d. if d = ''[]'' then Inr []
       else Inr [\<lparr>si_ID = d, si_Label = ''x'', si_Region = [], si_MainIP = [], si_V6MainIP = []\<rparr>]),
     a_status = Some\<rparr>"

lemma provider_ok: "time_passes (provider answer)" "journals (provider answer) snd"
  by (simp_all add: time_passes_def journals_def provider_def)

theorem management_call_contract_witness:
  "\<exists>r w'. serverAPIWithin (provider (\<lambda>_ _. Transport ''reset'')) (nat apiBudget) apiBudget ''POST'' ''/instances'' (0, []) = Some (r, w') \<and>
     length (snd w') \<le> 1"
proof -
  obtain r w' n where "serverAPIWithin (provider (\<lambda>_ _. Transport ''reset'')) (nat apiBudget) apiBudget ''POST'' ''/instances'' (0, []) = Some (r, w')"
      "snd w' = snd (0 :: int, []) @ replicate n (''POST'', ''/instances'')" "''POST'' \<notin> set [''GET'', ''HEAD'', ''PUT'', ''DELETE''] \<longrightarrow> n \<le> 1"
    using management_call_contract [OF provider_ok, of "\<lambda>_ _. Transport ''reset''" apiBudget "''POST''" "''/instances''" "(0, [])"]
    by blast
  then show ?thesis by auto
qed

definition sample_files :: file_env where
  "sample_files = \<lparr>f_store = \<lparr>se_open = None, se_lock = [LockFree], se_write = good_calls\<rparr>, f_ladders = None,
     f_now = ''2026-11-05T08:00:00Z''\<rparr>"

definition sample_host :: "sample_world host" where
  "sample_host = \<lparr>h_world = (0, []), h_store = Stored two_servers, h_ladders = NoLadders, h_debt = None\<rparr>"

text \<open>One call that is answered at once, whatever the budget.\<close>

lemma provider_call:
  assumes "\<And>e. answer verb path \<noteq> Transport e" and "0 < budget"
  shows "call_api (provider answer) budget verb path w =
    ((case answer verb path of Answer d \<Rightarrow> Inr d | Status st body \<Rightarrow> Inl (ServerError st body) | Transport e \<Rightarrow> Inl NoKey),
     (fst w + 1, snd w @ [(verb, path)]))"
proof -
  obtain n where "nat budget = Suc n" using assms(2) by (cases "nat budget") auto
  then show ?thesis
    using assms by (cases "answer verb path") (auto simp: call_api_def serverAPIWithin_def provider_def Let_def)
qed

theorem destroy_forgets_only_what_is_gone_witness:
  "(let refuse = provider (\<lambda>_ _. Status 500 []); gone = provider (\<lambda>_ _. Status 404 []) in
    fst (destroyServerWithin refuse sample_files ''a'' False apiBudget sample_host) \<noteq> None \<and>
    files_of (snd (destroyServerWithin refuse sample_files ''a'' False apiBudget sample_host)) = files_of sample_host \<and>
    (\<exists>ss. h_store (snd (destroyServerWithin gone sample_files ''a'' False apiBudget sample_host)) = Stored ss))"
proof -
  have stored: "readServersAt (h_store sample_host) = Inr two_servers" and idx: "indexByName two_servers ''a'' = Some 0"
    and inst: "sv_InstanceID (two_servers ! 0) = ''i1''"
    by (simp_all add: sample_host_def readServersAt_def two_servers_def zero_server_def)
  have budget: "0 < apiBudget" by (simp add: apiBudget_def)
  have calls: "call_api (provider (\<lambda>_ _. Status n [])) apiBudget ''DELETE'' path w =
      (Inl (ServerError n []), (fst w + 1, snd w @ [(''DELETE'', path)]))" for n path w
    using provider_call [of "\<lambda>_ _. Status n []" "''DELETE''" path apiBudget w] budget by simp
  have refused: "\<not> confirmed_gone (provider (\<lambda>_ _. Status 500 [])) apiBudget ''i1'' (h_world sample_host)"
    by (simp add: confirmed_gone_def calls IsServerNotFound_def)
  have fine: "fst (destroyServerWithin (provider (\<lambda>_ _. Status 404 [])) sample_files ''a'' False apiBudget sample_host) = None"
    by (simp add: destroyServerWithin_def stored idx inst host_call_def calls IsServerNotFound_def Let_def)
      (simp add: drop_server_def removeRecordedServer_def updateServersAt_def sample_files_def sample_host_def
        readServersAt_def remove_server_def names_server_def writePrivateJSON_def good_calls_def first_error_def
        two_servers_def zero_server_def debt_of_def Let_def)
  show ?thesis
    using destroy_forgets_only_what_is_gone [OF stored idx, of "provider (\<lambda>_ _. Status 500 [])" sample_files False apiBudget]
      destroy_forgets_only_what_is_gone [OF stored idx, of "provider (\<lambda>_ _. Status 404 [])" sample_files False apiBudget]
      refused fine inst
    unfolding Let_def
    by (cases "destroyServerWithin (provider (\<lambda>_ _. Status 500 [])) sample_files ''a'' False apiBudget sample_host";
        cases "destroyServerWithin (provider (\<lambda>_ _. Status 404 [])) sample_files ''a'' False apiBudget sample_host") auto
qed

section \<open>Ceilings outlive servers\<close>

text \<open>The ceiling of a region survives its server. After a server is destroyed, the next one deployed
  in the same region is scheduled over exactly the ladder the last one ran, including the pace of
  its REALITY leg, whatever was default, tuned or inherited; a region that has nothing worth
  remembering keeps what was known, and other regions are untouched.\<close>
theorem ceiling_outlives_the_server:
  assumes "f' = rememberLadder None now old f"
  shows "(\<forall>new. \<not> isReality new \<and> sv_Region new = sv_Region old \<and> sv_Region old \<noteq> [] \<and> 0 < OffDown (server_schedule old) \<longrightarrow>
      server_schedule (configureDeployCeiling f' new) = server_schedule old \<and>
      sv_RealityDownMbps (configureDeployCeiling f' new) = sv_RealityDownMbps old) \<and>
    (\<forall>region. (region \<noteq> sv_Region old \<or> OffDown (server_schedule old) \<le> 0) \<and> (\<forall>e. f \<noteq> BadLadders e) \<longrightarrow>
      recallLadder region f' = recallLadder region f)"
proof -
  obtain up down peakUp peakDown start end_hour where lad: "ladder old = (up, down, peakUp, peakDown, start, end_hour)"
    by (cases "ladder old") auto
  have off: "OffDown (server_schedule old) = down" by (simp add: server_schedule_def lad)
  let ?rl = "\<lparr>rl_UpMbps = up, rl_DownMbps = down, rl_PeakUpMbps = peakUp, rl_PeakDownMbps = peakDown,
      rl_RealityDownMbps = sv_RealityDownMbps old, rl_PeakStartHour = start, rl_PeakEndHour = end_hour, rl_RememberedAt = now\<rparr>"
  have f': "f' = (if sv_Region old = [] \<or> down \<le> 0 then f
      else Ladders ((case loadLadderMemory f of Inl _ \<Rightarrow> (\<lambda>_. None) | Inr m \<Rightarrow> m)(sv_Region old \<mapsto> ?rl)))"
    by (simp add: assms rememberLadder_def lad Let_def)
  have "server_schedule (configureDeployCeiling f' new) = server_schedule old \<and>
      sv_RealityDownMbps (configureDeployCeiling f' new) = sv_RealityDownMbps old"
    if new: "\<not> isReality new" "sv_Region new = sv_Region old" "sv_Region old \<noteq> []" "0 < down" for new
  proof -
    have "recallLadder (sv_Region new) f' = Some ?rl"
      using new by (simp add: recallLadder_def f' loadLadderMemory_def)
    then have cfg: "configureDeployCeiling f' new = new\<lparr>sv_UpMbps := up, sv_DownMbps := down, sv_PeakUpMbps := peakUp,
        sv_PeakDownMbps := peakDown, sv_RealityDownMbps := sv_RealityDownMbps old, sv_PeakStartHour := start,
        sv_PeakEndHour := end_hour\<rparr>"
      using new(1) by (simp add: configureDeployCeiling_def Let_def)
    have "ladder (configureDeployCeiling f' new) = ladder old"
      using lad new(1,4) unfolding cfg
      by (auto simp: ladder_def peakWindow_def isReality_def ceiling_defaults Let_def split: if_splits)
    then show ?thesis by (simp add: server_schedule_def cfg)
  qed
  moreover have "recallLadder region f' = recallLadder region f"
    if "region \<noteq> sv_Region old \<or> down \<le> 0" "\<forall>e. f \<noteq> BadLadders e" for region
    using that by (cases f) (auto simp: f' recallLadder_def loadLadderMemory_def)
  ultimately show ?thesis by (simp add: off)
qed

theorem ceiling_outlives_the_server_witness:
  "(let old = sample_node\<lparr>sv_Region := ''icn''\<rparr>; new = zero_server\<lparr>sv_Region := ''icn''\<rparr> in
    server_schedule (configureDeployCeiling (rememberLadder None ''t'' old NoLadders) new) = server_schedule old)"
proof -
  let ?old = "sample_node\<lparr>sv_Region := ''icn''\<rparr>" and ?new = "zero_server\<lparr>sv_Region := ''icn''\<rparr>"
  have "\<not> isReality ?new" "sv_Region ?new = sv_Region ?old" "sv_Region ?old \<noteq> []" "0 < OffDown (server_schedule ?old)"
    by (simp_all add: isReality_def zero_server_def sample_node_def server_schedule_def ladder_def peakWindow_def ceiling_defaults)
  with ceiling_outlives_the_server [OF refl, where now = "''t''" and old = ?old and f = NoLadders] show ?thesis unfolding Let_def by blast
qed

text \<open>An account with nothing on it, and nothing recorded.\<close>

definition empty_lid_sys :: "sample_world host sys" where
  "empty_lid_sys = \<lparr>sup = sup sample_sys, published = None, debt = None, world = sample_host\<lparr>h_store := Missing\<rparr>\<rparr>"


section \<open>Waking\<close>

lemma poll_never:
  assumes "\<And>d. a_status a d \<noteq> Some ''active''"
  shows "\<exists>w. poll_times a inst n h = (False, h\<lparr>h_world := w\<rparr>)"
proof (induction n arbitrary: h)
  case 0
  have "h = h\<lparr>h_world := h_world h\<rparr>" by simp
  then show ?case by (metis poll_times.simps(1))
next
  case (Suc n)
  have "\<exists>w. poll_active a inst h = (False, h\<lparr>h_world := w\<rparr>)"
    using assms by (auto simp: poll_active_def host_call_def split: prod.splits sum.splits)
  then obtain w where w: "poll_active a inst h = (False, h\<lparr>h_world := w\<rparr>)" by blast
  obtain w' where "poll_times a inst n (h\<lparr>h_world := w\<rparr>) = (False, h\<lparr>h_world := w, h_world := w'\<rparr>)"
    using Suc.IH [of "h\<lparr>h_world := w\<rparr>"] by auto
  then show ?case by (auto simp: w)
qed

text \<open>Only one of the two ways to start a halted server checks that it runs. If the provider accepts
  the start and never reports the instance active, waking it on the way up fails and leaves it
  recorded as halted, while the start command records it as running all the same.\<close>
theorem start_trusts_the_request:
  assumes "readServersAt (h_store h) = Inr servers" and "find sv_Active servers = Some t"
    and "lookup_server (sv_Name t) h = Inr t" and "sv_Stopped t" and "sv_InstanceID t \<noteq> []"
    and "fst (call_api a apiBudget ''POST'' (''/instances/'' @ sv_InstanceID t @ ''/start'') (h_world h)) = Inr d"
    and "\<And>d. a_status a d \<noteq> Some ''active''"
  shows "fst (autoWakeServer a e polls h) \<noteq> None \<and> h_store (snd (autoWakeServer a e polls h)) = h_store h \<and>
    runStart a e (sv_Name t) h =
      (let r = changeServer (f_store e) (sv_InstanceID t) (sv_Name t) (mark_stopped False) (h_store h)
       in (fst r, (snd (runStart a e (sv_Name t) h))\<lparr>h_store := snd r\<rparr>))"
proof -
  obtain w where call: "call_api a apiBudget ''POST'' (''/instances/'' @ sv_InstanceID t @ ''/start'') (h_world h) = (Inr d, w)"
    using assms(6) by (metis prod.collapse)
  obtain w1 where wake: "poll_times a (sv_InstanceID t) polls (h\<lparr>h_world := w\<rparr>) = (False, h\<lparr>h_world := w, h_world := w1\<rparr>)"
    using poll_never [OF assms(7)] by metis
  obtain w2 where start: "poll_times a (sv_InstanceID t) 30 (h\<lparr>h_world := w\<rparr>) = (False, h\<lparr>h_world := w, h_world := w2\<rparr>)"
    using poll_never [OF assms(7)] by metis
  have "fst (autoWakeServer a e polls h) \<noteq> None \<and> h_store (snd (autoWakeServer a e polls h)) = h_store h"
    using assms(1,2,5) call wake by (simp add: autoWakeServer_def host_call_def)
  moreover have "runStart a e (sv_Name t) h = record_stopped e t False (h\<lparr>h_world := w2\<rparr>)"
    using assms(3,4,5) call start by (simp add: runStart_def host_call_def)
  ultimately show ?thesis
    by (simp add: record_stopped_def Let_def split: prod.splits)
qed

definition halted_server :: Server where
  "halted_server = zero_server\<lparr>sv_Name := ''a'', sv_InstanceID := ''i1'', sv_Active := True, sv_Stopped := True\<rparr>"

theorem start_trusts_the_request_witness:
  "(let a = (provider (\<lambda>_ _. Answer ''[]''))\<lparr>a_status := (\<lambda>_. Some ''halted'')\<rparr>;
        h = sample_host\<lparr>h_store := Stored [halted_server]\<rparr> in
    fst (autoWakeServer a sample_files 60 h) \<noteq> None \<and>
    (\<exists>s. h_store (snd (runStart a sample_files ''a'' h)) = Stored [s] \<and> \<not> sv_Stopped s))"
proof -
  let ?a = "(provider (\<lambda>_ _. Answer ''[]''))\<lparr>a_status := (\<lambda>_. Some ''halted'')\<rparr>"
  let ?h = "sample_host\<lparr>h_store := Stored [halted_server]\<rparr>"
  have h: "readServersAt (h_store ?h) = Inr [halted_server]" "find sv_Active [halted_server] = Some halted_server"
      "lookup_server (sv_Name halted_server) ?h = Inr halted_server" "sv_Stopped halted_server"
      "sv_InstanceID halted_server \<noteq> []" "sv_Name halted_server = ''a''"
    by (simp_all add: readServersAt_def halted_server_def lookup_server_def zero_server_def)
  have "nat apiBudget \<noteq> 0" by (simp add: apiBudget_def)
  then have call: "fst (call_api ?a apiBudget ''POST'' (''/instances/'' @ sv_InstanceID halted_server @ ''/start'') (h_world ?h)) = Inr ''[]''"
    by (simp add: call_api_def serverAPIWithin_def provider_def idempotent_def Let_def apiBudget_def)
  have changed: "changeServer (f_store sample_files) (sv_InstanceID halted_server) (sv_Name halted_server) (mark_stopped False) (h_store ?h) =
      (None, Stored [mark_stopped False halted_server])"
    by (simp add: changeServer_def updateServersAt_def sample_files_def readServersAt_def change_server_def names_server_def
        halted_server_def zero_server_def writePrivateJSON_def good_calls_def first_error_def)
  have "\<not> sv_Stopped (mark_stopped False halted_server)" by (simp add: mark_stopped_def)
  then show ?thesis
    using start_trusts_the_request [OF h(1-5) call, of sample_files 60] changed h(6) unfolding Let_def
    by (auto dest: arg_cong [of _ _ "\<lambda>r. h_store (snd r)"])
qed

section \<open>Orphans\<close>

lemma host_call_journal:
  assumes "time_passes a" and "journals a log"
  shows "\<exists>n. log (h_world (snd (host_call a budget verb path h))) = log (h_world h) @ replicate n (verb, path)"
proof -
  obtain r w' n where "serverAPIWithin a (nat budget) budget verb path (h_world h) = Some (r, w')"
      "log w' = log (h_world h) @ replicate n (verb, path)"
    using management_contract [OF assms, of budget verb path "h_world h"] by blast
  then show ?thesis by (auto simp: host_call_def call_api_def)
qed

lemma destroy_orphans_journal:
  assumes "time_passes a" and "journals a log"
  shows "\<exists>calls. log (h_world (destroy_orphans a remote ids h)) = log (h_world h) @ calls \<and>
    set calls \<subseteq> {(''DELETE'', ''/instances/'' @ i) | i. i \<in> set ids} \<and> h_store (destroy_orphans a remote ids h) = h_store h"
proof (induction ids arbitrary: h)
  case (Cons i ids)
  obtain r h1 where c: "host_call a apiBudget ''DELETE'' (''/instances/'' @ i) h = (r, h1)" by force
  then obtain n where log1: "log (h_world h1) = log (h_world h) @ replicate n (''DELETE'', ''/instances/'' @ i)"
    using host_call_journal [OF assms, of apiBudget "''DELETE''" "''/instances/'' @ i" h] by auto
  have store1: "h_store h1 = h_store h" using c by (auto simp: host_call_def split: prod.splits)
  obtain h2 where run: "destroy_orphans a remote (i # ids) h = destroy_orphans a remote ids h2"
    and h2: "h_world h2 = h_world h1" "h_store h2 = h_store h1"
    using c by (cases r) (auto simp: Let_def split: option.splits)
  obtain calls where IH: "log (h_world (destroy_orphans a remote ids h2)) = log (h_world h2) @ calls"
      "set calls \<subseteq> {(''DELETE'', ''/instances/'' @ i) | i. i \<in> set ids}" "h_store (destroy_orphans a remote ids h2) = h_store h2"
    using Cons.IH by blast
  have "log (h_world (destroy_orphans a remote (i # ids) h)) =
      log (h_world h) @ (replicate n (''DELETE'', ''/instances/'' @ i) @ calls)"
    unfolding run IH(1) h2 log1 by (rule append_assoc)
  moreover have "set (replicate n (''DELETE'', ''/instances/'' @ i) @ calls) \<subseteq> {(''DELETE'', ''/instances/'' @ j) | j. j \<in> set (i # ids)}"
    using IH(2) by auto
  moreover have "h_store (destroy_orphans a remote (i # ids) h) = h_store h"
    unfolding run IH(3) h2 store1 by (rule refl)
  ultimately show ?case by blast
qed simp

text \<open>Cleaning up orphans never touches a recorded server. Whatever the account lists, the delete
  requests of a reconcile are for listed instances that no entry of the local list has, and the
  local list is left as it is.\<close>
theorem reconcile_spares_recorded_servers:
  assumes "time_passes a" and "journals a log"
  shows "\<exists>calls. log (h_world (destroy_orphans a remote (remote_only local remote) h)) = log (h_world h) @ calls \<and>
    (\<forall>c \<in> set calls. \<exists>i. c = (''DELETE'', ''/instances/'' @ i) \<and> i \<in> si_ID ` set remote \<and>
       (\<forall>s \<in> set local. sv_InstanceID s \<noteq> [] \<longrightarrow> sv_InstanceID s \<noteq> i)) \<and>
    h_store (destroy_orphans a remote (remote_only local remote) h) = h_store h"
proof -
  let ?h = "destroy_orphans a remote (remote_only local remote) h"
  have spared: "i \<in> si_ID ` set remote \<and> (\<forall>s \<in> set local. sv_InstanceID s \<noteq> [] \<longrightarrow> sv_InstanceID s \<noteq> i)"
    if "i \<in> set (remote_only local remote)" for i
    using that by (auto simp: remote_only_def list_ex_iff)
  obtain calls where run: "log (h_world ?h) = log (h_world h) @ calls" "h_store ?h = h_store h"
      and calls: "set calls \<subseteq> {(''DELETE'', ''/instances/'' @ i) | i. i \<in> set (remote_only local remote)}"
    using destroy_orphans_journal [OF assms, of remote "remote_only local remote" h] by (elim exE conjE)
  have "\<exists>i. c = (''DELETE'', ''/instances/'' @ i) \<and> i \<in> si_ID ` set remote \<and>
       (\<forall>s \<in> set local. sv_InstanceID s \<noteq> [] \<longrightarrow> sv_InstanceID s \<noteq> i)" if c: "c \<in> set calls" for c
  proof -
    obtain i where "c = (''DELETE'', ''/instances/'' @ i)" "i \<in> set (remote_only local remote)"
      using subsetD [OF calls c] by (elim CollectE exE conjE)
    then show ?thesis using spared by (intro exI [of _ i] conjI) simp_all
  qed
  with run show ?thesis by (intro exI [of _ calls] conjI ballI) simp_all
qed

theorem reconcile_spares_recorded_servers_witness:
  "(let remote = map (\<lambda>i. \<lparr>si_ID = i, si_Label = ''x'', si_Region = [], si_MainIP = [], si_V6MainIP = []\<rparr>) [''i1'', ''zz''];
        h = destroy_orphans (provider (\<lambda>_ _. Answer [])) remote (remote_only two_servers remote) sample_host in
     snd (h_world h) \<noteq> [] \<and> (\<forall>c \<in> set (snd (h_world h)). c = (''DELETE'', ''/instances/zz'')))"
proof -
  let ?remote = "map (\<lambda>i. \<lparr>si_ID = i, si_Label = ''x'', si_Region = [], si_MainIP = [], si_V6MainIP = []\<rparr>) [''i1'', ''zz'']"
  let ?h = "destroy_orphans (provider (\<lambda>_ _. Answer [])) ?remote (remote_only two_servers ?remote) sample_host"
  have local: "i = ''zz''"
    if "i \<in> si_ID ` set ?remote" "\<forall>s \<in> set two_servers. sv_InstanceID s \<noteq> [] \<longrightarrow> sv_InstanceID s \<noteq> i" for i
    using that by (auto simp: two_servers_def zero_server_def)
  have start: "snd (h_world sample_host) = []" by (simp add: sample_host_def)
  have "remote_only two_servers ?remote = [''zz'']"
    by (simp add: remote_only_def two_servers_def zero_server_def)
  then have "snd (h_world ?h) \<noteq> []"
    by (simp add: host_call_def provider_call apiBudget_def start debt_of_def sample_host_def Let_def)
  moreover obtain calls where run: "snd (h_world ?h) = snd (h_world sample_host) @ calls"
      and calls: "\<forall>c \<in> set calls. \<exists>i. c = (''DELETE'', ''/instances/'' @ i) \<and> i \<in> si_ID ` set ?remote \<and>
       (\<forall>s \<in> set two_servers. sv_InstanceID s \<noteq> [] \<longrightarrow> sv_InstanceID s \<noteq> i)"
    using reconcile_spares_recorded_servers [OF provider_ok, of "\<lambda>_ _. Answer []" ?remote two_servers sample_host] by blast
  moreover have "c = (''DELETE'', ''/instances/zz'')" if c: "c \<in> set calls" for c
  proof -
    obtain i where i: "c = (''DELETE'', ''/instances/'' @ i)" "i \<in> si_ID ` set ?remote"
        "\<forall>s \<in> set two_servers. sv_InstanceID s \<noteq> [] \<longrightarrow> sv_InstanceID s \<noteq> i"
      using bspec [OF calls c] by (elim exE conjE)
    show ?thesis using i(1) local [OF i(2,3)] by simp
  qed
  ultimately show ?thesis unfolding Let_def run start by simp
qed

end
