(* ===== verification/DNS_Takeover.thy ===== *)
theory DNS_Takeover
  imports Keeper
begin

text \<open>
  utils/dns.go and utils/gateway.go: pointing the resolvers of every network service at the tunnel and
  putting them back. The settings of the machine are a parameter, read and written through the
  functions of dnsSettings; the backup is a file that is written whole or not at all.
\<close>

section \<open>Reading the commands\<close>

definition tunGatewayDNS :: string where "tunGatewayDNS = ''172.19.0.1''"
definition PreferredDirectDNS :: string where "PreferredDirectDNS = ''223.5.5.5''"

text \<open>What listNetworkServices, getDNS and DefaultGateway make of the text a command printed.\<close>

definition parse_services :: "string \<Rightarrow> string list" where
  "parse_services out =
     filter (\<lambda>l. l \<noteq> [] \<and> cut_prefix l ''*'' = None \<and> cut_prefix l ''An asterisk'' = None)
       (map trim_space (split_lines out))"

definition parse_dns :: "string \<Rightarrow> string list" where
  "parse_dns out =
     (let s = trim_space out in
      if str_contains s ''aren't any DNS Servers'' then []
      else filter (\<lambda>l. l \<noteq> []) (map trim_space (split_lines s)))"

text \<open>strings.Cut at the first colon.\<close>

fun cut_colon :: "string \<Rightarrow> (string \<times> string) option" where
  "cut_colon [] = None"
| "cut_colon (c # cs) =
     (if c = CHR '':'' then Some ([], cs) else map_option (\<lambda>(k, v). (c # k, v)) (cut_colon cs))"

definition gateway_line :: "string \<times> string \<Rightarrow> string \<Rightarrow> string \<times> string" where
  "gateway_line g line =
     (case cut_colon (trim_space line) of
        None \<Rightarrow> g
      | Some (k, v) \<Rightarrow>
          if trim_space k = ''gateway'' then (trim_space v, snd g)
          else if trim_space k = ''interface'' then (fst g, trim_space v)
          else g)"

definition DefaultGateway :: "string + string \<Rightarrow> string + string \<times> string" where
  "DefaultGateway route =
     (case route of
        Inl err \<Rightarrow> Inl (''route get default: '' @ err)
      | Inr out \<Rightarrow>
          let g = foldl gateway_line ([], []) (split_lines out)
          in if fst g = [] then Inl ''no default gateway'' else Inr g)"

section \<open>Taking over and restoring\<close>

type_synonym dns_backup = "(string \<times> string list) list"

datatype backup_file = NoBackup | UnreadableBackup string | MalformedBackup string | NullBackup | Backup dns_backup

datatype backup_error = BackupMissing | BackupError string

text \<open>
  The struct's three functions, and what the file operations report: an error of saveBackup before
  or at its rename leaves the old file.
\<close>

record 'w dnsSettings =
  d_list :: "'w \<Rightarrow> string + string list"
  d_get :: "string \<Rightarrow> 'w \<Rightarrow> string + string list"
  d_set :: "string \<Rightarrow> string list \<Rightarrow> 'w \<Rightarrow> go_error \<times> 'w"
  d_save :: "dns_backup \<Rightarrow> go_error"
  d_remove :: go_error

definition stripTunGateway :: "string list \<Rightarrow> string list" where
  "stripTunGateway dns = filter (\<lambda>d. trim_space d \<noteq> tunGatewayDNS) dns"

definition readBackup :: "backup_file \<Rightarrow> backup_error + dns_backup" where
  "readBackup f =
     (case f of
        NoBackup \<Rightarrow> Inl BackupMissing
      | UnreadableBackup e \<Rightarrow> Inl (BackupError e)
      | MalformedBackup e \<Rightarrow> Inl (BackupError (''decode DNS backup: '' @ e))
      | NullBackup \<Rightarrow> Inl (BackupError ''invalid null DNS backup'')
      | Backup b \<Rightarrow> Inr b)"

definition saveBackup :: "'w dnsSettings \<Rightarrow> dns_backup \<Rightarrow> backup_file \<Rightarrow> go_error \<times> backup_file" where
  "saveBackup m b f = (case d_save m b of None \<Rightarrow> (None, Backup b) | Some e \<Rightarrow> (Some e, f))"

text \<open>The loop that records what each service has, unless an earlier run already did.\<close>

fun record_services :: "'w dnsSettings \<Rightarrow> string list \<Rightarrow> dns_backup \<Rightarrow> 'w \<Rightarrow> string + dns_backup" where
  "record_services m [] b w = Inr b"
| "record_services m (svc # svcs) b w =
     (if map_of b svc \<noteq> None then record_services m svcs b w
      else case d_get m svc w of
        Inl e \<Rightarrow> Inl (''read DNS for '' @ svc @ '': '' @ e)
      | Inr dns \<Rightarrow> record_services m svcs ((svc, stripTunGateway dns) # b) w)"

text \<open>The loop that points each service at the gateway; it goes on after an error.\<close>

fun point_services :: "'w dnsSettings \<Rightarrow> string list \<Rightarrow> 'w \<Rightarrow> string list \<times> 'w" where
  "point_services m [] w = ([], w)"
| "point_services m (svc # svcs) w =
     (case d_set m svc [tunGatewayDNS] w of
        (e, w) \<Rightarrow>
          (case point_services m svcs w of
             (errs, w) \<Rightarrow>
               ((case e of None \<Rightarrow> errs | Some e \<Rightarrow> (''set DNS for '' @ svc @ '': '' @ e) # errs), w)))"

definition joined :: "string list \<Rightarrow> go_error" where
  "joined errs = (if errs = [] then None else Some (join_errors errs))"

text \<open>
  takeOver up to the first change of a setting: the services and what the backup file is then, or
  the error with which it gives up.
\<close>

definition prepare_takeover :: "'w dnsSettings \<Rightarrow> backup_file \<Rightarrow> 'w \<Rightarrow> string + string list \<times> backup_file" where
  "prepare_takeover m f w =
     (case d_list m w of
        Inl e \<Rightarrow> Inl e
      | Inr svcs \<Rightarrow>
          (case (case readBackup f of Inl BackupMissing \<Rightarrow> Inr [] | Inl (BackupError e) \<Rightarrow> Inl e | Inr b \<Rightarrow> Inr b) of
             Inl e \<Rightarrow> Inl e
           | Inr b \<Rightarrow>
               (case record_services m svcs b w of
                  Inl e \<Rightarrow> Inl e
                | Inr b \<Rightarrow>
                    (case saveBackup m b f of
                       (Some e, f) \<Rightarrow> Inl (''save DNS backup: '' @ e)
                     | (None, f) \<Rightarrow> Inr (svcs, f)))))"

definition takeOver :: "'w dnsSettings \<Rightarrow> backup_file \<Rightarrow> 'w \<Rightarrow> go_error \<times> backup_file \<times> 'w" where
  "takeOver m f w =
     (case prepare_takeover m f w of
        Inl e \<Rightarrow> (Some e, f, w)
      | Inr (svcs, f) \<Rightarrow> (case point_services m svcs w of (errs, w) \<Rightarrow> (joined errs, f, w)))"

definition empty_as_dhcp :: "string list \<Rightarrow> string list" where
  "empty_as_dhcp dns = (if dns = [] then [''Empty''] else dns)"

text \<open>With a backup: the services that could not be restored, their errors, and the world.\<close>

fun restore_services :: "'w dnsSettings \<Rightarrow> dns_backup \<Rightarrow> 'w \<Rightarrow> dns_backup \<times> string list \<times> 'w" where
  "restore_services m [] w = ([], [], w)"
| "restore_services m ((svc, dns) # b) w =
     (case d_set m svc (empty_as_dhcp dns) w of
        (e, w) \<Rightarrow>
          (case restore_services m b w of
             (pending, errs, w) \<Rightarrow>
               (case e of
                  None \<Rightarrow> (pending, errs, w)
                | Some e \<Rightarrow> ((svc, dns) # pending, (''restore DNS for '' @ svc @ '': '' @ e) # errs, w))))"

text \<open>Without one: a service that still points at the tunnel loses the gateway.\<close>

fun clean_services :: "'w dnsSettings \<Rightarrow> string list \<Rightarrow> 'w \<Rightarrow> string list \<times> 'w" where
  "clean_services m [] w = ([], w)"
| "clean_services m (svc # svcs) w =
     (case d_get m svc w of
        Inl e \<Rightarrow> (case clean_services m svcs w of (errs, w) \<Rightarrow> ((''read DNS for '' @ svc @ '': '' @ e) # errs, w))
      | Inr current \<Rightarrow>
          let clean = stripTunGateway current in
          if length clean = length current then clean_services m svcs w
          else
            (case d_set m svc (empty_as_dhcp clean) w of
               (e, w) \<Rightarrow>
                 (case clean_services m svcs w of
                    (errs, w) \<Rightarrow>
                      ((case e of None \<Rightarrow> errs | Some e \<Rightarrow> (''restore DNS for '' @ svc @ '': '' @ e) # errs), w))))"

definition restore :: "'w dnsSettings \<Rightarrow> backup_file \<Rightarrow> 'w \<Rightarrow> go_error \<times> backup_file \<times> 'w" where
  "restore m f w =
     (case readBackup f of
        Inl BackupMissing \<Rightarrow>
          (case d_list m w of
             Inl e \<Rightarrow> (Some e, f, w)
           | Inr svcs \<Rightarrow> (case clean_services m svcs w of (errs, w) \<Rightarrow> (joined errs, f, w)))
      | Inl (BackupError e) \<Rightarrow> (Some e, f, w)
      | Inr b \<Rightarrow>
          (case restore_services m b w of
             (pending, errs, w) \<Rightarrow>
               if pending \<noteq> []
               then (case saveBackup m pending f of
                       (e, f) \<Rightarrow> (joined (errs @ (case e of None \<Rightarrow> [] | Some e \<Rightarrow> [e])), f, w))
               else (case d_remove m of None \<Rightarrow> (None, NoBackup, w) | Some e \<Rightarrow> (Some e, f, w))))"

lemma joined_None [simp]: "joined errs = None \<longleftrightarrow> errs = []"
  by (simp add: joined_def)

section \<open>The networksetup command\<close>

text \<open>What a run of the command with the given arguments prints, or its error.\<close>

record 'w network_tool =
  run_tool :: "string list \<Rightarrow> 'w \<Rightarrow> (string + string) \<times> 'w"

definition listNetworkServices :: "'w network_tool \<Rightarrow> 'w \<Rightarrow> string + string list" where
  "listNetworkServices t w =
     (case fst (run_tool t [''-listallnetworkservices''] w) of Inl e \<Rightarrow> Inl e | Inr out \<Rightarrow> Inr (parse_services out))"

definition getDNS :: "'w network_tool \<Rightarrow> string \<Rightarrow> 'w \<Rightarrow> string + string list" where
  "getDNS t svc w =
     (case fst (run_tool t [''-getdnsservers'', svc] w) of Inl e \<Rightarrow> Inl e | Inr out \<Rightarrow> Inr (parse_dns out))"

definition setDNS :: "'w network_tool \<Rightarrow> string \<Rightarrow> string list \<Rightarrow> 'w \<Rightarrow> go_error \<times> 'w" where
  "setDNS t svc dns w =
     (case run_tool t (''-setdnsservers'' # svc # dns) w of (Inl e, w) \<Rightarrow> (Some e, w) | (Inr _, w) \<Rightarrow> (None, w))"

definition systemDNSSettings :: "'w network_tool \<Rightarrow> (dns_backup \<Rightarrow> go_error) \<Rightarrow> go_error \<Rightarrow> 'w dnsSettings" where
  "systemDNSSettings t save remove =
     \<lparr>d_list = listNetworkServices t, d_get = getDNS t, d_set = setDNS t, d_save = save, d_remove = remove\<rparr>"

section \<open>The network settings as an interface\<close>

text \<open>What a command can print and take as one resolver.\<close>

definition clean_line :: "string \<Rightarrow> bool" where
  "clean_line d = (d \<noteq> [] \<and> \<not> is_space (hd d) \<and> \<not> is_space (List.last d) \<and> CHR 0x0A \<notin> set d \<and>
     \<not> str_contains d ''aren't any DNS Servers'')"

text \<open>
  Interface: reading a service gives what is set; setting one changes no other, and once it reports
  success the resolvers given are set, none for the word Empty. A failed call may have done anything
  to its own service.
\<close>

locale network_settings =
  fixes m :: "'w dnsSettings"
    and servers :: "'w \<Rightarrow> string \<Rightarrow> string list"
  assumes get_servers: "d_get m svc w = Inr dns \<Longrightarrow> dns = servers w svc"
    and set_other: "d_set m svc dns w = (e, w') \<Longrightarrow> other \<noteq> svc \<Longrightarrow> servers w' other = servers w other"
    and set_done: "d_set m svc dns w = (None, w') \<Longrightarrow> dns \<noteq> [] \<Longrightarrow> list_all clean_line dns \<Longrightarrow>
      servers w' svc = (if dns = [''Empty''] then [] else dns)"
begin

lemma point_other: "point_services m svcs w = (errs, w') \<Longrightarrow> svc \<notin> set svcs \<Longrightarrow> servers w' svc = servers w svc"
  by (induction svcs arbitrary: w errs w') (auto split: prod.splits dest: set_other)

lemma point_done:
  "point_services m svcs w = ([], w') \<Longrightarrow> svc \<in> set svcs \<Longrightarrow> servers w' svc = [tunGatewayDNS]"
proof (induction svcs arbitrary: w)
  case (Cons s svcs)
  obtain e w1 where s: "d_set m s [tunGatewayDNS] w = (e, w1)" by force
  obtain errs w2 where r: "point_services m svcs w1 = (errs, w2)" by force
  from Cons.prems s r have [simp]: "e = None" "errs = []" "w2 = w'" by (auto split: option.splits)
  have "clean_line tunGatewayDNS" by (simp add: clean_line_def tunGatewayDNS_def is_space_def)
  with set_done [of s "[tunGatewayDNS]" w w1] s have "servers w1 s = [tunGatewayDNS]"
    by (simp add: tunGatewayDNS_def)
  with point_other [of svcs w1 "[]" w' s] r Cons.IH [of w1] Cons.prems(2) show ?case
    by (cases "s \<in> set svcs") auto
qed simp

lemma record_keeps:
  assumes "record_services m svcs b w = Inr b'"
    and "\<And>svc. svc \<notin> fst ` set b \<Longrightarrow> servers w svc = orig svc \<and> stripTunGateway (orig svc) = orig svc"
    and "\<And>svc dns. (svc, dns) \<in> set b \<Longrightarrow> dns = orig svc"
  shows "fst ` set b' = fst ` set b \<union> set svcs \<and> (\<forall>(svc, dns) \<in> set b'. dns = orig svc)"
  using assms
proof (induction svcs arbitrary: b)
  case (Cons s svcs)
  show ?case
  proof (cases "map_of b s")
    case None
    then have new: "s \<notin> fst ` set b" by (simp add: map_of_eq_None_iff)
    from Cons.prems(1) None obtain dns where get: "d_get m s w = Inr dns"
      and rest: "record_services m svcs ((s, stripTunGateway dns) # b) w = Inr b'"
      by (auto split: sum.splits)
    from get_servers [OF get] Cons.prems(2) [OF new] have dns: "stripTunGateway dns = orig s" by simp
    have "fst ` set b' = fst ` set ((s, stripTunGateway dns) # b) \<union> set svcs \<and> (\<forall>(svc, dns) \<in> set b'. dns = orig svc)"
      using rest dns Cons.prems(2,3) by (intro Cons.IH) auto
    then show ?thesis by auto
  next
    case (Some d)
    then have "s \<in> fst ` set b" by (force dest: map_of_SomeD)
    moreover have "fst ` set b' = fst ` set b \<union> set svcs \<and> (\<forall>(svc, dns) \<in> set b'. dns = orig svc)"
      using Cons.prems Some by (intro Cons.IH) auto
    ultimately show ?thesis by auto
  qed
qed auto

lemma restore_other: "restore_services m b w = (pending, errs, w') \<Longrightarrow> svc \<notin> fst ` set b \<Longrightarrow> servers w' svc = servers w svc"
  by (induction b arbitrary: w pending errs w' rule: list.induct)
    (auto split: prod.splits option.splits dest: set_other)

lemma restore_pending:
  assumes "restore_services m b w = (pending, errs, w')"
    and "\<And>svc dns. (svc, dns) \<in> set b \<Longrightarrow> dns = orig svc"
    and "\<And>svc. list_all clean_line (orig svc) \<and> orig svc \<noteq> [''Empty'']"
  shows "(\<forall>svc \<in> fst ` set b. svc \<in> fst ` set pending \<or> servers w' svc = orig svc) \<and>
    set pending \<subseteq> set b \<and> (pending = [] \<longleftrightarrow> errs = [])"
  using assms(1,2)
proof (induction b arbitrary: w pending errs)
  case (Cons p b)
  obtain svc dns where p: "p = (svc, dns)" by force
  obtain e w1 where s: "d_set m svc (empty_as_dhcp dns) w = (e, w1)" by force
  obtain pending1 errs1 w2 where r: "restore_services m b w1 = (pending1, errs1, w2)" by (metis prod_cases3)
  have w2 [simp]: "w2 = w'" using Cons.prems(1) p s r by (auto split: option.splits)
  have IH: "(\<forall>svc \<in> fst ` set b. svc \<in> fst ` set pending1 \<or> servers w2 svc = orig svc) \<and>
      set pending1 \<subseteq> set b \<and> (pending1 = [] \<longleftrightarrow> errs1 = [])"
    using Cons.IH [of w1 pending1 errs1] r Cons.prems(2) by auto
  have dns: "dns = orig svc" using Cons.prems(2) p by auto
  show ?case
  proof (cases e)
    case None
    with Cons.prems(1) p s r have [simp]: "pending = pending1" "errs = errs1" by auto
    have "list_all clean_line (empty_as_dhcp dns)" and "empty_as_dhcp dns \<noteq> []"
      using assms(3) [of svc] dns by (auto simp: empty_as_dhcp_def clean_line_def is_space_def)
    then have "servers w1 svc = orig svc"
      using set_done [of svc "empty_as_dhcp dns" w w1] s None assms(3) [of svc] dns
      by (auto simp: empty_as_dhcp_def split: if_splits)
    then have "svc \<in> fst ` set b \<or> servers w2 svc = orig svc"
      using restore_other [OF r, of svc] by auto
    with IH p show ?thesis by auto
  next
    case (Some err)
    with Cons.prems(1) p s r have "pending = (svc, dns) # pending1" "errs \<noteq> []" by auto
    with IH p show ?thesis by auto
  qed
qed auto

lemma clean_nothing:
  assumes "clean_services m svcs w = (errs, w')"
    and "\<And>svc. stripTunGateway (servers w svc) = servers w svc"
  shows "w' = w"
  using assms
proof (induction svcs arbitrary: errs)
  case (Cons s svcs)
  obtain errs1 w1 where r: "clean_services m svcs w = (errs1, w1)" by force
  show ?case
  proof (cases "d_get m s w")
    case (Inr current)
    then have "stripTunGateway current = current" using get_servers Cons.prems(2) by metis
    with Inr Cons r show ?thesis by (simp add: Let_def)
  qed (use Cons r in auto)
qed simp

end

text \<open>
  What can happen to the backup and the settings: a takeover or a restore, whatever its calls report,
  and either of them killed after any number of settings.
\<close>

inductive dns_step :: "('w \<Rightarrow> string \<Rightarrow> string list) \<Rightarrow> backup_file \<times> 'w \<Rightarrow> backup_file \<times> 'w \<Rightarrow> bool"
  for servers :: "'w \<Rightarrow> string \<Rightarrow> string list" where
  dns_take: "network_settings m servers \<Longrightarrow> takeOver m f w = (e, f', w') \<Longrightarrow> dns_step servers (f, w) (f', w')"
| dns_take_killed: "network_settings m servers \<Longrightarrow> prepare_takeover m f w = Inr (svcs, f') \<Longrightarrow>
    point_services m (take k svcs) w = (errs, w') \<Longrightarrow> dns_step servers (f, w) (f', w')"
| dns_restore: "network_settings m servers \<Longrightarrow> restore m f w = (e, f', w') \<Longrightarrow> dns_step servers (f, w) (f', w')"
| dns_restore_killed: "network_settings m servers \<Longrightarrow> readBackup f = Inr b \<Longrightarrow>
    restore_services m (take k b) w = (pending, errs, w') \<Longrightarrow> dns_step servers (f, w) (f, w')"

inductive_cases dns_stepE: "dns_step servers (f, w) (f', w')"

inductive dns_reach :: "('w \<Rightarrow> string \<Rightarrow> string list) \<Rightarrow> (string \<Rightarrow> string list) \<Rightarrow> backup_file \<times> 'w \<Rightarrow> bool"
  for servers :: "'w \<Rightarrow> string \<Rightarrow> string list" and orig :: "string \<Rightarrow> string list" where
  dns_start: "servers w = orig \<Longrightarrow> dns_reach servers orig (NoBackup, w)"
| dns_more: "dns_reach servers orig s \<Longrightarrow> dns_step servers s s' \<Longrightarrow> dns_reach servers orig s'"

text \<open>The settings of a user: resolvers a command can print, none of them the tunnel's.\<close>

definition own_settings :: "(string \<Rightarrow> string list) \<Rightarrow> bool" where
  "own_settings orig = (\<forall>svc. list_all clean_line (orig svc) \<and> orig svc \<noteq> [''Empty''] \<and> stripTunGateway (orig svc) = orig svc)"

definition dns_inv :: "('w \<Rightarrow> string \<Rightarrow> string list) \<Rightarrow> (string \<Rightarrow> string list) \<Rightarrow> backup_file \<times> 'w \<Rightarrow> bool" where
  "dns_inv servers orig s =
     (case s of (f, w) \<Rightarrow>
        case f of
          NoBackup \<Rightarrow> servers w = orig
        | Backup b \<Rightarrow> (\<forall>(svc, dns) \<in> set b. dns = orig svc) \<and> (\<forall>svc. svc \<notin> fst ` set b \<longrightarrow> servers w svc = orig svc)
        | _ \<Rightarrow> False)"

lemma prepared:
  assumes "network_settings m servers" and "own_settings orig" and "dns_inv servers orig (f, w)"
    and "prepare_takeover m f w = Inr (svcs, f')"
  shows "\<exists>b'. f' = Backup b' \<and> set svcs \<subseteq> fst ` set b' \<and> dns_inv servers orig (f', w)"
proof -
  obtain b where b: "(case readBackup f of Inl BackupMissing \<Rightarrow> Inr [] | Inl (BackupError e) \<Rightarrow> Inl e | Inr b \<Rightarrow> Inr b) = Inr b"
    using assms(4) by (auto simp: prepare_takeover_def split: sum.splits)
  obtain b' where r: "record_services m svcs b w = Inr b'" "f' = Backup b'"
    using assms(4) b by (auto simp: prepare_takeover_def saveBackup_def split: sum.splits option.splits prod.splits)
  have "\<And>svc dns. (svc, dns) \<in> set b \<Longrightarrow> dns = orig svc" and "\<And>svc. svc \<notin> fst ` set b \<Longrightarrow> servers w svc = orig svc"
    using b assms(3) by (auto simp: readBackup_def dns_inv_def split: backup_file.splits)
  with network_settings.record_keeps [OF assms(1) r(1), of orig] assms(2) have "fst ` set b' = fst ` set b \<union> set svcs" "\<forall>(svc, dns) \<in> set b'. dns = orig svc"
    by (auto simp: own_settings_def)
  with \<open>\<And>svc. svc \<notin> fst ` set b \<Longrightarrow> servers w svc = orig svc\<close> r(2) show ?thesis by (auto simp: dns_inv_def)
qed

lemma restored:
  assumes "network_settings m servers" and "own_settings orig" and "dns_inv servers orig (Backup b, w)"
    and "restore_services m b w = (pending, errs, w')"
  shows "dns_inv servers orig (Backup pending, w')" and "dns_inv servers orig (Backup b, w')"
    and "pending = [] \<longleftrightarrow> errs = []"
proof -
  have b: "\<And>svc dns. (svc, dns) \<in> set b \<Longrightarrow> dns = orig svc" "\<And>svc. svc \<notin> fst ` set b \<Longrightarrow> servers w svc = orig svc"
    using assms(3) by (auto simp: dns_inv_def)
  have p: "(\<forall>svc \<in> fst ` set b. svc \<in> fst ` set pending \<or> servers w' svc = orig svc) \<and>
      set pending \<subseteq> set b \<and> (pending = [] \<longleftrightarrow> errs = [])"
    using network_settings.restore_pending [OF assms(1,4), of orig] b(1) assms(2) by (auto simp: own_settings_def)
  moreover have out: "servers w' svc = orig svc" if "svc \<notin> fst ` set b" for svc
    using network_settings.restore_other [OF assms(1,4) that] b(2) [OF that] by simp
  ultimately show "pending = [] \<longleftrightarrow> errs = []" "dns_inv servers orig (Backup b, w')"
    using b(1) by (auto simp: dns_inv_def)
  have "servers w' svc = orig svc" if "svc \<notin> fst ` set pending" for svc
    using p out that by (cases "svc \<in> fst ` set b") auto
  with p b(1) show "dns_inv servers orig (Backup pending, w')" by (auto simp: dns_inv_def)
qed

lemma restore_inv:
  assumes "network_settings m servers" and "own_settings orig" and "dns_inv servers orig (f, w)"
    and "restore m f w = (e, f', w')"
  shows "dns_inv servers orig (f', w') \<and> (e = None \<longrightarrow> servers w' = orig)"
proof (cases f)
  case NoBackup
  have "servers w = orig" using assms(3) NoBackup by (simp add: dns_inv_def)
  moreover from assms(2) this have "\<And>svc. stripTunGateway (servers w svc) = servers w svc" by (simp add: own_settings_def)
  ultimately show ?thesis
    using assms(4) NoBackup network_settings.clean_nothing [OF assms(1)]
    by (auto simp: restore_def readBackup_def dns_inv_def split: sum.splits prod.splits)
next
  case (Backup b)
  obtain pending errs w1 where r: "restore_services m b w = (pending, errs, w1)" by (metis prod_cases3)
  note inv = restored [OF assms(1,2) assms(3)[unfolded Backup] r]
  show ?thesis
  proof (cases "pending = []")
    case True
    then have "servers w1 = orig" using inv(1) by (auto simp: dns_inv_def)
    with True r inv assms(4) Backup show ?thesis
      by (auto simp: restore_def readBackup_def dns_inv_def split: option.splits)
  next
    case False
    then have "errs \<noteq> []" using inv(3) by simp
    with False r inv assms(4) Backup show ?thesis
      by (auto simp: restore_def readBackup_def saveBackup_def split: option.splits prod.splits)
  qed
qed (use assms(3) in \<open>auto simp: dns_inv_def\<close>)

lemma point_inv:
  assumes "network_settings m servers" and "dns_inv servers orig (Backup b, w)" and "set svcs \<subseteq> fst ` set b"
    and "point_services m svcs w = (errs, w')"
  shows "dns_inv servers orig (Backup b, w')"
proof -
  have "servers w' svc = orig svc" if "svc \<notin> fst ` set b" for svc
    using network_settings.point_other [OF assms(1,4), of svc] assms(2,3) that by (auto simp: dns_inv_def)
  with assms(2) show ?thesis by (auto simp: dns_inv_def)
qed

lemma dns_step_inv:
  assumes "dns_step servers s s'" and "own_settings orig" and "dns_inv servers orig s"
  shows "dns_inv servers orig s'"
  using assms(1,3)
proof cases
  case (dns_take m f w e f' w')
  show ?thesis
  proof (cases "prepare_takeover m f w")
    case (Inr r)
    obtain svcs f1 where r: "r = (svcs, f1)" by force
    from prepared [OF dns_take(3) assms(2)] assms(3) dns_take(1) Inr r
    obtain b where b: "f1 = Backup b" "set svcs \<subseteq> fst ` set b" "dns_inv servers orig (f1, w)" by blast
    obtain errs w1 where pt: "point_services m svcs w = (errs, w1)" by force
    with dns_take(4) Inr r have "f' = f1" "w' = w1" by (simp_all add: takeOver_def)
    with point_inv [OF dns_take(3) _ b(2) pt] b dns_take(2) show ?thesis by simp
  qed (use dns_take assms(3) in \<open>auto simp: takeOver_def\<close>)
next
  case (dns_take_killed m f w svcs f' k errs w')
  from prepared [OF dns_take_killed(3) assms(2) _ dns_take_killed(4)] assms(3) dns_take_killed(1)
  obtain b where b: "f' = Backup b" "set svcs \<subseteq> fst ` set b" "dns_inv servers orig (f', w)" by blast
  have "set (take k svcs) \<subseteq> fst ` set b" using b(2) set_take_subset by fast
  with point_inv [OF dns_take_killed(3) _ _ dns_take_killed(5)] b dns_take_killed(2) show ?thesis by simp
next
  case (dns_restore m f w e f' w')
  with restore_inv [OF dns_restore(3) assms(2) _ dns_restore(4)] assms(3) show ?thesis by simp
next
  case (dns_restore_killed m f b k w pending errs w')
  have f: "f = Backup b" using dns_restore_killed(4) by (auto simp: readBackup_def split: backup_file.splits)
  have inv: "\<And>svc dns. (svc, dns) \<in> set b \<Longrightarrow> dns = orig svc" "\<And>svc. svc \<notin> fst ` set b \<Longrightarrow> servers w svc = orig svc"
    using assms(3) dns_restore_killed(1) f by (auto simp: dns_inv_def)
  have "servers w' svc = orig svc" if "svc \<notin> fst ` set b" for svc
  proof -
    have "svc \<notin> fst ` set (take k b)" using that set_take_subset [of k b] by (meson image_mono subsetD)
    from network_settings.restore_other [OF dns_restore_killed(3,5) this] inv(2) [OF that] show ?thesis by simp
  qed
  with inv(1) f dns_restore_killed(2) show ?thesis by (auto simp: dns_inv_def)
qed

lemma dns_reach_inv: "dns_reach servers orig s \<Longrightarrow> own_settings orig \<Longrightarrow> dns_inv servers orig s"
  by (induction rule: dns_reach.induct) (auto intro: dns_step_inv simp: dns_inv_def [where s = "(NoBackup, _)"])

section \<open>Properties\<close>

text \<open>C2: No resolver of the user is ever lost. After any history of takeovers and restores, each of
  them with any calls failing or killed at any point between two settings, every network service
  either has the resolvers the user gave it or has them on record in the backup.\<close>
theorem resolvers_never_lost:
  assumes "dns_reach servers orig (f, w)" and "own_settings orig"
  shows "servers w svc = orig svc \<or> (\<exists>b. f = Backup b \<and> map_of b svc = Some (orig svc))"
proof -
  have inv: "dns_inv servers orig (f, w)" using dns_reach_inv [OF assms] .
  show ?thesis
  proof (cases "servers w svc = orig svc")
    case False
    with inv obtain b where f: "f = Backup b" "svc \<in> fst ` set b" "\<forall>(svc, dns) \<in> set b. dns = orig svc"
      by (auto simp: dns_inv_def split: backup_file.splits)
    from f(2) obtain d where "map_of b svc = Some d" by (metis map_of_eq_None_iff not_None_eq)
    with f(3) have "map_of b svc = Some (orig svc)" by (force dest: map_of_SomeD)
    with f(1) show ?thesis by blast
  qed simp
qed

text \<open>A restore that reports no error has given every service its own resolvers back, and one whose
  calls all work reports none. This holds after any history, so a restore that failed can be
  repeated until it succeeds.\<close>
theorem restore_gives_back:
  assumes "dns_reach servers orig (f, w)" and "own_settings orig" and "network_settings m servers"
    and "restore m f w = (e, f', w')"
  shows "(e = None \<longrightarrow> servers w' = orig) \<and>
    ((\<forall>svc dns w. fst (d_set m svc dns w) = None) \<and> d_remove m = None \<and> (\<exists>b. f = Backup b) \<longrightarrow>
       e = None \<and> f' = NoBackup)"
proof -
  have "e = None \<and> f' = NoBackup"
    if "\<forall>svc dns w. fst (d_set m svc dns w) = None" "d_remove m = None" "f = Backup b" for b
  proof -
    have "fst (restore_services m b w) = []" for w
      using that(1) by (induction b arbitrary: w) (auto split: prod.splits option.splits, (metis fst_conv option.distinct(1))+)
    then obtain errs w1 where "restore_services m b w = ([], errs, w1)" by (metis prod.collapse)
    with that assms(4) show ?thesis by (auto simp: restore_def readBackup_def)
  qed
  with restore_inv [OF assms(3,2) dns_reach_inv [OF assms(1,2)] assms(4)] show ?thesis by blast
qed

section \<open>A command that keeps a table\<close>

text \<open>
  The documented command on a table of services: it lists them under a header line, prints one
  resolver a line or says that there are none, and sets what it is given.
\<close>

record settings_table =
  st_services :: "string list"
  st_dns :: "string \<Rightarrow> string list"

definition printed_lines :: "string list \<Rightarrow> string" where
  "printed_lines ls = concat (map (\<lambda>l. l @ [CHR 0x0A]) ls)"

definition no_servers :: "string \<Rightarrow> string" where
  "no_servers svc = ''There aren't any DNS Servers set on '' @ svc @ ''.'' @ [CHR 0x0A]"

definition table_command :: "string list \<Rightarrow> settings_table \<Rightarrow> (string + string) \<times> settings_table" where
  "table_command args w =
     (case args of
        [verb] \<Rightarrow> (Inr (printed_lines (''An asterisk (*) denotes that a network service is disabled.'' # st_services w)), w)
      | verb # svc # dns \<Rightarrow>
          if verb = ''-getdnsservers''
          then (Inr (if st_dns w svc = [] then no_servers svc else printed_lines (st_dns w svc)), w)
          else if verb = ''-setdnsservers''
          then (Inr [], w\<lparr>st_dns := (st_dns w)(svc := if dns = [''Empty''] then [] else dns)\<rparr>)
          else (Inl ''unknown command'', w)
      | [] \<Rightarrow> (Inl ''usage'', w))"

definition table_tool :: "settings_table network_tool" where
  "table_tool = \<lparr>run_tool = table_command\<rparr>"

definition table_servers :: "settings_table \<Rightarrow> string \<Rightarrow> string list" where
  "table_servers w svc = parse_dns (if st_dns w svc = [] then no_servers svc else printed_lines (st_dns w svc))"

lemma trim_space_id: "s \<noteq> [] \<Longrightarrow> \<not> is_space (hd s) \<Longrightarrow> \<not> is_space (List.last s) \<Longrightarrow> trim_space s = s"
  using dropWhile_eq_self_iff [of is_space s] dropWhile_eq_self_iff [of is_space "rev s"]
  by (simp add: trim_space_def hd_rev)

lemma printed_lines_join: "ls \<noteq> [] \<Longrightarrow> printed_lines ls = join_errors ls @ [CHR 0x0A]"
  by (induction ls rule: join_errors.induct) (auto simp: printed_lines_def)

lemma join_ends:
  "ls \<noteq> [] \<Longrightarrow> list_all (\<lambda>l. l \<noteq> []) ls \<Longrightarrow>
     join_errors ls \<noteq> [] \<and> hd (join_errors ls) = hd (hd ls) \<and> List.last (join_errors ls) = List.last (List.last ls)"
  by (induction ls rule: join_errors.induct) auto

lemma split_join: "ls \<noteq> [] \<Longrightarrow> list_all (\<lambda>l. CHR 0x0A \<notin> set l) ls \<Longrightarrow> split_lines (join_errors ls) = ls"
proof (induction ls rule: join_errors.induct)
  case (2 e)
  then have "CHR 0x0A \<notin> set e" by simp
  then show ?case by (induction e) auto
qed (auto simp: split_lines_line)

lemma contains_line:
  assumes "str_contains (a @ CHR 0x0A # b) p" and "CHR 0x0A \<notin> set p"
  shows "str_contains a p \<or> str_contains b p"
proof -
  obtain x y where eq: "a @ CHR 0x0A # b = x @ p @ y" using assms(1) by (auto simp: str_contains_iff)
  then consider us where "a = x @ us" "us @ CHR 0x0A # b = p @ y" | us where "a @ us = x" "CHR 0x0A # b = us @ p @ y"
    by (auto simp: append_eq_append_conv2)
  then show ?thesis
  proof cases
    case (1 us)
    then consider vs where "us = p @ vs" | vs where "us @ vs = p" "CHR 0x0A # b = vs @ y"
      by (auto simp: append_eq_append_conv2)
    then show ?thesis
    proof cases
      case 1
      with \<open>a = x @ us\<close> show ?thesis by (auto simp: str_contains_iff)
    next
      case (2 vs)
      with assms(2) have "vs = []" by (cases vs) auto
      with 2 \<open>a = x @ us\<close> have "a = x @ p @ []" by simp
      then show ?thesis unfolding str_contains_iff by blast
    qed
  next
    case (2 us)
    show ?thesis
    proof (cases us)
      case Nil
      with 2 assms(2) have "p = []" by (cases p) auto
      then show ?thesis by (auto simp: str_contains_iff)
    qed (use 2 in \<open>auto simp: str_contains_iff\<close>)
  qed
qed

lemma join_contains:
  "str_contains (join_errors ls) p \<Longrightarrow> CHR 0x0A \<notin> set p \<Longrightarrow> p \<noteq> [] \<Longrightarrow> \<exists>l \<in> set ls. str_contains l p"
  by (induction ls rule: join_errors.induct) (auto dest: contains_line)

lemma parse_printed:
  assumes "list_all clean_line dns"
  shows "parse_dns (if dns = [] then no_servers svc else printed_lines dns) = dns"
proof (cases "dns = []")
  case True
  have "str_contains (trim_space (no_servers svc)) ''aren't any DNS Servers''"
  proof -
    let ?l = "''There aren't any DNS Servers set on '' @ svc @ ''.''"
    have "trim_space (no_servers svc) = trim_space (?l @ [CHR 0x0A])" by (simp add: no_servers_def)
    also have "\<dots> = trim_space ?l" by (rule trim_space_snoc) (simp add: is_space_def)
    also have "\<dots> = ?l" by (rule trim_space_id) (simp_all add: is_space_def)
    finally have "trim_space (no_servers svc) = ''There '' @ ''aren't any DNS Servers'' @ '' set on '' @ svc @ ''.''"
      by simp
    then show ?thesis unfolding str_contains_iff by blast
  qed
  with True show ?thesis by (simp add: parse_dns_def)
next
  case False
  have lines: "list_all (\<lambda>l. l \<noteq> []) dns" "list_all (\<lambda>l. CHR 0x0A \<notin> set l) dns"
    using assms by (auto simp: list_all_iff clean_line_def)
  have ends: "\<not> is_space (hd (hd dns))" "\<not> is_space (List.last (List.last dns))"
    using assms False by (auto simp: list_all_iff clean_line_def)
  have "trim_space (printed_lines dns) = trim_space (join_errors dns)"
    unfolding printed_lines_join [OF False] by (rule trim_space_snoc) (simp add: is_space_def)
  also have "\<dots> = join_errors dns"
    using join_ends [OF False lines(1)] ends by (intro trim_space_id) simp_all
  finally have t: "trim_space (printed_lines dns) = join_errors dns" .
  have no: "\<not> str_contains (join_errors dns) ''aren't any DNS Servers''"
    using join_contains [of dns "''aren't any DNS Servers''"] assms by (auto simp: list_all_iff clean_line_def)
  have "map trim_space dns = dns"
    using assms by (auto simp: list_all_iff clean_line_def intro!: map_idI trim_space_id)
  moreover have "filter (\<lambda>l. l \<noteq> []) dns = dns" using lines(1) by (simp add: list_all_iff)
  ultimately show ?thesis using False by (simp add: parse_dns_def t no split_join [OF False lines(2)])
qed

interpretation networksetup: network_settings "systemDNSSettings table_tool save remove" table_servers for save remove
proof unfold_locales
  fix svc dns and w w' :: settings_table and e other
  show "d_get (systemDNSSettings table_tool save remove) svc w = Inr dns \<Longrightarrow> dns = table_servers w svc"
    by (simp add: systemDNSSettings_def getDNS_def table_tool_def table_command_def table_servers_def)
  assume s: "d_set (systemDNSSettings table_tool save remove) svc dns w = (e, w')"
  then have w': "w' = w\<lparr>st_dns := (st_dns w)(svc := if dns = [''Empty''] then [] else dns)\<rparr>"
    by (simp add: systemDNSSettings_def setDNS_def table_tool_def table_command_def split: if_splits)
  then show "other \<noteq> svc \<Longrightarrow> table_servers w' other = table_servers w other" by (simp add: table_servers_def)
  assume "dns \<noteq> []" and "list_all clean_line dns"
  with w' parse_printed [of "if dns = [''Empty''] then [] else dns" svc]
  show "table_servers w' svc = (if dns = [''Empty''] then [] else dns)"
    by (auto simp: table_servers_def)
qed

text \<open>A takeover either takes everything or says so, and before it changes anything the originals
  are saved. If the list, a reading, the old backup or the new one fails, nothing is changed; a
  takeover without an error leaves every listed service on the tunnel's resolver alone.\<close>
theorem takeover_all_or_error:
  assumes "network_settings m servers" and "takeOver m f w = (e, f', w')"
  shows "(\<forall>err. prepare_takeover m f w = Inl err \<longrightarrow> e = Some err \<and> f' = f \<and> w' = w) \<and>
    (e = None \<longrightarrow> (\<exists>svcs. d_list m w = Inr svcs \<and> (\<forall>svc \<in> set svcs. servers w' svc = [tunGatewayDNS]) \<and>
       (\<exists>b. f' = Backup b \<and> set svcs \<subseteq> fst ` set b)))"
proof (cases "prepare_takeover m f w")
  case (Inl err)
  with assms(2) show ?thesis by (auto simp: takeOver_def)
next
  case (Inr r)
  obtain svcs f1 where r: "r = (svcs, f1)" by force
  obtain errs w1 where p: "point_services m svcs w = (errs, w1)" by force
  from assms(2) Inr r p have out: "e = joined errs" "f' = f1" "w' = w1" by (simp_all add: takeOver_def)
  obtain b b' where b': "record_services m svcs b w = Inr b'" "d_list m w = Inr svcs" "f1 = Backup b'"
    using Inr r by (auto simp: prepare_takeover_def saveBackup_def split: sum.splits backup_error.splits prod.splits option.splits)
  have kept: "fst ` set c \<union> set ss \<subseteq> fst ` set c'" if "record_services m ss c w = Inr c'" for ss c c'
    using that
  proof (induction ss arbitrary: c)
    case (Cons s ss)
    show ?case
    proof (cases "map_of c s")
      case None
      with Cons.prems obtain dns where "record_services m ss ((s, dns) # c) w = Inr c'" by (auto split: sum.splits)
      from Cons.IH [OF this] show ?thesis by auto
    next
      case (Some d)
      then have "s \<in> fst ` set c" by (force dest: map_of_SomeD)
      moreover have "fst ` set c \<union> set ss \<subseteq> fst ` set c'" using Cons.prems Some by (intro Cons.IH) simp
      ultimately show ?thesis by auto
    qed
  qed simp
  have "d_list m w = Inr svcs" and "\<exists>b. f1 = Backup b \<and> set svcs \<subseteq> fst ` set b"
    using b' kept [OF b'(1)] by auto
  moreover have "e = None \<Longrightarrow> \<forall>svc \<in> set svcs. servers w' svc = [tunGatewayDNS]"
    using network_settings.point_done [OF assms(1), of svcs w w1] p out by auto
  ultimately show ?thesis using Inr out by auto
qed

section \<open>Two services\<close>

definition home_settings :: settings_table where
  "home_settings = \<lparr>st_services = [''Wi-Fi'', ''Ethernet''], st_dns = (\<lambda>svc. if svc = ''Wi-Fi'' then [''192.168.1.1''] else [])\<rparr>"

abbreviation (input) plain_tool :: "settings_table dnsSettings" where
  "plain_tool \<equiv> systemDNSSettings table_tool (\<lambda>_. None) None"

text \<open>The same command once the second service is gone: it cannot be set.\<close>

definition broken_tool :: "settings_table dnsSettings" where
  "broken_tool = plain_tool\<lparr>d_set := (\<lambda>svc dns w. if svc = ''Ethernet'' then (Some ''failed'', w) else d_set plain_tool svc dns w)\<rparr>"

lemma broken_settings: "network_settings broken_tool table_servers"
proof unfold_locales
  fix svc dns and w w' :: settings_table and e other
  show "d_get broken_tool svc w = Inr dns \<Longrightarrow> dns = table_servers w svc"
    using networksetup.get_servers [where svc = svc and w = w and dns = dns] by (simp add: broken_tool_def systemDNSSettings_def)
  show "d_set broken_tool svc dns w = (e, w') \<Longrightarrow> other \<noteq> svc \<Longrightarrow> table_servers w' other = table_servers w other"
    using networksetup.set_other [where svc = svc and w = w and dns = dns and e = e and w' = w' and other = other] by (auto simp: broken_tool_def systemDNSSettings_def split: if_splits)
  show "d_set broken_tool svc dns w = (None, w') \<Longrightarrow> dns \<noteq> [] \<Longrightarrow> list_all clean_line dns \<Longrightarrow>
      table_servers w' svc = (if dns = [''Empty''] then [] else dns)"
    using networksetup.set_done [where svc = svc and w = w and dns = dns and w' = w'] by (simp add: broken_tool_def systemDNSSettings_def split: if_splits)
qed

lemma home_servers: "table_servers home_settings svc = (if svc = ''Wi-Fi'' then [''192.168.1.1''] else [])"
proof -
  have "list_all clean_line (st_dns home_settings svc)"
    by (simp add: home_settings_def clean_line_def is_space_def)
  then have "table_servers home_settings svc = st_dns home_settings svc"
    unfolding table_servers_def by (rule parse_printed)
  then show ?thesis by (simp add: home_settings_def)
qed

lemma home_own: "own_settings (table_servers home_settings)"
  by (simp add: own_settings_def home_servers clean_line_def is_space_def stripTunGateway_def trim_space_def tunGatewayDNS_def)

lemma home_list: "listNetworkServices table_tool home_settings = Inr [''Wi-Fi'', ''Ethernet'']"
  by code_simp

lemma home_taken:
  "fst (takeOver broken_tool NoBackup home_settings) \<noteq> None"
  "fst (snd (takeOver broken_tool NoBackup home_settings)) = Backup [(''Ethernet'', []), (''Wi-Fi'', [''192.168.1.1''])]"
  "fst (takeOver plain_tool NoBackup home_settings) = None"
  by code_simp+

theorem resolvers_never_lost_witness:
  "(let s = snd (takeOver broken_tool NoBackup home_settings) in
    table_servers (snd s) ''Wi-Fi'' = [''192.168.1.1''] \<or> (\<exists>b. fst s = Backup b \<and> map_of b ''Wi-Fi'' = Some [''192.168.1.1'']))"
proof -
  let ?s = "snd (takeOver broken_tool NoBackup home_settings)"
  have "dns_reach table_servers (table_servers home_settings) ?s"
    using dns_take [OF broken_settings, of NoBackup home_settings] by (metis dns_more dns_start prod.collapse)
  from resolvers_never_lost [of table_servers "table_servers home_settings" "fst ?s" "snd ?s" "''Wi-Fi''"] this home_own
  show ?thesis by (simp add: Let_def home_servers)
qed

theorem restore_gives_back_witness:
  "(let s = snd (takeOver broken_tool NoBackup home_settings); r = restore plain_tool (fst s) (snd s) in
    fst r = None \<and> table_servers (snd (snd r)) ''Wi-Fi'' = [''192.168.1.1''])"
proof -
  let ?s = "snd (takeOver broken_tool NoBackup home_settings)"
  have reach: "dns_reach table_servers (table_servers home_settings) (fst ?s, snd ?s)"
    using dns_take [OF broken_settings, of NoBackup home_settings] by (metis dns_more dns_start prod.collapse)
  have set: "\<forall>svc dns w. fst (d_set plain_tool svc dns w) = None"
    by (simp add: systemDNSSettings_def setDNS_def table_tool_def table_command_def)
  obtain e f' w' where r: "restore plain_tool (fst ?s) (snd ?s) = (e, f', w')" by (metis prod_cases3)
  have "d_remove plain_tool = None" by (simp add: systemDNSSettings_def)
  with restore_gives_back [OF reach home_own networksetup.network_settings_axioms r] set home_taken(2)
  have "e = None" "table_servers w' = table_servers home_settings" by blast+
  with r show ?thesis by (simp add: Let_def home_servers)
qed

theorem takeover_all_or_error_witness:
  "table_servers (snd (snd (takeOver plain_tool NoBackup home_settings))) ''Ethernet'' = [tunGatewayDNS]"
proof -
  obtain e f' w' where r: "takeOver plain_tool NoBackup home_settings = (e, f', w')" by (metis prod_cases3)
  with home_taken(3) have "e = None" by simp
  have "d_list plain_tool home_settings = Inr [''Wi-Fi'', ''Ethernet'']" by (simp add: systemDNSSettings_def home_list)
  with takeover_all_or_error [OF networksetup.network_settings_axioms r] \<open>e = None\<close> r show ?thesis by auto
qed

end
