(* ===== verification/Rules_Watch.thy ===== *)
theory Rules_Watch
  imports Route_Rules
begin

text \<open>
  core/ruleswatch.go: the watcher of the custom rule file, which compiles the rule sets again when
  the file has changed and backs off while that fails. A look at a file is its modification time as
  text and its size; the compilation is a parameter.
\<close>

section \<open>The watcher\<close>

abbreviation (input) rulesWatchInterval :: go_duration where "rulesWatchInterval \<equiv> 2 * go_second"

fun stampFiles :: "(string \<times> (string \<times> int) option) list \<Rightarrow> string" where
  "stampFiles [] = []"
| "stampFiles ((p, None) # fs) = p @ '':-;'' @ stampFiles fs"
| "stampFiles ((p, Some (modified, len)) # fs) = p @ '':'' @ modified @ '':'' @ itoa len @ '';'' @ stampFiles fs"

record rulesRetry =
  rr_observed :: string
  rr_pending :: bool
  rr_delay :: go_duration
  rr_next :: go_time

definition retry_due :: "string \<Rightarrow> go_time \<Rightarrow> rulesRetry \<Rightarrow> bool \<times> rulesRetry" where
  "retry_due stamp now r =
     (let r = (if stamp \<noteq> rr_observed r
               then r\<lparr>rr_observed := stamp, rr_pending := True, rr_delay := 0, rr_next := 0\<rparr> else r)
      in (rr_pending r \<and> rr_next r \<le> now, r))"

definition retry_finish :: "go_time \<Rightarrow> go_error \<Rightarrow> rulesRetry \<Rightarrow> rulesRetry" where
  "retry_finish now err r =
     (if err = None then r\<lparr>rr_pending := False, rr_delay := 0\<rparr>
      else
        let r = (if rr_delay r = 0 then r\<lparr>rr_delay := rulesWatchInterval\<rparr> else r\<lparr>rr_delay := rr_delay r * 2\<rparr>);
            r = (if rr_delay r > go_minute then r\<lparr>rr_delay := go_minute\<rparr> else r)
        in r\<lparr>rr_next := now + rr_delay r\<rparr>)"

text \<open>What a beat of the ticker finds: the stamp, the time, and the time when the compilation returns.\<close>

record watch_beat =
  wb_stamp :: string
  wb_now :: go_time
  wb_done :: go_time

text \<open>One beat: whether the rules were compiled, with what error, and the state after it.\<close>

definition watch_tick :: "('w \<Rightarrow> (string + nat) \<times> 'w) \<Rightarrow> watch_beat \<Rightarrow> rulesRetry \<times> 'w \<Rightarrow> go_error option \<times> rulesRetry \<times> 'w" where
  "watch_tick onRulesChanged b s =
     (case s of (r, w) \<Rightarrow>
        (case retry_due (wb_stamp b) (wb_now b) r of
           (False, r) \<Rightarrow> (None, r, w)
         | (True, r) \<Rightarrow>
             (case onRulesChanged w of
                (Inl e, w) \<Rightarrow> (Some (Some e), retry_finish (wb_done b) (Some e) r, w)
              | (Inr _, w) \<Rightarrow> (Some None, retry_finish (wb_done b) None r, w))))"

text \<open>The loop: the outcome of every beat, and the state after the last.\<close>

fun watchRules :: "('w \<Rightarrow> (string + nat) \<times> 'w) \<Rightarrow> watch_beat list \<Rightarrow> rulesRetry \<times> 'w \<Rightarrow> go_error option list \<times> rulesRetry \<times> 'w" where
  "watchRules cb [] s = ([], s)"
| "watchRules cb (b # bs) s =
     (case watch_tick cb b s of (o1, s) \<Rightarrow> (case watchRules cb bs s of (os, s) \<Rightarrow> (o1 # os, s)))"

definition initial_retry :: "string \<Rightarrow> rulesRetry" where
  "initial_retry stamp = \<lparr>rr_observed = stamp, rr_pending = False, rr_delay = 0, rr_next = 0\<rparr>"

section \<open>Lemmas\<close>

text \<open>The delay after so many failures in a row.\<close>

definition backoff :: "nat \<Rightarrow> go_duration" where
  "backoff n = (if n = 0 then 0 else min (2 ^ n * go_second) go_minute)"

lemma finish_delay [simp]:
  "rr_delay (retry_finish t (Some e) r) = min (if rr_delay r = 0 then rulesWatchInterval else rr_delay r * 2) go_minute"
  "rr_next (retry_finish t (Some e) r) = t + rr_delay (retry_finish t (Some e) r)"
  "rr_pending (retry_finish t (Some e) r) = rr_pending r"
  "rr_observed (retry_finish t err r) = rr_observed r"
  "rr_pending (retry_finish t None r) = False" "rr_delay (retry_finish t None r) = 0"
  by (auto simp: retry_finish_def Let_def)

lemma backoff_Suc: "min (if backoff n = 0 then rulesWatchInterval else backoff n * 2) go_minute = backoff (Suc n)"
proof (cases "n \<le> 6")
  case True
  then have "n \<in> {0, 1, 2, 3, 4, 5, 6}" by auto
  then show ?thesis by (auto simp: backoff_def)
next
  case False
  then have "2 ^ 6 \<le> (2 :: int) ^ n" by (intro power_increasing) auto
  then show ?thesis using False by (auto simp: backoff_def min_def)
qed

lemma backoff_range: "0 < n \<Longrightarrow> rulesWatchInterval \<le> backoff n \<and> backoff n \<le> go_minute"
proof -
  assume "0 < n"
  then have "2 ^ 1 \<le> (2 :: int) ^ n" by (intro power_increasing) auto
  with \<open>0 < n\<close> show ?thesis by (auto simp: backoff_def)
qed

lemma tick_quiet:
  assumes "rr_observed r = wb_stamp b" and "\<not> rr_pending r \<or> wb_now b < rr_next r"
  shows "watch_tick cb b (r, w) = (None, r, w)"
  using assms by (auto simp: watch_tick_def retry_due_def)

lemma finish_backoff: "rr_delay r = backoff n \<Longrightarrow> rr_delay (retry_finish t (Some e) r) = backoff (Suc n)"
  by (simp only: finish_delay backoff_Suc)

lemma watch_applied_rests:
  assumes "\<not> rr_pending r" and "\<forall>b \<in> set bs. wb_stamp b = rr_observed r"
  shows "watchRules cb bs (r, w) = (replicate (length bs) None, r, w)"
  using assms(2) by (induction bs) (simp_all add: tick_quiet assms(1))

lemma tick_cases:
  assumes "watch_tick cb b (r, w) = (o1, r1, w1)" and "wb_stamp b = rr_observed r"
  obtains "o1 = None" "r1 = r" "w1 = w" "\<not> rr_pending r \<or> wb_now b < rr_next r"
  | e where "o1 = Some (Some e)" "r1 = retry_finish (wb_done b) (Some e) r" "rr_pending r" "rr_next r \<le> wb_now b"
  | "o1 = Some None" "r1 = retry_finish (wb_done b) None r"
  using assms
  by (auto simp: watch_tick_def retry_due_def split: prod.splits sum.splits if_splits bool.splits)

text \<open>Nothing is compiled before the time that was set, if only one version is seen.\<close>

lemma watch_not_before:
  assumes "\<forall>b \<in> set bs. wb_stamp b = rr_observed r \<and> wb_now b \<le> wb_done b"
    and "\<not> rr_pending r \<or> t \<le> rr_next r" and "0 \<le> rr_delay r"
    and "fst (watchRules cb bs (r, w)) ! j \<noteq> None" and "j < length bs"
  shows "t \<le> wb_now (bs ! j)"
  using assms
proof (induction bs arbitrary: r w j)
  case (Cons b bs)
  obtain o1 r1 w1 where tick: "watch_tick cb b (r, w) = (o1, r1, w1)" by (metis prod_cases3)
  from tick have os: "fst (watchRules cb (b # bs) (r, w)) = o1 # fst (watchRules cb bs (r1, w1))"
    by (auto split: prod.splits)
  have b: "wb_stamp b = rr_observed r" "wb_now b \<le> wb_done b" using Cons.prems(1) by auto
  from tick b(1) have "(o1 = None \<or> t \<le> wb_now b) \<and> (\<not> rr_pending r1 \<or> t \<le> rr_next r1) \<and> 0 \<le> rr_delay r1 \<and>
      rr_observed r1 = rr_observed r"
  proof (cases rule: tick_cases)
    case (2 e)
    with Cons.prems(2,3) b(2) show ?thesis by (auto simp: min_def)
  next
    case 3
    with tick Cons.prems(2) b show ?thesis
      by (auto simp: watch_tick_def retry_due_def split: prod.splits sum.splits if_splits bool.splits)
  qed (use Cons.prems in auto)
  with Cons.IH [of r1 w1 "j - 1"] Cons.prems os show ?case by (cases j) auto
qed simp

lemma watch_backs_off:
  assumes "\<forall>b \<in> set bs. wb_stamp b = rr_observed r \<and> wb_now b \<le> wb_done b"
    and "rr_delay r = backoff n" and "os = fst (watchRules cb bs (r, w))"
    and "os ! i = Some (Some e)" and "i < j" and "j < length bs" and "os ! j \<noteq> None"
  shows "wb_done (bs ! i) + backoff (n + length (filter (\<lambda>o1. o1 \<noteq> None) (take (Suc i) os))) \<le> wb_now (bs ! j)"
  using assms
proof (induction bs arbitrary: r w os n i j)
  case (Cons b bs)
  obtain o1 r1 w1 where tick: "watch_tick cb b (r, w) = (o1, r1, w1)" by (metis prod_cases3)
  from tick Cons.prems(3) have os: "os = o1 # fst (watchRules cb bs (r1, w1))" by (auto split: prod.splits)
  have b: "wb_stamp b = rr_observed r" using Cons.prems(1) by auto
  obtain k where j: "j = Suc k" using Cons.prems(5) by (cases j) auto
  have bs: "\<forall>b \<in> set bs. wb_stamp b = rr_observed r1 \<and> wb_now b \<le> wb_done b"
    using tick b Cons.prems(1) by (cases rule: tick_cases) auto
  show ?case
  proof (cases i)
    case 0
    with Cons.prems(4) os have "o1 = Some (Some e)" by simp
    with tick b have r1: "r1 = retry_finish (wb_done b) (Some e) r" by (cases rule: tick_cases) auto
    then have d: "rr_delay r1 = backoff (Suc n)" "rr_next r1 = wb_done b + backoff (Suc n)"
      using finish_backoff [OF Cons.prems(2), of "wb_done b" e] by (simp_all only: finish_delay(2))
    have "wb_done b + backoff (Suc n) \<le> wb_now (bs ! k)"
      using bs d backoff_range [of "Suc n"] Cons.prems(6,7) os j
      by (intro watch_not_before [of bs r1 _ cb w1 k]) auto
    with 0 os j \<open>o1 = Some (Some e)\<close> show ?thesis by simp
  next
    case (Suc l)
    have pre: "fst (watchRules cb bs (r1, w1)) ! l = Some (Some e)" "l < k" "k < length bs"
        "fst (watchRules cb bs (r1, w1)) ! k \<noteq> None"
      using Cons.prems(4-7) j Suc unfolding os by simp_all
    from tick b show ?thesis
    proof (cases rule: tick_cases)
      case 1
      with Cons.prems(2) have "rr_delay r1 = backoff n" by simp
      from Cons.IH [OF bs this refl pre] 1 j Suc show ?thesis unfolding os by simp
    next
      case (2 x)
      then have "rr_delay r1 = backoff (Suc n)" using finish_backoff [OF Cons.prems(2)] by simp
      from Cons.IH [OF bs this refl pre] 2 j Suc show ?thesis unfolding os by simp
    next
      case 3
      then have "\<not> rr_pending r1" by simp
      with watch_applied_rests [of r1 bs cb w1] bs pre(1-3) show ?thesis by simp
    qed
  qed
qed simp

lemma watch_length: "length (fst (watchRules cb bs s)) = length bs"
  by (induction bs arbitrary: s) (auto split: prod.splits, metis fst_conv)

section \<open>Properties\<close>


definition failing_beats :: "watch_beat list" where
  "failing_beats = map (\<lambda>t. \<lparr>wb_stamp = ''new'', wb_now = t * go_second, wb_done = t * go_second\<rparr>) [2, 4, 6, 8]"

lemma failing_run:
  "fst (watchRules (\<lambda>w :: unit. (Inl ''bad json'', w)) failing_beats (initial_retry ''old'', ())) =
    [Some (Some ''bad json''), Some (Some ''bad json''), None, Some (Some ''bad json'')]"
  by (simp add: failing_beats_def watch_tick_def retry_due_def retry_finish_def initial_retry_def Let_def)


end
