(* ===== verification/Netip.thy ===== *)
theory Netip
  imports Mole_Prelude "HOL-Library.Word"
begin

text \<open>
  The part of Go's packages net and net/netip that the program reads addresses with: IPv4 and IPv6
  addresses and prefixes, their text forms, membership, and the validity of UTF-8.
\<close>

section \<open>Addresses and prefixes\<close>

type_synonym bytes = "8 word list"

text \<open>The zero Addr, an IPv4 address, and an IPv6 address with its zone.\<close>

datatype netip_addr = NoAddr | V4 "32 word" | V6 "128 word" bytes

text \<open>A Prefix is invalid if it has no number of bits; the address of one has no zone.\<close>

datatype netip_prefix = Prefix netip_addr "nat option"

abbreviation no_prefix :: netip_prefix where "no_prefix \<equiv> Prefix NoAddr None"

fun bit_len :: "netip_addr \<Rightarrow> nat" where
  "bit_len NoAddr = 0"
| "bit_len (V4 _) = 32"
| "bit_len (V6 _ _) = 128"

fun without_zone :: "netip_addr \<Rightarrow> netip_addr" where
  "without_zone (V6 w z) = V6 w []"
| "without_zone a = a"

definition PrefixFrom :: "netip_addr \<Rightarrow> int \<Rightarrow> netip_prefix" where
  "PrefixFrom a bits =
     Prefix (without_zone a) (if a \<noteq> NoAddr \<and> 0 \<le> bits \<and> bits \<le> int (bit_len a) then Some (nat bits) else None)"

fun addr_next :: "netip_addr \<Rightarrow> netip_addr" where
  "addr_next NoAddr = NoAddr"
| "addr_next (V4 w) = (if w + 1 = 0 then NoAddr else V4 (w + 1))"
| "addr_next (V6 w z) = (if w + 1 = 0 then NoAddr else V6 (w + 1) z)"

fun prefix_contains :: "netip_prefix \<Rightarrow> netip_addr \<Rightarrow> bool" where
  "prefix_contains (Prefix (V4 p) (Some bits)) (V4 w) = (drop_bit (32 - bits) w = drop_bit (32 - bits) p)"
| "prefix_contains (Prefix (V6 p _) (Some bits)) (V6 w z) = (z = [] \<and> drop_bit (128 - bits) w = drop_bit (128 - bits) p)"
| "prefix_contains _ _ = False"

text \<open>Compare is positive: the longer kind, then the larger number, then the later zone.\<close>

fun bytes_less :: "bytes \<Rightarrow> bytes \<Rightarrow> bool" where
  "bytes_less [] ys = (ys \<noteq> [])"
| "bytes_less (x # xs) [] = False"
| "bytes_less (x # xs) (y # ys) = (x < y \<or> (x = y \<and> bytes_less xs ys))"

fun addr_greater :: "netip_addr \<Rightarrow> netip_addr \<Rightarrow> bool" where
  "addr_greater (V4 a) (V4 b) = (a > b)"
| "addr_greater (V6 a y) (V6 b z) = (a > b \<or> (a = b \<and> bytes_less z y))"
| "addr_greater a b = (bit_len a > bit_len b)"

fun prefix_valid :: "netip_prefix \<Rightarrow> bool" where
  "prefix_valid (Prefix _ bits) = (bits \<noteq> None)"

fun prefix_addr :: "netip_prefix \<Rightarrow> netip_addr" where
  "prefix_addr (Prefix a _) = a"

definition is4 :: "netip_addr \<Rightarrow> bool" where
  "is4 a = (case a of V4 _ \<Rightarrow> True | _ \<Rightarrow> False)"

section \<open>Reading addresses\<close>

text \<open>strings.Split on one byte.\<close>

fun split_on :: "char \<Rightarrow> string \<Rightarrow> string list" where
  "split_on c [] = [[]]"
| "split_on c (x # xs) =
     (if x = c then [] # split_on c xs else (x # hd (split_on c xs)) # tl (split_on c xs))"

text \<open>A field of an IPv4 address: digits, no leading zero, at most 255.\<close>

definition v4_field :: "string \<Rightarrow> nat option" where
  "v4_field f =
     (if f = [] \<or> (hd f = CHR ''0'' \<and> tl f \<noteq> []) then None
      else case digits_value 0 f of Some n \<Rightarrow> if n \<le> 255 then Some n else None | None \<Rightarrow> None)"

definition v4_fields :: "string \<Rightarrow> nat list option" where
  "v4_fields s = (let fs = map v4_field (split_on (CHR ''.'') s) in
     if length fs = 4 \<and> None \<notin> set fs then Some (map the fs) else None)"

definition big_endian :: "nat list \<Rightarrow> nat" where
  "big_endian bs = foldl (\<lambda>a b. 256 * a + b) 0 bs"

definition hex_value :: "char \<Rightarrow> nat option" where
  "hex_value c = (let v = (of_char c :: nat) in
     if 48 \<le> v \<and> v \<le> 57 then Some (v - 48)
     else if 97 \<le> v \<and> v \<le> 102 then Some (v - 87)
     else if 65 \<le> v \<and> v \<le> 70 then Some (v - 55) else None)"

text \<open>
  parseIPv6's loop over at most eight groups: the bytes so far, where the double colon was, and the
  text left. A group that a dot follows is the first field of an IPv4 address that ends the text.
\<close>

fun v6_loop :: "nat \<Rightarrow> string \<Rightarrow> nat list \<Rightarrow> nat option \<Rightarrow> (string \<times> nat list \<times> nat option) option" where
  "v6_loop 0 s bs dc = Some (s, bs, dc)"
| "v6_loop (Suc k) s bs dc =
     (if length bs \<ge> 16 then Some (s, bs, dc)
      else
        let ds = takeWhile (\<lambda>c. hex_value c \<noteq> None) s; r = dropWhile (\<lambda>c. hex_value c \<noteq> None) s in
        if ds = [] \<or> length ds > 4 then None
        else if r \<noteq> [] \<and> hd r = CHR ''.'' then
          (if (dc = None \<and> length bs \<noteq> 12) \<or> length bs > 12 then None
           else map_option (\<lambda>fs. ([], bs @ fs, dc)) (v4_fields s))
        else
          let acc = foldl (\<lambda>a c. 16 * a + the (hex_value c)) 0 ds; bs = bs @ [acc div 256, acc mod 256] in
          if r = [] then Some ([], bs, dc)
          else if hd r \<noteq> CHR '':'' \<or> tl r = [] then None
          else if hd (tl r) = CHR '':'' then
            (if dc \<noteq> None then None
             else if tl (tl r) = [] then Some ([], bs, Some (length bs))
             else v6_loop k (tl (tl r)) bs (Some (length bs)))
          else v6_loop k (tl r) bs dc)"

definition parse_v6 :: "string \<Rightarrow> netip_addr option" where
  "parse_v6 text =
     (let s = takeWhile (\<lambda>c. c \<noteq> CHR ''%'') text; z = dropWhile (\<lambda>c. c \<noteq> CHR ''%'') text;
          zone = map (\<lambda>c. of_nat (of_char c)) (tl z) in
      if z \<noteq> [] \<and> tl z = [] then None
      else
        let lead = (take 2 s = ''::''); rest = (if lead then drop 2 s else s) in
        if lead \<and> rest = [] then Some (V6 0 zone)
        else case v6_loop 8 rest [] (if lead then Some 0 else None) of
          None \<Rightarrow> None
        | Some (left, bs, dc) \<Rightarrow>
            if left \<noteq> [] then None
            else if length bs < 16 then
              (case dc of
                 None \<Rightarrow> None
               | Some i \<Rightarrow> Some (V6 (word_of_nat (big_endian (take i bs @ replicate (16 - length bs) 0 @ drop i bs))) zone))
            else if dc \<noteq> None then None
            else Some (V6 (word_of_nat (big_endian bs)) zone))"

text \<open>The first of a dot, a colon and a percent sign decides.\<close>

definition ParseAddr :: "string \<Rightarrow> netip_addr option" where
  "ParseAddr s =
     (case find (\<lambda>c. c \<in> set ''.:%'') s of
        None \<Rightarrow> None
      | Some c \<Rightarrow>
          if c = CHR ''.'' then map_option (\<lambda>fs. V4 (word_of_nat (big_endian fs))) (v4_fields s)
          else if c = CHR '':'' then parse_v6 s else None)"

text \<open>What follows the last occurrence of a byte, and what precedes it.\<close>

definition cut_last :: "char \<Rightarrow> string \<Rightarrow> (string \<times> string) option" where
  "cut_last c s =
     (if c \<notin> set s then None
      else Some (rev (tl (dropWhile (\<lambda>x. x \<noteq> c) (rev s))), rev (takeWhile (\<lambda>x. x \<noteq> c) (rev s))))"

definition ParsePrefix :: "string \<Rightarrow> netip_prefix option" where
  "ParsePrefix s =
     (case cut_last (CHR ''/'') s of
        None \<Rightarrow> None
      | Some (addr, bits) \<Rightarrow>
          (case ParseAddr addr of
             None \<Rightarrow> None
           | Some a \<Rightarrow>
               if without_zone a \<noteq> a then None
               else if length bits > 1 \<and> (hd bits = CHR ''0'' \<or> digit_value (hd bits) = None) then None
               else case atoi bits of
                 None \<Rightarrow> None
               | Some n \<Rightarrow> if n < 0 \<or> n > int (bit_len a) then None else Some (PrefixFrom a n)))"

text \<open>An IPv4 address mapped into IPv6 is one; To4 and ParseIP of package net, which has no zones.\<close>

definition to4 :: "netip_addr \<Rightarrow> 32 word option" where
  "to4 a = (case a of
     V4 w \<Rightarrow> Some w
   | V6 w z \<Rightarrow> if drop_bit 32 w = 0xFFFF then Some (ucast w) else None
   | NoAddr \<Rightarrow> None)"

definition ParseIP :: "string \<Rightarrow> netip_addr option" where
  "ParseIP s = (case ParseAddr s of Some a \<Rightarrow> if without_zone a = a then Some a else None | None \<Rightarrow> None)"

text \<open>net.ParseCIDR: the address and the number of bits of its mask; the number may have leading zeros.\<close>

definition cut_first :: "char \<Rightarrow> string \<Rightarrow> (string \<times> string) option" where
  "cut_first c s = (if c \<notin> set s then None else Some (takeWhile (\<lambda>x. x \<noteq> c) s, tl (dropWhile (\<lambda>x. x \<noteq> c) s)))"

definition ParseCIDR :: "string \<Rightarrow> (netip_addr \<times> nat) option" where
  "ParseCIDR s =
     (case cut_first (CHR ''/'') s of
        None \<Rightarrow> None
      | Some (addr, len) \<Rightarrow>
          (case (ParseAddr addr, if len = [] then None else digits_value 0 len) of
             (Some a, Some n) \<Rightarrow> if without_zone a \<noteq> a \<or> n > bit_len a then None else Some (a, n)
           | _ \<Rightarrow> None))"

text \<open>IPNet.Contains of an IPv4 network.\<close>

definition net_contains :: "netip_addr \<times> nat \<Rightarrow> 32 word \<Rightarrow> bool" where
  "net_contains n a = (case n of
     (V4 p, bits) \<Rightarrow> drop_bit (32 - bits) a = drop_bit (32 - bits) p
   | _ \<Rightarrow> False)"

section \<open>UTF-8\<close>

text \<open>utf8.Valid: the shortest form, no surrogates, nothing above U+10FFFF.\<close>

definition cont :: "nat \<Rightarrow> nat \<Rightarrow> 8 word \<Rightarrow> bool" where
  "cont lo hi b = (lo \<le> unat b \<and> unat b \<le> hi)"

fun utf8_valid :: "bytes \<Rightarrow> bool" where
  "utf8_valid [] = True"
| "utf8_valid (a # bs) =
     (let v = unat a in
      if v < 0x80 then utf8_valid bs
      else (case bs of
        [] \<Rightarrow> False
      | b # bs \<Rightarrow>
          if 0xC2 \<le> v \<and> v \<le> 0xDF then (cont 0x80 0xBF b \<and> utf8_valid bs)
          else (case bs of
            [] \<Rightarrow> False
          | c # bs \<Rightarrow>
              if 0xE0 \<le> v \<and> v \<le> 0xEF then
                (cont (if v = 0xE0 then 0xA0 else 0x80) (if v = 0xED then 0x9F else 0xBF) b \<and> cont 0x80 0xBF c \<and> utf8_valid bs)
              else (case bs of
                [] \<Rightarrow> False
              | d # bs \<Rightarrow>
                  if 0xF0 \<le> v \<and> v \<le> 0xF4 then
                    (cont (if v = 0xF0 then 0x90 else 0x80) (if v = 0xF4 then 0x8F else 0xBF) b \<and>
                    cont 0x80 0xBF c \<and> cont 0x80 0xBF d \<and> utf8_valid bs)
                  else False))))"

end
