(* ===== verification/Fake_IP.thy ===== *)
theory Fake_IP
  imports Netip "HOL-Library.AList" "HOL-Library.Product_Lexorder" "HOL-Library.List_Lexorder"
begin

text \<open>
  core/fakeip_recovery.go: repairing the allocator checkpoint of the engine's cache while the engine is
  down, so that it does not discard the addresses it has given out. Addresses and prefixes
  are those of theory Netip, here with their binary form; the cache is what the bolt file holds in its
  three buckets.
\<close>

section \<open>Binary form\<close>

text \<open>Big-endian bytes of a number and back.\<close>

fun be_bytes :: "nat \<Rightarrow> nat \<Rightarrow> bytes" where
  "be_bytes 0 v = []"
| "be_bytes (Suc n) v = be_bytes n (v div 256) @ [word_of_nat v]"

definition be_value :: "bytes \<Rightarrow> nat" where
  "be_value bs = foldl (\<lambda>a b. 256 * a + unat b) 0 bs"

fun marshal_addr :: "netip_addr \<Rightarrow> bytes" where
  "marshal_addr NoAddr = []"
| "marshal_addr (V4 w) = be_bytes 4 (unat w)"
| "marshal_addr (V6 w z) = be_bytes 16 (unat w) @ z"

definition unmarshal_addr :: "bytes \<Rightarrow> netip_addr option" where
  "unmarshal_addr b =
     (if b = [] then Some NoAddr
      else if length b = 4 then Some (V4 (word_of_nat (be_value b)))
      else if length b \<ge> 16 then Some (V6 (word_of_nat (be_value (take 16 b))) (drop 16 b))
      else None)"

text \<open>The number of bits is one byte, 255 for an invalid prefix.\<close>

fun marshal_prefix :: "netip_prefix \<Rightarrow> bytes" where
  "marshal_prefix (Prefix a bits) =
     marshal_addr (without_zone a) @ [case bits of None \<Rightarrow> 255 | Some n \<Rightarrow> word_of_nat n]"

definition unmarshal_prefix :: "bytes \<Rightarrow> netip_prefix option" where
  "unmarshal_prefix b =
     (if b = [] then None
      else case unmarshal_addr (butlast b) of
        None \<Rightarrow> None
      | Some a \<Rightarrow> Some (PrefixFrom a (int (unat (List.last b)))))"

text \<open>AddrFromSlice.\<close>

definition addr_from_slice :: "bytes \<Rightarrow> netip_addr option" where
  "addr_from_slice k =
     (if length k = 4 then Some (V4 (word_of_nat (be_value k)))
      else if length k = 16 then Some (V6 (word_of_nat (be_value k)) []) else None)"

section \<open>The allocator checkpoint\<close>

definition put_field :: "bytes \<Rightarrow> bytes" where
  "put_field b = be_bytes 2 (length b) @ b"

definition encodeFakeIPMetadata :: "netip_prefix \<times> netip_prefix \<Rightarrow> netip_addr \<times> netip_addr \<Rightarrow> bytes" where
  "encodeFakeIPMetadata ranges current =
     put_field (marshal_prefix (fst ranges)) @ put_field (marshal_prefix (snd ranges)) @
     put_field (marshal_addr (fst current)) @ put_field (marshal_addr (snd current))"

text \<open>binary.Read of the length and io.ReadFull of the field: the field and what follows.\<close>

definition get_field :: "bytes \<Rightarrow> (bytes \<times> bytes) option" where
  "get_field r =
     (if length r < 2 then None
      else
        let n = be_value (take 2 r); r = drop 2 r
        in if length r < n then None else Some (take n r, drop n r))"

definition decodeFakeIPMetadata :: "bytes \<Rightarrow> ((netip_prefix \<times> netip_prefix) \<times> (netip_addr \<times> netip_addr)) option" where
  "decodeFakeIPMetadata data =
     Option.bind (get_field data) (\<lambda>(f1, r).
     Option.bind (unmarshal_prefix f1) (\<lambda>p4.
     Option.bind (get_field r) (\<lambda>(f2, r).
     Option.bind (unmarshal_prefix f2) (\<lambda>p6.
     Option.bind (get_field r) (\<lambda>(f3, r).
     Option.bind (unmarshal_addr f3) (\<lambda>a4.
     Option.bind (get_field r) (\<lambda>(f4, r).
     Option.bind (unmarshal_addr f4) (\<lambda>a6.
       if r \<noteq> [] \<or> (prefix_valid p4 \<and> (\<not> is4 (prefix_addr p4) \<or> \<not> prefix_contains p4 a4)) \<or>
          (prefix_valid p6 \<and> (is4 (prefix_addr p6) \<or> \<not> prefix_contains p6 a6))
       then None else Some ((p4, p6), (a4, a6))))))))))"

section \<open>Recovery\<close>

text \<open>A bucket in the order of its keys; a key without a value is a nested bucket.\<close>

type_synonym bucket = "(bytes \<times> bytes option) list"

record fakeip_db =
  fakeip_address :: "bucket option"
  fakeip_domain4 :: "bucket option"
  fakeip_domain6 :: "bucket option"

text \<open>Get: no value for a missing key or a nested bucket.\<close>

definition bucket_get :: "bucket \<Rightarrow> bytes \<Rightarrow> bytes" where
  "bucket_get b k = (case map_of b k of Some (Some v) \<Rightarrow> v | _ \<Rightarrow> [])"

definition metadata_key :: bytes where
  "metadata_key = map (\<lambda>c. of_nat (of_char c)) ''fakeip_metadata''"

text \<open>One record of the forward mapping; the addresses reached so far.\<close>

definition scan_record ::
  "fakeip_db \<Rightarrow> netip_prefix \<times> netip_prefix \<Rightarrow> bytes \<times> bytes option \<Rightarrow>
     (netip_addr \<times> netip_addr) \<times> nat \<Rightarrow> string + (netip_addr \<times> netip_addr) \<times> nat" where
  "scan_record db ranges kv acc =
     (case kv of (k, v) \<Rightarrow>
        if k = metadata_key then Inr acc
        else case (addr_from_slice k, v) of
          (Some ip, Some v) \<Rightarrow>
            if v = [] \<or> length v > 253 \<or> \<not> utf8_valid v then Inl ''unrecognized FakeIP cache record''
            else
              let range = (if is4 ip then fst ranges else snd ranges);
                  reverse = (if is4 ip then fakeip_domain4 db else fakeip_domain6 db)
              in if \<not> prefix_contains range ip
                 then Inl ''FakeIP range changed without a checkpoint; cache preserved for explicit migration''
                 else if reverse = None \<or> bucket_get (the reverse) v \<noteq> k
                 then Inl ''inconsistent FakeIP reverse mapping; cache preserved''
                 else (case acc of ((a4, a6), n) \<Rightarrow>
                   Inr (if is4 ip then (if addr_greater ip a4 then ip else a4, a6)
                        else (a4, if addr_greater ip a6 then ip else a6), Suc n))
        | _ \<Rightarrow> Inl ''unrecognized FakeIP cache record'')"

fun scan_records ::
  "fakeip_db \<Rightarrow> netip_prefix \<times> netip_prefix \<Rightarrow> bucket \<Rightarrow>
     (netip_addr \<times> netip_addr) \<times> nat \<Rightarrow> string + (netip_addr \<times> netip_addr) \<times> nat" where
  "scan_records db ranges [] acc = Inr acc"
| "scan_records db ranges (kv # kvs) acc =
     (case scan_record db ranges kv acc of Inl e \<Rightarrow> Inl e | Inr acc \<Rightarrow> scan_records db ranges kvs acc)"

text \<open>Where the allocator starts if the checkpoint says nothing of a range.\<close>

definition start_at :: "netip_prefix \<Rightarrow> netip_addr \<Rightarrow> netip_addr" where
  "start_at p a = (if prefix_valid p \<and> a = NoAddr then addr_next (prefix_addr p) else a)"

text \<open>The view transaction: the checkpoint to write, if one is needed.\<close>

definition plan_checkpoint ::
  "netip_prefix \<times> netip_prefix \<Rightarrow> fakeip_db \<Rightarrow> string + bytes option" where
  "plan_checkpoint ranges db =
     (case fakeip_address db of
        None \<Rightarrow> Inr None
      | Some b \<Rightarrow>
          let previous = bucket_get b metadata_key;
              scan = (\<lambda>(a4, a6).
                case scan_records db ranges b ((start_at (fst ranges) a4, start_at (snd ranges) a6), 0) of
                  Inl e \<Rightarrow> Inl e
                | Inr (current, n) \<Rightarrow>
                    if n = 0 then Inr None
                    else
                      let checkpoint = encodeFakeIPMetadata ranges current
                      in Inr (if checkpoint = previous then None else Some checkpoint))
          in if previous = [] then scan (NoAddr, NoAddr)
             else case decodeFakeIPMetadata previous of
               None \<Rightarrow> Inl ''invalid FakeIP allocator checkpoint''
             | Some (ps, current) \<Rightarrow> if ps \<noteq> ranges then Inr None else scan current)"

text \<open>What the configuration says: the flags of the cache file, its path, and the DNS servers.\<close>

record fakeip_config =
  fc_enabled :: bool
  fc_store :: bool
  fc_absolute :: bool
  fc_servers :: "(string \<times> string \<times> string) list"

definition parse_range :: "bool \<Rightarrow> string \<Rightarrow> netip_prefix option" where
  "parse_range v4 text =
     (if text = [] then Some no_prefix
      else case ParsePrefix text of
        None \<Rightarrow> None
      | Some p \<Rightarrow> if is4 (prefix_addr p) \<noteq> v4 then None else Some p)"

fun find_ranges ::
  "(string \<times> string \<times> string) list \<Rightarrow> (netip_prefix \<times> netip_prefix) option \<Rightarrow>
     string + (netip_prefix \<times> netip_prefix) option" where
  "find_ranges [] found = Inr found"
| "find_ranges ((kind, inet4, inet6) # ss) found =
     (if kind \<noteq> ''fakeip'' then find_ranges ss found
      else if found \<noteq> None then Inl ''multiple FakeIP stores are not qualified for cache recovery''
      else case (parse_range True inet4, parse_range False inet6) of
        (Some p4, Some p6) \<Rightarrow> find_ranges ss (Some (p4, p6))
      | _ \<Rightarrow> Inl ''invalid FakeIP range'')"

datatype cache_file =
    CacheMissing | CacheStatError string | CacheIrregular | CacheEmpty | CacheLocked string | CacheDB fakeip_db

text \<open>What creating the snapshot, copying the cache to it, and the update transaction report.\<close>

record recovery_env =
  re_create :: go_error
  re_copy :: go_error
  re_update :: go_error

definition put_metadata :: "bytes \<Rightarrow> fakeip_db \<Rightarrow> fakeip_db" where
  "put_metadata checkpoint db =
     db\<lparr>fakeip_address := map_option (\<lambda>b. AList.update metadata_key (Some checkpoint) b) (fakeip_address db)\<rparr>"

text \<open>Snapshots are listed newest first; three are kept.\<close>

definition write_checkpoint ::
  "recovery_env \<Rightarrow> bytes \<Rightarrow> fakeip_db \<Rightarrow> fakeip_db list \<Rightarrow> go_error \<times> cache_file \<times> fakeip_db list" where
  "write_checkpoint e checkpoint db snaps =
     (if re_create e \<noteq> None then (re_create e, CacheDB db, snaps)
      else if re_copy e \<noteq> None then (re_copy e, CacheDB db, snaps)
      else if re_update e \<noteq> None then (re_update e, CacheDB db, db # snaps)
      else (None, CacheDB (put_metadata checkpoint db), take 3 (db # snaps)))"

definition recoverFakeIPCache ::
  "recovery_env \<Rightarrow> string + fakeip_config \<Rightarrow>
     cache_file \<Rightarrow> fakeip_db list \<Rightarrow> go_error \<times> cache_file \<times> fakeip_db list" where
  "recoverFakeIPCache e config cache snaps =
     (case config of
        Inl err \<Rightarrow> (Some err, cache, snaps)
      | Inr c \<Rightarrow>
          if \<not> fc_enabled c \<or> \<not> fc_store c then (None, cache, snaps)
          else case find_ranges (fc_servers c) None of
            Inl err \<Rightarrow> (Some err, cache, snaps)
          | Inr None \<Rightarrow> (None, cache, snaps)
          | Inr (Some ranges) \<Rightarrow>
              if \<not> fc_absolute c then (Some ''FakeIP recovery requires an absolute cache path'', cache, snaps)
              else case cache of
                CacheMissing \<Rightarrow> (None, cache, snaps)
              | CacheStatError err \<Rightarrow> (Some err, cache, snaps)
              | CacheIrregular \<Rightarrow> (Some ''FakeIP cache must be a regular private file'', cache, snaps)
              | CacheEmpty \<Rightarrow> (None, cache, snaps)
              | CacheLocked err \<Rightarrow> (Some (''lock FakeIP cache offline: '' @ err), cache, snaps)
              | CacheDB db \<Rightarrow>
                  (case plan_checkpoint ranges db of
                     Inl err \<Rightarrow> (Some err, cache, snaps)
                   | Inr None \<Rightarrow> (None, cache, snaps)
                   | Inr (Some checkpoint) \<Rightarrow> write_checkpoint e checkpoint db snaps))"

section \<open>Lemmas: binary form\<close>

lemma byte_value: "unat (word_of_nat v :: 8 word) = v mod 256" "unat (b :: 8 word) < 256"
proof -
  have "unat b < 2 ^ LENGTH(8)" by (rule unsigned_less)
  then show "unat (word_of_nat v :: 8 word) = v mod 256" "unat b < 256"
    by (simp_all add: unsigned_of_nat take_bit_eq_mod)
qed

lemma be_bytes_length [simp]: "length (be_bytes n v) = n"
  by (induction n arbitrary: v) auto

lemma be_value_snoc: "be_value (bs @ [b]) = 256 * be_value bs + unat b"
  by (simp add: be_value_def)

lemma be_roundtrip: "be_value (be_bytes n v) = v mod 256 ^ n"
proof (induction n arbitrary: v)
  case 0
  then show ?case by (simp add: be_value_def)
next
  case (Suc n)
  have "be_value (be_bytes (Suc n) v) = 256 * ((v div 256) mod 256 ^ n) + v mod 256"
    by (simp add: be_value_snoc Suc.IH byte_value)
  also have "\<dots> = v mod 256 ^ Suc n" using mod_mult2_eq [of v 256 "256 ^ n"] by simp
  finally show ?case .
qed

lemma be_value_bytes: "be_value bs < 256 ^ length bs"
proof (induction bs rule: rev_induct)
  case (snoc b bs)
  with byte_value(2) [of b] show ?case by (simp add: be_value_snoc)
qed (simp add: be_value_def)

lemma be_bytes_value: "be_bytes (length bs) (be_value bs) = bs"
proof (induction bs rule: rev_induct)
  case (snoc b bs)
  have "(256 * be_value bs + unat b) div 256 = be_value bs" using byte_value(2) [of b] by simp
  moreover have "(word_of_nat (256 * be_value bs + unat b) :: 8 word) = b"
  proof (rule unsigned_word_eqI [where ?'a = nat])
    have "(256 * be_value bs + unat b) mod 256 = unat b" using byte_value(2) [of b] by simp
    then show "unat (word_of_nat (256 * be_value bs + unat b) :: 8 word) = unat b" by (simp only: byte_value)
  qed
  ultimately have "be_bytes (Suc (length bs)) (256 * be_value bs + unat b) = be_bytes (length bs) (be_value bs) @ [b]"
    by (simp only: be_bytes.simps)
  with snoc show ?case by (simp add: be_value_snoc)
qed (simp add: be_value_def)

lemma v4_value: "be_value (be_bytes 4 (unat (w :: 32 word))) = unat w"
proof -
  have "unat w < 2 ^ LENGTH(32)" by (rule unsigned_less)
  then show ?thesis by (simp add: be_roundtrip)
qed

lemma v6_value: "be_value (be_bytes 16 (unat (w :: 128 word))) = unat w"
proof -
  have "unat w < 2 ^ LENGTH(128)" by (rule unsigned_less)
  then show ?thesis by (simp add: be_roundtrip)
qed

lemma unmarshal_marshal_addr: "unmarshal_addr (marshal_addr a) = Some a"
proof (cases a)
  case (V4 w)
  moreover have "be_bytes 4 (unat w) \<noteq> []" by (metis be_bytes_length list.size(3) zero_neq_numeral)
  ultimately show ?thesis by (simp add: unmarshal_addr_def v4_value)
next
  case (V6 w z)
  moreover have "be_bytes 16 (unat w) \<noteq> []" by (metis be_bytes_length list.size(3) zero_neq_numeral)
  ultimately show ?thesis by (simp add: unmarshal_addr_def v6_value)
qed (simp add: unmarshal_addr_def)

text \<open>What PrefixFrom makes.\<close>

definition regular_prefix :: "netip_prefix \<Rightarrow> bool" where
  "regular_prefix p = (case p of Prefix a bits \<Rightarrow> without_zone a = a \<and> (\<forall>n. bits = Some n \<longrightarrow> a \<noteq> NoAddr \<and> n \<le> bit_len a))"

lemma bit_len_le: "bit_len a \<le> 128"
  by (cases a) auto

lemma unmarshal_marshal_prefix: "regular_prefix p \<Longrightarrow> unmarshal_prefix (marshal_prefix p) = Some p"
proof (cases p)
  case (Prefix a bits)
  assume "regular_prefix p"
  with Prefix have a: "without_zone a = a" and b: "\<And>n. bits = Some n \<Longrightarrow> a \<noteq> NoAddr \<and> n \<le> bit_len a"
    by (auto simp: regular_prefix_def)
  have "PrefixFrom a (int (unat ((case bits of None \<Rightarrow> 255 | Some n \<Rightarrow> word_of_nat n) :: 8 word))) = p"
  proof (cases bits)
    case None
    with bit_len_le [of a] Prefix a show ?thesis by (auto simp: PrefixFrom_def)
  next
    case (Some n)
    with b [of n] bit_len_le [of a] have "unat (word_of_nat n :: 8 word) = n" by (simp add: byte_value)
    with Some b [of n] Prefix a show ?thesis by (auto simp: PrefixFrom_def)
  qed
  with Prefix a show ?thesis by (simp add: unmarshal_prefix_def unmarshal_marshal_addr)
qed

lemma get_put_field: "length b < 65536 \<Longrightarrow> get_field (put_field b @ r) = Some (b, r)"
  by (simp add: get_field_def put_field_def be_roundtrip Let_def)

text \<open>A zone that fits the field it is written to; only a decoded address has one.\<close>

definition short_addr :: "netip_addr \<Rightarrow> bool" where
  "short_addr a = (length (marshal_addr a) < 65536)"

definition fits_range :: "netip_prefix \<Rightarrow> bool \<Rightarrow> netip_addr \<Rightarrow> bool" where
  "fits_range p v4 a = (prefix_valid p \<longrightarrow> is4 (prefix_addr p) = v4 \<and> prefix_contains p a)"

lemma marshal_prefix_short: "regular_prefix p \<Longrightarrow> length (marshal_prefix p) < 65536"
proof (cases p)
  case (Prefix a bits)
  then show ?thesis by (cases a) auto
qed

lemma metadata_decodes:
  assumes "regular_prefix p4" "regular_prefix p6" and "short_addr a4" "short_addr a6"
    and "fits_range p4 True a4" "fits_range p6 False a6"
  shows "decodeFakeIPMetadata (encodeFakeIPMetadata (p4, p6) (a4, a6)) = Some ((p4, p6), (a4, a6))"
proof -
  have last_field: "get_field (put_field (marshal_addr a6)) = Some (marshal_addr a6, [])"
    using get_put_field [of "marshal_addr a6" "[]"] assms(4) by (simp add: short_addr_def)
  show ?thesis
    using assms
    by (simp add: decodeFakeIPMetadata_def encodeFakeIPMetadata_def get_put_field last_field marshal_prefix_short
        unmarshal_marshal_prefix unmarshal_marshal_addr short_addr_def fits_range_def)
qed

section \<open>Lemmas: the order of addresses\<close>

fun addr_key :: "netip_addr \<Rightarrow> nat \<times> nat \<times> bytes" where
  "addr_key NoAddr = (0, 0, [])"
| "addr_key (V4 w) = (32, unat w, [])"
| "addr_key (V6 w z) = (128, unat w, z)"

lemma bytes_less_iff: "bytes_less xs ys \<longleftrightarrow> xs < ys"
proof (induction xs ys rule: bytes_less.induct)
  case (1 ys)
  then show ?case by (cases ys) auto
qed auto

lemma addr_greater_iff: "addr_greater a b \<longleftrightarrow> addr_key b < addr_key a"
  by (cases a; cases b) (auto simp: bytes_less_iff word_less_nat_alt less_prod_def less_eq_prod_def word_eq_iff_unsigned [where ?'a = nat])

lemma greater_trans: "\<not> addr_greater a b \<Longrightarrow> \<not> addr_greater b c \<Longrightarrow> \<not> addr_greater a c"
  by (auto simp: addr_greater_iff)

lemma greater_refl [simp]: "\<not> addr_greater a a"
  by (simp add: addr_greater_iff)

lemma pick_greater: "\<not> addr_greater a (if addr_greater ip a then ip else a)" "\<not> addr_greater ip (if addr_greater ip a then ip else a)"
  by (auto simp: addr_greater_iff)

section \<open>Lemmas: the scan\<close>

definition of_kind :: "netip_addr \<Rightarrow> netip_addr \<times> netip_addr \<Rightarrow> netip_addr" where
  "of_kind ip current = (if is4 ip then fst current else snd current)"

text \<open>What a scan that succeeds has seen: every key is the metadata or an address not above the result.\<close>

lemma scan_sound:
  assumes "scan_records db ranges kvs ((a4, a6), n) = Inr (current, n')"
  shows "\<not> addr_greater a4 (fst current) \<and> \<not> addr_greater a6 (snd current) \<and>
    (\<forall>(k, v) \<in> set kvs. k \<noteq> metadata_key \<longrightarrow>
       (\<exists>ip. addr_from_slice k = Some ip \<and> \<not> addr_greater ip (of_kind ip current)))"
  using assms
proof (induction kvs arbitrary: a4 a6 n)
  case (Cons kv kvs)
  obtain k v where kv: "kv = (k, v)" by force
  show ?case
  proof (cases "k = metadata_key")
    case True
    with Cons kv show ?thesis by (simp add: scan_record_def)
  next
    case False
    with Cons.prems kv obtain ip where ip: "addr_from_slice k = Some ip"
      and rest: "scan_records db ranges kvs ((if is4 ip then (if addr_greater ip a4 then ip else a4, a6)
                        else (a4, if addr_greater ip a6 then ip else a6)), Suc n) = Inr (current, n')"
      by (auto simp: scan_record_def Let_def split: option.splits if_splits)
    show ?thesis
    proof (cases "is4 ip")
      case True
      with Cons.IH [of "if addr_greater ip a4 then ip else a4" a6 "Suc n"] rest
      have IH: "\<not> addr_greater (if addr_greater ip a4 then ip else a4) (fst current)" "\<not> addr_greater a6 (snd current)"
          "\<forall>(k, v) \<in> set kvs. k \<noteq> metadata_key \<longrightarrow>
             (\<exists>ip. addr_from_slice k = Some ip \<and> \<not> addr_greater ip (of_kind ip current))"
        by simp_all
      have "\<not> addr_greater a4 (fst current)" "\<not> addr_greater ip (fst current)"
        by (rule greater_trans [OF pick_greater(1) IH(1)], rule greater_trans [OF pick_greater(2) IH(1)])
      with IH(2,3) True ip kv show ?thesis by (auto simp: of_kind_def)
    next
      case False
      with Cons.IH [of a4 "if addr_greater ip a6 then ip else a6" "Suc n"] rest
      have IH: "\<not> addr_greater a4 (fst current)" "\<not> addr_greater (if addr_greater ip a6 then ip else a6) (snd current)"
          "\<forall>(k, v) \<in> set kvs. k \<noteq> metadata_key \<longrightarrow>
             (\<exists>ip. addr_from_slice k = Some ip \<and> \<not> addr_greater ip (of_kind ip current))"
        by simp_all
      have "\<not> addr_greater a6 (snd current)" "\<not> addr_greater ip (snd current)"
        by (rule greater_trans [OF pick_greater(1) IH(2)], rule greater_trans [OF pick_greater(2) IH(2)])
      with IH(1,3) False ip kv show ?thesis by (auto simp: of_kind_def)
    qed
  qed
qed auto

lemma contained_kind:
  "prefix_contains p ip \<Longrightarrow> is4 ip = is4 (prefix_addr p) \<and> short_addr ip"
proof (induction p ip rule: prefix_contains.induct)
  case (2 p pz bits w z)
  then have "z = []" by simp
  then show ?case by (simp only:) (simp add: is4_def short_addr_def)
qed (simp_all only: prefix_contains.simps is4_def short_addr_def prefix_addr.simps netip_addr.case marshal_addr.simps be_bytes_length, simp_all)

lemma slice_short: "addr_from_slice k = Some ip \<Longrightarrow> short_addr ip"
  by (auto simp: addr_from_slice_def short_addr_def split: if_splits)

lemma scan_fits:
  assumes "scan_records db (p4, p6) kvs ((a4, a6), n) = Inr (current, n')"
    and "fits_range p4 True a4" "fits_range p6 False a6" "short_addr a4" "short_addr a6"
    and "prefix_valid p4 \<longrightarrow> is4 (prefix_addr p4)" "prefix_valid p6 \<longrightarrow> \<not> is4 (prefix_addr p6)"
  shows "fits_range p4 True (fst current) \<and> fits_range p6 False (snd current) \<and>
    short_addr (fst current) \<and> short_addr (snd current)"
  using assms(1-5)
proof (induction kvs arbitrary: a4 a6 n)
  case (Cons kv kvs)
  obtain k v where kv: "kv = (k, v)" by force
  show ?case
  proof (cases "k = metadata_key")
    case True
    with Cons.prems kv have "scan_records db (p4, p6) kvs ((a4, a6), n) = Inr (current, n')" by (simp add: scan_record_def)
    from Cons.IH [OF this Cons.prems(2-5)] show ?thesis .
  next
    case False
    with Cons.prems kv obtain ip where ip: "addr_from_slice k = Some ip" "prefix_contains (if is4 ip then p4 else p6) ip"
      and rest: "scan_records db (p4, p6) kvs ((if is4 ip then (if addr_greater ip a4 then ip else a4, a6)
                        else (a4, if addr_greater ip a6 then ip else a6)), Suc n) = Inr (current, n')"
      by (auto simp: scan_record_def Let_def split: option.splits if_splits)
    have fits: "fits_range (if is4 ip then p4 else p6) (is4 ip) ip" "short_addr ip"
      using ip(2) contained_kind [OF ip(2)] by (auto simp: fits_range_def)
    show ?thesis
    proof (cases "is4 ip")
      case True
      with Cons.IH [of "if addr_greater ip a4 then ip else a4" a6 "Suc n"] rest fits Cons.prems(2-5) show ?thesis
        by (simp split: if_splits)
    next
      case False
      with Cons.IH [of a4 "if addr_greater ip a6 then ip else a6" "Suc n"] rest fits Cons.prems(2-5) show ?thesis
        by (simp split: if_splits)
    qed
  qed
qed auto

text \<open>What ParsePrefix and the family check leave: the zero prefix, or a valid one of the right family.\<close>

definition range_ok :: "bool \<Rightarrow> netip_prefix \<Rightarrow> bool" where
  "range_ok v4 p = (p = no_prefix \<or>
     (prefix_valid p \<and> regular_prefix p \<and> is4 (prefix_addr p) = v4 \<and> prefix_contains p (addr_next (prefix_addr p))))"

lemma decode_fits:
  assumes "decodeFakeIPMetadata d = Some ((p4, p6), (a4, a6))"
  shows "fits_range p4 True a4" "fits_range p6 False a6"
  using assms unfolding decodeFakeIPMetadata_def
  by (auto simp: fits_range_def bind_eq_Some_conv split: if_splits)

lemma field_short: "get_field r = Some (f, r') \<Longrightarrow> length f < 65536"
proof -
  assume "get_field r = Some (f, r')"
  then have "length f = be_value (take 2 r)" "2 \<le> length r" by (auto simp: get_field_def Let_def split: if_splits)
  moreover from this(2) have "length (take 2 r) = 2" by simp
  ultimately show ?thesis using be_value_bytes [of "take 2 r"] by simp
qed

lemma unmarshal_short: "unmarshal_addr f = Some a \<Longrightarrow> length f < 65536 \<Longrightarrow> short_addr a"
  by (auto simp: unmarshal_addr_def short_addr_def split: if_splits)

lemma decode_short:
  assumes "decodeFakeIPMetadata d = Some ((p4, p6), (a4, a6))"
  shows "short_addr a4" "short_addr a6"
  using assms unfolding decodeFakeIPMetadata_def
  by (auto simp: bind_eq_Some_conv split: if_splits intro: unmarshal_short field_short)

lemma start_fits:
  assumes "range_ok v4 p" and "fits_range p v4 a \<or> a = NoAddr" and "short_addr a"
  shows "fits_range p v4 (start_at p a)" "short_addr (start_at p a)"
proof -
  have "prefix_valid p \<Longrightarrow> fits_range p v4 (addr_next (prefix_addr p)) \<and> short_addr (addr_next (prefix_addr p))"
    using assms(1) contained_kind [of p "addr_next (prefix_addr p)"] by (auto simp: range_ok_def fits_range_def)
  moreover have "fits_range p v4 a" if "\<not> (prefix_valid p \<and> a = NoAddr)"
    using that assms(2) by (auto simp: fits_range_def)
  ultimately show "fits_range p v4 (start_at p a)" "short_addr (start_at p a)"
    using assms(3) by (auto simp: start_at_def)
qed

lemma range_regular: "range_ok v4 p \<Longrightarrow> regular_prefix p"
  by (auto simp: range_ok_def regular_prefix_def)

section \<open>Properties\<close>

text \<open>The checkpoint survives its binary form. Whatever the two ranges and the two addresses reached
  in them, decoding what was encoded gives them back, absent ranges, absent addresses and zones
  included.\<close>
theorem metadata_roundtrip:
  assumes "regular_prefix p4" "regular_prefix p6" and "short_addr a4" "short_addr a6"
    and "fits_range p4 True a4" "fits_range p6 False a6"
  shows "decodeFakeIPMetadata (encodeFakeIPMetadata (p4, p6) (a4, a6)) = Some ((p4, p6), (a4, a6))"
  using assms by (rule metadata_decodes)

definition default_range :: netip_prefix where
  "default_range = PrefixFrom (V4 0xC6120000) 15"

theorem metadata_roundtrip_witness:
  "decodeFakeIPMetadata (encodeFakeIPMetadata (default_range, no_prefix) (V4 0xC6120005, NoAddr)) =
     Some ((default_range, no_prefix), (V4 0xC6120005, NoAddr))"
proof (rule metadata_roundtrip)
  have "drop_bit 17 (0xC6120005 :: 32 word) = drop_bit 17 0xC6120000" by code_simp
  then show "fits_range default_range True (V4 0xC6120005)"
    by (simp add: fits_range_def default_range_def PrefixFrom_def is4_def)
qed (simp_all add: regular_prefix_def default_range_def PrefixFrom_def short_addr_def fits_range_def)

text \<open>C30: A repaired checkpoint never lets the engine hand out an address twice. If the recovery finds a
  checkpoint to write, the engine can decode it for the configured ranges, no address on record is
  beyond the one it names for its family, and the old checkpoint is not beyond it either.\<close>
theorem recovery_never_reuses:
  assumes "range_ok True p4" "range_ok False p6"
    and "plan_checkpoint (p4, p6) db = Inr (Some checkpoint)"
  shows "\<exists>b current. fakeip_address db = Some b \<and> decodeFakeIPMetadata checkpoint = Some ((p4, p6), current) \<and>
    (\<forall>(k, v) \<in> set b. k \<noteq> metadata_key \<longrightarrow>
       (\<exists>ip. addr_from_slice k = Some ip \<and> \<not> addr_greater ip (of_kind ip current))) \<and>
    (\<forall>ps a4 a6. decodeFakeIPMetadata (bucket_get b metadata_key) = Some (ps, (a4, a6)) \<longrightarrow>
       \<not> addr_greater a4 (fst current) \<and> \<not> addr_greater a6 (snd current))"
proof -
  obtain b where b: "fakeip_address db = Some b" using assms(3) by (auto simp: plan_checkpoint_def split: option.splits)
  let ?prev = "bucket_get b metadata_key"
  obtain a4 a6 where a: "if ?prev = [] then (a4, a6) = (NoAddr, NoAddr) else decodeFakeIPMetadata ?prev = Some ((p4, p6), (a4, a6))"
    and scan: "\<exists>current n. scan_records db (p4, p6) b ((start_at p4 a4, start_at p6 a6), 0) = Inr (current, n) \<and>
      checkpoint = encodeFakeIPMetadata (p4, p6) current"
    using assms(3) b
    by (auto simp: plan_checkpoint_def Let_def split: if_splits option.splits sum.splits prod.splits)
  obtain current n where run: "scan_records db (p4, p6) b ((start_at p4 a4, start_at p6 a6), 0) = Inr (current, n)"
    and cp: "checkpoint = encodeFakeIPMetadata (p4, p6) current"
    using scan by blast
  have start: "fits_range p4 True a4 \<or> a4 = NoAddr" "fits_range p6 False a6 \<or> a6 = NoAddr" "short_addr a4" "short_addr a6"
    using a decode_fits decode_short by (auto simp: short_addr_def split: if_splits)
  have valid: "prefix_valid p4 \<longrightarrow> is4 (prefix_addr p4)" "prefix_valid p6 \<longrightarrow> \<not> is4 (prefix_addr p6)"
    using assms(1,2) by (auto simp: range_ok_def)
  have fits: "fits_range p4 True (fst current) \<and> fits_range p6 False (snd current) \<and>
      short_addr (fst current) \<and> short_addr (snd current)"
    by (rule scan_fits [OF run start_fits(1) [OF assms(1) start(1,3)] start_fits(1) [OF assms(2) start(2,4)]
          start_fits(2) [OF assms(1) start(1,3)] start_fits(2) [OF assms(2) start(2,4)] valid])
  then have decoded: "decodeFakeIPMetadata checkpoint = Some ((p4, p6), current)"
    using metadata_decodes [OF range_regular [OF assms(1)] range_regular [OF assms(2)], of "fst current" "snd current"] cp by simp
  note sound = scan_sound [OF run]
  have "\<not> addr_greater x4 (fst current) \<and> \<not> addr_greater x6 (snd current)"
    if d: "decodeFakeIPMetadata ?prev = Some (ps, (x4, x6))" for ps x4 x6
  proof -
    have "decodeFakeIPMetadata [] = None" by (simp add: decodeFakeIPMetadata_def get_field_def)
    then have "?prev \<noteq> []" using d by auto
    with a d have "x4 = a4" "x6 = a6" by simp_all
    have "\<not> addr_greater NoAddr y" for y by (cases y) simp_all
    then have "\<not> addr_greater x (start_at p x)" for p x by (simp add: start_at_def)
    with sound \<open>x4 = a4\<close> \<open>x6 = a6\<close> greater_trans show ?thesis by metis
  qed
  with b decoded sound show ?thesis by blast
qed

text \<open>Recovery changes the checkpoint or nothing. Any error leaves the cache as it was; when the cache
  does change, the mappings in both directions are untouched, only the checkpoint is new, and the
  cache as it was is the newest of at most three snapshots.\<close>
theorem recovery_changes_only_the_checkpoint:
  assumes "recoverFakeIPCache e config cache snaps = (err, cache', snaps')"
  shows "(err \<noteq> None \<longrightarrow> cache' = cache) \<and>
    (cache' \<noteq> cache \<longrightarrow> (\<exists>db db'. cache = CacheDB db \<and> cache' = CacheDB db' \<and>
       fakeip_domain4 db' = fakeip_domain4 db \<and> fakeip_domain6 db' = fakeip_domain6 db \<and>
       (\<exists>b b'. fakeip_address db = Some b \<and> fakeip_address db' = Some b' \<and>
          (\<forall>k. k \<noteq> metadata_key \<longrightarrow> map_of b' k = map_of b k)) \<and>
       snaps' = take 3 (db # snaps)))"
proof (cases "cache' = cache \<and> err = None")
  case True
  then show ?thesis by simp
next
  case False
  show ?thesis
  proof (cases "cache' = cache")
    case True
    then show ?thesis by simp
  next
    case changed: False
    then obtain c ranges db checkpoint where db: "cache = CacheDB db"
      and plan: "plan_checkpoint ranges db = Inr (Some checkpoint)"
      and w: "write_checkpoint e checkpoint db snaps = (err, cache', snaps')"
      using assms
      by (auto simp: recoverFakeIPCache_def split: sum.splits option.splits if_splits cache_file.splits)
    obtain b where b: "fakeip_address db = Some b" using plan by (auto simp: plan_checkpoint_def split: option.splits)
    have "err = None" "cache' = CacheDB (put_metadata checkpoint db)" "snaps' = take 3 (db # snaps)"
      using w changed db by (auto simp: write_checkpoint_def split: if_splits)
    then show ?thesis using db b by (auto simp: put_metadata_def update_conv')
  qed
qed

definition sample_bytes :: "string \<Rightarrow> bytes" where
  "sample_bytes s = map (\<lambda>c. of_nat (of_char c)) s"

definition sample_cache :: fakeip_db where
  "sample_cache =
     \<lparr>fakeip_address = Some [([198, 18, 0, 5], Some (sample_bytes ''a.com'')), ([198, 19, 0, 1], Some (sample_bytes ''b.com''))],
      fakeip_domain4 = Some [(sample_bytes ''a.com'', Some [198, 18, 0, 5]), (sample_bytes ''b.com'', Some [198, 19, 0, 1])],
      fakeip_domain6 = None\<rparr>"

definition sample_checkpoint :: bytes where
  "sample_checkpoint = encodeFakeIPMetadata (default_range, no_prefix) (V4 0xC6130001, NoAddr)"

lemma sample_slices:
  "addr_from_slice [198, 18, 0, 5] = Some (V4 0xC6120005)" "addr_from_slice [198, 19, 0, 1] = Some (V4 0xC6130001)"
  by (simp_all add: addr_from_slice_def be_value_def)

lemma sample_range:
  "prefix_contains default_range (V4 0xC6120005)" "prefix_contains default_range (V4 0xC6130001)"
  "prefix_contains default_range (V4 0xC6120001)"
proof -
  have "drop_bit 17 (0xC6120005 :: 32 word) = drop_bit 17 0xC6120000" "drop_bit 17 (0xC6130001 :: 32 word) = drop_bit 17 0xC6120000"
      "drop_bit 17 (0xC6120001 :: 32 word) = drop_bit 17 0xC6120000"
    by code_simp+
  then show "prefix_contains default_range (V4 0xC6120005)" "prefix_contains default_range (V4 0xC6130001)"
      "prefix_contains default_range (V4 0xC6120001)"
    by (simp_all add: default_range_def PrefixFrom_def)
qed

lemma metadata_key_long: "[a, b, c, d] \<noteq> metadata_key" "metadata_key \<noteq> [a, b, c, d]" "metadata_key \<noteq> []"
  by (simp_all add: metadata_key_def)

lemma sample_plan: "plan_checkpoint (default_range, no_prefix) sample_cache = Inr (Some sample_checkpoint)"
proof -
  have names: "sample_bytes ''a.com'' \<noteq> sample_bytes ''b.com''" "sample_bytes ''a.com'' \<noteq> []" "sample_bytes ''b.com'' \<noteq> []"
      "length (sample_bytes ''a.com'') = 5" "length (sample_bytes ''b.com'') = 5"
    by (simp_all add: sample_bytes_def)
  have utf: "utf8_valid (sample_bytes ''a.com'')" "utf8_valid (sample_bytes ''b.com'')" by code_simp+
  have start: "start_at default_range NoAddr = V4 0xC6120001" "start_at no_prefix NoAddr = NoAddr"
    by (simp_all add: start_at_def default_range_def PrefixFrom_def)
  have "sample_checkpoint \<noteq> []" by (simp add: sample_checkpoint_def encodeFakeIPMetadata_def put_field_def)
  then show ?thesis
    by (simp add: plan_checkpoint_def sample_cache_def bucket_get_def start scan_record_def sample_slices sample_range is4_def
        names utf names(1) [symmetric] metadata_key_long Let_def sample_checkpoint_def)
qed

lemma default_range_ok: "range_ok True default_range" "range_ok False no_prefix"
proof -
  have "addr_next (prefix_addr default_range) = V4 0xC6120001" by (simp add: default_range_def PrefixFrom_def)
  then show "range_ok True default_range" "range_ok False no_prefix"
    using sample_range(3) by (simp_all add: range_ok_def regular_prefix_def default_range_def PrefixFrom_def is4_def)
qed

theorem recovery_never_reuses_witness:
  "\<exists>current. decodeFakeIPMetadata sample_checkpoint = Some ((default_range, no_prefix), current) \<and>
     \<not> addr_greater (V4 0xC6130001) (fst current)"
proof -
  obtain b current where b: "fakeip_address sample_cache = Some b"
    and c: "decodeFakeIPMetadata sample_checkpoint = Some ((default_range, no_prefix), current)"
    and all: "\<forall>(k, v) \<in> set b. k \<noteq> metadata_key \<longrightarrow>
       (\<exists>ip. addr_from_slice k = Some ip \<and> \<not> addr_greater ip (of_kind ip current))"
    using recovery_never_reuses [OF default_range_ok sample_plan] by blast
  have "([198, 19, 0, 1], Some (sample_bytes ''b.com'')) \<in> set b" using b by (auto simp: sample_cache_def)
  moreover have "[198, 19, 0, 1] \<noteq> metadata_key" by (rule metadata_key_long)
  ultimately have "\<exists>ip. addr_from_slice [198, 19, 0, 1] = Some ip \<and> \<not> addr_greater ip (of_kind ip current)"
    using all by fast
  with c show ?thesis by (auto simp: sample_slices of_kind_def is4_def)
qed

definition fakeip_on :: fakeip_config where
  "fakeip_on = \<lparr>fc_enabled = True, fc_store = True, fc_absolute = True, fc_servers = [(''fakeip'', ''198.18.0.0/15'', [])]\<rparr>"

theorem recovery_changes_only_the_checkpoint_witness:
  "(case recoverFakeIPCache \<lparr>re_create = None, re_copy = None, re_update = None\<rparr>
       (Inr fakeip_on) (CacheDB sample_cache) [] of
     (err, cache, snaps) \<Rightarrow> cache \<noteq> CacheDB sample_cache \<and> snaps = [sample_cache])"
proof -
  let ?r = "recoverFakeIPCache \<lparr>re_create = None, re_copy = None, re_update = None\<rparr>
       (Inr fakeip_on) (CacheDB sample_cache) []"
  have "ParsePrefix ''198.18.0.0/15'' = Some default_range"
    by (simp add: ParsePrefix_def cut_last_def ParseAddr_def v4_fields_def v4_field_def big_endian_def digit_value_def atoi_def
        Let_def default_range_def)
  moreover have "is4 (prefix_addr default_range)" by (simp add: default_range_def PrefixFrom_def is4_def)
  ultimately have "fst (snd ?r) = CacheDB (put_metadata sample_checkpoint sample_cache)"
    by (simp add: recoverFakeIPCache_def fakeip_on_def parse_range_def sample_plan write_checkpoint_def)
  moreover have "put_metadata sample_checkpoint sample_cache \<noteq> sample_cache"
    by (simp add: put_metadata_def sample_cache_def metadata_key_long)
  ultimately have "fst (snd ?r) \<noteq> CacheDB sample_cache" by simp
  with recovery_changes_only_the_checkpoint [of _ "Inr fakeip_on" "CacheDB sample_cache" "[]"
      "fst ?r" "fst (snd ?r)" "snd (snd ?r)"]
  show ?thesis by (auto simp: case_prod_unfold)
qed

end
