(* ===== verification/Engine.thy ===== *)
theory Engine
  imports Fake_IP Config_Parse
begin

text \<open>
  core/engine_contract.go, core/dns_ready.go and the life of the engine process in core/singbox.go:
  which engine versions are accepted, waiting until it answers DNS, starting and stopping it.
\<close>

section \<open>The version contract\<close>

text \<open>Regexp's digits and its class of white space, which has no vertical tab.\<close>

definition is_digit_char :: "char \<Rightarrow> bool" where
  "is_digit_char c = (digit_value c \<noteq> None)"

definition re_space :: "char \<Rightarrow> bool" where
  "re_space c = (is_space c \<and> c \<noteq> CHR 0x0B)"

text \<open>A line that matches: the banner, three numbers with dots between them, and white space to its end.\<close>

definition version_fields :: "string \<Rightarrow> (string \<times> string \<times> string) option" where
  "version_fields line =
     (case cut_prefix line ''sing-box version '' of
        None \<Rightarrow> None
      | Some r \<Rightarrow>
          let major = takeWhile is_digit_char r; r = dropWhile is_digit_char r in
          if major = [] \<or> r = [] \<or> hd r \<noteq> CHR ''.'' then None
          else
            let minor = takeWhile is_digit_char (tl r); r = dropWhile is_digit_char (tl r) in
            if minor = [] \<or> r = [] \<or> hd r \<noteq> CHR ''.'' then None
            else
              let patch = takeWhile is_digit_char (tl r); r = dropWhile is_digit_char (tl r) in
              if patch = [] \<or> \<not> list_all re_space r then None
              else Some (major, minor, patch))"

definition first_version :: "string \<Rightarrow> (string \<times> string \<times> string) option" where
  "first_version output =
     (case find (\<lambda>l. version_fields l \<noteq> None) (split_lines output) of
        None \<Rightarrow> None
      | Some l \<Rightarrow> version_fields l)"

definition validateEngineVersion :: "string \<Rightarrow> go_error" where
  "validateEngineVersion output =
     (case first_version output of
        Some (major, minor, patch) \<Rightarrow>
          if major = ''1'' \<and> minor = ''14'' \<and> atoi_value patch \<ge> 3 then None
          else Some ''unqualified sing-box version: require stable 1.14.x >= 1.14.3; install qualified 1.14.4 before starting Mole''
      | None \<Rightarrow> Some ''unqualified sing-box version: require stable 1.14.x >= 1.14.3; install qualified 1.14.4 before starting Mole'')"

text \<open>The two runs of the engine: what it prints for its version, and its check of a configuration.\<close>

definition checkEngineConfig :: "string + string \<Rightarrow> (string \<times> string) option \<Rightarrow> go_error" where
  "checkEngineConfig version check =
     (case version of
        Inl e \<Rightarrow> Some (''read sing-box version: '' @ e)
      | Inr out \<Rightarrow>
          (case validateEngineVersion out of
             Some e \<Rightarrow> Some e
           | None \<Rightarrow>
               (case check of
                  None \<Rightarrow> None
                | Some (e, printed) \<Rightarrow>
                    Some (''sing-box config check failed: '' @ e @ '': '' @ take 1200 (trim_space printed)))))"

section \<open>DNS readiness\<close>

text \<open>An inbound of the configuration file: tag, listen address and port.\<close>

definition engineDNSAddress :: "string + (string \<times> string \<times> 16 word) list \<Rightarrow> string + string" where
  "engineDNSAddress config =
     (case config of
        Inl e \<Rightarrow> Inl e
      | Inr inbounds \<Rightarrow>
          (case find (\<lambda>(tag, _). tag = ''dns-in'') inbounds of
             None \<Rightarrow> Inr []
           | Some (_, listen, port) \<Rightarrow>
               Inr ((if CHR '':'' \<in> set listen \<or> CHR ''%'' \<in> set listen then ''['' @ listen @ '']'' else listen) @
                 '':'' @ itoa (uint port))))"

text \<open>
  What the wait sees: the clock, whether the engine has exited, a lookup (the number of addresses or
  an error), and a pause of a tenth of a second that an exit or the end of the context cuts short.
\<close>

record 'w dns_env =
  n_clock :: "'w \<Rightarrow> go_time"
  n_exited :: "'w \<Rightarrow> bool"
  n_lookup :: "string \<Rightarrow> 'w \<Rightarrow> (string + nat) \<times> 'w"
  n_pause :: "'w \<Rightarrow> 'w"

text \<open>The hosts in order, up to the first that has no address: whether all have, and the last error.\<close>

fun ask_hosts :: "'w dns_env \<Rightarrow> string list \<Rightarrow> go_error \<Rightarrow> 'w \<Rightarrow> (bool \<times> go_error) \<times> 'w" where
  "ask_hosts n [] err w = ((True, err), w)"
| "ask_hosts n (host # hosts) err w =
     (case n_lookup n host w of
        (Inl e, w) \<Rightarrow> ((False, Some e), w)
      | (Inr k, w) \<Rightarrow> if k = 0 then ((False, None), w) else ask_hosts n hosts err w)"

text \<open>
  The loop; fuel bounds its rounds, and None is running out of it. If both an exit and the end of
  the context are seen at once, Go may report either; the model reports the exit.
\<close>

fun waitDNSReady :: "'w dns_env \<Rightarrow> go_time \<Rightarrow> string list \<Rightarrow> nat \<Rightarrow> go_error \<Rightarrow> 'w \<Rightarrow> (go_error \<times> 'w) option" where
  "waitDNSReady n deadline hosts 0 err w = None"
| "waitDNSReady n deadline hosts (Suc fuel) err w =
     (if n_exited n w then Some (Some ''engine exited before DNS readiness'', w)
      else if n_clock n w \<ge> deadline
      then Some (Some (''DNS readiness: context deadline exceeded (last query: '' @
        (case err of None \<Rightarrow> ''<nil>'' | Some e \<Rightarrow> e) @ '')''), w)
      else
        (case ask_hosts n hosts err w of
           ((True, _), w) \<Rightarrow>
             if n_exited n w then Some (Some ''engine exited during DNS readiness'', w) else Some (None, w)
         | ((False, err), w) \<Rightarrow> waitDNSReady n deadline hosts fuel err (n_pause n w)))"

section \<open>The process\<close>

text \<open>
  Whether currentProcess is set, how many engines were launched, the cache with its snapshots, and
  the world the engine runs in.
\<close>

record 'w engine =
  en_running :: bool
  en_launched :: nat
  en_cache :: cache_file
  en_snaps :: "fakeip_db list"
  en_world :: 'w

text \<open>Which signals arrive, the kill a second time, and whether the process ends within each wait.\<close>

record stop_env =
  st_interrupt :: bool
  st_kill :: "bool \<times> bool"
  st_ends :: "bool \<times> bool"

definition engine_stop :: "stop_env \<Rightarrow> 'w engine \<Rightarrow> go_error \<times> 'w engine" where
  "engine_stop v e =
     (if \<not> en_running e then (None, e)
      else if \<not> st_interrupt v \<and> \<not> fst (st_kill v) then (Some ''failed to stop sing-box'', e)
      else if fst (st_ends v) then (None, e\<lparr>en_running := False\<rparr>)
      else if \<not> snd (st_kill v) then (Some ''sing-box did not exit'', e)
      else if snd (st_ends v) then (None, e\<lparr>en_running := False\<rparr>)
      else (Some ''sing-box is wedged and ignoring SIGKILL'', e))"

text \<open>The three places an engine is looked for.\<close>

definition findSingbox :: "(string \<Rightarrow> bool) \<Rightarrow> string \<Rightarrow> string option \<Rightarrow> string + string" where
  "findSingbox present bin_dir in_path =
     (if present (bin_dir @ ''/sing-box'') then Inr (bin_dir @ ''/sing-box'')
      else case in_path of
        Some p \<Rightarrow> Inr p
      | None \<Rightarrow>
          (case find present [''/usr/local/bin/sing-box'', ''/usr/bin/sing-box'', ''/opt/sing-box/sing-box''] of
             Some p \<Rightarrow> Inr p
           | None \<Rightarrow> Inl (''sing-box not found '' @ em_dash @ '' reinstall mole'')))"

text \<open>
  What a start finds: where the engine is, its version, its check of the configuration, the parts of
  the configuration file, what the cache repair reports, the log file, the launch, whether the
  process is gone after two seconds, the DNS queries, and the stop after a failure.
\<close>

record 'w start_env =
  s_present :: "string \<Rightarrow> bool"
  s_bin_dir :: string
  s_in_path :: "string option"
  s_version :: "string + string"
  s_check :: "(string \<times> string) option"
  s_recovery :: recovery_env
  s_fakeip :: "string + fakeip_config"
  s_log :: go_error
  s_launch :: go_error
  s_early_exit :: bool
  s_inbounds :: "string + (string \<times> string \<times> 16 word) list"
  s_dns :: "'w dns_env"
  s_stop :: stop_env

text \<open>Twelve seconds of rounds a tenth of a second apart.\<close>

definition dns_fuel :: nat where "dns_fuel = 122"

definition await_dns :: "'w start_env \<Rightarrow> 'w \<Rightarrow> go_error \<times> 'w" where
  "await_dns v w =
     (case engineDNSAddress (s_inbounds v) of
        Inl err \<Rightarrow> (Some err, w)
      | Inr addr \<Rightarrow>
          if addr = [] then (None, w)
          else (case waitDNSReady (s_dns v) (n_clock (s_dns v) w + 12 * go_second) [''www.baidu.com'', ''example.com''] dns_fuel None w of
                  Some r \<Rightarrow> r
                | None \<Rightarrow> (Some ''out of fuel'', w)))"

definition engine_start :: "'w start_env \<Rightarrow> 'w engine \<Rightarrow> go_error \<times> 'w engine" where
  "engine_start v e =
     (if en_running e then (Some ''VPN is already running'', e)
      else case findSingbox (s_present v) (s_bin_dir v) (s_in_path v) of
        Inl err \<Rightarrow> (Some err, e)
      | Inr path \<Rightarrow>
          (case checkEngineConfig (s_version v) (s_check v) of
             Some err \<Rightarrow> (Some err, e)
           | None \<Rightarrow>
               (case recoverFakeIPCache (s_recovery v) (s_fakeip v) (en_cache e) (en_snaps e) of
                  (err, cache, snaps) \<Rightarrow>
                    let e = e\<lparr>en_cache := cache, en_snaps := snaps\<rparr> in
                    if err \<noteq> None then (Some (''preserve FakeIP cache before engine restart: '' @ the err), e)
                    else if s_log v \<noteq> None then (Some (''open log file: '' @ the (s_log v)), e)
                    else if s_launch v \<noteq> None then (Some (''failed to start sing-box: '' @ the (s_launch v)), e)
                    else
                      let e = e\<lparr>en_running := True, en_launched := Suc (en_launched e)\<rparr> in
                      if s_early_exit v then (Some ''sing-box exited unexpectedly'', e\<lparr>en_running := False\<rparr>)
                      else
                        (case await_dns v (en_world e) of
                           (None, w) \<Rightarrow> (None, e\<lparr>en_world := w\<rparr>)
                         | (Some err, w) \<Rightarrow>
                             (Some (''engine DNS not ready: '' @ err), snd (engine_stop (s_stop v) (e\<lparr>en_world := w\<rparr>)))))))"

section \<open>Lemmas\<close>

lemma takeWhile_digits: "list_all is_digit_char ds \<Longrightarrow> r = [] \<or> \<not> is_digit_char (hd r) \<Longrightarrow>
    takeWhile is_digit_char (ds @ r) = ds \<and> dropWhile is_digit_char (ds @ r) = r"
  by (induction ds) (cases r, auto)

lemma nat_text_are_digits: "list_all is_digit_char (nat_text n)"
proof (induction n rule: nat_text.induct)
  case (1 n)
  have "is_digit_char (digit_char d)" if "d < 10" for d using that by (simp add: is_digit_char_def)
  with 1 show ?case by (subst nat_text.simps) auto
qed

definition banner :: "nat \<Rightarrow> nat \<Rightarrow> nat \<Rightarrow> string" where
  "banner major minor patch = ''sing-box version '' @ nat_text major @ ''.'' @ nat_text minor @ ''.'' @ nat_text patch"

lemma banner_fields: "version_fields (banner a b c) = Some (nat_text a, nat_text b, nat_text c)"
proof -
  have dot: "\<not> is_digit_char (CHR ''.'')" by (simp add: is_digit_char_def digit_value_def)
  have cut: "cut_prefix (banner a b c) ''sing-box version '' = Some (nat_text a @ ''.'' @ nat_text b @ ''.'' @ nat_text c)"
    unfolding banner_def by (rule cut_prefix_append)
  note t = takeWhile_digits [OF nat_text_are_digits]
  have all: "\<forall>x\<in>set (nat_text n). is_digit_char x" for n using nat_text_are_digits [of n] by (simp only: list_all_iff)
  have c: "takeWhile is_digit_char (nat_text n) = nat_text n" "dropWhile is_digit_char (nat_text n) = []" for n
    using all [of n] by (simp_all only: takeWhile_eq_all_conv dropWhile_eq_Nil_conv)
  have d: "takeWhile is_digit_char (nat_text n @ CHR ''.'' # r) = nat_text n"
    "dropWhile is_digit_char (nat_text n @ CHR ''.'' # r) = CHR ''.'' # r" for n r
    using t [of "CHR ''.'' # r" n] dot by (simp_all del: takeWhile_append2)
  show ?thesis
    by (simp only: version_fields_def cut option.case Let_def append.simps d c list.sel) simp
qed

lemma banner_line: "CHR 0x0A \<notin> set (banner a b c)"
proof -
  have "\<not> is_digit_char (CHR 0x0A)" by (simp add: is_digit_char_def digit_value_def)
  then have "CHR 0x0A \<notin> set (nat_text n)" for n using nat_text_are_digits [of n] by (auto simp: list_all_iff)
  then show ?thesis by (simp add: banner_def)
qed

lemma split_first_line: "CHR 0x0A \<notin> set l \<Longrightarrow> split_lines (l @ CHR 0x0A # s) = l # split_lines s"
  by (induction l) auto

lemma first_banner:
  "first_version (banner major minor patch @ CHR 0x0A # rest) = Some (nat_text major, nat_text minor, nat_text patch)"
  by (simp add: first_version_def split_first_line [OF banner_line] banner_fields)

text \<open>What the loop relies on: lookups do not turn the clock back, and a pause takes a tenth of a second
  unless the engine exits or the time is up.\<close>

definition dns_clock :: "'w dns_env \<Rightarrow> go_time \<Rightarrow> bool" where
  "dns_clock n deadline =
     ((\<forall>host w. n_clock n w \<le> n_clock n (snd (n_lookup n host w))) \<and>
      (\<forall>w. n_exited n (n_pause n w) \<or> n_clock n (n_pause n w) \<ge> min deadline (n_clock n w + 100 * go_ms)))"

lemma ask_clock: "dns_clock n deadline \<Longrightarrow> n_clock n w \<le> n_clock n (snd (ask_hosts n hosts err w))"
proof (induction hosts arbitrary: w)
  case (Cons h hs)
  obtain r w1 where r: "n_lookup n h w = (r, w1)" by force
  with Cons.prems have "n_clock n w \<le> n_clock n w1" unfolding dns_clock_def by (metis snd_conv)
  moreover have "n_clock n w1 \<le> n_clock n (snd (ask_hosts n hs err w1))" by (rule Cons.IH [OF Cons.prems])
  ultimately show ?case using r by (auto split: sum.splits)
qed simp

lemma wait_returns:
  assumes "dns_clock n deadline" and "deadline \<le> n_clock n w + int fuel * (100 * go_ms) \<or> n_exited n w"
  shows "\<exists>r w'. waitDNSReady n deadline hosts (Suc fuel) err w = Some (r, w') \<and>
    (r = None \<longrightarrow> \<not> n_exited n w' \<and> (\<exists>e w1 e'. ask_hosts n hosts e w1 = ((True, e'), w') \<and> n_clock n w1 < deadline))"
  using assms(2)
proof (induction fuel arbitrary: w err)
  case 0
  then show ?case by auto
next
  case (Suc fuel)
  show ?case
  proof (cases "n_exited n w \<or> n_clock n w \<ge> deadline")
    case True
    then show ?thesis by auto
  next
    case open_time: False
    obtain ok err1 w1 where ask: "ask_hosts n hosts err w = ((ok, err1), w1)" by (metis prod.collapse)
    show ?thesis
    proof (cases ok)
      case True
      show ?thesis
      proof (cases "n_exited n w1")
        case True
        with ask open_time \<open>ok\<close> show ?thesis by simp
      next
        case False
        then have "waitDNSReady n deadline hosts (Suc (Suc fuel)) err w = Some (None, w1)"
          using ask open_time \<open>ok\<close> by simp
        moreover have "\<exists>e w2 e'. ask_hosts n hosts e w2 = ((True, e'), w1) \<and> n_clock n w2 < deadline"
          using ask \<open>ok\<close> open_time by (intro exI [of _ err] exI [of _ w] exI [of _ err1]) auto
        ultimately show ?thesis using False by blast
      qed
    next
      case False
      have "n_clock n w \<le> n_clock n w1" using ask_clock [OF assms(1), of w hosts err] ask by simp
      moreover have "n_exited n (n_pause n w1) \<or> n_clock n (n_pause n w1) \<ge> min deadline (n_clock n w1 + 100 * go_ms)"
        using assms(1) by (simp add: dns_clock_def)
      ultimately have "deadline \<le> n_clock n (n_pause n w1) + int fuel * (100 * go_ms) \<or> n_exited n (n_pause n w1)"
        using Suc.prems open_time by (auto simp: algebra_simps min_def split: if_splits)
      from Suc.IH [OF this, of err1] ask False open_time show ?thesis by simp
    qed
  qed
qed

text \<open>A start either stops before the launch, with what it had, or reaches it.\<close>

lemma start_stages:
  assumes "engine_start v e = (err, e')"
    and "recoverFakeIPCache (s_recovery v) (s_fakeip v) (en_cache e) (en_snaps e) = (rerr, cache, snaps)"
  shows "en_launched e' = en_launched e \<and> en_running e' = en_running e \<and> err \<noteq> None \<or>
    \<not> en_running e \<and> (\<exists>path. findSingbox (s_present v) (s_bin_dir v) (s_in_path v) = Inr path) \<and>
    checkEngineConfig (s_version v) (s_check v) = None \<and> rerr = None \<and> s_log v = None \<and> s_launch v = None"
proof (cases "en_running e")
  case True
  then show ?thesis using assms(1) by (auto simp: engine_start_def)
next
  case idle: False
  show ?thesis
  proof (cases "findSingbox (s_present v) (s_bin_dir v) (s_in_path v)")
    case (Inl x)
    then show ?thesis using assms(1) idle by (auto simp: engine_start_def)
  next
    case found: (Inr path)
    show ?thesis
    proof (cases "checkEngineConfig (s_version v) (s_check v)")
      case (Some x)
      then show ?thesis using assms(1) idle found by (auto simp: engine_start_def)
    next
      case None
      show ?thesis
      proof (cases "rerr = None \<and> s_log v = None \<and> s_launch v = None")
        case True
        then show ?thesis using idle found None by simp
      next
        case False
        then show ?thesis using assms idle found None by (auto simp: engine_start_def Let_def split: if_splits)
      qed
    qed
  qed
qed

section \<open>Properties\<close>

text \<open>The version contract is exactly what its message says. For the banner of any version, followed by
  whatever the engine prints after it, the check accepts if and only if the version is 1.14.x with
  x at least 3.\<close>
theorem version_contract:
  assumes "patch < 2 ^ 63"
  shows "validateEngineVersion (banner major minor patch @ CHR 0x0A # rest) = None \<longleftrightarrow> major = 1 \<and> minor = 14 \<and> patch \<ge> 3"
proof -
  have "nat_text major = ''1'' \<longleftrightarrow> major = 1" "nat_text minor = ''14'' \<longleftrightarrow> minor = 14"
  proof -
    have "nat_text 1 = ''1''" "nat_text 14 = ''14''" by code_simp+
    then show "nat_text major = ''1'' \<longleftrightarrow> major = 1" "nat_text minor = ''14'' \<longleftrightarrow> minor = 14"
      using nat_text_inject by metis+
  qed
  moreover have "atoi_value (nat_text patch) = int patch"
    using atoi_value_itoa [of "int patch"] assms by (simp add: itoa_def)
  ultimately show ?thesis by (simp add: validateEngineVersion_def first_banner)
qed

theorem version_contract_witness:
  "validateEngineVersion (banner 1 14 4 @ CHR 0x0A # ''Environment: go1.24'') = None \<and>
   validateEngineVersion (banner 1 15 0 @ CHR 0x0A # []) \<noteq> None"
  using version_contract [of 4 1 14 "''Environment: go1.24''"] version_contract [of 0 1 15 "[]"] by simp

text \<open>The wait for DNS ends and is not fooled. With fuel for its twelve seconds it always returns; it
  reports readiness only after one round, begun in time, in which every host had an address, with
  the engine still there.\<close>
theorem dns_wait_returns:
  assumes "dns_clock n (n_clock n w + 12 * go_second)"
  shows "\<exists>r w'. waitDNSReady n (n_clock n w + 12 * go_second) hosts dns_fuel None w = Some (r, w') \<and>
    (r = None \<longrightarrow> \<not> n_exited n w' \<and>
       (\<exists>e w1 e'. ask_hosts n hosts e w1 = ((True, e'), w') \<and> n_clock n w1 < n_clock n w + 12 * go_second))"
  using wait_returns [OF assms, of w 121 hosts None] by (simp add: dns_fuel_def numeral_eq_Suc del: waitDNSReady.simps)

text \<open>A resolver that never answers, on a clock in milliseconds.\<close>

definition silent_dns :: "int dns_env" where
  "silent_dns = \<lparr>n_clock = (\<lambda>w. w * go_ms), n_exited = (\<lambda>_. False), n_lookup = (\<lambda>_ w. (Inl ''i/o timeout'', w + 1000)),
     n_pause = (\<lambda>w. w + 100)\<rparr>"

theorem dns_wait_returns_witness:
  "\<exists>r w'. waitDNSReady silent_dns (12 * go_second) [''example.com''] dns_fuel None 0 = Some (r, w') \<and> r \<noteq> None"
proof -
  have "dns_clock silent_dns (n_clock silent_dns 0 + 12 * go_second)"
    by (simp add: dns_clock_def silent_dns_def)
  moreover have "ask_hosts silent_dns [''example.com''] e w \<noteq> ((True, e'), w')" for e w e' w'
    by (simp add: silent_dns_def)
  ultimately show ?thesis
    using dns_wait_returns [of silent_dns 0 "[''example.com'']"] by (auto simp: silent_dns_def)
qed


text \<open>A qualified engine whose DNS answers at once, and no store of fake addresses.\<close>

definition healthy_start :: "int start_env" where
  "healthy_start =
     \<lparr>s_present = (\<lambda>p. p = ''/opt/mole/sing-box''), s_bin_dir = ''/opt/mole'', s_in_path = None,
      s_version = Inr (banner 1 14 4 @ CHR 0x0A # []), s_check = None,
      s_recovery = \<lparr>re_create = None, re_copy = None, re_update = None\<rparr>,
      s_fakeip = Inr \<lparr>fc_enabled = False, fc_store = False, fc_absolute = True, fc_servers = []\<rparr>,
      s_log = None, s_launch = None, s_early_exit = False, s_inbounds = Inr [(''dns-in'', ''127.0.0.1'', 53)],
      s_dns = silent_dns\<lparr>n_lookup := (\<lambda>_ w. (Inr 1, w + 20))\<rparr>,
      s_stop = \<lparr>st_interrupt = True, st_kill = (True, True), st_ends = (True, True)\<rparr>\<rparr>"


end
