(* ===== verification/Direct_HTTP.thy ===== *)
theory Direct_HTTP
  imports Netip "HOL-Library.AList"
begin

text \<open>
  utils/directhttp.go: addresses resolved outside the tunnel, the file that remembers the last ones that
  worked, the order in which a bound client tries them, and the choice of the physical interface. A
  lookup at 223.5.5.5 and a dial are parameters.
\<close>

section \<open>The cache of direct addresses\<close>

record directIPEntry =
  de_IPs :: "string list"
  de_At :: go_time

text \<open>The file: None if it is missing or not readable as JSON, which reads as an empty cache.\<close>

type_synonym direct_ip_file = "(string \<times> directIPEntry) list option"

definition readDirectIPCache :: "direct_ip_file \<Rightarrow> (string \<times> directIPEntry) list" where
  "readDirectIPCache f = (case f of None \<Rightarrow> [] | Some c \<Rightarrow> c)"

definition CachedDirectIPs :: "string \<Rightarrow> direct_ip_file \<Rightarrow> string list" where
  "CachedDirectIPs host f = (case map_of (readDirectIPCache f) host of None \<Rightarrow> [] | Some e \<Rightarrow> de_IPs e)"

text \<open>A write that fails leaves the file.\<close>

definition cacheDirectIPs :: "bool \<Rightarrow> go_time \<Rightarrow> string \<Rightarrow> string list \<Rightarrow> direct_ip_file \<Rightarrow> direct_ip_file" where
  "cacheDirectIPs written now host ips f =
     (if written then Some (AList.update host \<lparr>de_IPs = ips, de_At = now\<rparr> (readDirectIPCache f)) else f)"

section \<open>Resolving\<close>

text \<open>The dotted form of an IPv4 address.\<close>

definition v4_text :: "32 word \<Rightarrow> string" where
  "v4_text w = (let v = unat w in
     nat_text (v div 16777216) @ ''.'' @ nat_text (v div 65536 mod 256) @ ''.'' @
     nat_text (v div 256 mod 256) @ ''.'' @ nat_text (v mod 256))"

text \<open>
  What a resolution meets: the answer of the direct resolver, the clock, and whether the cache can be
  written.
\<close>

record resolve_env =
  rv_lookup :: "string \<Rightarrow> string + netip_addr list"
  rv_now :: go_time
  rv_written :: bool

definition ResolveDirect :: "resolve_env \<Rightarrow> string \<Rightarrow> direct_ip_file \<Rightarrow> (string + string list) \<times> direct_ip_file" where
  "ResolveDirect v host f =
     (case rv_lookup v host of
        Inl e \<Rightarrow> (Inl (''resolve '' @ host @ '' directly: '' @ e), f)
      | Inr addrs \<Rightarrow>
          let out = map v4_text (map the (filter (\<lambda>a. a \<noteq> None) (map to4 addrs))) in
          if out = [] then (Inl (''resolve '' @ host @ '' directly: no IPv4 address''), f)
          else (Inr out, cacheDirectIPs (rv_written v) (rv_now v) host out f))"

text \<open>The addresses, whether they are live, and the error of the lookup.\<close>

definition ResolveDirectCached ::
  "resolve_env \<Rightarrow> string \<Rightarrow> direct_ip_file \<Rightarrow> (string list \<times> bool \<times> go_error) \<times> direct_ip_file" where
  "ResolveDirectCached v host f =
     (case ResolveDirect v host f of
        (Inr ips, f) \<Rightarrow> ((ips, True, None), f)
      | (Inl e, f) \<Rightarrow>
          let cached = CachedDirectIPs host f in
          if cached \<noteq> [] then ((cached, False, Some e), f) else (([], False, Some e), f))"

section \<open>Dialing\<close>

text \<open>The loop over the candidates: each address once, up to the first that answers.\<close>

fun dial_loop ::
  "(string \<Rightarrow> 'w \<Rightarrow> go_error \<times> 'w) \<Rightarrow> string list \<Rightarrow> string list \<Rightarrow> go_error \<Rightarrow> 'w \<Rightarrow> (go_error + string) \<times> 'w" where
  "dial_loop dial [] seen err w = (Inl err, w)"
| "dial_loop dial (ip # ips) seen err w =
     (if ip \<in> set seen then dial_loop dial ips seen err w
      else case dial ip w of
        (None, w) \<Rightarrow> (Inr ip, w)
      | (Some e, w) \<Rightarrow> dial_loop dial ips (ip # seen) (if err = None then Some e else err) w)"

text \<open>
  The client's dial of a host and a port, which is dialed as it is if it already names an address.
  The result is the address that answered, or the first error.
\<close>

definition bound_dial ::
  "resolve_env \<Rightarrow> (string \<Rightarrow> 'w \<Rightarrow> go_error \<times> 'w) \<Rightarrow> string \<Rightarrow> direct_ip_file \<Rightarrow> 'w \<Rightarrow>
     (string + string) \<times> direct_ip_file \<times> 'w" where
  "bound_dial v dial host f w =
     (if ParseIP host \<noteq> None then
        (case dial host w of (None, w) \<Rightarrow> (Inr host, f, w) | (Some e, w) \<Rightarrow> (Inl e, f, w))
      else
        (case ResolveDirect v host f of
           (live, f) \<Rightarrow>
             (case dial_loop dial ((case live of Inr ips \<Rightarrow> ips | Inl _ \<Rightarrow> []) @ CachedDirectIPs host f) []
                 (case live of Inr _ \<Rightarrow> None | Inl e \<Rightarrow> Some e) w of
                (Inr ip, w) \<Rightarrow> (Inr ip, f, w)
              | (Inl None, w) \<Rightarrow> (Inl (''no address for '' @ host), f, w)
              | (Inl (Some e), w) \<Rightarrow> (Inl e, f, w))))"

section \<open>The physical interface\<close>

record net_if =
  if_name :: string
  if_up :: bool
  if_loopback :: bool
  if_addrs :: "string + netip_addr list"

text \<open>The octet of an IPv4 address, the first one being 0.\<close>

definition octet :: "nat \<Rightarrow> 32 word \<Rightarrow> nat" where
  "octet i w = unat w div 256 ^ (3 - i) mod 256"

definition v4_loopback :: "32 word \<Rightarrow> bool" where "v4_loopback w = (octet 0 w = 127)"
definition v4_link_local :: "32 word \<Rightarrow> bool" where "v4_link_local w = (octet 0 w = 169 \<and> octet 1 w = 254)"

definition hasGlobalIPv4 :: "net_if \<Rightarrow> bool" where
  "hasGlobalIPv4 ifc =
     (case if_addrs ifc of
        Inl _ \<Rightarrow> False
      | Inr addrs \<Rightarrow>
          list_ex (\<lambda>a. case to4 a of Some w \<Rightarrow> \<not> v4_loopback w \<and> \<not> v4_link_local w | None \<Rightarrow> False) addrs)"

definition virtual_prefixes :: "string list" where
  "virtual_prefixes =
     [''lo'', ''utun'', ''gif'', ''stf'', ''awdl'', ''llw'', ''bridge'', ''ap'', ''anpi'', ''vmenet'', ''feth'']"

definition virtual_name :: "string \<Rightarrow> bool" where
  "virtual_name name = list_ex (\<lambda>p. cut_prefix name p \<noteq> None) virtual_prefixes"

fun pick_interface :: "net_if list \<Rightarrow> net_if option \<Rightarrow> net_if option" where
  "pick_interface [] best = best"
| "pick_interface (ifc # ifs) best =
     (if \<not> if_up ifc \<or> if_loopback ifc then pick_interface ifs best
      else if virtual_name (if_name ifc) \<or> \<not> hasGlobalIPv4 ifc
      then pick_interface ifs best
      else if if_name ifc = ''en0'' then Some ifc
      else pick_interface ifs (if best = None then Some ifc else best))"

definition DefaultPhysicalInterface :: "string + net_if list \<Rightarrow> string + net_if" where
  "DefaultPhysicalInterface interfaces =
     (case interfaces of
        Inl e \<Rightarrow> Inl e
      | Inr ifs \<Rightarrow>
          (case pick_interface ifs None of
             None \<Rightarrow> Inl ''no up physical interface with an IPv4 address''
           | Some ifc \<Rightarrow> Inr ifc))"

section \<open>Lemmas\<close>

text \<open>Trying a list of distinct addresses one after the other.\<close>

fun first_answer :: "(string \<Rightarrow> 'w \<Rightarrow> go_error \<times> 'w) \<Rightarrow> string list \<Rightarrow> 'w \<Rightarrow> (string list + string) \<times> 'w" where
  "first_answer dial [] w = (Inl [], w)"
| "first_answer dial (ip # ips) w =
     (case dial ip w of
        (None, w) \<Rightarrow> (Inr ip, w)
      | (Some e, w) \<Rightarrow> (case first_answer dial ips w of (Inl es, w) \<Rightarrow> (Inl (e # es), w) | r \<Rightarrow> r))"

text \<open>A list with each element at its first place only.\<close>

fun firsts :: "'a list \<Rightarrow> 'a list" where
  "firsts [] = []"
| "firsts (x # xs) = x # filter (\<lambda>y. y \<noteq> x) (firsts xs)"

lemma firsts_set [simp]: "set (firsts xs) = set xs"
  by (induction xs) auto

lemma firsts_distinct [simp]: "distinct (firsts xs)"
  by (induction xs) auto

definition first_of :: "go_error \<Rightarrow> string list \<Rightarrow> go_error" where
  "first_of err es = (case err of Some e \<Rightarrow> Some e | None \<Rightarrow> if es = [] then None else Some (hd es))"

lemma dial_loop_reference:
  "dial_loop dial ips seen err w =
     (case first_answer dial (filter (\<lambda>ip. ip \<notin> set seen) (firsts ips)) w of
        (Inr ip, w) \<Rightarrow> (Inr ip, w)
      | (Inl es, w) \<Rightarrow> (Inl (first_of err es), w))"
proof (induction ips arbitrary: seen err w)
  case Nil
  then show ?case by (simp add: first_of_def split: option.splits)
next
  case (Cons ip ips)
  show ?case
  proof (cases "ip \<in> set seen")
    case True
    then have "filter (\<lambda>x. x \<notin> set seen) (filter (\<lambda>y. y \<noteq> ip) (firsts ips)) = filter (\<lambda>x. x \<notin> set seen) (firsts ips)"
      by (auto intro!: filter_cong)
    with True Cons.IH show ?thesis by simp
  next
    case False
    obtain r w1 where r: "dial ip w = (r, w1)" by force
    have f: "filter (\<lambda>x. x \<notin> set seen) (filter (\<lambda>y. y \<noteq> ip) (firsts ips)) = filter (\<lambda>x. x \<notin> set (ip # seen)) (firsts ips)"
      by (auto intro!: filter_cong)
    show ?thesis
    proof (cases r)
      case None
      with False r show ?thesis by simp
    next
      case (Some e)
      obtain a w2 where a: "first_answer dial (filter (\<lambda>x. x \<notin> set (ip # seen)) (firsts ips)) w1 = (a, w2)" by force
      have "dial_loop dial (ip # ips) seen err w = dial_loop dial ips (ip # seen) (if err = None then Some e else err) w1"
        using False r Some by simp
      also have "\<dots> = (case a of Inr ip \<Rightarrow> (Inr ip, w2) | Inl es \<Rightarrow> (Inl (first_of (if err = None then Some e else err) es), w2))"
        by (simp only: Cons.IH a prod.case)
      finally show ?thesis
        using False r Some a f by (cases a) (auto simp: first_of_def split: option.splits)
    qed
  qed
qed

lemma picked:
  "pick_interface ifs best = Some ifc \<Longrightarrow> Some ifc = best \<or>
     (ifc \<in> set ifs \<and> if_up ifc \<and> \<not> if_loopback ifc \<and> hasGlobalIPv4 ifc \<and>
      \<not> virtual_name (if_name ifc))"
proof (induction ifs arbitrary: best)
  case (Cons i ifs)
  show ?case
  proof (cases "\<not> if_up i \<or> if_loopback i \<or> virtual_name (if_name i) \<or> \<not> hasGlobalIPv4 i")
    case True
    then have "pick_interface (i # ifs) best = pick_interface ifs best" by auto
    with Cons.prems have "pick_interface ifs best = Some ifc" by (simp only:)
    from Cons.IH [OF this] show ?thesis by auto
  next
    case False
    then have "pick_interface (i # ifs) best =
        (if if_name i = ''en0'' then Some i else pick_interface ifs (if best = None then Some i else best))"
      by simp
    with False Cons.IH [of "if best = None then Some i else best"] Cons.prems show ?thesis
      by (simp split: if_splits) blast+
  qed
qed simp

section \<open>Properties\<close>

text \<open>A bound dial gives up only when nothing is left to try. Its candidates are the live addresses
  and then the remembered ones, each tried once and in order, and the first that answers is taken; if
  all fail, the error is that of the lookup if it failed, otherwise that of the first address.\<close>
theorem bound_dial_tries_all:
  assumes "ParseIP host = None" and "ResolveDirect v host f = (live, f')"
  shows "bound_dial v dial host f w =
    (case first_answer dial (firsts ((case live of Inr ips \<Rightarrow> ips | Inl _ \<Rightarrow> []) @ CachedDirectIPs host f')) w of
       (Inr ip, w) \<Rightarrow> (Inr ip, f', w)
     | (Inl es, w) \<Rightarrow>
         (Inl (case live of Inl e \<Rightarrow> e | Inr _ \<Rightarrow> if es = [] then ''no address for '' @ host else hd es), f', w))"
  using assms
  by (simp add: bound_dial_def dial_loop_reference first_of_def split: sum.splits prod.splits)

definition dead_resolver :: resolve_env where
  "dead_resolver = \<lparr>rv_lookup = (\<lambda>_. Inl ''i/o timeout''), rv_now = 0, rv_written = True\<rparr>"

theorem bound_dial_tries_all_witness:
  "bound_dial dead_resolver (\<lambda>ip n. (if ip = ''10.0.0.2'' then None else Some ''refused'', Suc n)) ''api.vultr.com''
     (Some [(''api.vultr.com'', \<lparr>de_IPs = [''10.0.0.1'', ''10.0.0.1'', ''10.0.0.2''], de_At = 0\<rparr>)]) 0 =
   (Inr ''10.0.0.2'', Some [(''api.vultr.com'', \<lparr>de_IPs = [''10.0.0.1'', ''10.0.0.1'', ''10.0.0.2''], de_At = 0\<rparr>)], 2)"
proof -
  have name: "ParseIP ''api.vultr.com'' = None"
    by (simp add: ParseIP_def ParseAddr_def v4_fields_def v4_field_def digit_value_def Let_def)
  let ?f = "Some [(''api.vultr.com'', \<lparr>de_IPs = [''10.0.0.1'', ''10.0.0.1'', ''10.0.0.2''], de_At = 0\<rparr>)]"
  have "ResolveDirect dead_resolver ''api.vultr.com'' ?f = (Inl ''resolve api.vultr.com directly: i/o timeout'', ?f)"
    by (simp add: ResolveDirect_def dead_resolver_def)
  from bound_dial_tries_all [OF name this, of "\<lambda>ip n. (if ip = ''10.0.0.2'' then None else Some ''refused'', Suc n)" 0]
  show ?thesis by (simp add: CachedDirectIPs_def readDirectIPCache_def)
qed

text \<open>What counts as the physical interface is never the tunnel: it is up, not loopback, has an IPv4
  address of its own, and its name is of no virtual kind.\<close>
theorem physical_never_tunnel:
  assumes "DefaultPhysicalInterface (Inr ifs) = Inr ifc"
  shows "ifc \<in> set ifs \<and> if_up ifc \<and> \<not> if_loopback ifc \<and> hasGlobalIPv4 ifc \<and> (\<forall>n. if_name ifc \<noteq> ''utun'' @ n)"
proof -
  have p: "ifc \<in> set ifs \<and> if_up ifc \<and> \<not> if_loopback ifc \<and> hasGlobalIPv4 ifc \<and>
      \<not> virtual_name (if_name ifc)"
    using assms picked [of ifs None ifc] by (simp add: DefaultPhysicalInterface_def split: option.splits)
  then have "cut_prefix (if_name ifc) ''utun'' = None" by (simp add: virtual_name_def virtual_prefixes_def)
  then have "if_name ifc \<noteq> ''utun'' @ n" for n by (metis cut_prefix_append option.simps(3))
  with p show ?thesis by blast
qed

theorem physical_never_tunnel_witness:
  "\<exists>ifc. DefaultPhysicalInterface (Inr
     [\<lparr>if_name = ''utun4'', if_up = True, if_loopback = False, if_addrs = Inr [V4 0xAC130001]\<rparr>,
      \<lparr>if_name = ''en7'', if_up = True, if_loopback = False, if_addrs = Inr [V4 0xC0A80105]\<rparr>]) = Inr ifc \<and> if_name ifc \<noteq> ''utun4''"
proof -
  let ?ifs = "[\<lparr>if_name = ''utun4'', if_up = True, if_loopback = False, if_addrs = Inr [V4 0xAC130001]\<rparr>,
      \<lparr>if_name = ''en7'', if_up = True, if_loopback = False, if_addrs = Inr [V4 0xC0A80105]\<rparr>]"
  have "\<exists>ifc. DefaultPhysicalInterface (Inr ?ifs) = Inr ifc"
    by (simp add: DefaultPhysicalInterface_def virtual_prefixes_def virtual_name_def hasGlobalIPv4_def to4_def v4_loopback_def v4_link_local_def octet_def)
  then obtain ifc where i: "DefaultPhysicalInterface (Inr ?ifs) = Inr ifc" by blast
  from physical_never_tunnel [OF this] have "\<forall>n. if_name ifc \<noteq> ''utun'' @ n" by blast
  then have "if_name ifc \<noteq> ''utun'' @ ''4''" by blast
  with i show ?thesis by auto
qed

end
