(* ===== verification/Kill_Switch.thy ===== *)
theory Kill_Switch
  imports Direct_HTTP
begin

text \<open>
  utils/killswitch.go: the list of Chinese networks, the rules of the packet filter's anchor and their
  text, arming and disarming. A run of pfctl is the effect it has on the kernel's side if it
  succeeds; whether it does is a parameter.
\<close>

section \<open>The list of Chinese networks\<close>

definition cnCIDRMaxAge :: go_duration where "cnCIDRMaxAge = 7 * 24 * 60 * go_minute"

definition cnCIDRMinEntries :: nat where "cnCIDRMinEntries = 1000"

definition filterIPv4CIDRs :: "string \<Rightarrow> string list" where
  "filterIPv4CIDRs body =
     filter (\<lambda>l. l \<noteq> [] \<and> cut_prefix l ''#'' = None \<and> (case ParseCIDR l of None \<Rightarrow> False | Some (a, _) \<Rightarrow> to4 a \<noteq> None))
       (map trim_space (split_on (CHR 0x0A) body))"

text \<open>strings.Join.\<close>

fun join_with :: "string \<Rightarrow> string list \<Rightarrow> string" where
  "join_with sep [] = []"
| "join_with sep [x] = x"
| "join_with sep (x # xs) = x @ sep @ join_with sep xs"

text \<open>The file with its time of modification; an answer of the server is a status and a body, which may break off.\<close>

type_synonym cn_file = "(string \<times> go_time) option"

record cn_env =
  cn_now :: go_time
  cn_get :: "string + int \<times> (string + string)"
  cn_write_tmp :: go_error
  cn_rename :: go_error
  cn_write_embedded :: "cn_file option"
  cn_embedded :: string

definition at_least :: string where "at_least = [CHR 0xE2, CHR 0x89, CHR 0xA5]"

definition fetchCNCIDRs :: "cn_env \<Rightarrow> cn_file \<Rightarrow> go_error \<times> cn_file" where
  "fetchCNCIDRs v f =
     (case cn_get v of
        Inl e \<Rightarrow> (Some e, f)
      | Inr (status, body) \<Rightarrow>
          if status \<noteq> 200 then (Some (''HTTP '' @ itoa status), f)
          else case body of
            Inl e \<Rightarrow> (Some e, f)
          | Inr body \<Rightarrow>
              let valid = filterIPv4CIDRs (take (4 * 1024 * 1024) body) in
              if length valid < cnCIDRMinEntries
              then (Some (''only '' @ nat_text (length valid) @ '' valid CIDRs (want '' @ at_least @ nat_text cnCIDRMinEntries @ '') '' @
                em_dash @ '' refusing truncated list''), f)
              else if cn_write_tmp v \<noteq> None then (cn_write_tmp v, f)
              else if cn_rename v \<noteq> None then (cn_rename v, f)
              else (None, Some (join_with [CHR 0x0A] valid @ [CHR 0x0A], cn_now v)))"

definition present_list :: "cn_file \<Rightarrow> bool" where
  "present_list f = (case f of Some (text, _) \<Rightarrow> text \<noteq> [] | None \<Rightarrow> False)"

text \<open>A write of the embedded list that fails leaves what the parameter says.\<close>

definition write_embedded :: "cn_env \<Rightarrow> cn_file" where
  "write_embedded v = (case cn_write_embedded v of None \<Rightarrow> Some (cn_embedded v, cn_now v) | Some left \<Rightarrow> left)"

definition EnsureCNCIDRs :: "cn_env \<Rightarrow> cn_file \<Rightarrow> cn_file" where
  "EnsureCNCIDRs v f =
     (if present_list f \<and> time_sub (cn_now v) (snd (the f)) < cnCIDRMaxAge then f
      else case fetchCNCIDRs v f of
        (None, f) \<Rightarrow> f
      | (Some _, f) \<Rightarrow> if present_list f then f else write_embedded v)"

section \<open>The rules\<close>

definition physicalInterfaces :: "string + string list \<Rightarrow> string list" where
  "physicalInterfaces interfaces =
     (case interfaces of
        Inl _ \<Rightarrow> [''en0'']
      | Inr names \<Rightarrow>
          let out = filter (\<lambda>n. cut_prefix n ''en'' \<noteq> None \<or> cut_prefix n ''bridge'' \<noteq> None) names in
          if out = [] then [''en0''] else out)"

definition apiTable :: string where "apiTable = ''mole_api4''"
definition directTable :: string where "directTable = ''mole_direct4''"
definition cnTable :: string where "cnTable = ''mole_cn4''"

definition literalPassRanges :: "string list" where
  "literalPassRanges =
     [''10.0.0.0/8'', ''172.16.0.0/12'', ''192.168.0.0/16'', ''169.254.0.0/16'', ''100.64.0.0/10'',
      ''224.0.0.0/4'', ''255.255.255.255/32'', ''17.0.0.0/8'']"

definition linkRanges6 :: "string list" where "linkRanges6 = [''fe80::/10'', ''ff02::/16'']"

datatype pf_rule =
    PassTable string string
  | PassHost string string
  | PassRanges string
  | PassDHCP string
  | PassLink6 string
  | BlockV4 string
  | BlockV6 string

fun pf_line :: "pf_rule \<Rightarrow> string" where
  "pf_line (PassTable ifc t) = ''pass out quick on '' @ ifc @ '' inet to <'' @ t @ ''>''"
| "pf_line (PassHost ifc ip) = ''pass out quick on '' @ ifc @ '' to '' @ ip"
| "pf_line (PassRanges ifc) = ''pass out quick on '' @ ifc @ '' inet to { '' @ join_with '', '' literalPassRanges @ '' }''"
| "pf_line (PassDHCP ifc) = ''pass out quick on '' @ ifc @ '' proto udp from any port 68 to any port 67''"
| "pf_line (PassLink6 ifc) = ''pass out quick on '' @ ifc @ '' inet6 to { '' @ join_with '', '' linkRanges6 @ '' }''"
| "pf_line (BlockV4 ifc) = ''block out quick on '' @ ifc @ '' inet all''"
| "pf_line (BlockV6 ifc) = ''block return out quick on '' @ ifc @ '' inet6 all''"

definition interface_rules :: "string list \<Rightarrow> string \<Rightarrow> pf_rule list" where
  "interface_rules vpsIPs ifc =
     [PassTable ifc apiTable, PassTable ifc directTable] @
     map (PassHost ifc) (filter (\<lambda>ip. ip \<noteq> []) (map trim_space vpsIPs)) @
     [PassRanges ifc, PassDHCP ifc, PassTable ifc cnTable, PassLink6 ifc, BlockV4 ifc, BlockV6 ifc]"

definition pf_rules :: "string list \<Rightarrow> string list \<Rightarrow> pf_rule list" where
  "pf_rules ifcs vpsIPs = concat (map (interface_rules vpsIPs) ifcs)"

definition buildPFRules :: "string \<Rightarrow> string list \<Rightarrow> string list \<Rightarrow> string" where
  "buildPFRules cn_path ifcs vpsIPs =
     concat (map (\<lambda>l. l @ [CHR 0x0A])
       ([''# generated by mole '' @ em_dash @ '' do not edit; unloaded by `mole down`'',
         ''table <'' @ cnTable @ ''> persist file '' @ [CHR 0x22] @ cn_path @ [CHR 0x22],
         ''table <'' @ apiTable @ ''> persist'',
         ''table <'' @ directTable @ ''> persist''] @
        map pf_line (pf_rules ifcs vpsIPs)))"

section \<open>What the filter does with a packet\<close>

text \<open>
  A packet on its way out of an interface. The kernel's tables hold addresses and networks as text;
  which of them cover an address is the filter's to say, and a parameter.
\<close>

record packet =
  pk_ifc :: string
  pk_dst :: netip_addr
  pk_dhcp :: bool

type_synonym pf_tables = "string \<Rightarrow> string list"

definition table_has :: "(string \<Rightarrow> netip_addr \<Rightarrow> bool) \<Rightarrow> pf_tables \<Rightarrow> string \<Rightarrow> netip_addr \<Rightarrow> bool" where
  "table_has covers tables t a = list_ex (\<lambda>e. covers e a) (tables t)"

fun pf_matches :: "(string \<Rightarrow> netip_addr \<Rightarrow> bool) \<Rightarrow> pf_tables \<Rightarrow> packet \<Rightarrow> pf_rule \<Rightarrow> bool" where
  "pf_matches covers tables p (PassTable ifc t) = (pk_ifc p = ifc \<and> is4 (pk_dst p) \<and> table_has covers tables t (pk_dst p))"
| "pf_matches covers tables p (PassHost ifc ip) = (pk_ifc p = ifc \<and> covers ip (pk_dst p))"
| "pf_matches covers tables p (PassRanges ifc) =
     (pk_ifc p = ifc \<and> is4 (pk_dst p) \<and> list_ex (\<lambda>r. covers r (pk_dst p)) literalPassRanges)"
| "pf_matches covers tables p (PassDHCP ifc) = (pk_ifc p = ifc \<and> pk_dhcp p)"
| "pf_matches covers tables p (PassLink6 ifc) =
     (pk_ifc p = ifc \<and> \<not> is4 (pk_dst p) \<and> list_ex (\<lambda>r. covers r (pk_dst p)) linkRanges6)"
| "pf_matches covers tables p (BlockV4 ifc) = (pk_ifc p = ifc \<and> is4 (pk_dst p))"
| "pf_matches covers tables p (BlockV6 ifc) = (pk_ifc p = ifc \<and> \<not> is4 (pk_dst p))"

definition blocks :: "pf_rule \<Rightarrow> bool" where
  "blocks r = (case r of BlockV4 _ \<Rightarrow> True | BlockV6 _ \<Rightarrow> True | _ \<Rightarrow> False)"

text \<open>Every rule is quick: the first that matches decides, and a packet that none matches goes out.\<close>

definition pf_passes :: "(string \<Rightarrow> netip_addr \<Rightarrow> bool) \<Rightarrow> pf_tables \<Rightarrow> pf_rule list \<Rightarrow> packet \<Rightarrow> bool" where
  "pf_passes covers tables rules p =
     (case find (pf_matches covers tables p) rules of None \<Rightarrow> True | Some r \<Rightarrow> \<not> blocks r)"

section \<open>Arming and disarming\<close>

text \<open>
  The kernel's side: the rules and tables of the anchor and the references that keep the filter
  enabled; and mole's files: the list, and the token of its reference.
\<close>

record pf_state =
  pf_anchor :: "pf_rule list"
  pf_tabs :: pf_tables
  pf_refs :: "string list"
  pf_cn :: cn_file
  pf_token :: "string option"
  pf_ips :: direct_ip_file

definition KillSwitchLoaded :: "pf_state \<Rightarrow> bool" where
  "KillSwitchLoaded s = (pf_token s \<noteq> None)"

definition flush_anchor :: "pf_state \<Rightarrow> pf_state" where
  "flush_anchor s = s\<lparr>pf_anchor := [], pf_tabs := (\<lambda>_. [])\<rparr>"

text \<open>The first place where the word, a colon and a number stand, with white space around the colon.\<close>

definition token_here :: "string \<Rightarrow> string option" where
  "token_here s =
     (case cut_prefix s ''Token'' of
        None \<Rightarrow> None
      | Some r \<Rightarrow>
          let r = dropWhile (\<lambda>c. is_space c \<and> c \<noteq> CHR 0x0B) r in
          if r = [] \<or> hd r \<noteq> CHR '':'' then None
          else
            let n = takeWhile (\<lambda>c. digit_value c \<noteq> None) (dropWhile (\<lambda>c. is_space c \<and> c \<noteq> CHR 0x0B) (tl r))
            in if n = [] then None else Some n)"

fun find_token :: "string \<Rightarrow> string option" where
  "find_token [] = None"
| "find_token (c # cs) = (case token_here (c # cs) of Some t \<Rightarrow> Some t | None \<Rightarrow> find_token cs)"

text \<open>
  What arming meets: the environment of the list, the errors of writing and loading the rules, what
  pfctl -E prints or its error, the reference it takes, whether the token can be written, and the
  resolution and table command of the exemption.
\<close>

record arm_env =
  ar_cn :: cn_env
  ar_write_cn :: go_error
  ar_write_rules :: go_error
  ar_load :: go_error
  ar_enable :: "string + string"
  ar_ref :: string
  ar_token_written :: bool
  ar_resolve :: resolve_env
  ar_add :: go_error

definition APIHost :: string where "APIHost = ''api.vultr.com''"

definition add_table :: "string \<Rightarrow> string list \<Rightarrow> pf_state \<Rightarrow> pf_state" where
  "add_table t ips s = s\<lparr>pf_tabs := (pf_tabs s)(t := pf_tabs s t @ ips)\<rparr>"

definition AllowDirectHost :: "resolve_env \<Rightarrow> go_error \<Rightarrow> string \<Rightarrow> pf_state \<Rightarrow> go_error \<times> pf_state" where
  "AllowDirectHost v add host s =
     (if \<not> KillSwitchLoaded s then (None, s)
      else case ResolveDirectCached v host (pf_ips s) of
        ((ips, live, err), f) \<Rightarrow>
          let s = s\<lparr>pf_ips := f\<rparr> in
          if ips = [] then (err, s)
          else case add of
            Some e \<Rightarrow> (Some (''exempt ['' @ join_with '' '' ips @ '']: '' @ e), s)
          | None \<Rightarrow> (None, add_table apiTable ips s))"

text \<open>The list on disk, or the embedded one in its place; the anchor's rules with fresh tables; the
  reference, with its token if pfctl printed one.\<close>

definition with_list :: "cn_env \<Rightarrow> pf_state \<Rightarrow> pf_state" where
  "with_list v s = (if pf_cn s = None then s\<lparr>pf_cn := Some (cn_embedded v, cn_now v)\<rparr> else s)"

definition with_rules :: "string list \<Rightarrow> string list \<Rightarrow> pf_state \<Rightarrow> pf_state" where
  "with_rules ifcs vpsIPs s =
     s\<lparr>pf_anchor := pf_rules ifcs vpsIPs,
       pf_tabs := (\<lambda>t. if t = cnTable then filter (\<lambda>l. l \<noteq> []) (split_on (CHR 0x0A) (fst (the (pf_cn s)))) else [])\<rparr>"

definition with_reference :: "arm_env \<Rightarrow> string \<Rightarrow> pf_state \<Rightarrow> pf_state" where
  "with_reference v out s =
     (let s = s\<lparr>pf_refs := ar_ref v # pf_refs s\<rparr> in
      case find_token out of
        Some t \<Rightarrow> if ar_token_written v then s\<lparr>pf_token := Some t\<rparr> else s
      | None \<Rightarrow> s)"

definition LoadKillSwitch :: "arm_env \<Rightarrow> string list \<Rightarrow> string list \<Rightarrow> pf_state \<Rightarrow> go_error \<times> pf_state" where
  "LoadKillSwitch v ifcs vpsIPs s =
     (if pf_cn s = None \<and> ar_write_cn v \<noteq> None then (Some (''write embedded CN list: '' @ the (ar_write_cn v)), s)
      else
        let s = with_list (ar_cn v) s in
        if ar_write_rules v \<noteq> None then (Some (''write rules: '' @ the (ar_write_rules v)), s)
        else if ar_load v \<noteq> None then (Some (''load anchor: '' @ the (ar_load v)), s)
        else case ar_enable v of
          Inl e \<Rightarrow> (Some (''enable pf: '' @ e), flush_anchor (with_rules ifcs vpsIPs s))
        | Inr out \<Rightarrow>
            (None, snd (AllowDirectHost (ar_resolve v) (ar_add v) APIHost (with_reference v out (with_rules ifcs vpsIPs s)))))"

text \<open>The flush and the release may fail, and their errors are ignored.\<close>

record disarm_env =
  di_flush :: bool
  di_release :: bool

definition UnloadKillSwitch :: "disarm_env \<Rightarrow> pf_state \<Rightarrow> pf_state" where
  "UnloadKillSwitch v s =
     (let s = (if di_flush v then flush_anchor s else s) in
      case pf_token s of
        None \<Rightarrow> s
      | Some token \<Rightarrow>
          let t = trim_space token;
              s = (if t \<noteq> [] \<and> di_release v then s\<lparr>pf_refs := removeAll t (pf_refs s)\<rparr> else s)
          in s\<lparr>pf_token := None\<rparr>)"

section \<open>Lemmas\<close>

lemma passes_cases:
  "pf_passes c t [] p" "pf_passes c t (r # rs) p = (if pf_matches c t p r then \<not> blocks r else pf_passes c t rs p)"
  by (simp_all add: pf_passes_def)

lemma passes_append:
  "pf_passes c t (rs @ rs') p = (if list_ex (pf_matches c t p) rs then pf_passes c t rs p else pf_passes c t rs' p)"
  by (induction rs) (auto simp: passes_cases)

lemma other_interface: "pk_ifc p \<noteq> ifc \<Longrightarrow> \<not> list_ex (pf_matches c t p) (interface_rules vps ifc)"
  by (auto simp: interface_rules_def list_ex_iff)

lemma own_interface_matches: "list_ex (pf_matches c t p) (interface_rules vps (pk_ifc p))"
  by (auto simp: interface_rules_def list_ex_iff)

lemma hosts_pass:
  "pf_passes c t (map (PassHost (pk_ifc p)) ips @ rs) p = (list_ex (\<lambda>ip. c ip (pk_dst p)) ips \<or> pf_passes c t rs p)"
  by (induction ips) (auto simp: passes_cases blocks_def)

lemma own_interface_passes:
  "pf_passes c t (interface_rules vps (pk_ifc p)) p \<longleftrightarrow>
     pk_dhcp p \<or> list_ex (\<lambda>ip. ip \<noteq> [] \<and> c ip (pk_dst p)) (map trim_space vps) \<or>
     (if is4 (pk_dst p)
      then table_has c t apiTable (pk_dst p) \<or> table_has c t directTable (pk_dst p) \<or> table_has c t cnTable (pk_dst p) \<or>
        list_ex (\<lambda>r. c r (pk_dst p)) literalPassRanges
      else list_ex (\<lambda>r. c r (pk_dst p)) linkRanges6)"
proof -
  have "list_ex (\<lambda>ip. c ip (pk_dst p)) (filter (\<lambda>ip. ip \<noteq> []) ips) = list_ex (\<lambda>ip. ip \<noteq> [] \<and> c ip (pk_dst p)) ips" for ips
    by (induction ips) auto
  then show ?thesis
    by (simp add: interface_rules_def passes_cases hosts_pass) (auto simp: blocks_def)
qed

lemma rules_pass:
  "pf_passes c t (pf_rules ifcs vps) p = (pk_ifc p \<notin> set ifcs \<or> pf_passes c t (interface_rules vps (pk_ifc p)) p)"
proof (induction ifcs)
  case Nil
  then show ?case by (simp add: pf_rules_def passes_cases)
next
  case (Cons ifc ifcs)
  then show ?case
    using own_interface_matches [of c t p vps] other_interface [of p ifc c t vps]
    by (cases "pk_ifc p = ifc") (auto simp: pf_rules_def passes_append)
qed

text \<open>Lines joined and split again.\<close>

lemma split_on_plain: "c \<notin> set x \<Longrightarrow> split_on c x = [x]"
  by (induction x) auto

lemma split_on_append: "c \<notin> set x \<Longrightarrow> split_on c (x @ c # y) = x # split_on c y"
  by (induction x) auto

lemma split_on_pieces: "x \<in> set (split_on c s) \<Longrightarrow> c \<notin> set x"
proof (induction s arbitrary: x)
  case (Cons a s)
  have "split_on c s \<noteq> []" by (cases s) auto
  with Cons show ?case by (auto split: if_splits dest: list.set_sel(2))
qed simp

lemma split_pieces_join: "list_all (\<lambda>l. CHR 0x0A \<notin> set l) ls \<Longrightarrow> ls \<noteq> [] \<Longrightarrow>
    split_on (CHR 0x0A) (join_with [CHR 0x0A] ls @ [CHR 0x0A]) = ls @ [[]]"
proof (induction ls rule: induct_list012)
  case (3 x y zs)
  then show ?case by (simp add: split_on_append)
qed (simp_all add: split_on_append)

lemma trim_space_subset: "set (trim_space s) \<subseteq> set s"
  unfolding trim_space_def by (auto dest!: set_dropWhileD)

lemma filtered_lines: "l \<in> set (filterIPv4CIDRs body) \<Longrightarrow> l \<noteq> [] \<and> CHR 0x0A \<notin> set l \<and> (\<exists>a n. ParseCIDR l = Some (a, n) \<and> to4 a \<noteq> None)"
proof -
  assume l: "l \<in> set (filterIPv4CIDRs body)"
  then obtain x where "x \<in> set (split_on (CHR 0x0A) body)" "l = trim_space x" by (auto simp: filterIPv4CIDRs_def)
  then have "CHR 0x0A \<notin> set l" using split_on_pieces [of x "CHR 0x0A" body] trim_space_subset [of x] by blast
  with l show ?thesis by (auto simp: filterIPv4CIDRs_def split: option.splits)
qed

definition checked_list :: "string list \<Rightarrow> bool" where
  "checked_list ls = (length ls \<ge> 1000 \<and> list_all (\<lambda>l. \<exists>a n. ParseCIDR l = Some (a, n) \<and> to4 a \<noteq> None) ls)"

lemma fetch_guarded:
  assumes "fetchCNCIDRs v f = (err, f')"
  shows "(err \<noteq> None \<longrightarrow> f' = f) \<and> (err = None \<longrightarrow>
    (\<exists>ls. checked_list ls \<and> f' = Some (join_with [CHR 0x0A] ls @ [CHR 0x0A], cn_now v) \<and>
       filter (\<lambda>l. l \<noteq> []) (split_on (CHR 0x0A) (fst (the f'))) = ls))"
proof -
  have ok: "\<exists>ls. checked_list ls \<and> f' = Some (join_with [CHR 0x0A] ls @ [CHR 0x0A], cn_now v) \<and>
       filter (\<lambda>l. l \<noteq> []) (split_on (CHR 0x0A) (fst (the f'))) = ls"
    if written: "\<exists>b. f' = Some (join_with [CHR 0x0A] (filterIPv4CIDRs b) @ [CHR 0x0A], cn_now v) \<and>
      \<not> length (filterIPv4CIDRs b) < cnCIDRMinEntries"
  proof -
    obtain ls b where l: "f' = Some (join_with [CHR 0x0A] ls @ [CHR 0x0A], cn_now v)" "ls = filterIPv4CIDRs b"
        "\<not> length ls < cnCIDRMinEntries" using written by blast
    have "checked_list ls" using l(2,3) filtered_lines [of _ b] by (auto simp: checked_list_def cnCIDRMinEntries_def list_all_iff)
    moreover have "list_all (\<lambda>l. CHR 0x0A \<notin> set l) ls" "\<forall>l \<in> set ls. l \<noteq> []"
      using l(2) filtered_lines [of _ b] by (auto simp: list_all_iff)
    moreover from this(2) have "filter (\<lambda>l. l \<noteq> []) ls = ls" by (rule filter_True)
    moreover have "ls \<noteq> []" using l(3) by (auto simp: cnCIDRMinEntries_def)
    ultimately show ?thesis using l(1) by (simp add: split_pieces_join)
  qed
  have "f' = f" if "err \<noteq> None"
    using assms that by (auto simp: fetchCNCIDRs_def Let_def split: sum.splits prod.splits if_splits)
  moreover have "\<exists>b. f' = Some (join_with [CHR 0x0A] (filterIPv4CIDRs b) @ [CHR 0x0A], cn_now v) \<and>
      \<not> length (filterIPv4CIDRs b) < cnCIDRMinEntries" if "err = None"
    using assms that by (auto simp: fetchCNCIDRs_def Let_def split: sum.splits prod.splits if_splits)
  ultimately show ?thesis using ok by blast
qed

lemma ensure_guarded:
  "EnsureCNCIDRs v f = f \<or> (EnsureCNCIDRs v f = write_embedded v \<and> \<not> present_list f) \<or>
   (\<exists>ls. checked_list ls \<and> EnsureCNCIDRs v f = Some (join_with [CHR 0x0A] ls @ [CHR 0x0A], cn_now v) \<and>
      filter (\<lambda>l. l \<noteq> []) (split_on (CHR 0x0A) (fst (the (EnsureCNCIDRs v f)))) = ls)"
proof (cases "present_list f \<and> time_sub (cn_now v) (snd (the f)) < cnCIDRMaxAge")
  case False
  obtain err f' where f': "fetchCNCIDRs v f = (err, f')" by force
  then have e: "EnsureCNCIDRs v f = (if err = None then f' else if present_list f' then f' else write_embedded v)"
    using False by (auto simp: EnsureCNCIDRs_def split: option.splits)
  show ?thesis
  proof (cases err)
    case None
    then show ?thesis using fetch_guarded [OF f'] e by simp
  next
    case (Some x)
    then show ?thesis using fetch_guarded [OF f'] e by simp
  qed
qed (simp add: EnsureCNCIDRs_def)

lemma allow_keeps:
  "pf_anchor (snd (AllowDirectHost v add host s)) = pf_anchor s" "pf_refs (snd (AllowDirectHost v add host s)) = pf_refs s"
  "pf_token (snd (AllowDirectHost v add host s)) = pf_token s"
  "t \<noteq> apiTable \<Longrightarrow> pf_tabs (snd (AllowDirectHost v add host s)) t = pf_tabs s t"
  by (auto simp: AllowDirectHost_def add_table_def Let_def split: prod.splits option.splits)

lemma load_outcome:
  assumes "LoadKillSwitch v ifcs vps s = (err, s')"
  shows "(err = None \<longrightarrow> pf_anchor s' = pf_rules ifcs vps \<and> pf_refs s' = ar_ref v # pf_refs s \<and> pf_tabs s' directTable = []) \<and>
    (err \<noteq> None \<longrightarrow> pf_refs s' = pf_refs s \<and> pf_token s' = pf_token s \<and> (pf_anchor s' = [] \<or> pf_anchor s' = pf_anchor s))"
proof (cases "(pf_cn s = None \<and> ar_write_cn v \<noteq> None) \<or> ar_write_rules v \<noteq> None \<or> ar_load v \<noteq> None \<or> isl (ar_enable v)")
  case True
  then show ?thesis using assms
    by (auto simp: LoadKillSwitch_def Let_def flush_anchor_def with_list_def with_rules_def split: if_splits sum.splits)
next
  case False
  then obtain out where out: "ar_enable v = Inr out" by (cases "ar_enable v") auto
  let ?s = "with_reference v out (with_rules ifcs vps (with_list (ar_cn v) s))"
  have "err = None" "s' = snd (AllowDirectHost (ar_resolve v) (ar_add v) APIHost ?s)"
    using assms False out by (auto simp: LoadKillSwitch_def Let_def)
  moreover have "pf_anchor ?s = pf_rules ifcs vps" "pf_refs ?s = ar_ref v # pf_refs s" "pf_tabs ?s directTable = []"
    by (auto simp: with_reference_def with_rules_def with_list_def Let_def directTable_def cnTable_def split: option.splits)
  moreover have "directTable \<noteq> apiTable" by (simp add: directTable_def apiTable_def)
  ultimately show ?thesis by (simp add: allow_keeps)
qed

lemma disarmed: "UnloadKillSwitch v s = s' \<Longrightarrow>
    pf_token s' = None \<and> (di_flush v \<longrightarrow> pf_anchor s' = [] \<and> pf_tabs s' = (\<lambda>_. [])) \<and>
    pf_refs s' = (case pf_token s of None \<Rightarrow> pf_refs s
      | Some t \<Rightarrow> if trim_space t \<noteq> [] \<and> di_release v then removeAll (trim_space t) (pf_refs s) else pf_refs s)"
  by (cases "di_flush v"; cases "pf_token s") (auto simp: UnloadKillSwitch_def flush_anchor_def Let_def)

text \<open>What pfctl documents of -E: it prints the token of the reference it takes.\<close>

definition prints_token :: "arm_env \<Rightarrow> bool" where
  "prints_token v = (\<exists>out. ar_enable v = Inr out \<and> find_token out = Some (ar_ref v) \<and> trim_space (ar_ref v) = ar_ref v \<and> ar_ref v \<noteq> [])"

lemma load_token:
  assumes "LoadKillSwitch v ifcs vps s = (None, s')" and "prints_token v" "ar_token_written v"
  shows "pf_token s' = Some (ar_ref v)"
proof -
  obtain out where out: "ar_enable v = Inr out" "find_token out = Some (ar_ref v)" using assms(2) by (auto simp: prints_token_def)
  let ?s = "with_reference v out (with_rules ifcs vps (with_list (ar_cn v) s))"
  have "s' = snd (AllowDirectHost (ar_resolve v) (ar_add v) APIHost ?s)"
    using assms(1) out(1) by (auto simp: LoadKillSwitch_def Let_def split: if_splits)
  moreover have "pf_token ?s = Some (ar_ref v)" using out(2) assms(3) by (simp add: with_reference_def Let_def)
  ultimately show ?thesis by (simp only: allow_keeps)
qed

section \<open>Properties\<close>

text \<open>C1: The armed rules fail closed. Whatever is in the tables, a packet leaves a physical interface
  exactly if it is DHCP, goes to a recorded server, or its destination is in one of the three tables
  or the literal ranges (link-local ranges for IPv6); every other destination is blocked, on every
  interface, and interfaces that are not listed are left alone.\<close>
theorem armed_fails_closed:
  "pf_passes covers tables (pf_rules ifcs vpsIPs) p \<longleftrightarrow>
     pk_ifc p \<notin> set ifcs \<or> pk_dhcp p \<or>
     list_ex (\<lambda>ip. ip \<noteq> [] \<and> covers ip (pk_dst p)) (map trim_space vpsIPs) \<or>
     (if is4 (pk_dst p)
      then table_has covers tables apiTable (pk_dst p) \<or> table_has covers tables directTable (pk_dst p) \<or>
        table_has covers tables cnTable (pk_dst p) \<or> list_ex (\<lambda>r. covers r (pk_dst p)) literalPassRanges
      else list_ex (\<lambda>r. covers r (pk_dst p)) linkRanges6)"
  by (simp only: rules_pass own_interface_passes)

text \<open>A resolver abroad: blocked on the listed interface, left alone on the tunnel's.\<close>

theorem armed_fails_closed_witness:
  "\<not> pf_passes (\<lambda>_ _. False) (\<lambda>_. []) (pf_rules [''en0''] [''203.0.113.7'']) \<lparr>pk_ifc = ''en0'', pk_dst = V4 0x08080808, pk_dhcp = False\<rparr> \<and>
   pf_passes (\<lambda>_ _. False) (\<lambda>_. []) (pf_rules [''en0''] [''203.0.113.7'']) \<lparr>pk_ifc = ''utun9'', pk_dst = V4 0x08080808, pk_dhcp = False\<rparr>"
  unfolding armed_fails_closed by (simp add: table_has_def is4_def list_ex_iff)

text \<open>A bad download never becomes the table that keeps domestic traffic flowing. After the list has
  been ensured it is what it was, or the embedded list where there was none, or at least a thousand
  lines that all read as IPv4 networks; and reading the file back gives exactly those lines.\<close>
theorem cn_list_guarded:
  "EnsureCNCIDRs v f = f \<or> (EnsureCNCIDRs v f = write_embedded v \<and> \<not> present_list f) \<or>
   (\<exists>ls. checked_list ls \<and> EnsureCNCIDRs v f = Some (join_with [CHR 0x0A] ls @ [CHR 0x0A], cn_now v) \<and>
      filter (\<lambda>l. l \<noteq> []) (split_on (CHR 0x0A) (fst (the (EnsureCNCIDRs v f)))) = ls)"
  by (rule ensure_guarded)

text \<open>Disarming undoes arming. After an arm that reports success and a disarm whose two commands
  work, the anchor is empty and the filter's references are those from before; and an arm that
  reports an error takes no reference and puts no new rules into force.\<close>
theorem disarm_undoes_arm:
  assumes "LoadKillSwitch v ifcs vpsIPs s = (err, s1)"
  shows "(err = None \<and> prints_token v \<and> ar_token_written v \<and> ar_ref v \<notin> set (pf_refs s) \<and> di_flush d \<and> di_release d \<longrightarrow>
      pf_anchor (UnloadKillSwitch d s1) = [] \<and> pf_refs (UnloadKillSwitch d s1) = pf_refs s \<and> \<not> KillSwitchLoaded (UnloadKillSwitch d s1)) \<and>
    (err \<noteq> None \<longrightarrow> pf_refs s1 = pf_refs s \<and> (pf_anchor s1 = [] \<or> pf_anchor s1 = pf_anchor s))"
proof -
  have "pf_anchor (UnloadKillSwitch d s1) = [] \<and> pf_refs (UnloadKillSwitch d s1) = pf_refs s \<and> \<not> KillSwitchLoaded (UnloadKillSwitch d s1)"
    if ok: "err = None" "prints_token v" "ar_token_written v" "ar_ref v \<notin> set (pf_refs s)" "di_flush d" "di_release d"
  proof -
    have "pf_token s1 = Some (ar_ref v)" using load_token assms ok by blast
    moreover have "pf_refs s1 = ar_ref v # pf_refs s" using load_outcome [OF assms] ok(1) by blast
    moreover have "trim_space (ar_ref v) = ar_ref v" "ar_ref v \<noteq> []" using ok(2) by (auto simp: prints_token_def)
    ultimately show ?thesis using disarmed [of d s1 "UnloadKillSwitch d s1"] ok(4-6) by (simp add: KillSwitchLoaded_def)
  qed
  then show ?thesis using load_outcome [OF assms] by blast
qed

definition sample_arm :: "string \<Rightarrow> arm_env" where
  "sample_arm ref =
     \<lparr>ar_cn = \<lparr>cn_now = 0, cn_get = Inl ''offline'', cn_write_tmp = None, cn_rename = None, cn_write_embedded = None,
         cn_embedded = ''1.0.1.0/24''\<rparr>,
      ar_write_cn = None, ar_write_rules = None, ar_load = None, ar_enable = Inr (''Token : '' @ ref), ar_ref = ref,
      ar_token_written = True,
      ar_resolve = \<lparr>rv_lookup = (\<lambda>_. Inr [V4 0x08080808]), rv_now = 0, rv_written = True\<rparr>, ar_add = None\<rparr>"

definition idle_filter :: pf_state where
  "idle_filter = \<lparr>pf_anchor = [], pf_tabs = (\<lambda>_. []), pf_refs = [], pf_cn = None, pf_token = None, pf_ips = None\<rparr>"

lemma sample_loads: "\<exists>s'. LoadKillSwitch (sample_arm ref) ifcs vps s = (None, s')"
  by (simp add: LoadKillSwitch_def sample_arm_def Let_def)

lemma sample_prints: "prints_token (sample_arm ''7'')" "prints_token (sample_arm ''8'')"
  "ar_token_written (sample_arm ref)" "ar_ref (sample_arm ref) = ref"
  by (simp_all add: prints_token_def sample_arm_def token_here_def is_space_def digit_value_def trim_space_def Let_def)

theorem disarm_undoes_arm_witness:
  "\<exists>s1. LoadKillSwitch (sample_arm ''7'') [''en0''] [''203.0.113.7''] idle_filter = (None, s1) \<and>
     pf_refs (UnloadKillSwitch \<lparr>di_flush = True, di_release = True\<rparr> s1) = []"
proof -
  obtain s1 where s1: "LoadKillSwitch (sample_arm ''7'') [''en0''] [''203.0.113.7''] idle_filter = (None, s1)"
    using sample_loads by blast
  from disarm_undoes_arm [OF this, of "\<lparr>di_flush = True, di_release = True\<rparr>"] s1 show ?thesis
    by (simp add: sample_prints idle_filter_def)
qed

text \<open>A crash costs a reference. If mole is armed again after a crash that left its first arm in place,
  the token of the first reference is overwritten: the disarm releases the second only, and the
  filter stays enabled on mole's behalf with nothing left that could release it.\<close>
theorem rearm_leaks_a_reference:
  assumes "LoadKillSwitch v1 ifcs1 vps1 s = (None, s1)" and "LoadKillSwitch v2 ifcs2 vps2 s1 = (None, s2)"
    and "prints_token v2" "ar_token_written v2" "ar_ref v1 \<noteq> ar_ref v2"
  shows "ar_ref v1 \<in> set (pf_refs (UnloadKillSwitch d s2)) \<and> pf_token (UnloadKillSwitch d s2) = None"
proof -
  have "pf_token s2 = Some (ar_ref v2)" using load_token assms by blast
  moreover have "pf_refs s2 = ar_ref v2 # ar_ref v1 # pf_refs s"
    using load_outcome [OF assms(1)] load_outcome [OF assms(2)] by simp
  moreover have "trim_space (ar_ref v2) = ar_ref v2" using assms(3) by (auto simp: prints_token_def)
  ultimately show ?thesis using disarmed [of d s2 "UnloadKillSwitch d s2"] assms(5) by auto
qed

theorem rearm_leaks_a_reference_witness:
  "\<exists>s1 s2. LoadKillSwitch (sample_arm ''7'') [''en0''] [] idle_filter = (None, s1) \<and>
     LoadKillSwitch (sample_arm ''8'') [''en0''] [] s1 = (None, s2) \<and>
     ''7'' \<in> set (pf_refs (UnloadKillSwitch \<lparr>di_flush = True, di_release = True\<rparr> s2))"
proof -
  obtain s1 where s1: "LoadKillSwitch (sample_arm ''7'') [''en0''] [] idle_filter = (None, s1)" using sample_loads by blast
  obtain s2 where s2: "LoadKillSwitch (sample_arm ''8'') [''en0''] [] s1 = (None, s2)" using sample_loads by blast
  from rearm_leaks_a_reference [OF s1 s2, of "\<lparr>di_flush = True, di_release = True\<rparr>"] s1 s2 show ?thesis
    by (auto simp: sample_prints)
qed

end
