(* ===== verification/Direct_Exempt.thy ===== *)
theory Direct_Exempt
  imports Kill_Switch Route_Rules Clash "HOL-Library.List_Lexorder" "HOL-Library.Char_ord"
begin

text \<open>
  utils/directexempt.go, core/directexempt.go and the direct domains of config/hotrules.go: learning which
  addresses the hosts with a direct rule dial, and passing them through the kill switch. The map of a
  Go program is an association list; where it is iterated over, the results are sorted.
\<close>

section \<open>The direct domains\<close>

record DirectDomainSet =
  dd_Suffixes :: "string list"
  dd_Keywords :: "string list"

definition directDomainsFrom :: "RouteRule list \<Rightarrow> DirectDomainSet" where
  "directDomainsFrom rules =
     (let direct = filter (\<lambda>r. Outbound r = ''direct'') rules in
      \<lparr>dd_Suffixes = sort (concat (map DomainSuffix direct)), dd_Keywords = sort (concat (map DomainKeyword direct))\<rparr>)"

definition trim_suffix_dot :: "string \<Rightarrow> string" where
  "trim_suffix_dot s = (if s \<noteq> [] \<and> List.last s = CHR ''.'' then butlast s else s)"

definition trim_prefix_dot :: "string \<Rightarrow> string" where
  "trim_prefix_dot s = (case s of [] \<Rightarrow> [] | c # cs \<Rightarrow> if c = CHR ''.'' then cs else s)"

definition Match :: "DirectDomainSet \<Rightarrow> string \<Rightarrow> bool" where
  "Match d host =
     (let host = to_lower (trim_suffix_dot (trim_space host)) in
      if host = [] then False
      else
        list_ex (\<lambda>s. let s = to_lower (trim_prefix_dot (trim_space s)) in
            s \<noteq> [] \<and> (host = s \<or> has_suffix host (''.'' @ s))) (dd_Suffixes d) \<or>
        list_ex (\<lambda>k. let k = to_lower (trim_space k) in k \<noteq> [] \<and> str_contains host k) (dd_Keywords d))"

definition Empty :: "DirectDomainSet \<Rightarrow> bool" where
  "Empty d = (length (dd_Suffixes d) + length (dd_Keywords d) = 0)"

section \<open>The store and the table\<close>

record directExemptEntry =
  xe_IPs :: "string list"
  xe_At :: go_time

type_synonym directExemptStore = "(string \<times> directExemptEntry) list"

text \<open>The file, None if it is missing or unreadable, beside the filter's state.\<close>

record exempt_state =
  xs_pf :: pf_state
  xs_store :: "directExemptStore option"

definition readDirectExemptStore :: "exempt_state \<Rightarrow> directExemptStore" where
  "readDirectExemptStore s = (case xs_store s of None \<Rightarrow> [] | Some m \<Rightarrow> m)"

definition writeDirectExemptStore :: "bool \<Rightarrow> directExemptStore \<Rightarrow> exempt_state \<Rightarrow> exempt_state" where
  "writeDirectExemptStore written m s = (if written then s\<lparr>xs_store := Some m\<rparr> else s)"

definition dedupeSorted :: "string list \<Rightarrow> string list" where
  "dedupeSorted xs = sort (firsts (filter (\<lambda>s. s \<noteq> []) (map trim_space xs)))"

definition direct_entries :: "exempt_state \<Rightarrow> string list" where
  "direct_entries s = pf_tabs (xs_pf s) directTable"

definition set_direct :: "string list \<Rightarrow> exempt_state \<Rightarrow> exempt_state" where
  "set_direct ips s = s\<lparr>xs_pf := (xs_pf s)\<lparr>pf_tabs := (pf_tabs (xs_pf s))(directTable := ips)\<rparr>\<rparr>"

text \<open>Whether a flush and an add succeed, whether the file can be written, and the clock.\<close>

record table_env =
  te_flush :: bool
  te_add :: go_error
  te_written :: bool
  te_now :: go_time

definition pruneDirectExemptStoreLocked ::
  "table_env \<Rightarrow> DirectDomainSet \<Rightarrow> exempt_state \<Rightarrow> (directExemptStore \<times> string list \<times> string list) \<times> exempt_state" where
  "pruneDirectExemptStoreLocked v d s =
     (let store = readDirectExemptStore s;
          kept = filter (\<lambda>(host, _). Match d host) store;
          dropped = sort (map fst (filter (\<lambda>(host, _). \<not> Match d host) store));
          s = (if dropped \<noteq> [] then writeDirectExemptStore (te_written v) kept s else s)
      in ((kept, dedupeSorted (concat (map (\<lambda>(_, e). xe_IPs e) kept)), dropped), s))"

definition SeedDirectExemptions :: "table_env \<Rightarrow> DirectDomainSet \<Rightarrow> exempt_state \<Rightarrow> exempt_state" where
  "SeedDirectExemptions v d s =
     (if \<not> KillSwitchLoaded (xs_pf s) then s
      else case pruneDirectExemptStoreLocked v d s of
        ((kept, ips, dropped), s) \<Rightarrow>
          if \<not> te_flush v then s
          else
            let s = set_direct [] s in
            if ips = [] then s
            else if te_add v \<noteq> None then s
            else set_direct ips s)"

definition PruneDirectExemptions :: "table_env \<Rightarrow> DirectDomainSet \<Rightarrow> exempt_state \<Rightarrow> string list \<times> exempt_state" where
  "PruneDirectExemptions v d s =
     (if \<not> KillSwitchLoaded (xs_pf s) then ([], s)
      else case pruneDirectExemptStoreLocked v d s of
        ((kept, ips, dropped), s) \<Rightarrow>
          if dropped = [] then ([], s)
          else if \<not> te_flush v then ([], s)
          else (dropped, (if ips \<noteq> [] \<and> te_add v = None then set_direct ips (set_direct [] s) else set_direct [] s)))"

section \<open>What the filter already passes\<close>

text \<open>The kinds of address package net tells apart.\<close>

definition never_leaves :: "netip_addr \<Rightarrow> bool" where
  "never_leaves a =
     (case to4 a of
        Some w \<Rightarrow>
          octet 0 w = 127 \<or>
          (octet 0 w = 10 \<or> (octet 0 w = 172 \<and> octet 1 w div 16 = 1) \<or> (octet 0 w = 192 \<and> octet 1 w = 168)) \<or>
          (octet 0 w = 169 \<and> octet 1 w = 254) \<or>
          octet 0 w div 16 = 14 \<or> w = 0
      | None \<Rightarrow>
          (case a of
             V6 w _ \<Rightarrow> w = 1 \<or> drop_bit 121 w = 0x7E \<or> drop_bit 118 w = 0x3FA \<or> drop_bit 120 w = 0xFF \<or> w = 0
           | _ \<Rightarrow> False))"

definition in_literal_ranges :: "netip_addr \<Rightarrow> bool" where
  "in_literal_ranges a =
     list_ex (\<lambda>cidr. case (ParseCIDR cidr, to4 a) of (Some n, Some w) \<Rightarrow> net_contains n w | _ \<Rightarrow> False) literalPassRanges"

text \<open>pfctl's test of one address, which says nothing if it fails.\<close>

definition pfTableHas :: "bool \<Rightarrow> (string \<Rightarrow> netip_addr \<Rightarrow> bool) \<Rightarrow> pf_state \<Rightarrow> string \<Rightarrow> netip_addr \<Rightarrow> bool" where
  "pfTableHas works covers s t a = (works \<and> table_has covers (pf_tabs s) t a)"

definition alreadyPassed :: "bool \<Rightarrow> (string \<Rightarrow> netip_addr \<Rightarrow> bool) \<Rightarrow> pf_state \<Rightarrow> string \<Rightarrow> bool" where
  "alreadyPassed works covers s ip =
     (case ParseIP ip of
        None \<Rightarrow> True
      | Some a \<Rightarrow>
          never_leaves a \<or> in_literal_ranges a \<or>
          list_ex (\<lambda>t. pfTableHas works covers s t a) [cnTable, directTable, apiTable])"

section \<open>Learning\<close>

text \<open>What an exemption meets: the table commands, whether pfctl's tests work, and the resolver.\<close>

record exempt_env =
  xv_table :: table_env
  xv_tests :: bool
  xv_covers :: "string \<Rightarrow> netip_addr \<Rightarrow> bool"
  xv_resolve :: resolve_env

definition is_v4_text :: "string \<Rightarrow> bool" where
  "is_v4_text ip = (case ParseIP ip of None \<Rightarrow> False | Some a \<Rightarrow> to4 a \<noteq> None)"

definition remember :: "table_env \<Rightarrow> string \<Rightarrow> string list \<Rightarrow> exempt_state \<Rightarrow> exempt_state" where
  "remember v host add s =
     (let store = readDirectExemptStore s;
          old = (case map_of store host of None \<Rightarrow> [] | Some e \<Rightarrow> xe_IPs e)
      in writeDirectExemptStore (te_written v)
           (AList.update host \<lparr>xe_IPs = dedupeSorted (old @ add), xe_At = te_now v\<rparr> store) s)"

definition ExemptDirectDest :: "exempt_env \<Rightarrow> string \<Rightarrow> string \<Rightarrow> exempt_state \<Rightarrow> go_error \<times> exempt_state" where
  "ExemptDirectDest v host ip s =
     (if \<not> KillSwitchLoaded (xs_pf s) then (None, s)
      else if \<not> is_v4_text ip then (None, s)
      else if alreadyPassed (xv_tests v) (xv_covers v) (xs_pf s) ip then (None, s)
      else case ResolveDirect (xv_resolve v) host (pf_ips (xs_pf s)) of
        (pool, f) \<Rightarrow>
          let s = s\<lparr>xs_pf := (xs_pf s)\<lparr>pf_ips := f\<rparr>\<rparr>;
              candidates = dedupeSorted (ip # (case pool of Inr ips \<Rightarrow> ips | Inl _ \<Rightarrow> []));
              add = filter (\<lambda>c. \<not> alreadyPassed (xv_tests v) (xv_covers v) (xs_pf s) c) candidates
          in if add = [] then (None, s)
             else case te_add (xv_table v) of
               Some e \<Rightarrow> (Some (''exempt '' @ host @ '' ['' @ join_with '' '' add @ '']: '' @ e), s)
             | None \<Rightarrow> (None, remember (xv_table v) host add (set_direct (direct_entries s @ add) s)))"

section \<open>The daemon's loop\<close>

definition directExemptCandidates :: "Connection list \<Rightarrow> DirectDomainSet \<Rightarrow> (string \<times> string) list" where
  "directExemptCandidates conns d =
     map (\<lambda>c. (Host c, DestIP c))
       (filter (\<lambda>c. Chains c \<noteq> [] \<and> hd (Chains c) = ''direct'' \<and> DestIP c \<noteq> [] \<and> Host c \<noteq> [] \<and> Match d (Host c)) conns)"

text \<open>One pass over the candidates: the keys already handled, and what a failure takes back.\<close>

fun learn_loop ::
  "(string \<Rightarrow> string \<Rightarrow> exempt_env) \<Rightarrow> (string \<times> string) list \<Rightarrow> string list \<Rightarrow> exempt_state \<Rightarrow> string list \<times> exempt_state" where
  "learn_loop v [] seen s = (seen, s)"
| "learn_loop v ((host, ip) # ds) seen s =
     (let key = host @ ''|'' @ ip in
      if key \<in> set seen then learn_loop v ds seen s
      else case ExemptDirectDest (v host ip) host ip s of
        (None, s) \<Rightarrow> learn_loop v ds (key # seen) s
      | (Some _, s) \<Rightarrow> learn_loop v ds (removeAll key seen) s)"

text \<open>A tick of runDirectExempt; without the callback the loop does not run.\<close>

definition direct_tick ::
  "(string \<Rightarrow> string \<Rightarrow> exempt_env) \<Rightarrow> DirectDomainSet option \<Rightarrow> string + Connection list \<Rightarrow>
     string list \<Rightarrow> exempt_state \<Rightarrow> string list \<times> exempt_state" where
  "direct_tick v rules conns seen s =
     (case rules of
        None \<Rightarrow> (seen, s)
      | Some d \<Rightarrow>
          if Empty d then (seen, s)
          else case conns of
            Inl _ \<Rightarrow> (seen, s)
          | Inr cs \<Rightarrow> learn_loop v (directExemptCandidates cs d) seen s)"

section \<open>Lemmas: labels of a host name\<close>

lemma split_on_not_nil [simp]: "split_on c s \<noteq> []"
  by (cases s) auto

lemma split_on_cut: "split_on c (x @ c # y) = split_on c x @ split_on c y"
  by (induction x) auto

lemma join_split: "join_with [c] (split_on c s) = s"
proof (induction s)
  case (Cons a s)
  obtain l ls where l: "split_on c s = l # ls" by (cases "split_on c s") auto
  with Cons show ?case by (cases ls) auto
qed simp

lemma join_append: "xs \<noteq> [] \<Longrightarrow> ys \<noteq> [] \<Longrightarrow> join_with sep (xs @ ys) = join_with sep xs @ sep @ join_with sep ys"
  by (induction sep xs rule: join_with.induct) (auto simp: neq_Nil_conv)

lemma label_suffix:
  "h = s \<or> has_suffix h (c # s) \<longleftrightarrow> (\<exists>pre. split_on c h = pre @ split_on c s)"
proof
  assume "h = s \<or> has_suffix h (c # s)"
  then show "\<exists>pre. split_on c h = pre @ split_on c s"
    by (auto simp: has_suffix_iff split_on_cut)
next
  assume "\<exists>pre. split_on c h = pre @ split_on c s"
  then obtain pre where pre: "split_on c h = pre @ split_on c s" by blast
  show "h = s \<or> has_suffix h (c # s)"
  proof (cases "pre = []")
    case True
    with pre have "join_with [c] (split_on c h) = join_with [c] (split_on c s)" by simp
    then show ?thesis by (simp only: join_split) simp
  next
    case False
    have "h = join_with [c] (pre @ split_on c s)" using pre join_split [of c h] by simp
    also have "\<dots> = join_with [c] pre @ [c] @ s" using False by (simp only: join_append split_on_not_nil join_split not_False_eq_True)
    finally show ?thesis by (auto simp: has_suffix_iff)
  qed
qed

section \<open>Lemmas: the ranges\<close>

lemma literal_networks:
  "map ParseCIDR literalPassRanges =
     [Some (V4 0x0A000000, 8), Some (V4 0xAC100000, 12), Some (V4 0xC0A80000, 16), Some (V4 0xA9FE0000, 16),
      Some (V4 0x64400000, 10), Some (V4 0xE0000000, 4), Some (V4 0xFFFFFFFF, 32), Some (V4 0x11000000, 8)]"
  by (simp add: literalPassRanges_def ParseCIDR_def cut_first_def ParseAddr_def v4_fields_def v4_field_def big_endian_def
      digit_value_def Let_def)

lemma drop_bit_same: "drop_bit n (a :: 32 word) = drop_bit n b \<longleftrightarrow> unat a div 2 ^ n = unat b div 2 ^ n"
proof -
  have "unat (drop_bit n w) = unat w div 2 ^ n" for w :: "32 word"
  proof -
    have "take_bit 32 (unat w) = unat w" using unsigned_less [of w, where ?'a = nat] by (simp add: take_bit_nat_eq_self)
    then have "unat (drop_bit n w) = drop_bit n (unat w)" by (simp add: unsigned_drop_bit_eq)
    then show ?thesis by (simp only: drop_bit_eq_div)
  qed
  then show ?thesis by (simp add: word_eq_iff_unsigned [where ?'a = nat])
qed

lemma private_in_ranges:
  assumes "never_leaves (V4 w)" "octet 0 w \<noteq> 127" "w \<noteq> 0"
  shows "in_literal_ranges (V4 w)"
proof -
  have bound: "unat w < 4294967296" using unsigned_less [of w, where ?'a = nat] by simp
  have lit: "in_literal_ranges (V4 w) \<longleftrightarrow> list_ex (\<lambda>n. case n of Some n \<Rightarrow> net_contains n w | None \<Rightarrow> False) (map ParseCIDR literalPassRanges)"
    by (simp add: in_literal_ranges_def to4_def list_ex_iff split: option.splits)
  have o: "octet 0 w = unat w div 16777216" "octet 1 w = unat w div 65536 mod 256"
    using bound by (simp_all add: octet_def)
  have "unat w div 16777216 = 10 \<or> unat w div 1048576 = 2753 \<or> unat w div 65536 = 49320 \<or> unat w div 65536 = 43518 \<or>
      unat w div 268435456 = 14"
  proof -
    define q where "q = unat w div 65536"
    have q: "unat w div 16777216 = q div 256" "unat w div 1048576 = q div 16" "unat w div 268435456 = q div 4096"
      unfolding q_def by (simp_all add: div_mult2_eq [symmetric])
    have "q div 256 = 10 \<or> (q div 256 = 172 \<and> q mod 256 div 16 = 1) \<or> (q div 256 = 192 \<and> q mod 256 = 168) \<or>
        (q div 256 = 169 \<and> q mod 256 = 254) \<or> q div 256 div 16 = 14"
      using assms unfolding never_leaves_def to4_def netip_addr.case option.case o q q_def [symmetric] by blast
    moreover have "q div 16 = 2753" if "q div 256 = 172" "q mod 256 div 16 = 1" 
    proof -
      have "q mod 256 = 16 * (q div 16 mod 16) + q mod 16" using mod_mult2_eq [of q 16 16] by simp
      then have "q div 16 mod 16 = 1" using that(2) by simp
      moreover have "q div 16 div 16 = 172" using that(1) by (simp add: div_mult2_eq [symmetric])
      ultimately show ?thesis using mult_div_mod_eq [of 16 "q div 16"] by simp
    qed
    moreover have "q = 256 * a + b" if "q div 256 = a" "q mod 256 = b" for a b using that mult_div_mod_eq [of 256 q] by simp
    moreover have "q div 4096 = q div 256 div 16" by (simp add: div_mult2_eq [symmetric])
    ultimately have "q div 256 = 10 \<or> q div 16 = 2753 \<or> q = 49320 \<or> q = 43518 \<or> q div 4096 = 14" by fastforce
    then show ?thesis unfolding q q_def [symmetric] .
  qed
  then show ?thesis
    by (simp add: lit literal_networks net_contains_def drop_bit_same) auto
qed

section \<open>Lemmas: what the operations do to the table\<close>

lemma direct_set [simp]:
  "direct_entries (set_direct ips s) = ips" "xs_store (set_direct ips s) = xs_store s"
  "KillSwitchLoaded (xs_pf (set_direct ips s)) = KillSwitchLoaded (xs_pf s)"
  by (simp_all add: direct_entries_def set_direct_def KillSwitchLoaded_def)

lemma direct_write [simp]:
  "direct_entries (writeDirectExemptStore w m s) = direct_entries s" "xs_pf (writeDirectExemptStore w m s) = xs_pf s"
  by (simp_all add: direct_entries_def writeDirectExemptStore_def)

lemma direct_remember [simp]: "direct_entries (remember v h add s) = direct_entries s" "xs_pf (remember v h add s) = xs_pf s"
  by (simp_all add: remember_def Let_def)

lemma deduped: "set (dedupeSorted xs) = {x \<in> trim_space ` set xs. x \<noteq> []}"
  by (auto simp: dedupeSorted_def)

text \<open>The addresses an exemption of a host may add to the one that was dialed.\<close>

definition siblings :: "resolve_env \<Rightarrow> string \<Rightarrow> string list" where
  "siblings v host = (case fst (ResolveDirect v host None) of Inr ips \<Rightarrow> ips | Inl _ \<Rightarrow> [])"

lemma resolve_siblings: "ResolveDirect v host f = (pool, f') \<Longrightarrow> (case pool of Inr ips \<Rightarrow> ips | Inl _ \<Rightarrow> []) = siblings v host"
  by (auto simp: siblings_def ResolveDirect_def Let_def split: sum.splits if_splits)

lemma exempt_cases:
  assumes "ExemptDirectDest v host ip s = (err, s')"
  shows "(direct_entries s' = direct_entries s \<and> (err = None \<longrightarrow> \<not> KillSwitchLoaded (xs_pf s) \<or> \<not> is_v4_text ip \<or>
        alreadyPassed (xv_tests v) (xv_covers v) (xs_pf s) ip \<or>
        filter (\<lambda>c. \<not> alreadyPassed (xv_tests v) (xv_covers v) (xs_pf s) c) (dedupeSorted (ip # siblings (xv_resolve v) host)) = [])) \<or>
    (err = None \<and> direct_entries s' = direct_entries s @
        filter (\<lambda>c. \<not> alreadyPassed (xv_tests v) (xv_covers v) (xs_pf s) c) (dedupeSorted (ip # siblings (xv_resolve v) host)))"
proof (cases "\<not> KillSwitchLoaded (xs_pf s) \<or> \<not> is_v4_text ip \<or> alreadyPassed (xv_tests v) (xv_covers v) (xs_pf s) ip")
  case True
  then have "ExemptDirectDest v host ip s = (None, s)"
    by (cases "KillSwitchLoaded (xs_pf s)"; cases "is_v4_text ip") (simp_all add: ExemptDirectDest_def)
  then have "err = None" "s' = s" using assms by simp_all
  then show ?thesis using True by blast
next
  case False
  obtain pool f where r: "ResolveDirect (xv_resolve v) host (pf_ips (xs_pf s)) = (pool, f)" by force
  let ?s = "s\<lparr>xs_pf := (xs_pf s)\<lparr>pf_ips := f\<rparr>\<rparr>"
  have same: "alreadyPassed (xv_tests v) (xv_covers v) (xs_pf ?s) c = alreadyPassed (xv_tests v) (xv_covers v) (xs_pf s) c" for c
    by (simp add: alreadyPassed_def pfTableHas_def cong: option.case_cong)
  have d: "direct_entries ?s = direct_entries s" by (simp add: direct_entries_def)
  let ?add = "filter (\<lambda>c. \<not> alreadyPassed (xv_tests v) (xv_covers v) (xs_pf s) c) (dedupeSorted (ip # siblings (xv_resolve v) host))"
  have "ExemptDirectDest v host ip s =
      (if ?add = [] then (None, ?s)
       else case te_add (xv_table v) of
         Some e \<Rightarrow> (Some (''exempt '' @ host @ '' ['' @ join_with '' '' ?add @ '']: '' @ e), ?s)
       | None \<Rightarrow> (None, remember (xv_table v) host ?add (set_direct (direct_entries s @ ?add) ?s)))"
    using False by (simp only: ExemptDirectDest_def r prod.case resolve_siblings [OF r] same d Let_def) simp
  then show ?thesis using assms d by (auto split: if_splits option.splits)
qed

lemma exempt_loaded: "ExemptDirectDest v host ip s = (err, s') \<Longrightarrow> pf_anchor (xs_pf s') = pf_anchor (xs_pf s) \<and>
    (\<forall>t. t \<noteq> directTable \<longrightarrow> pf_tabs (xs_pf s') t = pf_tabs (xs_pf s) t)"
  by (auto simp: ExemptDirectDest_def Let_def set_direct_def split: prod.splits if_splits option.splits)

lemma learn_adds:
  "ip \<in> set (direct_entries (snd (learn_loop v ds seen s))) \<Longrightarrow>
   ip \<in> set (direct_entries s) \<or> (\<exists>(h, d) \<in> set ds. ip \<in> trim_space ` set (d # siblings (xv_resolve (v h d)) h))"
proof (induction ds arbitrary: seen s)
  case (Cons hd ds)
  obtain h d where hd: "hd = (h, d)" by force
  obtain err s' where e: "ExemptDirectDest (v h d) h d s = (err, s')" by force
  have new: "set (direct_entries s') \<subseteq> set (direct_entries s) \<union> trim_space ` set (d # siblings (xv_resolve (v h d)) h)"
    using exempt_cases [OF e] deduped [of "d # siblings (xv_resolve (v h d)) h"] by auto
  obtain seen' s1 where next_state: "learn_loop v (hd # ds) seen s = learn_loop v ds seen' s1" "s1 = s \<or> s1 = s'"
  proof (cases "h @ ''|'' @ d \<in> set seen")
    case True
    with hd have "learn_loop v (hd # ds) seen s = learn_loop v ds seen s" by simp
    then show ?thesis using that by blast
  next
    case False
    with hd e have "learn_loop v (hd # ds) seen s =
        learn_loop v ds (case err of None \<Rightarrow> (h @ ''|'' @ d) # seen | Some _ \<Rightarrow> removeAll (h @ ''|'' @ d) seen) s'"
      by (simp split: option.splits)
    then show ?thesis using that by blast
  qed
  from Cons.prems Cons.IH [of seen' s1] next_state(1) have
    "ip \<in> set (direct_entries s1) \<or> (\<exists>(h, d) \<in> set ds. ip \<in> trim_space ` set (d # siblings (xv_resolve (v h d)) h))"
    by simp
  then show ?case using next_state(2) new hd by auto
qed simp

section \<open>Runs\<close>

text \<open>
  What can happen to the table: a tick of the daemon, the seed after arming, the prune of a reload, and
  the anchor being loaded anew, which empties it.
\<close>

datatype exempt_op =
    Tick "string \<Rightarrow> string \<Rightarrow> exempt_env" DirectDomainSet "string + Connection list"
  | Seed table_env DirectDomainSet
  | Prune table_env DirectDomainSet
  | Rearm

fun exempt_step :: "exempt_op \<Rightarrow> string list \<times> exempt_state \<Rightarrow> string list \<times> exempt_state" where
  "exempt_step (Tick v d conns) (seen, s) = direct_tick v (Some d) conns seen s"
| "exempt_step (Seed v d) (seen, s) = (seen, SeedDirectExemptions v d s)"
| "exempt_step (Prune v d) (seen, s) = (seen, snd (PruneDirectExemptions v d s))"
| "exempt_step Rearm (seen, s) = (seen, set_direct [] s)"

definition exempt_run :: "exempt_op list \<Rightarrow> string list \<times> exempt_state \<Rightarrow> string list \<times> exempt_state" where
  "exempt_run ops x = foldl (\<lambda>x op. exempt_step op x) x ops"

text \<open>Why an operation may pass an address: its rules cover a host that dialed it, that resolved to it, or
  that the store has it for.\<close>

fun vouches :: "exempt_op \<Rightarrow> exempt_state \<Rightarrow> string \<Rightarrow> string \<Rightarrow> bool" where
  "vouches (Tick v d conns) s h ip =
     (\<exists>cs c. conns = Inr cs \<and> c \<in> set cs \<and> Chains c \<noteq> [] \<and> hd (Chains c) = ''direct'' \<and> Host c = h \<and> Match d h \<and>
        ip \<in> trim_space ` set (DestIP c # siblings (xv_resolve (v h (DestIP c))) h))"
| "vouches (Seed v d) s h ip =
     (Match d h \<and> (\<exists>e. (h, e) \<in> set (readDirectExemptStore s) \<and> ip \<in> trim_space ` set (xe_IPs e)))"
| "vouches (Prune v d) s h ip =
     (Match d h \<and> (\<exists>e. (h, e) \<in> set (readDirectExemptStore s) \<and> ip \<in> trim_space ` set (xe_IPs e)))"
| "vouches Rearm s h ip = False"

lemma pruned_state:
  assumes "pruneDirectExemptStoreLocked v d s = (r, s')"
  shows "direct_entries s' = direct_entries s" "xs_pf s' = xs_pf s"
  using assms by (auto simp: pruneDirectExemptStoreLocked_def Let_def split: if_splits)

lemma pruned_ips:
  assumes "pruneDirectExemptStoreLocked v d s = ((kept, ips, dropped), s')" and "ip \<in> set ips"
  shows "\<exists>h e. Match d h \<and> (h, e) \<in> set (readDirectExemptStore s) \<and> ip \<in> trim_space ` set (xe_IPs e)"
proof -
  have "ips = dedupeSorted (concat (map (\<lambda>(_, e). xe_IPs e) (filter (\<lambda>(host, _). Match d host) (readDirectExemptStore s))))"
    using assms(1) by (auto simp: pruneDirectExemptStoreLocked_def Let_def)
  with assms(2) obtain x h e where "ip = trim_space x" "(h, e) \<in> set (readDirectExemptStore s)" "Match d h" "x \<in> set (xe_IPs e)"
    by (auto simp: deduped)
  then show ?thesis by blast
qed

lemma seed_result:
  assumes "pruneDirectExemptStoreLocked v d s = ((kept, ips, dropped), s')"
  shows "direct_entries (SeedDirectExemptions v d s) \<in> {direct_entries s, [], ips}"
  using pruned_state [OF assms] by (simp add: SeedDirectExemptions_def assms Let_def)

lemma prune_result:
  assumes "pruneDirectExemptStoreLocked v d s = ((kept, ips, dropped), s')"
  shows "direct_entries (snd (PruneDirectExemptions v d s)) \<in> {direct_entries s, [], ips}"
  using pruned_state [OF assms] by (simp add: PruneDirectExemptions_def assms)

lemma seed_table:
  assumes "ip \<in> set (direct_entries (SeedDirectExemptions v d s))"
  shows "ip \<in> set (direct_entries s) \<or> (\<exists>h. vouches (Seed v d) s h ip)"
proof -
  obtain kept ips dropped s' where p: "pruneDirectExemptStoreLocked v d s = ((kept, ips, dropped), s')" by (metis prod_cases3 prod.collapse)
  show ?thesis
  proof (cases "direct_entries (SeedDirectExemptions v d s) = ips")
    case True
    with assms have "ip \<in> set ips" by simp
    from pruned_ips [OF p this] show ?thesis by simp
  next
    case False
    with assms seed_result [OF p] show ?thesis by auto
  qed
qed

lemma prune_table:
  assumes "ip \<in> set (direct_entries (snd (PruneDirectExemptions v d s)))"
  shows "ip \<in> set (direct_entries s) \<or> (\<exists>h. vouches (Prune v d) s h ip)"
proof -
  obtain kept ips dropped s' where p: "pruneDirectExemptStoreLocked v d s = ((kept, ips, dropped), s')" by (metis prod_cases3 prod.collapse)
  show ?thesis
  proof (cases "direct_entries (snd (PruneDirectExemptions v d s)) = ips")
    case True
    with assms have "ip \<in> set ips" by simp
    from pruned_ips [OF p this] show ?thesis by simp
  next
    case False
    with assms prune_result [OF p] show ?thesis by auto
  qed
qed

lemma tick_table:
  "ip \<in> set (direct_entries (snd (direct_tick v (Some d) conns seen s))) \<Longrightarrow>
     ip \<in> set (direct_entries s) \<or> (\<exists>h. vouches (Tick v d conns) s h ip)"
proof -
  assume ip: "ip \<in> set (direct_entries (snd (direct_tick v (Some d) conns seen s)))"
  show ?thesis
  proof (cases conns)
    case (Inr cs)
    show ?thesis
    proof (cases "Empty d")
      case False
      with ip Inr have "ip \<in> set (direct_entries (snd (learn_loop v (directExemptCandidates cs d) seen s)))"
        by (simp add: direct_tick_def)
      from learn_adds [OF this] Inr show ?thesis
        by (auto simp: directExemptCandidates_def)
    qed (use ip in \<open>simp add: direct_tick_def\<close>)
  next
    case (Inl e)
    with ip show ?thesis by (simp add: direct_tick_def split: if_splits)
  qed
qed

lemma step_table:
  "ip \<in> set (direct_entries (snd (exempt_step op (seen, s)))) \<Longrightarrow> ip \<in> set (direct_entries s) \<or> (\<exists>h. vouches op s h ip)"
  using seed_table prune_table tick_table by (cases op) auto

section \<open>Properties\<close>

text \<open>C33: Every hole in the kill switch has a rule behind it. However ticks, seeds, prunes and reloads of
  the anchor follow each other, an address in the exemption table was put there by one of them, for a
  host that the rules it read cover: a host that the engine dialed directly at that address or that
  resolved to it then, or one that the store had the address for.\<close>
theorem holes_need_a_rule:
  assumes "ip \<in> set (direct_entries (snd (exempt_run ops (seen, s))))" and "direct_entries s = []"
  shows "\<exists>pre op post h. ops = pre @ op # post \<and> vouches op (snd (exempt_run pre (seen, s))) h ip"
  using assms(1)
proof (induction ops rule: rev_induct)
  case Nil
  with assms(2) show ?case by (simp add: exempt_run_def)
next
  case (snoc op ops)
  obtain seen' s' where run: "exempt_run ops (seen, s) = (seen', s')" by force
  then have "ip \<in> set (direct_entries (snd (exempt_step op (seen', s'))))"
    using snoc.prems by (simp add: exempt_run_def)
  then consider "ip \<in> set (direct_entries s')" | h where "vouches op s' h ip" using step_table by blast
  then show ?case
  proof cases
    case 1
    with run snoc.IH obtain pre op' post h where "ops = pre @ op' # post" "vouches op' (snd (exempt_run pre (seen, s))) h ip"
      by auto
    then have "ops @ [op] = pre @ op' # (post @ [op]) \<and> vouches op' (snd (exempt_run pre (seen, s))) h ip" by simp
    then show ?thesis by blast
  next
    case 2
    with run have "ops @ [op] = ops @ op # [] \<and> vouches op (snd (exempt_run ops (seen, s))) h ip" by simp
    then show ?thesis by blast
  qed
qed

text \<open>A suffix rule aligns with the labels of a name. Of a rule list with suffixes only, a host is
  covered exactly if its labels end with those of a suffix, so that a name that merely ends with the
  same letters is not.\<close>
theorem suffixes_align_with_labels:
  "Match \<lparr>dd_Suffixes = ss, dd_Keywords = []\<rparr> host \<longleftrightarrow>
     to_lower (trim_suffix_dot (trim_space host)) \<noteq> [] \<and>
     list_ex (\<lambda>s. to_lower (trim_prefix_dot (trim_space s)) \<noteq> [] \<and>
       (\<exists>pre. split_on (CHR ''.'') (to_lower (trim_suffix_dot (trim_space host))) =
          pre @ split_on (CHR ''.'') (to_lower (trim_prefix_dot (trim_space s))))) ss"
  by (simp add: Match_def Let_def label_suffix [symmetric])

text \<open>What pf makes of the literal ranges, and of an address in a table.\<close>

definition range_has :: "string \<Rightarrow> 32 word \<Rightarrow> bool" where
  "range_has r w = (case ParseCIDR r of Some n \<Rightarrow> net_contains n w | None \<Rightarrow> False)"

definition reads_ranges :: "(string \<Rightarrow> netip_addr \<Rightarrow> bool) \<Rightarrow> 32 word \<Rightarrow> bool" where
  "reads_ranges covers w = list_all (\<lambda>r. covers r (V4 w) = range_has r w) literalPassRanges"

lemma literal_covers:
  assumes "reads_ranges covers w"
  shows "list_ex (\<lambda>r. covers r (V4 w)) literalPassRanges = in_literal_ranges (V4 w)"
proof -
  have "(case (ParseCIDR r, to4 (V4 w)) of (Some n, Some w) \<Rightarrow> net_contains n w | _ \<Rightarrow> False) = range_has r w" for r
    by (simp add: range_has_def to4_def split: option.splits)
  then have "in_literal_ranges (V4 w) = list_ex (\<lambda>r. range_has r w) literalPassRanges" by (simp only: in_literal_ranges_def)
  then show ?thesis using assms by (simp only: reads_ranges_def list_all_iff list_ex_iff) blast
qed

lemma passed_iff:
  assumes "ParseIP ip = Some (V4 w)" and "reads_ranges covers w"
    and "pf_anchor s = pf_rules ifcs vpsIPs" "pk_ifc p \<in> set ifcs" "\<not> pk_dhcp p" "pk_dst p = V4 w"
    and "\<not> list_ex (\<lambda>ip. ip \<noteq> [] \<and> covers ip (V4 w)) (map trim_space vpsIPs)"
  shows "alreadyPassed True covers s ip \<longleftrightarrow>
    octet 0 w = 127 \<or> w = 0 \<or> pf_passes covers (pf_tabs s) (pf_anchor s) p"
proof -
  have passes: "pf_passes covers (pf_tabs s) (pf_anchor s) p \<longleftrightarrow>
      table_has covers (pf_tabs s) apiTable (V4 w) \<or> table_has covers (pf_tabs s) directTable (V4 w) \<or>
      table_has covers (pf_tabs s) cnTable (V4 w) \<or> in_literal_ranges (V4 w)"
    using assms(3-7) by (simp add: rules_pass own_interface_passes is4_def literal_covers [OF assms(2)])
  have special: "octet 0 w = 127 \<Longrightarrow> never_leaves (V4 w)" "w = 0 \<Longrightarrow> never_leaves (V4 w)"
    by (simp_all add: never_leaves_def to4_def)
  have already: "alreadyPassed True covers s ip \<longleftrightarrow> never_leaves (V4 w) \<or> in_literal_ranges (V4 w) \<or>
      table_has covers (pf_tabs s) cnTable (V4 w) \<or> table_has covers (pf_tabs s) directTable (V4 w) \<or>
      table_has covers (pf_tabs s) apiTable (V4 w)"
    using assms(1) by (simp add: alreadyPassed_def pfTableHas_def)
  show ?thesis unfolding already passes using special private_in_ranges [of w] by blast
qed

text \<open>The learner and the filter agree. For an address that is no recorded server's, what the learner
  takes for already passed is what the armed rules let out of a physical interface, save loopback
  and the unspecified address, which it never opens.\<close>
theorem already_passed_is_the_filter:
  assumes "ParseIP ip = Some (V4 w)" and "reads_ranges covers w"
    and "pf_anchor s = pf_rules ifcs vpsIPs" "pk_ifc p \<in> set ifcs" "\<not> pk_dhcp p" "pk_dst p = V4 w"
    and "\<not> list_ex (\<lambda>ip. ip \<noteq> [] \<and> covers ip (V4 w)) (map trim_space vpsIPs)"
  shows "alreadyPassed True covers s ip \<longleftrightarrow>
    octet 0 w = 127 \<or> w = 0 \<or> pf_passes covers (pf_tabs s) (pf_anchor s) p"
  using passed_iff [OF assms] .


text \<open>A rule that is removed and put back stays shut. The daemon learns an address, a reload without
  the rule withdraws it, and after a reload with the rule the same connection is passed over, because
  the daemon still holds the pair for handled: the host is routed direct, into the block rule.\<close>
theorem readded_rule_stays_shut:
  assumes "ExemptDirectDest (v host ip) host ip s = (None, s1)" and "xs_store s1 = Some [(host, e)]" "KillSwitchLoaded (xs_pf s1)"
    and "Match d host" "\<not> Match d0 host" "\<not> Empty d" "host \<noteq> []" "ip \<noteq> []" "host @ ''|'' @ ip \<notin> set seen" "te_flush v2"
  shows "direct_entries (snd (exempt_run
    [Tick v d (Inr [\<lparr>Chains = ''direct'' # cs, Host = host, DestIP = ip\<rparr>]), Prune v2 d0,
     Tick v' d (Inr [\<lparr>Chains = ''direct'' # cs, Host = host, DestIP = ip\<rparr>])] (seen, s))) = []"
proof -
  let ?conns = "Inr [\<lparr>Chains = ''direct'' # cs, Host = host, DestIP = ip\<rparr>]"
  let ?seen = "(host @ ''|'' @ ip) # seen"
  have cands: "directExemptCandidates [\<lparr>Chains = ''direct'' # cs, Host = host, DestIP = ip\<rparr>] d = [(host, ip)]"
    using assms(4,7,8) by (simp add: directExemptCandidates_def)
  have first: "direct_tick v (Some d) ?conns seen s = (?seen, s1)"
    using assms(1,6,9) cands by (simp add: direct_tick_def)
  obtain s2 where s2: "pruneDirectExemptStoreLocked v2 d0 s1 = (([], [], [host]), s2)"
    using assms(2,5) by (simp add: pruneDirectExemptStoreLocked_def readDirectExemptStore_def dedupeSorted_def)
  then have closed: "PruneDirectExemptions v2 d0 s1 = ([host], set_direct [] s2)"
    using assms(3,10) by (simp add: PruneDirectExemptions_def)
  have again: "direct_tick v' (Some d) ?conns ?seen (set_direct [] s2) = (?seen, set_direct [] s2)"
    using assms(6) cands by (simp add: direct_tick_def)
  show ?thesis by (simp only: exempt_run_def foldl.simps exempt_step.simps first closed snd_conv again direct_set)
qed

text \<open>A withdrawal that fails is never tried again by a reload. If the flush of a prune fails, the store
  has already forgotten the hosts: the table is unchanged, and every later prune under the same rules
  finds nothing to drop and leaves it unchanged.\<close>
theorem failed_withdrawal_forgotten:
  assumes "KillSwitchLoaded (xs_pf s)" and "te_written v1" "\<not> te_flush v1"
    and "(h, e) \<in> set (readDirectExemptStore s)" "\<not> Match d h"
  shows "\<exists>s1. PruneDirectExemptions v1 d s = ([], s1) \<and> direct_entries s1 = direct_entries s \<and>
    PruneDirectExemptions v2 d s1 = ([], s1)"
proof -
  let ?kept = "filter (\<lambda>(host, _). Match d host) (readDirectExemptStore s)"
  let ?s1 = "writeDirectExemptStore True ?kept s"
  let ?dropped = "sort (map fst (filter (\<lambda>(host, _). \<not> Match d host) (readDirectExemptStore s)))"
  have "h \<in> set ?dropped" using assms(4,5) by force
  then have dropped: "?dropped \<noteq> []" by (metis empty_iff list.set(1))
  obtain ips where "pruneDirectExemptStoreLocked v1 d s = ((?kept, ips, ?dropped), ?s1)"
    using dropped assms(2) by (simp only: pruneDirectExemptStoreLocked_def Let_def if_True simp_thms)
  then have first: "PruneDirectExemptions v1 d s = ([], ?s1)"
    using dropped assms(1,3) by (simp only: PruneDirectExemptions_def prod.case if_False if_True simp_thms)
  have "readDirectExemptStore ?s1 = ?kept" by (simp add: readDirectExemptStore_def writeDirectExemptStore_def)
  moreover have "filter (\<lambda>(host, _). \<not> Match d host) ?kept = []" by (auto simp: filter_empty_conv)
  ultimately have "PruneDirectExemptions v2 d ?s1 = ([], ?s1)"
    using assms(1) by (simp add: PruneDirectExemptions_def pruneDirectExemptStoreLocked_def Let_def)
  with first show ?thesis by (metis direct_write(1))
qed

section \<open>An armed filter and a host that is dialed\<close>

definition text_covers :: "string \<Rightarrow> netip_addr \<Rightarrow> bool" where
  "text_covers t a =
     (case (ParseCIDR t, a) of (Some n, V4 w) \<Rightarrow> net_contains n w | _ \<Rightarrow> ParseIP t = Some a)"

definition armed_example :: exempt_state where
  "armed_example =
     \<lparr>xs_pf = \<lparr>pf_anchor = pf_rules [''en0''] [], pf_tabs = (\<lambda>_. []), pf_refs = [''7''], pf_cn = None, pf_token = Some ''7'', pf_ips = None\<rparr>,
      xs_store = None\<rparr>"

definition exempt_example :: "string \<Rightarrow> string \<Rightarrow> exempt_env" where
  "exempt_example host ip =
     \<lparr>xv_table = \<lparr>te_flush = True, te_add = None, te_written = True, te_now = 0\<rparr>, xv_tests = True, xv_covers = text_covers,
      xv_resolve = dead_resolver\<rparr>"

definition npm_rule :: DirectDomainSet where "npm_rule = \<lparr>dd_Suffixes = [''npmjs.org''], dd_Keywords = []\<rparr>"

definition npm_connection :: Connection where
  "npm_connection = \<lparr>Chains = [''direct''], Host = ''registry.npmjs.org'', DestIP = ''104.16.0.35''\<rparr>"

lemma npm_address: "ParseIP ''104.16.0.35'' = Some (V4 0x68100023)"
  by (simp add: ParseIP_def ParseAddr_def v4_fields_def v4_field_def big_endian_def digit_value_def Let_def)

lemma npm_text: "ParseCIDR ''104.16.0.35'' = None" "trim_space ''104.16.0.35'' = ''104.16.0.35''"
  by (simp_all add: ParseCIDR_def cut_first_def trim_space_def is_space_def)

lemma reads_literal: "reads_ranges text_covers w"
proof -
  have "None \<notin> set (map ParseCIDR literalPassRanges)" by (simp add: literal_networks)
  then have "text_covers r (V4 w) = range_has r w" if "r \<in> set literalPassRanges" for r
  proof -
    from that \<open>None \<notin> _\<close> obtain n where "ParseCIDR r = Some n" by (metis image_eqI list.set_map not_Some_eq)
    then show ?thesis by (simp add: text_covers_def range_has_def)
  qed
  then show ?thesis by (simp add: reads_ranges_def list_all_iff)
qed

lemma npm_new: "\<not> alreadyPassed True text_covers (xs_pf armed_example) ''104.16.0.35''"
proof -
  have o: "octet 0 0x68100023 = 104" "octet 1 0x68100023 = 16" by (simp_all add: octet_def)
  have "\<not> in_literal_ranges (V4 0x68100023)"
    using literal_networks by (simp add: literalPassRanges_def in_literal_ranges_def to4_def net_contains_def drop_bit_same)
  then show ?thesis
    by (simp add: alreadyPassed_def npm_address never_leaves_def to4_def o pfTableHas_def table_has_def armed_example_def)
qed

lemma npm_exempted:
  "ExemptDirectDest (exempt_example host ''104.16.0.35'') host ''104.16.0.35'' armed_example =
     (None, remember \<lparr>te_flush = True, te_add = None, te_written = True, te_now = 0\<rparr> host [''104.16.0.35'']
        (set_direct [''104.16.0.35''] armed_example))"
proof -
  have "dedupeSorted [''104.16.0.35''] = [''104.16.0.35'']" by (simp add: dedupeSorted_def npm_text)
  moreover have "is_v4_text ''104.16.0.35''" by (simp add: is_v4_text_def npm_address to4_def)
  moreover have "ResolveDirect dead_resolver host None = (Inl (''resolve '' @ host @ '' directly: i/o timeout''), None)"
    by (simp add: ResolveDirect_def dead_resolver_def)
  moreover have "KillSwitchLoaded (xs_pf armed_example)" "pf_ips (xs_pf armed_example) = None" "direct_entries armed_example = []"
    by (simp_all add: KillSwitchLoaded_def armed_example_def direct_entries_def)
  moreover have same: "(xs_pf armed_example)\<lparr>pf_ips := None\<rparr> = xs_pf armed_example"
    "armed_example\<lparr>xs_pf := xs_pf armed_example\<rparr> = armed_example"
    by (simp_all add: armed_example_def)
  ultimately show ?thesis
    using npm_new by (simp add: ExemptDirectDest_def exempt_example_def) (simp only: Let_def same, simp)
qed

lemma npm_matches: "Match npm_rule ''registry.npmjs.org''" "\<not> Match \<lparr>dd_Suffixes = [], dd_Keywords = []\<rparr> h" "\<not> Empty npm_rule"
  by code_simp (simp_all add: Match_def Empty_def npm_rule_def)


theorem already_passed_is_the_filter_witness:
  "alreadyPassed True text_covers (xs_pf armed_example) ''104.16.0.35'' \<longleftrightarrow>
     pf_passes text_covers (pf_tabs (xs_pf armed_example)) (pf_anchor (xs_pf armed_example)) \<lparr>pk_ifc = ''en0'', pk_dst = V4 0x68100023, pk_dhcp = False\<rparr>"
proof -
  have "pf_anchor (xs_pf armed_example) = pf_rules [''en0''] []" by (simp add: armed_example_def)
  from already_passed_is_the_filter [OF npm_address reads_literal this, of "\<lparr>pk_ifc = ''en0'', pk_dst = V4 0x68100023, pk_dhcp = False\<rparr>"]
  show ?thesis by (simp add: octet_def)
qed

theorem readded_rule_stays_shut_witness:
  "direct_entries (snd (exempt_run
    [Tick exempt_example npm_rule (Inr [npm_connection]),
     Prune \<lparr>te_flush = True, te_add = None, te_written = True, te_now = 0\<rparr> \<lparr>dd_Suffixes = [], dd_Keywords = []\<rparr>,
     Tick exempt_example npm_rule (Inr [npm_connection])] ([], armed_example))) = []"
proof -
  let ?s1 = "snd (ExemptDirectDest (exempt_example ''registry.npmjs.org'' ''104.16.0.35'') ''registry.npmjs.org'' ''104.16.0.35'' armed_example)"
  have e: "ExemptDirectDest (exempt_example ''registry.npmjs.org'' ''104.16.0.35'') ''registry.npmjs.org'' ''104.16.0.35'' armed_example = (None, ?s1)"
    by (simp add: npm_exempted)
  have st: "xs_store ?s1 = Some [(''registry.npmjs.org'', \<lparr>xe_IPs = dedupeSorted [''104.16.0.35''], xe_At = 0\<rparr>)]" "KillSwitchLoaded (xs_pf ?s1)"
    unfolding npm_exempted
    by (simp_all add: remember_def writeDirectExemptStore_def readDirectExemptStore_def armed_example_def set_direct_def
        KillSwitchLoaded_def)
  from readded_rule_stays_shut [where v = exempt_example, OF e st npm_matches(1,2,3)] show ?thesis
    unfolding npm_connection_def by simp
qed

theorem failed_withdrawal_forgotten_witness:
  "\<exists>s1. PruneDirectExemptions \<lparr>te_flush = False, te_add = None, te_written = True, te_now = 0\<rparr> \<lparr>dd_Suffixes = [], dd_Keywords = []\<rparr>
      (set_direct [''104.16.0.35''] armed_example\<lparr>xs_store := Some [(''h'', \<lparr>xe_IPs = [''104.16.0.35''], xe_At = 0\<rparr>)]\<rparr>) = ([], s1) \<and>
    direct_entries s1 = [''104.16.0.35''] \<and>
    PruneDirectExemptions \<lparr>te_flush = True, te_add = None, te_written = True, te_now = 1\<rparr> \<lparr>dd_Suffixes = [], dd_Keywords = []\<rparr> s1 = ([], s1)"
proof -
  let ?s = "set_direct [''104.16.0.35''] armed_example\<lparr>xs_store := Some [(''h'', \<lparr>xe_IPs = [''104.16.0.35''], xe_At = 0\<rparr>)]\<rparr>"
  have "KillSwitchLoaded (xs_pf ?s)" "(''h'', \<lparr>xe_IPs = [''104.16.0.35''], xe_At = 0\<rparr>) \<in> set (readDirectExemptStore ?s)"
    "direct_entries ?s = [''104.16.0.35'']"
    by (simp_all add: KillSwitchLoaded_def armed_example_def set_direct_def readDirectExemptStore_def direct_entries_def)
  with failed_withdrawal_forgotten [of ?s "\<lparr>te_flush = False, te_add = None, te_written = True, te_now = 0\<rparr>" "''h''" _
      "\<lparr>dd_Suffixes = [], dd_Keywords = []\<rparr>" "\<lparr>te_flush = True, te_add = None, te_written = True, te_now = 1\<rparr>"]
  show ?thesis by (simp add: npm_matches(2))
qed

theorem holes_need_a_rule_witness:
  "\<exists>pre op post h. [Tick exempt_example npm_rule (Inr [npm_connection])] = pre @ op # post \<and>
     vouches op (snd (exempt_run pre ([], armed_example))) h ''104.16.0.35''"
proof (rule holes_need_a_rule)
  show "direct_entries armed_example = []" by (simp add: armed_example_def direct_entries_def)
  have "directExemptCandidates [npm_connection] npm_rule = [(''registry.npmjs.org'', ''104.16.0.35'')]"
    by (simp add: directExemptCandidates_def npm_connection_def npm_matches(1))
  then show "''104.16.0.35'' \<in> set (direct_entries (snd (exempt_run [Tick exempt_example npm_rule (Inr [npm_connection])] ([], armed_example))))"
    by (simp add: exempt_run_def direct_tick_def npm_matches(3) npm_exempted)
qed

end
