(* ===== verification/Shutdown.thy ===== *)
theory Shutdown
  imports Server_Ops Netip
begin

text \<open>
  cmd/down.go, utils/pid.go and the process sweep of core/singbox.go: which processes are mole's, stopping
  them, and the command that claims success only after it has looked. The process table, the clock,
  signals, and the restoring of the host's state are functions of a world; so is the text that ps and
  pgrep print, which is read here.
\<close>

section \<open>Processes\<close>

text \<open>The pid file: missing, JSON of the struct, or any other text.\<close>

datatype pid_file = NoPidFile string | PidJson int string | PidRaw string

record PIDInfo =
  PID :: int
  Exe :: string

text \<open>
  What the commands see and do: a signal 0 that arrives, ps of one process (found, its command name, its
  owner), pgrep, the full process list, the process itself, the two signals, a pause of a tenth of a
  second, the clock, the pid file, the engine recorded in state.json, the configuration's path, and
  the host state: whether the kill switch is loaded, disarming it, DNS, the network stack and the files.
\<close>

record 'w down_env =
  dn_signal0 :: "int \<Rightarrow> 'w \<Rightarrow> bool"
  dn_listed :: "int \<Rightarrow> 'w \<Rightarrow> bool"
  dn_comm :: "int \<Rightarrow> 'w \<Rightarrow> string option"
  dn_uid :: "int \<Rightarrow> 'w \<Rightarrow> string option"
  dn_pgrep :: "'w \<Rightarrow> string option"
  dn_ps :: "'w \<Rightarrow> string option"
  dn_self :: int
  dn_term :: "int \<Rightarrow> 'w \<Rightarrow> 'w"
  dn_kill :: "int \<Rightarrow> 'w \<Rightarrow> 'w"
  dn_pause :: "'w \<Rightarrow> 'w"
  dn_now :: "'w \<Rightarrow> go_time"
  dn_pid_file :: "'w \<Rightarrow> pid_file"
  dn_state_pid :: "'w \<Rightarrow> int option"
  dn_config :: string
  dn_unix :: bool
  dn_armed :: "'w \<Rightarrow> bool"
  dn_disarm :: "'w \<Rightarrow> 'w"
  dn_dns :: "'w \<Rightarrow> go_error \<times> 'w"
  dn_network :: "'w \<Rightarrow> 'w"
  dn_remove_pid :: "'w \<Rightarrow> 'w"
  dn_remove_state :: "'w \<Rightarrow> 'w"

definition readPIDInfo :: "pid_file \<Rightarrow> string + PIDInfo" where
  "readPIDInfo f =
     (case f of
        NoPidFile e \<Rightarrow> Inl e
      | PidJson pid exe \<Rightarrow> if pid > 0 then Inr \<lparr>PID = pid, Exe = exe\<rparr> else Inl ''invalid syntax''
      | PidRaw text \<Rightarrow>
          (case atoi (trim_space text) of None \<Rightarrow> Inl ''invalid syntax'' | Some pid \<Rightarrow> Inr \<lparr>PID = pid, Exe = []\<rparr>))"

definition ReadPID :: "pid_file \<Rightarrow> string + int" where
  "ReadPID f = (case readPIDInfo f of Inl e \<Rightarrow> Inl e | Inr i \<Rightarrow> Inr (PID i))"

definition IsAlive :: "'w down_env \<Rightarrow> int \<Rightarrow> 'w \<Rightarrow> bool" where
  "IsAlive e pid w = (pid > 0 \<and> (dn_signal0 e pid w \<or> dn_listed e pid w))"

text \<open>filepath.Base.\<close>

definition path_base :: "string \<Rightarrow> string" where
  "path_base p =
     (if p = [] then ''.''
      else let b = rev (takeWhile (\<lambda>c. c \<noteq> CHR ''/'') (dropWhile (\<lambda>c. c = CHR ''/'') (rev p)))
           in if b = [] then ''/'' else b)"

definition processMatchesExe :: "'w down_env \<Rightarrow> int \<Rightarrow> string \<Rightarrow> 'w \<Rightarrow> bool" where
  "processMatchesExe e pid expected w =
     (case dn_comm e pid w of
        None \<Rightarrow> True
      | Some out \<Rightarrow>
          let actual = trim_space out in
          if actual = [] then True
          else str_contains actual (path_base expected) \<or> path_base actual = path_base expected)"

definition IsRunning :: "'w down_env \<Rightarrow> int \<Rightarrow> 'w \<Rightarrow> bool" where
  "IsRunning e pid w =
     (if \<not> IsAlive e pid w then False
      else case readPIDInfo (dn_pid_file e w) of
        Inl _ \<Rightarrow> True
      | Inr i \<Rightarrow> if PID i \<noteq> pid then True else if Exe i = [] then True else processMatchesExe e pid (Exe i) w)"

definition CheckAlreadyRunning :: "'w down_env \<Rightarrow> 'w \<Rightarrow> go_error \<times> 'w" where
  "CheckAlreadyRunning e w =
     (case ReadPID (dn_pid_file e w) of
        Inl _ \<Rightarrow> (None, w)
      | Inr pid \<Rightarrow>
          if IsRunning e pid w
          then (Some (''mole already running (pid='' @ itoa pid @ ''). Use '' @ [CHR 0x27] @ ''mole down'' @ [CHR 0x27] @ '' to stop it first''), w)
          else (None, dn_remove_pid e w))"

section \<open>Finding mole's processes\<close>

text \<open>strings.Fields.\<close>

fun words_loop :: "string \<Rightarrow> string \<Rightarrow> string list" where
  "words_loop w [] = (if w = [] then [] else [rev w])"
| "words_loop w (c # cs) =
     (if is_space c then (if w = [] then words_loop [] cs else rev w # words_loop [] cs) else words_loop (c # w) cs)"

definition str_fields :: "string \<Rightarrow> string list" where
  "str_fields s = words_loop [] s"

definition pgrepAll :: "'w down_env \<Rightarrow> 'w \<Rightarrow> int list" where
  "pgrepAll e w =
     (case dn_pgrep e w of
        None \<Rightarrow> []
      | Some out \<Rightarrow>
          filter (\<lambda>pid. pid > 0 \<and> pid \<noteq> dn_self e)
            (List.map_filter (\<lambda>l. atoi (trim_space l)) (split_on (CHR 0x0A) (trim_space out))))"

fun spaced :: "string list \<Rightarrow> string" where
  "spaced [] = []"
| "spaced [x] = x"
| "spaced (x # xs) = x @ '' '' @ spaced xs"

text \<open>One line of ps: the process if it is an engine with the configuration.\<close>

definition scan_line :: "'w down_env \<Rightarrow> bool \<Rightarrow> string \<Rightarrow> int option" where
  "scan_line e orphansOnly line =
     (case str_fields (trim_space line) of
        f1 # f2 # f3 # fs \<Rightarrow>
          (case (atoi f1, atoi f2) of
             (Some pid, Some ppid) \<Rightarrow>
               if pid = dn_self e then None
               else if orphansOnly \<and> ppid \<noteq> 1 then None
               else
                 let cmd = spaced (f3 # fs) in
                 if str_contains cmd ''sing-box'' \<and> str_contains cmd (dn_config e) then Some pid else None
           | _ \<Rightarrow> None)
      | _ \<Rightarrow> None)"

definition scanSingboxByPS :: "'w down_env \<Rightarrow> bool \<Rightarrow> 'w \<Rightarrow> int list" where
  "scanSingboxByPS e orphansOnly w =
     (case dn_ps e w of None \<Rightarrow> [] | Some out \<Rightarrow> List.map_filter (scan_line e orphansOnly) (split_on (CHR 0x0A) out))"

text \<open>The pids in a map, sorted.\<close>

definition sorted_pids :: "int list \<Rightarrow> int list" where
  "sorted_pids ps = sort (remdups ps)"

definition collectMoleDaemons :: "'w down_env \<Rightarrow> 'w \<Rightarrow> int list" where
  "collectMoleDaemons e w =
     (let recorded = (case ReadPID (dn_pid_file e w) of Inl _ \<Rightarrow> [] | Inr pid \<Rightarrow> if IsRunning e pid w then [pid] else [])
      in sorted_pids (filter (\<lambda>p. p > 0 \<and> IsAlive e p w) (recorded @ pgrepAll e w)))"

definition collectOurSingboxes :: "'w down_env \<Rightarrow> 'w \<Rightarrow> int list" where
  "collectOurSingboxes e w =
     sorted_pids
       (filter (\<lambda>p. p > 0 \<and> IsAlive e p w)
         (scanSingboxByPS e False w @ (case dn_state_pid e w of Some p \<Rightarrow> [p] | None \<Rightarrow> [])))"

definition isRootPID :: "'w down_env \<Rightarrow> 'w \<Rightarrow> int \<Rightarrow> bool" where
  "isRootPID e w pid =
     (case dn_uid e pid w of
        None \<Rightarrow> True
      | Some out \<Rightarrow> (case atoi (trim_space out) of None \<Rightarrow> True | Some uid \<Rightarrow> uid = 0))"

definition needsRoot :: "'w down_env \<Rightarrow> 'w \<Rightarrow> int list list \<Rightarrow> bool" where
  "needsRoot e w groups = list_ex (list_ex (isRootPID e w)) groups"

section \<open>Stopping them\<close>

text \<open>The wait for a group of processes; fuel bounds its polls, and None is running out of it.\<close>

fun waitAllExit :: "'w down_env \<Rightarrow> nat \<Rightarrow> int list \<Rightarrow> go_time \<Rightarrow> 'w \<Rightarrow> 'w option" where
  "waitAllExit e 0 pids deadline w = None"
| "waitAllExit e (Suc fuel) pids deadline w =
     (if dn_now e w \<ge> deadline then Some w
      else if \<not> list_ex (\<lambda>p. IsAlive e p w) pids then Some w
      else waitAllExit e fuel pids deadline (dn_pause e w))"

text \<open>The polls of one engine after its SIGTERM.\<close>

fun poll_exit :: "'w down_env \<Rightarrow> nat \<Rightarrow> int \<Rightarrow> 'w \<Rightarrow> 'w" where
  "poll_exit e 0 pid w = w"
| "poll_exit e (Suc n) pid w = (if IsAlive e pid w then poll_exit e n pid (dn_pause e w) else w)"

definition killSingboxPID :: "'w down_env \<Rightarrow> int \<Rightarrow> 'w \<Rightarrow> bool \<times> 'w" where
  "killSingboxPID e pid w =
     (if \<not> IsAlive e pid w then (False, w)
      else
        let w = poll_exit e 30 pid (dn_term e pid w)
        in (True, if IsAlive e pid w then dn_kill e pid w else w))"

definition KillOrphanedSingboxes :: "'w down_env \<Rightarrow> 'w \<Rightarrow> 'w" where
  "KillOrphanedSingboxes e w =
     (let (killed, w) =
        (case dn_state_pid e w of
           Some p \<Rightarrow> if p > 0 then (case killSingboxPID e p w of (k, w) \<Rightarrow> (if k then [p] else [], w)) else ([], w)
         | None \<Rightarrow> ([], w))
      in fold (\<lambda>pid w. if pid \<in> set killed then w else snd (killSingboxPID e pid w)) (scanSingboxByPS e True w) w)"

text \<open>Disarming, DNS, the network stack and the two files.\<close>

definition restore_host :: "'w down_env \<Rightarrow> 'w \<Rightarrow> go_error \<times> 'w" where
  "restore_host e w = (case dn_dns e w of (err, w) \<Rightarrow> (err, dn_remove_state e (dn_remove_pid e (dn_network e w))))"

definition dns_result :: "go_error \<Rightarrow> go_error" where
  "dns_result err = (case err of None \<Rightarrow> None | Some e \<Rightarrow> Some (''VPN stopped but DNS restoration incomplete: '' @ e))"

text \<open>Ten seconds of polls and three more, a tenth of a second apart.\<close>

definition term_fuel :: nat where "term_fuel = 101"
definition kill_fuel :: nat where "kill_fuel = 31"

definition stop_daemons :: "'w down_env \<Rightarrow> int list \<Rightarrow> 'w \<Rightarrow> 'w option" where
  "stop_daemons e daemons w =
     (let w = fold (dn_term e) daemons w in
      case waitAllExit e term_fuel daemons (dn_now e w + 10 * go_second) w of
        None \<Rightarrow> None
      | Some w \<Rightarrow>
          let w = fold (\<lambda>p w. if IsAlive e p w then dn_kill e p w else w) daemons w in
          waitAllExit e kill_fuel daemons (dn_now e w + 3 * go_second) w)"

text \<open>Either the command is done, with its error, or it has to run again as root.\<close>

datatype down_result = Done go_error | ReExec | OutOfFuel

definition pid_list :: "int list \<Rightarrow> string" where
  "pid_list ps = ''['' @ spaced (map itoa ps) @ '']''"

definition leftover_text :: "int list \<Rightarrow> int list \<Rightarrow> string" where
  "leftover_text ds ss =
     ''VPN not fully stopped: '' @
     (if ds = [] then [] else ''mole daemon pids='' @ pid_list ds) @ (if ds \<noteq> [] \<and> ss \<noteq> [] then '', '' else []) @
     (if ss = [] then [] else ''sing-box pids='' @ pid_list ss) @ '' (try `sudo kill -9 <pid>` and re-run)''"

text \<open>What follows once the daemons are gone: the engines, the host's state, and a second look.\<close>

definition sweep_and_verify :: "'w down_env \<Rightarrow> 'w \<Rightarrow> go_error \<times> 'w" where
  "sweep_and_verify e w =
     (let w = fold (\<lambda>p w. snd (killSingboxPID e p w)) (scanSingboxByPS e False w) w;
          w = KillOrphanedSingboxes e w
      in case restore_host e (dn_disarm e w) of
           (err, w) \<Rightarrow>
             let ds = collectMoleDaemons e w; ss = collectOurSingboxes e w in
             if ds \<noteq> [] \<or> ss \<noteq> [] then (Some (leftover_text ds ss), w) else (dns_result err, w))"

text \<open>From the collection of the processes to the verdict.\<close>

definition stop_vpn :: "'w down_env \<Rightarrow> bool \<Rightarrow> 'w \<Rightarrow> down_result \<times> 'w" where
  "stop_vpn e root w =
     (let daemons = collectMoleDaemons e w; singboxes = collectOurSingboxes e w in
      if daemons = [] \<and> singboxes = [] then
        let w = (if dn_armed e w then dn_disarm e w else w) in
        (case restore_host e w of (err, w) \<Rightarrow> (Done (dns_result err), w))
      else if needsRoot e w [daemons, singboxes] \<and> dn_unix e \<and> \<not> root then (ReExec, w)
      else case stop_daemons e daemons w of
        None \<Rightarrow> (OutOfFuel, w)
      | Some w \<Rightarrow> (case sweep_and_verify e w of (err, w) \<Rightarrow> (Done err, w)))"

section \<open>The command\<close>

text \<open>The line about a destroy that is still owed; the two formats of a time are parameters.\<close>

definition owedLidDestroyMsg :: "(go_time \<Rightarrow> string) \<Rightarrow> (go_time \<Rightarrow> string) \<Rightarrow> 'w host \<Rightarrow> string" where
  "owedLidDestroyMsg clock_text date_text h =
     (case debt_of h of
        None \<Rightarrow> []
      | Some d \<Rightarrow>
          let who = (if DebtServer d = [] then ''the server'' else DebtServer d) in
          (case DebtState d of
             LidDestroyCancelled \<Rightarrow>
               ''A destroy owed since '' @ clock_text (Since d) @ '' was abandoned when the lid opened and '' @ who @ '' is STILL BILLING''
           | _ \<Rightarrow>
               ''A lid close at '' @ date_text (Since d) @ '' failed to destroy '' @ who @ '' ('' @ itoa (int (Attempts d)) @
               '' attempts) and it is STILL BILLING''))"

definition destroyActiveServerForDown :: "'w api \<Rightarrow> file_env \<Rightarrow> 'w host \<Rightarrow> destroy_error option \<times> 'w host" where
  "destroyActiveServerForDown a f h =
     (case readServersAt (h_store h) of
        Inl err \<Rightarrow> (Some (DestroyFailed (''read local servers: '' @ err)), h)
      | Inr servers \<Rightarrow>
          (case find sv_Active servers of
             Some s \<Rightarrow> destroyServerWithin a f (sv_Name s) False apiBudget h
           | None \<Rightarrow> (None, h)))"

definition destroy_text :: "destroy_error \<Rightarrow> string" where
  "destroy_text d = (case d of DestroyFailed e \<Rightarrow> e | NothingToDestroy \<Rightarrow> ''nothing to destroy'')"

definition runDown :: "'w api \<Rightarrow> file_env \<Rightarrow> 'w down_env \<Rightarrow> bool \<Rightarrow> bool \<Rightarrow> 'w host \<Rightarrow> down_result \<times> 'w host" where
  "runDown a f e root destroy h =
     (case (if destroy then destroyActiveServerForDown a f h else (None, h)) of
        (Some d, h) \<Rightarrow>
          (Done (Some (''destroy on down: '' @ destroy_text d @ '' (the VPN was NOT stopped; fix or re-run without --destroy)'')), h)
      | (None, h) \<Rightarrow> (case stop_vpn e root (h_world h) of (r, w) \<Rightarrow> (r, h\<lparr>h_world := w\<rparr>)))"

text \<open>The arguments of the run under sudo.\<close>

definition sudo_args :: "string list \<Rightarrow> string list" where
  "sudo_args args = filter (\<lambda>a. a \<noteq> ''--destroy'') args"

text \<open>
  The whole command: the reading of the flag from the arguments is the flag library's, and a
  parameter. A second pass runs as root; its failure is the exit status of sudo.
\<close>

definition mole_down ::
  "(string list \<Rightarrow> bool) \<Rightarrow> 'w api \<Rightarrow> file_env \<Rightarrow> 'w down_env \<Rightarrow> bool \<Rightarrow> string list \<Rightarrow> 'w host \<Rightarrow> down_result \<times> 'w host" where
  "mole_down flag a f e root args h =
     (case runDown a f e root (flag args) h of
        (ReExec, h) \<Rightarrow>
          (case runDown a f e True (flag (sudo_args args)) h of
             (Done None, h) \<Rightarrow> (Done None, h)
           | (Done (Some _), h) \<Rightarrow> (Done (Some ''exit status 1''), h)
           | r \<Rightarrow> r)
      | r \<Rightarrow> r)"

section \<open>Lemmas\<close>

lemma wait_ends:
  assumes "\<And>w. dn_now e w + 100 * go_ms \<le> dn_now e (dn_pause e w)" and "deadline \<le> dn_now e w + int fuel * (100 * go_ms)"
  shows "\<exists>w'. waitAllExit e (Suc fuel) pids deadline w = Some w' \<and> (deadline \<le> dn_now e w' \<or> \<not> list_ex (\<lambda>p. IsAlive e p w') pids)"
  using assms(2)
proof (induction fuel arbitrary: w)
  case 0
  then show ?case by simp
next
  case (Suc fuel)
  have "deadline \<le> dn_now e (dn_pause e w) + int fuel * (100 * go_ms)"
    using Suc.prems assms(1) [of w] by simp
  from Suc.IH [OF this] show ?case by (cases "deadline \<le> dn_now e w \<or> \<not> list_ex (\<lambda>p. IsAlive e p w) pids") auto
qed

lemma stop_daemons_returns:
  assumes "\<And>w. dn_now e w + 100 * go_ms \<le> dn_now e (dn_pause e w)"
  shows "\<exists>w'. stop_daemons e daemons w = Some w'"
proof -
  have fuel: "term_fuel = Suc 100" "kill_fuel = Suc 30" by (simp_all add: term_fuel_def kill_fuel_def)
  let ?w1 = "fold (dn_term e) daemons w"
  have "\<exists>w'. waitAllExit e (Suc 100) daemons (dn_now e ?w1 + 10 * go_second) ?w1 = Some w' \<and>
      (dn_now e ?w1 + 10 * go_second \<le> dn_now e w' \<or> \<not> list_ex (\<lambda>p. IsAlive e p w') daemons)"
    by (rule wait_ends [OF assms]) simp
  then obtain w2 where w2: "waitAllExit e term_fuel daemons (dn_now e ?w1 + 10 * go_second) ?w1 = Some w2"
    unfolding fuel by blast
  let ?w3 = "fold (\<lambda>p w. if IsAlive e p w then dn_kill e p w else w) daemons w2"
  have "\<exists>w'. waitAllExit e (Suc 30) daemons (dn_now e ?w3 + 3 * go_second) ?w3 = Some w' \<and>
      (dn_now e ?w3 + 3 * go_second \<le> dn_now e w' \<or> \<not> list_ex (\<lambda>p. IsAlive e p w') daemons)"
    by (rule wait_ends [OF assms]) simp
  then obtain w4 where w4: "waitAllExit e kill_fuel daemons (dn_now e ?w3 + 3 * go_second) ?w3 = Some w4"
    unfolding fuel by blast
  show ?thesis using w2 w4 by (simp add: stop_daemons_def)
qed

lemma sorted_pids_set [simp]: "set (sorted_pids ps) = set ps"
  by (simp add: sorted_pids_def)

lemma map_filter_set: "set (List.map_filter f xs) = {y. \<exists>x \<in> set xs. f x = Some y}"
  by (induction xs) (auto simp: map_filter_simps split: option.splits)

lemma sweep_verdict:
  assumes "sweep_and_verify e w = (None, w')"
  shows "collectMoleDaemons e w' = [] \<and> collectOurSingboxes e w' = []"
proof -
  let ?w = "KillOrphanedSingboxes e (fold (\<lambda>p w. snd (killSingboxPID e p w)) (scanSingboxByPS e False w) w)"
  obtain err w3 where w3: "restore_host e (dn_disarm e ?w) = (err, w3)" by force
  have "sweep_and_verify e w =
      (if collectMoleDaemons e w3 \<noteq> [] \<or> collectOurSingboxes e w3 \<noteq> []
       then (Some (leftover_text (collectMoleDaemons e w3) (collectOurSingboxes e w3)), w3) else (dns_result err, w3))"
    by (simp only: sweep_and_verify_def Let_def w3 prod.case)
  with assms show ?thesis by (auto split: if_splits)
qed

lemma stop_cases:
  "stop_vpn e root w =
     (if collectMoleDaemons e w = [] \<and> collectOurSingboxes e w = []
      then (case restore_host e (if dn_armed e w then dn_disarm e w else w) of (err, w) \<Rightarrow> (Done (dns_result err), w))
      else if needsRoot e w [collectMoleDaemons e w, collectOurSingboxes e w] \<and> dn_unix e \<and> \<not> root then (ReExec, w)
      else case stop_daemons e (collectMoleDaemons e w) w of
        None \<Rightarrow> (OutOfFuel, w)
      | Some w \<Rightarrow> (case sweep_and_verify e w of (err, w) \<Rightarrow> (Done err, w)))"
  by (simp only: stop_vpn_def Let_def)

lemma stop_verdict:
  assumes "stop_vpn e root w = (Done None, w')"
  shows "(collectMoleDaemons e w = [] \<and> collectOurSingboxes e w = []) \<or> (collectMoleDaemons e w' = [] \<and> collectOurSingboxes e w' = [])"
proof (cases "(collectMoleDaemons e w = [] \<and> collectOurSingboxes e w = []) \<or>
    (needsRoot e w [collectMoleDaemons e w, collectOurSingboxes e w] \<and> dn_unix e \<and> \<not> root)")
  case True
  show ?thesis
  proof (rule ccontr)
    assume c: "\<not> ?thesis"
    then have A: "\<not> (collectMoleDaemons e w = [] \<and> collectOurSingboxes e w = [])" by blast
    with True have B: "needsRoot e w [collectMoleDaemons e w, collectOurSingboxes e w] \<and> dn_unix e \<and> \<not> root" by blast
    have "stop_vpn e root w = (ReExec, w)" by (simp only: stop_cases A B if_False if_True simp_thms)
    with assms show False by simp
  qed
next
  case False
  then have A: "\<not> (collectMoleDaemons e w = [] \<and> collectOurSingboxes e w = [])"
    and B: "\<not> (needsRoot e w [collectMoleDaemons e w, collectOurSingboxes e w] \<and> dn_unix e \<and> \<not> root)" by blast+
  have run: "stop_vpn e root w = (case stop_daemons e (collectMoleDaemons e w) w of
        None \<Rightarrow> (OutOfFuel, w)
      | Some w \<Rightarrow> (case sweep_and_verify e w of (err, w) \<Rightarrow> (Done err, w)))"
    by (simp only: stop_cases A B if_False)
  show ?thesis
  proof (cases "stop_daemons e (collectMoleDaemons e w) w")
    case None
    then show ?thesis using assms run by simp
  next
    case (Some w1)
    obtain err w2 where "sweep_and_verify e w1 = (err, w2)" by force
    with assms run Some have "sweep_and_verify e w1 = (None, w')" by simp
    from sweep_verdict [OF this] show ?thesis by blast
  qed
qed

lemma stop_returns:
  assumes "\<And>w. dn_now e w + 100 * go_ms \<le> dn_now e (dn_pause e w)"
  shows "fst (stop_vpn e root w) \<noteq> OutOfFuel"
proof -
  obtain w' where "stop_daemons e (collectMoleDaemons e w) w = Some w'" using stop_daemons_returns [OF assms] by blast
  moreover obtain err w2 where "sweep_and_verify e w' = (err, w2)" by force
  moreover obtain err' w3 where "restore_host e (if dn_armed e w then dn_disarm e w else w) = (err', w3)" by force
  ultimately have "stop_vpn e root w =
      (if collectMoleDaemons e w = [] \<and> collectOurSingboxes e w = [] then (Done (dns_result err'), w3)
       else if needsRoot e w [collectMoleDaemons e w, collectOurSingboxes e w] \<and> dn_unix e \<and> \<not> root then (ReExec, w)
       else (Done err, w2))"
    by (simp only: stop_cases prod.case option.case)
  then show ?thesis by (simp only: fst_conv down_result.distinct split: if_split) simp
qed

lemma down_done:
  assumes "runDown a f e root destroy h = (Done None, h')"
  shows "stop_vpn e root (h_world (snd (if destroy then destroyActiveServerForDown a f h else (None, h)))) = (Done None, h_world h')"
proof -
  obtain d h1 where d: "(if destroy then destroyActiveServerForDown a f h else (None, h)) = (d, h1)" by force
  with assms show ?thesis by (cases d) (auto simp: runDown_def split: prod.splits)
qed

text \<open>Destroying the first server of the list.\<close>

lemma destroy_first:
  assumes "h_store h = Stored (s # ss)" "sv_Active s" and "destroyActiveServerForDown a f h = (None, h')"
  shows "h_store h' = Stored (case ss of [] \<Rightarrow> [] | r # rs \<Rightarrow> r\<lparr>sv_Active := True\<rparr> # rs)"
proof -
  have read: "readServersAt (h_store h) = Inr (s # ss)" using assms(1) by (simp add: readServersAt_def)
  then have "destroyServerWithin a f (sv_Name s) False apiBudget h = (None, h')"
    using assms(2,3) by (simp add: destroyActiveServerForDown_def)
  from destroy_forgets [OF read _ this, of 0] obtain servers' where
    "remove_server (sv_InstanceID s) (sv_Name s) (s # ss) = Inr servers'" "h_store h' = Stored servers'"
    by auto
  moreover have "names_server (sv_InstanceID s) (sv_Name s) s" by (simp add: names_server_def)
  ultimately show ?thesis using assms(2) by (simp add: remove_server_def)
qed

lemma down_store:
  assumes "runDown a f e root destroy h = (r, h')" and "\<And>x. r \<noteq> Done (Some x)"
  shows "\<exists>h1. (if destroy then destroyActiveServerForDown a f h else (None, h)) = (None, h1) \<and> h_store h' = h_store h1"
proof -
  obtain d h1 where d: "(if destroy then destroyActiveServerForDown a f h else (None, h)) = (d, h1)" by force
  with assms show ?thesis by (cases d) (auto simp: runDown_def split: prod.splits)
qed

section \<open>Properties\<close>

text \<open>C3: The command only says that the VPN is stopped when it has looked. If it ends without an error,
  either no daemon and no engine was there when it looked first, or none was there when it looked
  again after stopping them and restoring the host.\<close>
theorem down_success_is_verified:
  assumes "runDown a f e root destroy h = (Done None, h')"
  shows "\<exists>w. (w = h_world (snd (if destroy then destroyActiveServerForDown a f h else (None, h))) \<or> w = h_world h') \<and>
    collectMoleDaemons e w = [] \<and> collectOurSingboxes e w = []"
  using stop_verdict [OF down_done [OF assms]] by blast

text \<open>C39: Stopping ends. If a pause takes its tenth of a second, the waits of ten and three seconds end
  within the polls they are given, however the processes behave.\<close>
theorem down_always_returns:
  assumes "\<And>w. dn_now e w + 100 * go_ms \<le> dn_now e (dn_pause e w)"
  shows "fst (runDown a f e root destroy h) \<noteq> OutOfFuel"
proof -
  obtain d h1 where d: "(if destroy then destroyActiveServerForDown a f h else (None, h)) = (d, h1)" by force
  show ?thesis
  proof (cases d)
    case None
    obtain r w where r: "stop_vpn e root (h_world h1) = (r, w)" by force
    have "fst (stop_vpn e root (h_world h1)) \<noteq> OutOfFuel" by (rule stop_returns [OF assms])
    with d None r show ?thesis by (simp add: runDown_def)
  next
    case (Some x)
    with d show ?thesis by (simp add: runDown_def)
  qed
qed

text \<open>A stranger is not taken for the daemon. A process that is to be stopped as a daemon is alive, and
  either its command line is the daemon's or the pid file names it and nothing it shows contradicts
  the recorded program; a stale pid that another program has been given is left alone.\<close>
theorem daemons_are_identified:
  assumes "pid \<in> set (collectMoleDaemons e w)"
  shows "IsAlive e pid w \<and>
    (pid \<in> set (pgrepAll e w) \<or>
     (\<exists>i. readPIDInfo (dn_pid_file e w) = Inr i \<and> PID i = pid \<and> (Exe i = [] \<or> processMatchesExe e pid (Exe i) w)))"
proof -
  have "IsAlive e pid w" and src: "pid \<in> set (pgrepAll e w) \<or> (ReadPID (dn_pid_file e w) = Inr pid \<and> IsRunning e pid w)"
    using assms by (auto simp: collectMoleDaemons_def Let_def split: sum.splits if_splits)
  moreover have "\<exists>i. readPIDInfo (dn_pid_file e w) = Inr i \<and> PID i = pid \<and> (Exe i = [] \<or> processMatchesExe e pid (Exe i) w)"
    if "ReadPID (dn_pid_file e w) = Inr pid" "IsRunning e pid w"
    using that by (auto simp: ReadPID_def IsRunning_def split: sum.splits if_splits)
  ultimately show ?thesis by blast
qed

text \<open>A recorded engine is not identified. Where nothing on the process list is an engine of mole's, the
  sweep before a start still signals the process that state.json names, whatever program has that
  number by now.\<close>
theorem recorded_engine_not_identified:
  assumes "dn_state_pid e w = Some pid" "IsAlive e pid w" and "\<And>w. scanSingboxByPS e True w = []"
  shows "KillOrphanedSingboxes e w =
    (let w' = poll_exit e 30 pid (dn_term e pid w) in if IsAlive e pid w' then dn_kill e pid w' else w')"
proof -
  have "pid > 0" using assms(2) by (simp add: IsAlive_def)
  then show ?thesis using assms by (simp add: KillOrphanedSingboxes_def killSingboxPID_def Let_def)
qed

text \<open>The sudo pass repeats the destroy when the flag is spelled with a value. If the second pass still
  reads the flag from the arguments it is given, a successful run has destroyed the active server and
  the one that was promoted in its place; if it does not, only the active one.\<close>
theorem spelled_flag_destroys_twice:
  assumes "h_store h = Stored (s1 # s2 # ss)" "sv_Active s1" and "flag args"
    and "runDown a f e False True h = (ReExec, h1)" "mole_down flag a f e False args h = (Done None, h2)"
  shows "h_store h2 = Stored (if flag (sudo_args args) then (case ss of [] \<Rightarrow> [] | r # rs \<Rightarrow> r\<lparr>sv_Active := True\<rparr> # rs)
    else s2\<lparr>sv_Active := True\<rparr> # ss)"
proof -
  obtain h0 where h0: "destroyActiveServerForDown a f h = (None, h0)" "h_store h1 = h_store h0"
    using down_store [OF assms(4)] by auto
  have first: "h_store h1 = Stored (s2\<lparr>sv_Active := True\<rparr> # ss)" using destroy_first [OF assms(1,2) h0(1)] h0(2) by simp
  obtain r h3 where second: "runDown a f e True (flag (sudo_args args)) h1 = (r, h3)" by force
  have "r = Done None" "h3 = h2"
    using assms(3-5) second by (auto simp: mole_down_def split: down_result.splits option.splits)
  with second have second: "runDown a f e True (flag (sudo_args args)) h1 = (Done None, h2)" by simp
  then obtain h4 where h4: "(if flag (sudo_args args) then destroyActiveServerForDown a f h1 else (None, h1)) = (None, h4)"
      "h_store h2 = h_store h4"
    using down_store [OF second] by auto
  show ?thesis
  proof (cases "flag (sudo_args args)")
    case True
    with h4 have "destroyActiveServerForDown a f h1 = (None, h4)" by simp
    from destroy_first [OF first _ this] h4(2) True show ?thesis by simp
  next
    case False
    with h4 first show ?thesis by simp
  qed
qed

section \<open>A sample machine\<close>

text \<open>One daemon that ends when it is asked to, on the world of the sample provider.\<close>

definition sample_down :: "sample_world down_env" where
  "sample_down =
     \<lparr>dn_signal0 = (\<lambda>p w. p = 42 \<and> (''TERM'', []) \<notin> set (snd w)), dn_listed = (\<lambda>_ _. False), dn_comm = (\<lambda>_ _. None),
      dn_uid = (\<lambda>_ _. Some ''0''), dn_pgrep = (\<lambda>_. Some ''42''), dn_ps = (\<lambda>_. None), dn_self = 7,
      dn_term = (\<lambda>_ w. (fst w, snd w @ [(''TERM'', [])])), dn_kill = (\<lambda>_ w. (fst w, snd w @ [(''KILL'', [])])),
      dn_pause = (\<lambda>w. (fst w + 100 * go_ms, snd w)), dn_now = fst, dn_pid_file = (\<lambda>_. NoPidFile ''no such file''),
      dn_state_pid = (\<lambda>_. None), dn_config = ''/Users/me/.mole/singbox.json'', dn_unix = True, dn_armed = (\<lambda>_. False),
      dn_disarm = (\<lambda>w. w), dn_dns = (\<lambda>w. (None, w)), dn_network = (\<lambda>w. w), dn_remove_pid = (\<lambda>w. w), dn_remove_state = (\<lambda>w. w)\<rparr>"

lemma sample_daemons:
  "collectMoleDaemons sample_down w = (if (''TERM'', []) \<in> set (snd w) then [] else [42])" "collectOurSingboxes sample_down w = []"
proof -
  have p: "pgrepAll sample_down w = [42]"
    by (simp add: pgrepAll_def sample_down_def trim_space_def is_space_def atoi_def digit_value_def map_filter_simps)
  have "IsAlive sample_down 42 w = ((''TERM'', []) \<notin> set (snd w))" by (simp add: IsAlive_def sample_down_def)
  moreover have "ReadPID (dn_pid_file sample_down w) = Inl ''no such file''" by (simp add: ReadPID_def readPIDInfo_def sample_down_def)
  ultimately show "collectMoleDaemons sample_down w = (if (''TERM'', []) \<in> set (snd w) then [] else [42])"
    using p by (simp add: collectMoleDaemons_def sorted_pids_def)
  show "collectOurSingboxes sample_down w = []"
    by (simp add: collectOurSingboxes_def scanSingboxByPS_def sample_down_def sorted_pids_def)
qed

lemma sample_sweep: "(''TERM'', []) \<in> set (snd w) \<Longrightarrow> sweep_and_verify sample_down w = (None, w)"
proof -
  assume t: "(''TERM'', []) \<in> set (snd w)"
  have "scanSingboxByPS sample_down o' w' = []" for o' w' by (simp add: scanSingboxByPS_def sample_down_def)
  moreover have "dn_state_pid sample_down w' = None" for w' by (simp add: sample_down_def)
  moreover have "restore_host sample_down (dn_disarm sample_down w') = (None, w')" for w' by (simp add: restore_host_def sample_down_def)
  ultimately show ?thesis
    using t by (simp add: sweep_and_verify_def KillOrphanedSingboxes_def sample_daemons dns_result_def Let_def)
qed

lemma sample_stop_root:
  assumes "(''TERM'', []) \<notin> set (snd w)"
  shows "stop_vpn sample_down True w = (Done None, (fst w, snd w @ [(''TERM'', [])]))"
proof -
  let ?w = "(fst w, snd w @ [(''TERM'', [])])"
  have f: "term_fuel = Suc 100" "kill_fuel = Suc 30" by (simp_all add: term_fuel_def kill_fuel_def)
  have dead: "\<not> IsAlive sample_down 42 ?w" by (simp add: IsAlive_def sample_down_def)
  have sent: "dn_term sample_down 42 w = ?w" by (simp add: sample_down_def)
  have gone: "waitAllExit sample_down (Suc n) [42] d ?w = Some ?w" for n d using dead by simp
  have "fold (dn_term sample_down) [42] w = ?w" "fold (\<lambda>p w. if IsAlive sample_down p w then dn_kill sample_down p w else w) [42] ?w = ?w"
    using dead sent by simp_all
  then have "stop_daemons sample_down [42] w = Some ?w"
    by (simp only: stop_daemons_def f gone Let_def option.case)
  then show ?thesis using assms sample_sweep [of ?w] by (simp add: stop_cases sample_daemons)
qed

lemma sample_stop_user: "(''TERM'', []) \<notin> set (snd w) \<Longrightarrow> stop_vpn sample_down False w = (ReExec, w)"
proof -
  assume t: "(''TERM'', []) \<notin> set (snd w)"
  have "isRootPID sample_down w 42"
    by (simp add: isRootPID_def sample_down_def trim_space_def is_space_def atoi_def digit_value_def)
  moreover have "dn_unix sample_down" by (simp add: sample_down_def)
  ultimately show ?thesis using t by (simp add: stop_cases sample_daemons needsRoot_def)
qed

lemma sample_destroy:
  assumes "h_store h = Stored (s # ss)" "sv_Active s" "sv_InstanceID s = i # is" "h_debt h = None"
  shows "\<exists>h'. destroyActiveServerForDown (provider (\<lambda>_ _. Status 404 [])) sample_files h = (None, h') \<and>
    h_world h' = (fst (h_world h) + 1, snd (h_world h) @ [(''DELETE'', ''/instances/'' @ i # is)]) \<and> h_debt h' = None"
proof -
  have budget: "0 < apiBudget" by (simp add: apiBudget_def)
  have call: "call_api (provider (\<lambda>_ _. Status 404 [])) apiBudget ''DELETE'' path w =
      (Inl (ServerError 404 []), (fst w + 1, snd w @ [(''DELETE'', path)]))" for path w
    using provider_call [of "\<lambda>_ _. Status 404 []" "''DELETE''" path apiBudget w] budget by simp
  have "names_server (i # is) (sv_Name s) s" using assms(3) by (simp add: names_server_def)
  then show ?thesis
    using assms
    by (simp add: destroyActiveServerForDown_def readServersAt_def destroyServerWithin_def host_call_def call IsServerNotFound_def Let_def)
      (simp add: drop_server_def removeRecordedServer_def updateServersAt_def sample_files_def readServersAt_def remove_server_def
        writePrivateJSON_def good_calls_def first_error_def debt_of_def Let_def)
qed

theorem down_success_is_verified_witness:
  "\<exists>h' w. runDown (provider (\<lambda>_ _. Status 404 [])) sample_files sample_down True False sample_host = (Done None, h') \<and>
     collectMoleDaemons sample_down w = []"
proof -
  have "stop_vpn sample_down True (h_world sample_host) = (Done None, (0, [(''TERM'', [])]))"
    using sample_stop_root [of "h_world sample_host"] by (simp add: sample_host_def)
  then have r: "runDown (provider (\<lambda>_ _. Status 404 [])) sample_files sample_down True False sample_host =
      (Done None, sample_host\<lparr>h_world := (0, [(''TERM'', [])])\<rparr>)"
    by (simp add: runDown_def)
  from down_success_is_verified [OF r] r show ?thesis by blast
qed

theorem down_always_returns_witness:
  "fst (runDown (provider (\<lambda>_ _. Status 404 [])) sample_files (sample_down\<lparr>dn_signal0 := \<lambda>p _. p = 42\<rparr>) True False sample_host) \<noteq> OutOfFuel"
  by (rule down_always_returns) (simp add: sample_down_def)

theorem daemons_are_identified_witness: "IsAlive sample_down 42 (0, [])"
  using daemons_are_identified [of 42 sample_down "(0, [])"] by (simp add: sample_daemons)

theorem recorded_engine_not_identified_witness:
  "KillOrphanedSingboxes (sample_down\<lparr>dn_state_pid := \<lambda>_. Some 42\<rparr>) (0, []) = (0, [(''TERM'', [])])"
proof -
  let ?e = "sample_down\<lparr>dn_state_pid := \<lambda>_. Some 42\<rparr>"
  have "dn_state_pid ?e (0, []) = Some 42" "IsAlive ?e 42 (0, [])" by (simp_all add: IsAlive_def sample_down_def)
  moreover have "scanSingboxByPS ?e True w = []" for w by (simp add: scanSingboxByPS_def sample_down_def)
  ultimately have k: "KillOrphanedSingboxes ?e (0, []) =
      (let w' = poll_exit ?e 30 42 (dn_term ?e 42 (0, [])) in if IsAlive ?e 42 w' then dn_kill ?e 42 w' else w')"
    by (rule recorded_engine_not_identified)
  have "dn_term ?e 42 (0, []) = (0, [(''TERM'', [])])" by (simp add: sample_down_def)
  moreover have dead: "\<not> IsAlive ?e 42 (0, [(''TERM'', [])])" by (simp add: IsAlive_def sample_down_def)
  moreover have "poll_exit ?e n 42 (0, [(''TERM'', [])]) = (0, [(''TERM'', [])])" for n using dead by (cases n) simp_all
  ultimately show ?thesis using k by (simp add: Let_def)
qed

theorem spelled_flag_destroys_twice_witness:
  "\<exists>h2. mole_down (\<lambda>args. ''--destroy'' \<in> set args \<or> ''--destroy=true'' \<in> set args) (provider (\<lambda>_ _. Status 404 [])) sample_files
     sample_down False [''down'', ''--destroy=true''] sample_host = (Done None, h2) \<and> h_store h2 = Stored []"
proof -
  let ?flag = "\<lambda>args :: string list. ''--destroy'' \<in> set args \<or> ''--destroy=true'' \<in> set args"
  let ?a = "provider (\<lambda>_ _. Status 404 [])"
  obtain s1 s2 where two: "two_servers = [s1, s2]" "sv_Active s1" "sv_InstanceID s1 = ''i1''" "sv_InstanceID s2 = ''i2''"
    by (simp add: two_servers_def zero_server_def)
  have host: "h_store sample_host = Stored [s1, s2]" "h_debt sample_host = None" "h_world sample_host = (0, [])"
    using two(1) by (simp_all add: sample_host_def)
  obtain h0 where h0: "destroyActiveServerForDown ?a sample_files sample_host = (None, h0)"
      "h_world h0 = (1, [(''DELETE'', ''/instances/i1'')])" "h_debt h0 = None"
    using sample_destroy [OF host(1) two(2,3) host(2)] host(3) by auto
  have st0: "h_store h0 = Stored [s2\<lparr>sv_Active := True\<rparr>]" using destroy_first [OF host(1) two(2) h0(1)] by simp
  have "stop_vpn sample_down False (h_world h0) = (ReExec, h_world h0)" by (rule sample_stop_user) (simp add: h0(2))
  then have first: "runDown ?a sample_files sample_down False True sample_host = (ReExec, h0)" by (simp add: runDown_def h0(1))
  obtain h4 where h4: "destroyActiveServerForDown ?a sample_files h0 = (None, h4)"
      "h_world h4 = (2, [(''DELETE'', ''/instances/i1''), (''DELETE'', ''/instances/i2'')])"
    using sample_destroy [OF st0 _ _ h0(3), of "CHR ''i''" "''2''"] two(4) h0(2) by auto
  have "stop_vpn sample_down True (h_world h4) = (Done None, (fst (h_world h4), snd (h_world h4) @ [(''TERM'', [])]))"
    by (rule sample_stop_root) (simp add: h4(2))
  then have "runDown ?a sample_files sample_down True True h0 =
      (Done None, h4\<lparr>h_world := (fst (h_world h4), snd (h_world h4) @ [(''TERM'', [])])\<rparr>)"
    by (simp add: runDown_def h4(1))
  then have run: "mole_down ?flag ?a sample_files sample_down False [''down'', ''--destroy=true''] sample_host =
      (Done None, h4\<lparr>h_world := (fst (h_world h4), snd (h_world h4) @ [(''TERM'', [])])\<rparr>)"
    using first by (simp add: mole_down_def sudo_args_def)
  from spelled_flag_destroys_twice [OF host(1) two(2) _ first run] run show ?thesis by (simp add: sudo_args_def)
qed

end
