(* ===== verification/Node_Verify.thy ===== *)
theory Node_Verify
  imports Server_Ops
begin

text \<open>
  cmd/nodecheck.go, cmd/nodeprobe.go, cmd/deploy_record.go and cmd/verify_server.go: waiting until every leg
  of a node has answered from outside the tunnel, the record of a deployment, and the verify command.
  Probes, the clock and the end of the context are functions of a world; a round's replies arrive in
  the order the environment gives.
\<close>

section \<open>Reports\<close>

definition probe_alive :: string where "probe_alive = ''alive''"
definition probe_refused :: string where "probe_refused = ''refused''"
definition probe_silent :: string where "probe_silent = ''silent''"
definition probe_error :: string where "probe_error = ''error''"
definition probe_no_link :: string where "probe_no_link = ''no-link''"

definition zero_report :: legReport where
  "zero_report = \<lparr>lr_Verdict = [], lr_RTT = 0, lr_Err = None, lr_Detail = []\<rparr>"

definition leg_ok :: "legReport \<Rightarrow> bool" where
  "leg_ok r = (lr_Verdict r = probe_alive)"

definition wantsLegs :: "Server \<Rightarrow> bool \<times> bool" where
  "wantsLegs srv = (\<not> isReality srv, isReality srv \<or> hasStandbyLeg srv)"

definition verificationStatus :: "Server \<Rightarrow> legReport \<Rightarrow> legReport \<Rightarrow> string" where
  "verificationStatus srv hy2 reality =
     (case wantsLegs srv of (h, r) \<Rightarrow>
        if (\<not> h \<or> leg_ok hy2) \<and> (\<not> r \<or> leg_ok reality) then ''ready''
        else if (h \<and> leg_ok hy2) \<or> (r \<and> leg_ok reality) then ''degraded''
        else ''unverified'')"

definition describeLeg :: "legReport \<Rightarrow> string" where
  "describeLeg r =
     (if lr_Verdict r = probe_alive then ''answers ('' @ itoa (go_div (lr_RTT r) go_ms) @ ''ms)''
      else if lr_Verdict r = probe_refused then ''refused '' @ em_dash @ '' the box is up, nothing is listening yet''
      else if lr_Verdict r = probe_silent then ''silent '' @ em_dash @ '' no answer yet''
      else case lr_Err r of Some e \<Rightarrow> lr_Verdict r @ '' ('' @ e @ '')'' | None \<Rightarrow> lr_Verdict r)"

definition portOf :: "string \<Rightarrow> string" where
  "portOf addr = (if CHR '':'' \<in> set addr then rev (takeWhile (\<lambda>c. c \<noteq> CHR '':'') (rev addr)) else addr)"

section \<open>Waiting for the legs\<close>

text \<open>
  What the wait sees: whether the context is over, its error, the time as text, the next reply of the
  pending probes (None if the context ends first) and the pause between rounds (True if the context
  ends in it). A reply is the number of a pending leg, taken modulo their count, and its report.
\<close>

record 'w verify_env =
  vf_over :: "'w \<Rightarrow> bool"
  vf_error :: "'w \<Rightarrow> string"
  vf_stamp :: "'w \<Rightarrow> string"
  vf_reply :: "string list \<Rightarrow> 'w \<Rightarrow> (nat \<times> legReport) option \<times> 'w"
  vf_pause :: "'w \<Rightarrow> bool \<times> 'w"

definition wanted_legs :: "Server \<Rightarrow> string list" where
  "wanted_legs srv =
     (case wantsLegs srv of (h, r) \<Rightarrow> (if h then [''hy2''] else []) @ (if r then [''reality''] else []))"

definition set_leg :: "string \<Rightarrow> legReport \<Rightarrow> nodeVerification \<Rightarrow> nodeVerification" where
  "set_leg leg report res = (if leg = ''reality'' then res\<lparr>nv_Reality := report\<rparr> else res\<lparr>nv_HY2 := report\<rparr>)"

text \<open>The replies of one round: whether the context ended before the last of them.\<close>

fun collect_replies ::
  "'w verify_env \<Rightarrow> nat \<Rightarrow> string list \<Rightarrow> nodeVerification \<Rightarrow> 'w \<Rightarrow> bool \<times> nodeVerification \<times> 'w" where
  "collect_replies e 0 pending res w = (False, res, w)"
| "collect_replies e (Suc n) pending res w =
     (if pending = [] then (False, res, w)
      else case vf_reply e pending w of
        (None, w) \<Rightarrow> (True, res, w)
      | (Some (k, report), w) \<Rightarrow>
          let i = k mod length pending in
          collect_replies e n (take i pending @ drop (Suc i) pending) (set_leg (pending ! i) report res) w)"

definition update_result :: "'w verify_env \<Rightarrow> Server \<Rightarrow> 'w \<Rightarrow> nodeVerification \<Rightarrow> nodeVerification" where
  "update_result e srv w res =
     res\<lparr>nv_Status := verificationStatus srv (nv_HY2 res) (nv_Reality res), nv_CheckedAt := vf_stamp e w\<rparr>"

definition context_error :: "'w verify_env \<Rightarrow> Server \<Rightarrow> nodeVerification \<Rightarrow> 'w \<Rightarrow> string" where
  "context_error e srv res w = ''node '' @ sv_Name srv @ '': '' @ nv_Status res @ '': '' @ vf_error e w"

text \<open>The rounds; fuel bounds them, and None is running out of it.\<close>

fun verify_rounds ::
  "'w verify_env \<Rightarrow> nat \<Rightarrow> Server \<Rightarrow> nodeVerification \<Rightarrow> 'w \<Rightarrow> ((nodeVerification \<times> go_error) \<times> 'w) option" where
  "verify_rounds e 0 srv res w = None"
| "verify_rounds e (Suc fuel) srv res w =
     (if vf_over e w then
        (let res = update_result e srv w res in Some ((res, Some (context_error e srv res w)), w))
      else
        (case collect_replies e (length (wanted_legs srv)) (wanted_legs srv) res w of
           (True, res, w) \<Rightarrow>
             (let res = update_result e srv w res in Some ((res, Some (context_error e srv res w)), w))
         | (False, res, w) \<Rightarrow>
             (let res = update_result e srv w res in
              if nv_Status res = ''ready'' then Some ((res, None), w)
              else (case vf_pause e w of
                (True, w) \<Rightarrow> Some ((res, Some (context_error e srv res w)), w)
              | (False, w) \<Rightarrow> verify_rounds e fuel srv res w))))"

definition unverified :: nodeVerification where
  "unverified = \<lparr>nv_Status = ''unverified'', nv_Tuning = None, nv_CheckedAt = [], nv_HY2 = zero_report, nv_Reality = zero_report\<rparr>"

definition verifyNodeWith ::
  "'w verify_env \<Rightarrow> nat \<Rightarrow> Server \<Rightarrow> 'w \<Rightarrow> ((nodeVerification \<times> go_error) \<times> 'w) option" where
  "verifyNodeWith e fuel srv w = verify_rounds e fuel srv unverified w"

text \<open>
  The verification of a node: the exemption of its address, the helper engine, the wait, and the
  node's report of its tuning.
\<close>

record 'w node_env =
  ne_allow :: go_error
  ne_helper :: go_error
  ne_verify :: "'w verify_env"
  ne_tuning :: nodeTuningReport
  ne_fuel :: nat

definition verifyNode :: "'w node_env \<Rightarrow> Server \<Rightarrow> 'w \<Rightarrow> ((nodeVerification \<times> go_error) \<times> 'w) option" where
  "verifyNode e srv w =
     (let empty = unverified\<lparr>nv_CheckedAt := vf_stamp (ne_verify e) w\<rparr> in
      case ne_allow e of
        Some err \<Rightarrow> Some ((empty, Some (''direct probe exemption unavailable: '' @ err)), w)
      | None \<Rightarrow>
          (case ne_helper e of
             Some err \<Rightarrow> Some ((empty, Some err), w)
           | None \<Rightarrow>
               (case verifyNodeWith (ne_verify e) (ne_fuel e) srv w of
                  None \<Rightarrow> None
                | Some ((res, err), w) \<Rightarrow> Some ((res\<lparr>nv_Tuning := Some (ne_tuning e)\<rparr>, err), w))))"

section \<open>One probe\<close>

text \<open>
  The direct probe of a leg; then, if it is alive, a request through the helper engine, whose answer is
  an error or a status with a body that may break off.
\<close>

record leg_probe =
  lp_direct :: "string \<times> go_error"
  lp_request :: "string + int \<times> (string + string)"
  lp_elapsed :: go_duration

definition describeProbeError :: "go_error \<Rightarrow> string" where
  "describeProbeError err = (case err of None \<Rightarrow> [] | Some e \<Rightarrow> e)"

definition probe_leg :: "string \<Rightarrow> leg_probe \<Rightarrow> legReport" where
  "probe_leg leg p =
     (case lp_direct p of (v, err) \<Rightarrow>
        if v \<noteq> probe_alive then \<lparr>lr_Verdict = v, lr_RTT = 0, lr_Err = err, lr_Detail = describeProbeError err\<rparr>
        else case lp_request p of
          Inl _ \<Rightarrow> \<lparr>lr_Verdict = probe_error, lr_RTT = 0, lr_Err = Some (leg @ '' authenticated HTTPS request failed''),
                     lr_Detail = ''authenticated HTTPS request failed''\<rparr>
        | Inr (status, body) \<Rightarrow>
            (case body of
               Inr b \<Rightarrow>
                 if status \<noteq> 200 \<or> b = [] \<or> length b > 65536
                 then \<lparr>lr_Verdict = probe_error, lr_RTT = 0, lr_Err = Some (''invalid HTTPS response (HTTP '' @ itoa status @ '')''),
                        lr_Detail = ''invalid HTTPS payload''\<rparr>
                 else \<lparr>lr_Verdict = probe_alive, lr_RTT = lp_elapsed p, lr_Err = None, lr_Detail = ''authenticated HTTPS payload received''\<rparr>
             | Inl _ \<Rightarrow> \<lparr>lr_Verdict = probe_error, lr_RTT = 0, lr_Err = Some (''invalid HTTPS response (HTTP '' @ itoa status @ '')''),
                          lr_Detail = ''invalid HTTPS payload''\<rparr>))"

text \<open>The helper's reading of the tuning endpoint; the body is what the JSON decoder made of it.\<close>

definition probe_tuning :: "int \<Rightarrow> (string + int \<times> (string + nat \<times> nodeTuningReport option)) \<Rightarrow> nodeTuningReport" where
  "probe_tuning port answer =
     (let unobserved = zero_tuning\<lparr>nt_Status := ''unobserved''\<rparr> in
      if port = 0 then unobserved
      else case answer of
        Inr (status, Inr (len, decoded)) \<Rightarrow> if len > 65536 \<or> status \<noteq> 200 then unobserved else decodeNodeTuning decoded
      | _ \<Rightarrow> unobserved)"

section \<open>The record of a deployment\<close>

record deploymentRecord =
  dr_ID :: string
  dr_Name :: string
  dr_InstanceID :: string
  dr_ScriptID :: string
  dr_ScriptSHA256 :: string
  dr_Stage :: string
  dr_UpdatedAt :: string
  dr_Verification :: "nodeVerification option"
  dr_Error :: string

datatype receipt_file = NoReceipt | UnreadableReceipt string | MalformedReceipt | Receipt deploymentRecord

record deploy_files =
  df_receipt :: receipt_file
  df_identity :: "Server option"
  df_log :: "string list"

text \<open>The session holds the record; its files are beside it. Each write has its own outcome.\<close>

record deploy_env =
  de_mkdir :: go_error
  de_open :: go_error
  de_identity :: write_calls
  de_write :: "string \<Rightarrow> write_calls"
  de_stamp :: string

text \<open>An error a stage is told of: a provider's status, or anything else.\<close>

datatype stage_error = ProviderError int string | OtherError string

definition stage_text :: "stage_error option \<Rightarrow> string" where
  "stage_text err =
     (case err of
        None \<Rightarrow> []
      | Some (ProviderError status body) \<Rightarrow> ''provider HTTP '' @ itoa status
      | Some (OtherError e) \<Rightarrow> ''operation failed; see phase and verification verdicts'')"

definition stage ::
  "deploy_env \<Rightarrow> string \<Rightarrow> stage_error option \<Rightarrow> deploymentRecord \<times> deploy_files \<Rightarrow> go_error \<times> deploymentRecord \<times> deploy_files" where
  "stage e name err s =
     (case s of (r, f) \<Rightarrow>
        let r = r\<lparr>dr_Stage := name, dr_UpdatedAt := de_stamp e, dr_Error := stage_text err\<rparr>;
            f = f\<lparr>df_log := df_log f @ [''['' @ dr_UpdatedAt r @ ''] deployment '' @ dr_ID r @ '': '' @ name]\<rparr>
        in case writePrivateJSON (de_write e name) (df_receipt f) (Receipt r) of
             (werr, receipt) \<Rightarrow> (werr, r, f\<lparr>df_receipt := receipt\<rparr>))"

definition deploy_id_ok :: "string \<Rightarrow> bool" where
  "deploy_id_ok i = (length i = 32 \<and> list_all (\<lambda>c. c \<in> set ''0123456789abcdef'') i)"

definition fresh_record :: "Server \<Rightarrow> string \<Rightarrow> deploymentRecord" where
  "fresh_record srv hash =
     \<lparr>dr_ID = sv_DeployID srv, dr_Name = sv_Name srv, dr_InstanceID = [], dr_ScriptID = [], dr_ScriptSHA256 = hash,
      dr_Stage = [], dr_UpdatedAt = [], dr_Verification = None, dr_Error = []\<rparr>"

text \<open>What an earlier receipt makes of the fresh record.\<close>

definition resume_record :: "Server \<Rightarrow> string \<Rightarrow> receipt_file \<Rightarrow> string + deploymentRecord" where
  "resume_record srv hash f =
     (case f of
        NoReceipt \<Rightarrow> Inr (fresh_record srv hash)
      | UnreadableReceipt e \<Rightarrow> Inl e
      | MalformedReceipt \<Rightarrow> Inl ''existing deployment receipt is inconsistent''
      | Receipt old \<Rightarrow>
          if dr_ID old \<noteq> sv_DeployID srv \<or> dr_Name old \<noteq> sv_Name srv then Inl ''existing deployment receipt is inconsistent''
          else if hash \<noteq> [] \<and> dr_ScriptSHA256 old \<noteq> [] \<and> hash \<noteq> dr_ScriptSHA256 old
          then Inl ''deployment ID has different script content''
          else Inr old)"

definition newDeploySession ::
  "deploy_env \<Rightarrow> Server \<Rightarrow> string \<Rightarrow> deploy_files \<Rightarrow> (string + deploymentRecord) \<times> deploy_files" where
  "newDeploySession e srv hash f =
     (if \<not> deploy_id_ok (sv_DeployID srv) then (Inl ''invalid deployment ID'', f)
      else if de_mkdir e \<noteq> None then (Inl (the (de_mkdir e)), f)
      else if de_open e \<noteq> None then (Inl (the (de_open e)), f)
      else case resume_record srv hash (df_receipt f) of
        Inl err \<Rightarrow> (Inl err, f)
      | Inr r \<Rightarrow>
          (case writePrivateJSON (de_identity e) (df_identity f) (Some srv) of
             (Some err, i) \<Rightarrow> (Inl err, f\<lparr>df_identity := i\<rparr>)
           | (None, i) \<Rightarrow>
               (case stage e ''prepared'' None (r, f\<lparr>df_identity := i\<rparr>) of
                  (Some err, _, f) \<Rightarrow> (Inl err, f)
                | (None, r, f) \<Rightarrow> (Inr r, f))))"

text \<open>Work first, then the cleanup if the context was cancelled; errors are joined.\<close>

definition join_two :: "go_error list \<Rightarrow> go_error" where
  "join_two es = (case List.map_filter (\<lambda>e. e) es of [] \<Rightarrow> None | ts \<Rightarrow> Some (concat (map (\<lambda>t. t @ [CHR 0x0A]) (butlast ts)) @ List.last ts))"

definition runDeployLifecycle ::
  "('w \<Rightarrow> bool) \<Rightarrow> ('w \<Rightarrow> go_error \<times> 'w) \<Rightarrow> ('w \<Rightarrow> go_error \<times> 'w) \<Rightarrow> 'w \<Rightarrow> go_error \<times> 'w" where
  "runDeployLifecycle cancelled work cleanup w =
     (case work w of (err, w) \<Rightarrow>
        if cancelled w then (case cleanup w of (cerr, w) \<Rightarrow> (join_two [Some ''deployment interrupted'', err, cerr], w))
        else (err, w))"

definition api_stage_error :: "api_error \<Rightarrow> stage_error" where
  "api_stage_error err = (case err of ServerError status body \<Rightarrow> ProviderError status body | _ \<Rightarrow> OtherError ''api'')"

text \<open>The message ends with the provider's error, left out here.\<close>

definition cleanupInstance ::
  "'w api \<Rightarrow> store_env \<Rightarrow> deploy_env \<Rightarrow> Server \<Rightarrow> deploymentRecord \<times> deploy_files \<Rightarrow> 'w host \<Rightarrow>
     go_error \<times> (deploymentRecord \<times> deploy_files) \<times> 'w host" where
  "cleanupInstance a st e srv s h =
     (if sv_InstanceID srv = [] then (None, s, h)
      else case stage e ''destroying_after_interrupt'' None s of
        (stageErr, s) \<Rightarrow>
          (case host_call a apiBudget ''DELETE'' (''/instances/'' @ sv_InstanceID srv) h of
             (r, h) \<Rightarrow>
               (case (case r of Inl err \<Rightarrow> if IsServerNotFound err then None else Some err | Inr _ \<Rightarrow> None) of
                  Some err \<Rightarrow>
                    (Some (''instance '' @ sv_InstanceID srv @ '' deletion unconfirmed; still potentially billing; retry mole server destroy '' @
                       sv_Name srv), snd (stage e ''cleanup_pending'' (Some (api_stage_error err)) s), h)
                | None \<Rightarrow>
                    (case removeRecordedServer st (sv_InstanceID srv) (sv_Name srv) (h_store h) of
                       (Some err, stored) \<Rightarrow>
                         (Some err, snd (stage e ''deleted_local_cleanup_pending'' (Some (OtherError err)) s), h\<lparr>h_store := stored\<rparr>)
                     | (None, stored) \<Rightarrow>
                         (case stage e ''destroyed'' None s of
                            (lastErr, s) \<Rightarrow> (join_two [stageErr, lastErr], s, h\<lparr>h_store := stored\<rparr>))))))"

section \<open>The verify command\<close>

text \<open>The answer of a single instance: no address until the provider has assigned one.\<close>

definition parseInstanceAddress :: "(string \<times> string) option \<Rightarrow> string \<times> string" where
  "parseInstanceAddress decoded =
     (case decoded of
        None \<Rightarrow> ([], [])
      | Some (ip, ipv6) \<Rightarrow> if ip = [] \<or> ip = ''0.0.0.0'' then ([], []) else (ip, ipv6))"

text \<open>
  The polls for an address; fuel bounds them. A poll is the answer of the provider, decoded, or its
  error; the context may be over, and a pause of three seconds follows each.
\<close>

record 'w address_env =
  ad_over :: "'w \<Rightarrow> bool"
  ad_poll :: "'w \<Rightarrow> (api_error + (string \<times> string) option) \<times> 'w"
  ad_pause :: "'w \<Rightarrow> 'w"

text \<open>An error comes as its text and as what a stage is told of.\<close>

definition not_found_error :: "string \<Rightarrow> api_error \<Rightarrow> string \<times> stage_error" where
  "not_found_error inst err =
     (case err of
        ServerError status body \<Rightarrow>
          (''server GET /instances/'' @ inst @ '': '' @ itoa status @ '' '' @ body, ProviderError status body)
      | _ \<Rightarrow> ([], OtherError []))"

fun waitForIP :: "'w address_env \<Rightarrow> nat \<Rightarrow> string \<Rightarrow> 'w \<Rightarrow> (((string \<times> stage_error) + string \<times> string) \<times> 'w) option" where
  "waitForIP e 0 inst w = None"
| "waitForIP e (Suc fuel) inst w =
     (if ad_over e w then (let t = ''instance '' @ inst @ '' address unverified'' in Some (Inl (t, OtherError t), w))
      else case ad_poll e w of
        (Inl err, w) \<Rightarrow>
          if IsServerNotFound err then Some (Inl (not_found_error inst err), w) else waitForIP e fuel inst (ad_pause e w)
      | (Inr decoded, w) \<Rightarrow>
          (case parseInstanceAddress decoded of (ip, ipv6) \<Rightarrow>
             if ip \<noteq> [] then Some (Inr (ip, ipv6), w) else waitForIP e fuel inst (ad_pause e w)))"

record 'w recorded_env =
  re_random :: "string + string"
  re_deploy :: deploy_env
  re_address :: "'w address_env"
  re_node :: "Server \<Rightarrow> 'w node_env"
  re_store :: store_env
  re_fuel :: nat

text \<open>What the command writes back to the list.\<close>

definition record_verification :: "Server \<Rightarrow> nodeVerification \<Rightarrow> Server \<Rightarrow> Server" where
  "record_verification srv result current =
     current\<lparr>sv_IP := sv_IP srv, sv_IPv6 := sv_IPv6 srv, sv_DeployID := sv_DeployID srv, sv_Verification := Some result\<rparr>"

definition verified_stage :: "nodeVerification \<Rightarrow> go_error \<Rightarrow> stage_error option" where
  "verified_stage result err = map_option OtherError err"

text \<open>From the address on: the stage, the verification, the list and the receipt. The result is the error, the
  session and the host; None is running out of fuel.\<close>

definition verify_addressed ::
  "'w recorded_env \<Rightarrow> Server \<Rightarrow> deploymentRecord \<times> deploy_files \<Rightarrow> 'w host \<Rightarrow>
     (go_error \<times> (deploymentRecord \<times> deploy_files) \<times> 'w host) option" where
  "verify_addressed e srv s h =
     (case stage (re_deploy e) ''verifying'' None s of
        (Some err, s) \<Rightarrow> Some (Some err, s, h)
      | (None, s) \<Rightarrow>
          (case verifyNode (re_node e srv) srv (h_world h) of
             None \<Rightarrow> None
           | Some ((result, verifyErr), w) \<Rightarrow>
               (case changeServer (re_store e) (sv_InstanceID srv) (sv_Name srv) (record_verification srv result) (h_store h) of
                  (storeErr, stored) \<Rightarrow>
                    (case stage (re_deploy e) (nv_Status result) (verified_stage result verifyErr)
                        ((fst s)\<lparr>dr_Verification := Some result\<rparr>, snd s) of
                       (recordErr, s) \<Rightarrow>
                         Some (join_two [verifyErr, storeErr, recordErr], s, h\<lparr>h_world := w, h_store := stored\<rparr>)))))"

definition verifyRecordedNode ::
  "'w recorded_env \<Rightarrow> Server \<Rightarrow> deploy_files \<Rightarrow> 'w host \<Rightarrow> (go_error \<times> deploy_files \<times> 'w host) option" where
  "verifyRecordedNode e srv f h =
     (if sv_Stopped srv then Some (Some ''server is stopped; verification does not start it'', f, h)
      else case (if sv_DeployID srv = [] then re_random e else Inr (sv_DeployID srv)) of
        Inl err \<Rightarrow> Some (Some err, f, h)
      | Inr i \<Rightarrow>
          let srv = srv\<lparr>sv_DeployID := i\<rparr> in
          (case newDeploySession (re_deploy e) srv [] f of
             (Inl err, f) \<Rightarrow> Some (Some err, f, h)
           | (Inr r, f) \<Rightarrow>
               let s = (r\<lparr>dr_InstanceID := sv_InstanceID srv\<rparr>, f) in
               if HasAddress srv then map_option (\<lambda>(err, s, h). (err, snd s, h)) (verify_addressed e srv s h)
               else if sv_InstanceID srv = [] then Some (Some ''server has neither an address nor provider instance ID'', f, h)
               else case waitForIP (re_address e) (re_fuel e) (sv_InstanceID srv) (h_world h) of
                 None \<Rightarrow> None
               | Some (Inl (t, err), w) \<Rightarrow>
                   Some (Some t, snd (snd (stage (re_deploy e) ''provisioning'' (Some err) s)), h\<lparr>h_world := w\<rparr>)
               | Some (Inr (ip, ipv6), w) \<Rightarrow>
                   map_option (\<lambda>(err, s, h). (err, snd s, h))
                     (verify_addressed e (srv\<lparr>sv_IP := ip, sv_IPv6 := ipv6\<rparr>) s (h\<lparr>h_world := w\<rparr>))))"

section \<open>Lemmas\<close>

definition get_leg :: "string \<Rightarrow> nodeVerification \<Rightarrow> legReport" where
  "get_leg leg res = (if leg = ''reality'' then nv_Reality res else nv_HY2 res)"

definition both_legs :: "string list" where "both_legs = [''hy2'', ''reality'']"

lemma wanted_legs_known: "set (wanted_legs srv) \<subseteq> set both_legs" "wanted_legs srv \<noteq> []"
  by (auto simp: wanted_legs_def both_legs_def wantsLegs_def)

lemma status_ready_iff:
  "verificationStatus srv (nv_HY2 res) (nv_Reality res) = ''ready'' \<longleftrightarrow> (\<forall>leg \<in> set (wanted_legs srv). leg_ok (get_leg leg res))"
  by (auto simp: verificationStatus_def wanted_legs_def wantsLegs_def get_leg_def split: if_splits)

lemma get_leg_update [simp]:
  "get_leg leg (res\<lparr>nv_Status := s\<rparr>) = get_leg leg res"
  "get_leg leg (res\<lparr>nv_CheckedAt := t\<rparr>) = get_leg leg res"
  "get_leg leg (res\<lparr>nv_Tuning := u\<rparr>) = get_leg leg res"
  by (simp_all add: get_leg_def)

lemma get_leg_set:
  "l \<in> set both_legs \<Longrightarrow> leg \<in> set both_legs \<Longrightarrow> get_leg leg (set_leg l r res) = (if leg = l then r else get_leg leg res)"
  by (auto simp: get_leg_def set_leg_def both_legs_def)

lemma collect_replies_others:
  assumes "collect_replies e n pending res w = (over, res', w')" and "set pending \<subseteq> set both_legs"
    and "leg \<in> set both_legs" and "leg \<notin> set pending"
  shows "get_leg leg res' = get_leg leg res"
  using assms
proof (induction n arbitrary: pending res w)
  case (Suc n)
  show ?case
  proof (cases "pending = [] \<or> fst (vf_reply e pending w) = None")
    case True
    then show ?thesis using Suc.prems by (auto split: prod.splits option.splits if_splits)
  next
    case False
    then obtain k report w1 where r: "vf_reply e pending w = (Some (k, report), w1)" and ne: "pending \<noteq> []"
      by (metis prod.collapse option.exhaust)
    define i where "i = k mod length pending"
    let ?rest = "take i pending @ drop (Suc i) pending"
    have i: "pending ! i \<in> set pending" using ne by (simp add: i_def)
    have rest: "set ?rest \<subseteq> set pending" by (auto dest: in_set_takeD in_set_dropD)
    have step: "collect_replies e n ?rest (set_leg (pending ! i) report res) w1 = (over, res', w')"
      using Suc.prems(1) ne r by (simp add: i_def Let_def)
    have "get_leg leg res' = get_leg leg (set_leg (pending ! i) report res)"
      by (rule Suc.IH [OF step]) (use rest Suc.prems in auto)
    also have "\<dots> = get_leg leg res" using get_leg_set [of "pending ! i" leg] Suc.prems i by auto
    finally show ?thesis .
  qed
qed simp

lemma update_result_simps [simp]:
  "get_leg leg (update_result e srv w res) = get_leg leg res"
  "nv_Status (update_result e srv w res) = verificationStatus srv (nv_HY2 res) (nv_Reality res)"
  "nv_HY2 (update_result e srv w res) = nv_HY2 res" "nv_Reality (update_result e srv w res) = nv_Reality res"
  by (simp_all add: update_result_def)

definition verdict_ok :: "Server \<Rightarrow> nodeVerification \<times> go_error \<Rightarrow> bool" where
  "verdict_ok srv r =
     (nv_Status (fst r) = verificationStatus srv (nv_HY2 (fst r)) (nv_Reality (fst r)) \<and>
      (snd r = None \<longrightarrow> nv_Status (fst r) = ''ready'') \<and>
      (\<forall>leg \<in> set both_legs - set (wanted_legs srv). get_leg leg (fst r) = zero_report))"

lemma verdict_update:
  assumes "\<forall>leg \<in> set both_legs - set (wanted_legs srv). get_leg leg res = zero_report"
  shows "verdict_ok srv (update_result e srv w res, Some t)"
    and "nv_Status (update_result e srv w res) = ''ready'' \<Longrightarrow> verdict_ok srv (update_result e srv w res, None)"
  using assms by (simp_all add: verdict_ok_def)

lemma verify_rounds_ok:
  assumes "verify_rounds e fuel srv res w = Some (r, w')"
    and "\<forall>leg \<in> set both_legs - set (wanted_legs srv). get_leg leg res = zero_report"
  shows "verdict_ok srv r"
  using assms
proof (induction fuel arbitrary: res w)
  case (Suc fuel)
  obtain over res1 w1 where c: "collect_replies e (length (wanted_legs srv)) (wanted_legs srv) res w = (over, res1, w1)"
    by (metis prod_cases3)
  have kept: "\<forall>leg \<in> set both_legs - set (wanted_legs srv). get_leg leg res1 = zero_report"
    using collect_replies_others [OF c wanted_legs_known(1)] Suc.prems(2) by auto
  show ?case
  proof (cases "vf_over e w")
    case True
    then show ?thesis using Suc.prems verdict_update by (auto simp: Let_def)
  next
    case False
    note live = False
    obtain stop w2 where p: "vf_pause e w1 = (stop, w2)" by fastforce
    let ?res = "update_result e srv w1 res1"
    consider "over" | "\<not> over" "nv_Status ?res = ''ready''" | "\<not> over" "nv_Status ?res \<noteq> ''ready''" "stop"
      | "\<not> over" "nv_Status ?res \<noteq> ''ready''" "\<not> stop" by blast
    then show ?thesis
    proof cases
      case 4
      then have "verify_rounds e fuel srv ?res w2 = Some (r, w')"
        using Suc.prems(1) live c p by (simp add: Let_def)
      then show ?thesis by (rule Suc.IH) (use kept in simp)
    qed (use Suc.prems(1) live c p verdict_update [OF kept] in \<open>auto simp: Let_def\<close>)
  qed
qed simp

lemma zero_report_not_ok [simp]: "\<not> leg_ok zero_report"
  by (simp add: leg_ok_def zero_report_def probe_alive_def)

lemma unverified_ok: "verificationStatus srv zero_report zero_report = ''unverified''"
  by (auto simp: verificationStatus_def wantsLegs_def)

lemma verifyNode_ok:
  assumes "verifyNode e srv w = Some (r, w')"
  shows "verdict_ok srv r"
proof (cases "ne_allow e = None \<and> ne_helper e = None")
  case True
  obtain res err where v: "verifyNodeWith (ne_verify e) (ne_fuel e) srv w = Some ((res, err), w')"
    and r: "r = (res\<lparr>nv_Tuning := Some (ne_tuning e)\<rparr>, err)"
    using assms True by (auto simp: verifyNode_def Let_def split: option.splits)
  have "verdict_ok srv (res, err)"
    by (rule verify_rounds_ok [OF v [unfolded verifyNodeWith_def]]) (simp add: get_leg_def unverified_def)
  then show ?thesis by (auto simp: verdict_ok_def r)
next
  case False
  then have "fst r = unverified\<lparr>nv_CheckedAt := vf_stamp (ne_verify e) w\<rparr>" and "snd r \<noteq> None"
    using assms by (auto simp: verifyNode_def Let_def split: option.splits)
  then show ?thesis by (simp add: verdict_ok_def get_leg_def unverified_def unverified_ok)
qed

section \<open>Properties\<close>

text \<open>A node is verified without an error only if every leg it has answered; the status is always the one its
  two reports give, and a leg the node does not have is never reported on.\<close>
theorem ready_means_every_leg_answered:
  assumes "verifyNode e srv w = Some ((res, err), w')"
  shows "(err = None \<longrightarrow> nv_Status res = ''ready'' \<and> (\<forall>leg \<in> set (wanted_legs srv). leg_ok (get_leg leg res))) \<and>
    nv_Status res = verificationStatus srv (nv_HY2 res) (nv_Reality res) \<and>
    (\<forall>leg \<in> {''hy2'', ''reality''} - set (wanted_legs srv). get_leg leg res = zero_report)"
  using verifyNode_ok [OF assms] status_ready_iff [of srv res] by (auto simp: verdict_ok_def both_legs_def)

text \<open>
  The wait ends: if the context is over once the time left is zero, no reply gives time back and every
  pause takes some, the rounds are no more than the time left at the start.
\<close>

lemma collect_replies_time:
  assumes "\<And>p w. left (snd (vf_reply e p w)) \<le> (left w :: nat)"
  shows "left (snd (snd (collect_replies e n pending res w))) \<le> left w"
proof (induction n arbitrary: pending res w)
  case (Suc n)
  have "left (snd (vf_reply e pending w)) \<le> left w" by (rule assms)
  then show ?case
    by (auto simp: Let_def split: prod.splits option.splits intro: order_trans [OF Suc.IH])
qed simp

theorem verify_wait_returns:
  assumes over: "\<And>w. left w = (0::nat) \<Longrightarrow> vf_over e w"
    and reply: "\<And>p w. left (snd (vf_reply e p w)) \<le> left w"
    and pause: "\<And>w. left (snd (vf_pause e w)) \<le> left w - 1"
    and fuel: "left w < fuel"
  shows "\<exists>r. verifyNodeWith e fuel srv w = Some r"
proof -
  have "\<exists>r. verify_rounds e fuel srv res w = Some r" if "left w < fuel" for res
    using that
  proof (induction fuel arbitrary: res w)
    case (Suc fuel)
    obtain over1 res1 w1 where c: "collect_replies e (length (wanted_legs srv)) (wanted_legs srv) res w = (over1, res1, w1)"
      by (metis prod_cases3)
    obtain stop w2 where p: "vf_pause e w1 = (stop, w2)" by fastforce
    have "left w1 \<le> left w" using collect_replies_time [of left e] reply c by (metis snd_conv)
    moreover have "left w2 \<le> left w1 - 1" using pause [of w1] p by simp
    ultimately have less: "left w2 < fuel" if "left w \<noteq> 0" using that Suc.prems by linarith
    show ?case
    proof (cases "vf_over e w \<or> over1 \<or> nv_Status (update_result e srv w1 res1) = ''ready'' \<or> stop")
      case True
      then show ?thesis using c p by (auto simp: Let_def split: bool.splits)
    next
      case False
      then have same: "verify_rounds e (Suc fuel) srv res w = verify_rounds e fuel srv (update_result e srv w1 res1) w2"
        using c p by (simp add: Let_def)
      show ?thesis unfolding same by (rule Suc.IH) (use less over [of w] False in blast)
    qed
  qed simp
  then show ?thesis using fuel by (simp add: verifyNodeWith_def)
qed

lemma wanted_legs_update [simp]:
  "wanted_legs (srv\<lparr>sv_DeployID := d\<rparr>) = wanted_legs srv"
  "wanted_legs (srv\<lparr>sv_IP := a\<rparr>) = wanted_legs srv" "wanted_legs (srv\<lparr>sv_IPv6 := b\<rparr>) = wanted_legs srv"
  by (simp_all add: wanted_legs_def wantsLegs_def isReality_def hasStandbyLeg_def)

lemma join_two_None [simp]: "join_two es = None \<longleftrightarrow> (\<forall>e \<in> set es. e = None)"
  by (induction es) (auto simp: join_two_def map_filter_simps split: list.splits option.splits)

lemma updateServersAt_None:
  assumes "updateServersAt e fn stored = (None, stored')"
  shows "\<exists>servers servers'. readServersAt stored = Inr servers \<and> fn servers = Inr servers' \<and> stored' = Stored servers'"
proof -
  obtain servers servers' where r: "readServersAt stored = Inr servers" and f: "fn servers = Inr servers'"
    and w: "writePrivateJSON (se_write e) stored (Stored servers') = (None, stored')"
    using assms by (auto simp: updateServersAt_def split: if_splits sum.splits)
  then show ?thesis using writePrivateJSON_cases(2) [of "se_write e" stored "Stored servers'"] by simp
qed

lemma stage_None:
  assumes "stage e name err s = (None, r, f)"
  shows "df_receipt f = Receipt r \<and> r = (fst s)\<lparr>dr_Stage := name, dr_UpdatedAt := de_stamp e, dr_Error := stage_text err\<rparr>"
  using assms writePrivateJSON_cases(2) [of "de_write e name" "df_receipt (snd s)" "Receipt r"]
  by (auto simp: stage_def Let_def split: prod.splits)

lemma change_first_changed:
  "change_first p f ss = Some ss' \<Longrightarrow> \<exists>s \<in> set ss. p s \<and> f s \<in> set ss'"
  by (induction ss arbitrary: ss') (auto split: if_splits)

definition carries :: "string \<Rightarrow> string \<Rightarrow> nodeVerification \<Rightarrow> store_file \<Rightarrow> bool" where
  "carries inst name result f =
     (case f of Stored servers \<Rightarrow> list_ex (\<lambda>s. names_server inst name s \<and> sv_Verification s = Some result) servers | _ \<Rightarrow> False)"

lemma verification_recorded:
  assumes "changeServer e inst name (record_verification srv result) stored = (None, stored')"
  shows "carries inst name result stored'"
proof -
  obtain servers servers' where c: "change_server inst name (record_verification srv result) servers = Inr servers'"
    and s: "stored' = Stored servers'"
    using updateServersAt_None [OF assms [unfolded changeServer_def]] by blast
  then have "change_first (names_server inst name) (record_verification srv result) servers = Some servers'"
    by (auto simp: change_server_def split: option.splits)
  then obtain x where x: "names_server inst name x" "record_verification srv result x \<in> set servers'"
    using change_first_changed by blast
  show ?thesis unfolding carries_def s store_file.case list_ex_iff
    by (rule bexI [OF _ x(2)]) (use x(1) in \<open>simp add: record_verification_def names_server_def\<close>)
qed

definition receipted :: "nodeVerification \<Rightarrow> receipt_file \<Rightarrow> bool" where
  "receipted result f =
     (case f of Receipt r \<Rightarrow> dr_Stage r = nv_Status result \<and> dr_Verification r = Some result \<and> dr_Error r = [] | _ \<Rightarrow> False)"

lemma verify_addressed_None:
  assumes "verify_addressed e srv s h = Some (None, s', h')"
  shows "\<exists>result w'. verifyNode (re_node e srv) srv (h_world h) = Some ((result, None), w') \<and>
    carries (sv_InstanceID srv) (sv_Name srv) result (h_store h') \<and> receipted result (df_receipt (snd s'))"
proof -
  obtain s1 where s1: "stage (re_deploy e) ''verifying'' None s = (None, s1)"
    using assms by (auto simp: verify_addressed_def split: prod.splits option.splits)
  obtain result verr w' where v: "verifyNode (re_node e srv) srv (h_world h) = Some ((result, verr), w')"
    using assms s1 by (auto simp: verify_addressed_def split: option.splits)
  obtain serr stored where c: "changeServer (re_store e) (sv_InstanceID srv) (sv_Name srv) (record_verification srv result) (h_store h) = (serr, stored)"
    by fastforce
  obtain rerr r f where t: "stage (re_deploy e) (nv_Status result) (verified_stage result verr)
      ((fst s1)\<lparr>dr_Verification := Some result\<rparr>, snd s1) = (rerr, r, f)" by (metis prod_cases3)
  have none: "verr = None" "serr = None" "rerr = None" and s': "s' = (r, f)" and h': "h_store h' = stored"
    using assms s1 v c t by (auto simp: verify_addressed_def)
  have "receipted result (df_receipt f)"
    using stage_None [of "re_deploy e"] t none by (force simp: receipted_def stage_text_def verified_stage_def)
  with v c none s' h' show ?thesis using verification_recorded by auto
qed

text \<open>C17: A verify command that reports no error has seen the node answer on every leg, and both records say
  so: the list entry of the server carries the verification, and the receipt on disk has its status.\<close>
theorem verify_success_is_recorded:
  assumes "verifyRecordedNode e srv f h = Some (None, f', h')"
  shows "\<not> sv_Stopped srv \<and>
    (\<exists>result. nv_Status result = ''ready'' \<and> (\<forall>leg \<in> set (wanted_legs srv). leg_ok (get_leg leg result)) \<and>
       carries (sv_InstanceID srv) (sv_Name srv) result (h_store h') \<and> receipted result (df_receipt f'))"
proof -
  have running: "\<not> sv_Stopped srv" using assms by (auto simp: verifyRecordedNode_def split: if_splits)
  have "\<exists>srv1 s h1 s'. verify_addressed e srv1 s h1 = Some (None, s', h') \<and> f' = snd s' \<and>
      sv_InstanceID srv1 = sv_InstanceID srv \<and> sv_Name srv1 = sv_Name srv \<and> wanted_legs srv1 = wanted_legs srv"
  proof -
    define i where "i = (if sv_DeployID srv = [] then re_random e else Inr (sv_DeployID srv))"
    obtain d where d: "i = Inr d" using assms running by (auto simp: verifyRecordedNode_def i_def split: sum.splits)
    let ?srv = "srv\<lparr>sv_DeployID := d\<rparr>"
    obtain r f1 where r: "newDeploySession (re_deploy e) ?srv [] f = (Inr r, f1)"
      using assms running d by (auto simp: verifyRecordedNode_def Let_def i_def split: sum.splits prod.splits)
    let ?s = "(r\<lparr>dr_InstanceID := sv_InstanceID ?srv\<rparr>, f1)"
    note run = assms [unfolded verifyRecordedNode_def, folded i_def, unfolded d sum.case Let_def, unfolded r prod.case sum.case]
    show ?thesis
    proof (cases "HasAddress ?srv")
      case True
      then obtain s' where "verify_addressed e ?srv ?s h = Some (None, s', h')" "f' = snd s'"
        using run running by (auto simp del: select_convs)
      then show ?thesis by - (rule exI [of _ ?srv], rule exI [of _ ?s], rule exI [of _ h], rule exI [of _ s'], simp)
    next
      case False
      then obtain ip ipv6 w where w: "waitForIP (re_address e) (re_fuel e) (sv_InstanceID ?srv) (h_world h) = Some (Inr (ip, ipv6), w)"
        using run running by (auto split: option.splits sum.splits if_splits)
      let ?srv2 = "?srv\<lparr>sv_IP := ip, sv_IPv6 := ipv6\<rparr>"
      obtain s' where "verify_addressed e ?srv2 ?s (h\<lparr>h_world := w\<rparr>) = Some (None, s', h')" "f' = snd s'"
        using run running False w by (auto split: if_splits)
      then show ?thesis by - (rule exI [of _ ?srv2], rule exI [of _ ?s], rule exI [of _ "h\<lparr>h_world := w\<rparr>"], rule exI [of _ s'], simp)
    qed
  qed
  then obtain srv1 s h1 s' where a: "verify_addressed e srv1 s h1 = Some (None, s', h')" and f': "f' = snd s'"
    and same: "sv_InstanceID srv1 = sv_InstanceID srv" "sv_Name srv1 = sv_Name srv" "wanted_legs srv1 = wanted_legs srv"
    by blast
  obtain result w' where v: "verifyNode (re_node e srv1) srv1 (h_world h1) = Some ((result, None), w')"
    and rec: "carries (sv_InstanceID srv) (sv_Name srv) result (h_store h')" "receipted result (df_receipt f')"
    using verify_addressed_None [OF a] by (auto simp: same f')
  have "nv_Status result = ''ready''" using verifyNode_ok [OF v] by (auto simp: verdict_ok_def)
  moreover have "\<forall>leg \<in> set (wanted_legs srv). leg_ok (get_leg leg result)"
    using verifyNode_ok [OF v] status_ready_iff [of srv1 result] unfolding verdict_ok_def same fst_conv snd_conv by metis
  ultimately show ?thesis using running rec by blast
qed


section \<open>A node that answers, and one whose legs answer in turn\<close>

definition alive_leg :: legReport where
  "alive_leg = \<lparr>lr_Verdict = probe_alive, lr_RTT = 40 * go_ms, lr_Err = None, lr_Detail = []\<rparr>"

definition silent_leg :: legReport where
  "silent_leg = \<lparr>lr_Verdict = probe_silent, lr_RTT = 0, lr_Err = None, lr_Detail = []\<rparr>"

text \<open>The world is the number of pauses left.\<close>

definition answering :: "nat verify_env" where
  "answering = \<lparr>vf_over = (\<lambda>w. w = 0), vf_error = (\<lambda>_. ''context deadline exceeded''), vf_stamp = (\<lambda>_. ''t''),
     vf_reply = (\<lambda>p w. (Some (0, alive_leg), w)), vf_pause = (\<lambda>w. (False, w - 1))\<rparr>"

definition good_node :: "nat node_env" where
  "good_node = \<lparr>ne_allow = None, ne_helper = None, ne_verify = answering, ne_tuning = zero_tuning, ne_fuel = 5\<rparr>"

definition plain_server :: Server where
  "plain_server = zero_server\<lparr>sv_Name := ''a'', sv_InstanceID := ''i1'', sv_IP := ''192.0.2.1'',
     sv_DeployID := ''0123456789abcdef0123456789abcdef''\<rparr>"

lemma plain_wanted: "wanted_legs plain_server = [''hy2'']"
  by (simp add: wanted_legs_def wantsLegs_def plain_server_def isReality_def hasStandbyLeg_def zero_server_def)

lemma plain_verified:
  "verifyNode good_node plain_server 3 =
     Some ((\<lparr>nv_Status = ''ready'', nv_Tuning = Some zero_tuning, nv_CheckedAt = ''t'', nv_HY2 = alive_leg, nv_Reality = zero_report\<rparr>, None), 3)"
proof -
  have status: "verificationStatus plain_server alive_leg zero_report = ''ready''"
    by (simp add: verificationStatus_def wantsLegs_def plain_server_def isReality_def hasStandbyLeg_def zero_server_def
        leg_ok_def alive_leg_def)
  have wait: "verify_rounds answering (Suc n) plain_server unverified 3 =
      Some ((\<lparr>nv_Status = ''ready'', nv_Tuning = None, nv_CheckedAt = ''t'', nv_HY2 = alive_leg, nv_Reality = zero_report\<rparr>, None), 3)" for n
    by (simp add: plain_wanted answering_def set_leg_def unverified_def update_result_def status Let_def)
  show ?thesis
    using wait [of 4] by (simp add: verifyNode_def good_node_def verifyNodeWith_def Let_def)
qed

theorem ready_means_every_leg_answered_witness:
  "\<exists>res. verifyNode good_node plain_server 3 = Some ((res, None), 3) \<and> nv_Status res = ''ready'' \<and> leg_ok (nv_HY2 res)"
  using ready_means_every_leg_answered [OF plain_verified] plain_wanted plain_verified by (auto simp: get_leg_def)

theorem verify_wait_returns_witness:
  "\<exists>r. verifyNodeWith (answering\<lparr>vf_reply := (\<lambda>p w. (Some (0, silent_leg), w))\<rparr>) 10 plain_server 9 = Some r"
  by (rule verify_wait_returns [where left = "\<lambda>w. w"]) (simp_all add: answering_def)

definition good_deploy :: deploy_env where
  "good_deploy = \<lparr>de_mkdir = None, de_open = None, de_identity = good_calls, de_write = (\<lambda>_. good_calls), de_stamp = ''t''\<rparr>"

definition good_store :: store_env where
  "good_store = \<lparr>se_open = None, se_lock = [LockFree], se_write = good_calls\<rparr>"

definition plain_host :: "'w \<Rightarrow> 'w host" where
  "plain_host w = \<lparr>h_world = w, h_store = Stored [plain_server], h_ladders = NoLadders, h_debt = None\<rparr>"

definition no_files :: deploy_files where
  "no_files = \<lparr>df_receipt = NoReceipt, df_identity = None, df_log = []\<rparr>"

definition good_verify :: "nat recorded_env" where
  "good_verify = \<lparr>re_random = Inl ''no entropy'', re_deploy = good_deploy,
     re_address = \<lparr>ad_over = (\<lambda>w. True), ad_poll = (\<lambda>w. (Inl NoKey, w)), ad_pause = (\<lambda>w. w)\<rparr>,
     re_node = (\<lambda>_. good_node), re_store = good_store, re_fuel = 0\<rparr>"

lemma good_write: "writePrivateJSON good_calls old new = (None, new)"
  by (simp add: writePrivateJSON_def good_calls_def first_error_def)

lemma plain_id: "deploy_id_ok (sv_DeployID plain_server)"
  by (simp add: deploy_id_ok_def plain_server_def)

lemma plain_succeeds: "\<exists>f' h'. verifyRecordedNode good_verify plain_server no_files (plain_host 3) = Some (None, f', h')"
proof -
  have up: "\<not> sv_Stopped plain_server" "HasAddress plain_server" "sv_DeployID plain_server \<noteq> []"
    by (simp_all add: plain_server_def zero_server_def HasAddress_def)
  have same: "plain_server\<lparr>sv_DeployID := sv_DeployID plain_server\<rparr> = plain_server" by simp
  obtain r f where session: "newDeploySession good_deploy plain_server [] no_files = (Inr r, f)"
    using plain_id by (simp add: newDeploySession_def good_deploy_def good_write no_files_def resume_record_def stage_def Let_def)
  have staged: "\<exists>s'. stage good_deploy name err s = (None, s')" for name err s
    by (cases s) (simp add: stage_def good_deploy_def good_write Let_def)
  obtain s1 where s1: "stage good_deploy ''verifying'' None (r\<lparr>dr_InstanceID := sv_InstanceID plain_server\<rparr>, f) = (None, s1)"
    using staged by blast
  have changed: "\<exists>st. changeServer good_store ''i1'' ''a'' (record_verification plain_server v) (Stored [plain_server]) = (None, st)" for v
    by (simp add: changeServer_def updateServersAt_def good_store_def readServersAt_def change_server_def names_server_def
        plain_server_def good_write)
  let ?v = "\<lparr>nv_Status = ''ready'', nv_Tuning = Some zero_tuning, nv_CheckedAt = ''t'', nv_HY2 = alive_leg, nv_Reality = zero_report\<rparr>"
  obtain st where st: "changeServer good_store ''i1'' ''a'' (record_verification plain_server ?v) (Stored [plain_server]) = (None, st)"
    using changed by blast
  obtain s2 where s2: "stage good_deploy ''ready'' (verified_stage ?v None) ((fst s1)\<lparr>dr_Verification := Some ?v\<rparr>, snd s1) = (None, s2)"
    using staged by blast
  have ids: "sv_InstanceID plain_server = ''i1''" "sv_Name plain_server = ''a''" by (simp_all add: plain_server_def)
  have "verify_addressed good_verify plain_server (r\<lparr>dr_InstanceID := sv_InstanceID plain_server\<rparr>, f) (plain_host 3) =
      Some (None, s2, (plain_host 3)\<lparr>h_world := 3, h_store := st\<rparr>)"
    unfolding verify_addressed_def
    using s1 st s2 plain_verified ids by (simp add: good_verify_def plain_host_def)
  then show ?thesis using up session same by (simp add: verifyRecordedNode_def good_verify_def Let_def)
qed

theorem verify_success_is_recorded_witness:
  "\<exists>f' h' result. verifyRecordedNode good_verify plain_server no_files (plain_host 3) = Some (None, f', h') \<and>
     carries ''i1'' ''a'' result (h_store h') \<and> receipted result (df_receipt f')"
proof -
  obtain f' h' where run: "verifyRecordedNode good_verify plain_server no_files (plain_host 3) = Some (None, f', h')"
    using plain_succeeds by blast
  have ids: "sv_InstanceID plain_server = ''i1''" "sv_Name plain_server = ''a''" by (simp_all add: plain_server_def)
  show ?thesis using verify_success_is_recorded [OF run] run by (auto simp: ids)
qed


text \<open>
  The two reports are those of the latest answer of each leg, not of one round: a leg that answered in an
  earlier round still counts when the time runs out in a later one. Such a node is returned, and
  recorded, as ready although the wait ended in an error and no round saw both legs alive.
\<close>

definition alternating :: "nat verify_env" where
  "alternating = answering\<lparr>vf_over := (\<lambda>w. w = 0),
     vf_reply := (\<lambda>p w. if w = 4 then (Some (0, alive_leg), 3)
       else if w = 3 then (Some (0, silent_leg), 2)
       else if p = [''hy2'', ''reality''] then (Some (1, alive_leg), w) else (None, w))\<rparr>"

definition standby_server :: Server where
  "standby_server = plain_server\<lparr>sv_UUID := ''u'', sv_RealityPubKey := ''k'', sv_RealityPort := 443\<rparr>"

theorem ready_can_be_stale:
  "\<exists>res err w'. verifyNodeWith alternating 5 standby_server 4 = Some ((res, Some err), w') \<and> nv_Status res = ''ready''"
proof -
  have wanted: "wanted_legs standby_server = [''hy2'', ''reality'']" "wantsLegs standby_server = (True, True)"
    by (simp_all add: wanted_legs_def wantsLegs_def standby_server_def plain_server_def isReality_def hasStandbyLeg_def zero_server_def)
  have legs: "leg_ok alive_leg" "\<not> leg_ok silent_leg"
    by (simp_all add: leg_ok_def alive_leg_def silent_leg_def probe_alive_def probe_silent_def)
  have run: "\<exists>res err w'. verifyNodeWith alternating (Suc (Suc n)) standby_server 4 = Some ((res, Some err), w') \<and> nv_Status res = ''ready''" for n
    unfolding verifyNodeWith_def
    by (simp add: wanted alternating_def answering_def set_leg_def unverified_def update_result_def verificationStatus_def legs Let_def)
  show ?thesis using run [of 3] by simp
qed

end
