(* ===== verification/Deploy.thy ===== *)
theory Deploy
  imports Node_Verify
begin

text \<open>
  cmd/deploy_vultr.go, and runDeploy and finishDeploy of cmd/server.go: the startup script, the firewall
  group, the instance, and the deployment around them. A call carries a body, so the provider is an
  API for each body; what the JSON decoder makes of an answer, the parser of pagination links and the
  texts of the boot scripts are functions of the environment.
\<close>

section \<open>Requests and answers\<close>

record firewall_rule =
  fr_ip_type :: string
  fr_protocol :: string
  fr_subnet :: string
  fr_subnet_size :: int
  fr_port :: "string option"
  fr_notes :: string

datatype deploy_body =
  NoBody
  | ScriptBody string string
  | GroupBody string
  | RuleBody firewall_rule
  | InstanceBody string string string string "string option"

text \<open>
  The decoders: the identifier of a created object under the given field, the content of a script, a page
  of scripts with the link to the next, the groups and the rules of a group.
\<close>

text \<open>A parsed link: its host, its path, and the request URI it has once its path is replaced.\<close>

record page_link =
  pl_Host :: string
  pl_Path :: string
  pl_RequestURI :: "string \<Rightarrow> string"

record 'w deploy_api =
  da_api :: "deploy_body \<Rightarrow> 'w api"
  da_sleep :: "go_duration \<Rightarrow> 'w \<Rightarrow> 'w"
  da_id :: "string \<Rightarrow> string \<Rightarrow> string + string"
  da_text :: "string \<Rightarrow> string + string"
  da_page :: "string \<Rightarrow> string + (string \<times> string) list \<times> string"
  da_link :: "string \<Rightarrow> string + page_link"
  da_groups :: "string \<Rightarrow> string + (string \<times> string) list"
  da_rules :: "string \<Rightarrow> string + (string \<times> string \<times> string) list"

text \<open>An error: its text, and the error of a management call it wraps.\<close>

datatype deploy_error = DeployError string "api_error option"

definition cause_of :: "deploy_error \<Rightarrow> stage_error" where
  "cause_of err = (case err of DeployError t (Some (ServerError status body)) \<Rightarrow> ProviderError status body
     | DeployError t _ \<Rightarrow> OtherError t)"

definition da_call :: "'w deploy_api \<Rightarrow> go_duration \<Rightarrow> string \<Rightarrow> string \<Rightarrow> deploy_body \<Rightarrow> 'w \<Rightarrow> (api_error + string) \<times> 'w" where
  "da_call d budget verb path body w = call_api (da_api d body) budget verb path w"

section \<open>The startup script\<close>

definition base64_alphabet :: string where
  "base64_alphabet = ''ABCDEFGHIJKLMNOPQRSTUVWXYZabcdefghijklmnopqrstuvwxyz0123456789+/''"

definition base64_char :: "nat \<Rightarrow> char" where
  "base64_char n = base64_alphabet ! n"

fun base64_std :: "string \<Rightarrow> string" where
  "base64_std [] = []"
| "base64_std [a] = (let n = of_char a * 16 :: nat in [base64_char (n div 64), base64_char (n mod 64), CHR ''='', CHR ''=''])"
| "base64_std [a, b] =
     (let n = (of_char a * 256 + of_char b) * 4 :: nat in
      [base64_char (n div 4096), base64_char (n div 64 mod 64), base64_char (n mod 64), CHR ''=''])"
| "base64_std (a # b # c # cs) =
     (let n = of_char a * 65536 + of_char b * 256 + of_char c :: nat in
      base64_char (n div 262144) # base64_char (n div 4096 mod 64) # base64_char (n div 64 mod 64) # base64_char (n mod 64) # base64_std cs)"

text \<open>url.PathEscape.\<close>

definition path_safe :: "char \<Rightarrow> bool" where
  "path_safe c = (c \<in> set (''ABCDEFGHIJKLMNOPQRSTUVWXYZabcdefghijklmnopqrstuvwxyz0123456789'' @ ''-_.~$&+:=@''))"

definition PathEscape :: "string \<Rightarrow> string" where
  "PathEscape s = concat (map (\<lambda>c. if path_safe c then [c]
     else [CHR ''%'', ''0123456789ABCDEF'' ! (of_char c div 16), ''0123456789ABCDEF'' ! (of_char c mod 16)]) s)"

text \<open>
  The lookup by name. seen holds the pages asked for, so that the pages are at most a thousand.
\<close>

definition next_page :: "'w deploy_api \<Rightarrow> string \<Rightarrow> string + string" where
  "next_page d link =
     (case da_link d link of
        Inl err \<Rightarrow> Inl err
      | Inr u \<Rightarrow>
          if pl_Host u \<noteq> [] \<and> pl_Host u \<noteq> ''api.vultr.com'' then Inl ''unexpected pagination origin''
          else
            let path = (if pl_Path u = [] then ''/startup-scripts'' else pl_Path u);
                path = (if take 3 path = ''/v2'' then drop 3 path else path)
            in if path \<noteq> ''/startup-scripts'' then Inl (''unexpected pagination path '' @ [CHR 0x22] @ path @ [CHR 0x22])
               else Inr (pl_RequestURI u path))"

function find_script ::
  "'w deploy_api \<Rightarrow> string \<Rightarrow> string list \<Rightarrow> string \<Rightarrow> 'w \<Rightarrow> (deploy_error + string option) \<times> 'w" where
  "find_script d name seen path w =
     (if path = [] then (Inr None, w)
      else if path \<in> set seen \<or> length seen \<ge> 1000
      then (Inl (DeployError ''startup-script pagination did not terminate'' None), w)
      else case da_call d (30 * go_second) ''GET'' path NoBody w of
        (Inl err, w) \<Rightarrow> (Inl (DeployError [] (Some err)), w)
      | (Inr resp, w) \<Rightarrow>
          (case da_page d resp of
             Inl err \<Rightarrow> (Inl (DeployError err None), w)
           | Inr (scripts, link) \<Rightarrow>
               (case find (\<lambda>s. snd s = name) scripts of
                  Some s \<Rightarrow> (Inr (Some (fst s)), w)
                | None \<Rightarrow>
                    if link = [] then (Inr None, w)
                    else (case next_page d link of
                      Inl err \<Rightarrow> (Inl (DeployError err None), w)
                    | Inr path' \<Rightarrow> find_script d name (path # seen) path' w))))"
  by pat_completeness auto
termination by (relation "Wellfounded.measure (\<lambda>(d, name, seen, path, w). 1000 - length seen)") auto

definition findStartupScriptByName :: "'w deploy_api \<Rightarrow> string \<Rightarrow> 'w \<Rightarrow> (deploy_error + string option) \<times> 'w" where
  "findStartupScriptByName d name w = find_script d name [] ''/startup-scripts?per_page=100'' w"

text \<open>A script found under the name is reused only if its content is the same.\<close>

definition reuse_script :: "'w deploy_api \<Rightarrow> string \<Rightarrow> string \<Rightarrow> string \<Rightarrow> 'w \<Rightarrow> (deploy_error + string) \<times> 'w" where
  "reuse_script d name encoded i w =
     (case da_call d (30 * go_second) ''GET'' (''/startup-scripts/'' @ PathEscape i) NoBody w of
        (Inl err, w) \<Rightarrow> (Inl (DeployError ''startup-script content unverified: '' (Some err)), w)
      | (Inr data, w) \<Rightarrow>
          (case da_text d data of
             Inl err \<Rightarrow> (Inl (DeployError err None), w)
           | Inr existing \<Rightarrow>
               if existing \<noteq> encoded
               then (Inl (DeployError (''startup script '' @ [CHR 0x22] @ name @ [CHR 0x22] @ '' exists with different content; refusing to reuse its identity'') None), w)
               else (Inr i, w)))"

text \<open>One round per number; the last error of the provider is what is wrapped at the end.\<close>

fun script_rounds ::
  "'w deploy_api \<Rightarrow> string \<Rightarrow> string \<Rightarrow> nat list \<Rightarrow> api_error option \<Rightarrow> 'w \<Rightarrow> (deploy_error + string) \<times> 'w" where
  "script_rounds d name encoded [] lastErr w =
     (Inl (DeployError ''create startup script: creation not confirmed after complete lookups'' lastErr), w)"
| "script_rounds d name encoded (round # rounds) lastErr w =
     (case da_call d (60 * go_second) ''POST'' ''/startup-scripts'' (ScriptBody name encoded) w of
        (Inr resp, w) \<Rightarrow>
          (case da_id d ''startup_script'' resp of
             Inl err \<Rightarrow> (Inl (DeployError err None), w)
           | Inr i \<Rightarrow> if i = [] then (Inl (DeployError ''Vultr returned no startup-script id'' None), w) else (Inr i, w))
      | (Inl err, w) \<Rightarrow>
          (case err of
             ServerError status body \<Rightarrow>
               if status < 500 then (Inl (DeployError ''create startup script: '' (Some err)), w)
               else (case findStartupScriptByName d name w of
                   (Inl (DeployError t c), w) \<Rightarrow>
                     (Inl (DeployError (''startup-script creation outcome unknown; verification failed: '' @ t) c), w)
                 | (Inr (Some i), w) \<Rightarrow> reuse_script d name encoded i w
                 | (Inr None, w) \<Rightarrow>
                     script_rounds d name encoded rounds (Some err)
                       (if round < 3 then da_sleep d (int round * 2 * go_second) w else w))
           | _ \<Rightarrow> (Inl (DeployError ''create startup script: '' (Some err)), w)))"

definition createStartupScript :: "'w deploy_api \<Rightarrow> string \<Rightarrow> string \<Rightarrow> 'w \<Rightarrow> (deploy_error + string) \<times> 'w" where
  "createStartupScript d name script w = script_rounds d name (base64_std script) [1, 2, 3] None w"

section \<open>The firewall group\<close>

definition moleFirewallGroup :: string where "moleFirewallGroup = ''mole-nodes''"

definition moleFirewallRules :: "firewall_rule list" where
  "moleFirewallRules =
     [\<lparr>fr_ip_type = ''v4'', fr_protocol = ''udp'', fr_subnet = ''0.0.0.0'', fr_subnet_size = 0, fr_port = Some ''443'', fr_notes = ''hysteria2''\<rparr>,
      \<lparr>fr_ip_type = ''v6'', fr_protocol = ''udp'', fr_subnet = ''::'', fr_subnet_size = 0, fr_port = Some ''443'', fr_notes = ''hysteria2 v6''\<rparr>,
      \<lparr>fr_ip_type = ''v4'', fr_protocol = ''tcp'', fr_subnet = ''0.0.0.0'', fr_subnet_size = 0, fr_port = Some ''443'', fr_notes = ''vless reality''\<rparr>,
      \<lparr>fr_ip_type = ''v6'', fr_protocol = ''tcp'', fr_subnet = ''::'', fr_subnet_size = 0, fr_port = Some ''443'', fr_notes = ''vless reality v6''\<rparr>,
      \<lparr>fr_ip_type = ''v4'', fr_protocol = ''icmp'', fr_subnet = ''0.0.0.0'', fr_subnet_size = 0, fr_port = None, fr_notes = ''path diagnostics''\<rparr>]"

definition port_spelling :: "string \<Rightarrow> string" where
  "port_spelling port =
     (let port = concat (map (\<lambda>c. if c = CHR '' '' then [] else if c = CHR ''-'' then '':'' else [c]) port);
          from = takeWhile (\<lambda>c. c \<noteq> CHR '':'') port
      in if CHR '':'' \<in> set port \<and> from = drop (length from + 1) port then from else port)"

definition firewallRuleKey :: "string \<Rightarrow> string \<Rightarrow> string \<Rightarrow> string" where
  "firewallRuleKey ipType protocol port = ipType @ ''/'' @ protocol @ ''/'' @ port_spelling port"

definition rule_key :: "firewall_rule \<Rightarrow> string" where
  "rule_key r = firewallRuleKey (fr_ip_type r) (fr_protocol r) (case fr_port r of None \<Rightarrow> [] | Some p \<Rightarrow> p)"

fun add_rules :: "'w deploy_api \<Rightarrow> string \<Rightarrow> string set \<Rightarrow> firewall_rule list \<Rightarrow> 'w \<Rightarrow> deploy_error option \<times> 'w" where
  "add_rules d grp have_keys [] w = (None, w)"
| "add_rules d grp have_keys (r # rs) w =
     (if rule_key r \<in> have_keys then add_rules d grp have_keys rs w
      else case da_call d (30 * go_second) ''POST'' (''/firewalls/'' @ grp @ ''/rules'') (RuleBody r) w of
        (Inl err, w) \<Rightarrow> (Some (DeployError (''add firewall rule '' @ fr_notes r @ '': '') (Some err)), w)
      | (Inr _, w) \<Rightarrow> add_rules d grp have_keys rs w)"

definition ensureFirewallRules :: "'w deploy_api \<Rightarrow> string \<Rightarrow> 'w \<Rightarrow> deploy_error option \<times> 'w" where
  "ensureFirewallRules d grp w =
     (case da_call d (30 * go_second) ''GET'' (''/firewalls/'' @ grp @ ''/rules'') NoBody w of
        (Inl err, w) \<Rightarrow> (Some (DeployError [] (Some err)), w)
      | (Inr listed, w) \<Rightarrow>
          (case da_rules d listed of
             Inl err \<Rightarrow> (Some (DeployError err None), w)
           | Inr existing \<Rightarrow> add_rules d grp (set (map (\<lambda>(t, p, q). firewallRuleKey t p q) existing)) moleFirewallRules w))"

text \<open>Both an identifier and an error: the group is returned even if its rules are not complete.\<close>

definition ensureFirewallGroup :: "'w deploy_api \<Rightarrow> 'w \<Rightarrow> (string \<times> deploy_error option) \<times> 'w" where
  "ensureFirewallGroup d w =
     (case da_call d (30 * go_second) ''GET'' ''/firewalls'' NoBody w of
        (Inl err, w) \<Rightarrow> (([], Some (DeployError [] (Some err))), w)
      | (Inr listed, w) \<Rightarrow>
          (case da_groups d listed of
             Inl err \<Rightarrow> (([], Some (DeployError err None)), w)
           | Inr groups \<Rightarrow>
               (case find (\<lambda>g. snd g = moleFirewallGroup) groups of
                  Some g \<Rightarrow> (case ensureFirewallRules d (fst g) w of (err, w) \<Rightarrow> ((fst g, err), w))
                | None \<Rightarrow>
                    (case da_call d (30 * go_second) ''POST'' ''/firewalls'' (GroupBody moleFirewallGroup) w of
                       (Inl err, w) \<Rightarrow> (([], Some (DeployError [] (Some err))), w)
                     | (Inr resp, w) \<Rightarrow>
                         (case da_id d ''firewall_group'' resp of
                            Inl err \<Rightarrow> (([], Some (DeployError err None)), w)
                          | Inr i \<Rightarrow>
                              if i = [] then (([], Some (DeployError ''Vultr returned no firewall-group id'' None)), w)
                              else (case ensureFirewallRules d i w of (err, w) \<Rightarrow> ((i, err), w)))))))"

section \<open>The instance\<close>

text \<open>The body of the request for an instance: Ubuntu 24.04, the label, the script and the group, if there is one.\<close>

definition instance_body :: "string \<Rightarrow> string \<Rightarrow> string \<Rightarrow> string \<Rightarrow> string \<Rightarrow> deploy_body" where
  "instance_body region plan name scriptID fwID =
     InstanceBody region plan name scriptID (if fwID = [] then None else Some fwID)"

definition create_instance ::
  "'w deploy_api \<Rightarrow> deploy_env \<Rightarrow> deploy_body \<Rightarrow> deploymentRecord \<times> deploy_files \<Rightarrow> 'w \<Rightarrow>
     (deploy_error + string) \<times> (deploymentRecord \<times> deploy_files) \<times> 'w" where
  "create_instance d e body s w =
     (case da_call d (60 * go_second) ''POST'' ''/instances'' body w of
        (Inl err, w) \<Rightarrow>
          (Inl (DeployError (''create instance outcome unconfirmed; inspect deployment '' @ dr_ID (fst s) @ '' before creating again: '') (Some err)),
           snd (stage e ''instance_creation_unconfirmed'' (Some (cause_of (DeployError [] (Some err)))) s), w)
      | (Inr resp, w) \<Rightarrow>
          (case da_id d ''instance'' resp of
             Inl err \<Rightarrow> (Inl (DeployError err None), snd (stage e ''instance_creation_unconfirmed'' (Some (OtherError err)) s), w)
           | Inr i \<Rightarrow>
               if i = []
               then (Inl (DeployError ''Vultr returned no instance id; creation outcome unknown'' None),
                     snd (stage e ''instance_creation_unconfirmed'' (Some (OtherError ''missing instance ID'')) s), w)
               else (Inr i, s, w)))"

text \<open>
  The provisioning up to the instance. key is the error of reading the account key; the context is
  looked at once, before the instance is asked for.
\<close>

definition deployViaVultr ::
  "'w deploy_api \<Rightarrow> deploy_env \<Rightarrow> go_error \<Rightarrow> ('w \<Rightarrow> bool) \<Rightarrow> string \<Rightarrow> string \<Rightarrow> string \<Rightarrow> string \<Rightarrow>
     deploymentRecord \<times> deploy_files \<Rightarrow> 'w \<Rightarrow> (deploy_error + string) \<times> (deploymentRecord \<times> deploy_files) \<times> 'w" where
  "deployViaVultr d e key cancelled name region plan script s w =
     (if key \<noteq> None then (Inl (DeployError (the key) None), s, w)
      else case stage e ''creating_startup_script'' None s of
        (Some err, s) \<Rightarrow> (Inl (DeployError err None), s, w)
      | (None, s) \<Rightarrow>
          (case createStartupScript d (name @ ''-'' @ dr_ID (fst s)) script w of
             (Inl (DeployError t c), w) \<Rightarrow>
               (Inl (DeployError (''create startup script: '' @ t) c), snd (stage e ''startup_script_unconfirmed'' (Some (cause_of (DeployError t c))) s), w)
           | (Inr scriptID, w) \<Rightarrow>
               (case stage e ''preparing_firewall'' None ((fst s)\<lparr>dr_ScriptID := scriptID\<rparr>, snd s) of
                  (Some err, s) \<Rightarrow> (Inl (DeployError err None), s, w)
                | (None, s) \<Rightarrow>
                    (case ensureFirewallGroup d w of
                       ((fwID, fwErr), w) \<Rightarrow>
                         if cancelled w then (Inl (DeployError ''context canceled'' None), s, w)
                         else case stage e ''creating_instance'' None s of
                           (Some err, s) \<Rightarrow> (Inl (DeployError err None), s, w)
                         | (None, s) \<Rightarrow> create_instance d e (instance_body region plan name scriptID fwID) s w))))"

section \<open>The deployment\<close>

text \<open>The material minted for a node; the private halves are in the scripts only.\<close>

record realityIdentity =
  ri_UUID :: string
  ri_PrivateKey :: string
  ri_PublicKey :: string
  ri_ShortID :: string
  ri_Dest :: string
  ri_SSHPubKey :: string

record serverIdentity =
  sd_CertPEM :: string
  sd_KeyPEM :: string
  sd_SNI :: string
  sd_ObfsPassword :: string
  sd_SSHPubKey :: string

record deploy_flags =
  fl_region :: string
  fl_plan :: string
  fl_name :: string
  fl_port :: int
  fl_proto :: string
  fl_dest :: string
  fl_timeout :: go_duration
  fl_no_verify :: bool
  fl_no_reality :: bool

text \<open>
  What a deployment finds: the provider, the context of the command, the files, the random sources
  and the renderers of the three boot scripts.
\<close>

record 'w deploy_run =
  dx_api :: "'w deploy_api"
  dx_key :: go_error
  dx_cancelled :: "'w \<Rightarrow> bool"
  dx_session :: deploy_env
  dx_store :: store_env
  dx_address :: "'w address_env"
  dx_fuel :: nat
  dx_node :: "Server \<Rightarrow> 'w node_env"
  dx_now :: string
  dx_unix :: int
  dx_random :: "string + string"
  dx_reality :: "string \<Rightarrow> string + realityIdentity"
  dx_identity :: "string + serverIdentity"
  dx_password :: "string + string"
  dx_hy2_script :: "string \<Rightarrow> int \<Rightarrow> serverIdentity \<Rightarrow> string"
  dx_reality_script :: "int \<Rightarrow> int \<Rightarrow> realityIdentity \<Rightarrow> string"
  dx_dual_script :: "string \<Rightarrow> int \<Rightarrow> int \<Rightarrow> serverIdentity \<Rightarrow> realityIdentity \<Rightarrow> string"
  dx_digest :: "string \<Rightarrow> string"

definition deploy_proto :: "string \<Rightarrow> string option" where
  "deploy_proto proto =
     (let p = to_lower (trim_space proto) in
      if p = [] \<or> p = ''hysteria2'' \<or> p = ''hy2'' then Some ''hysteria2''
      else if p = ''reality'' \<or> p = ''vless'' then Some ''reality''
      else None)"

definition configureDeployedReality :: "Server \<Rightarrow> realityIdentity \<Rightarrow> Server" where
  "configureDeployedReality srv i =
     srv\<lparr>sv_UUID := ri_UUID i, sv_RealityPubKey := ri_PublicKey i, sv_RealityShortID := ri_ShortID i,
         sv_RealityDest := ri_Dest i, sv_RealityMultiplex := True\<rparr>"

text \<open>The identity of the node and its script: an error, or the server and the text.\<close>

definition mint :: "'w deploy_run \<Rightarrow> deploy_flags \<Rightarrow> Server \<Rightarrow> string + Server \<times> string" where
  "mint e fl srv =
     (if isReality srv then
        (case dx_reality e (fl_dest fl) of
           Inl err \<Rightarrow> Inl (''deploy: generate reality identity: '' @ err)
         | Inr i \<Rightarrow> Inr (configureDeployedReality srv i, dx_reality_script e (fl_port fl) (sv_DownMbps srv) i))
      else
        (case dx_identity e of
           Inl err \<Rightarrow> Inl (''deploy: generate server identity: '' @ err)
         | Inr i \<Rightarrow>
             (case dx_password e of
                Inl err \<Rightarrow> Inl (''deploy: generate tunnel password: '' @ err)
              | Inr password \<Rightarrow>
                  let srv = srv\<lparr>sv_Password := password, sv_TLSCertPEM := sd_CertPEM i, sv_SNI := sd_SNI i,
                                sv_Obfs := ''salamander'', sv_ObfsPassword := sd_ObfsPassword i\<rparr>;
                      plain = (srv, dx_hy2_script e password (fl_port fl) i)
                  in if fl_no_reality fl then Inr plain
                     else case dx_reality e (fl_dest fl) of
                       Inl _ \<Rightarrow> Inr plain
                     | Inr r \<Rightarrow> Inr (configureDeployedReality srv r,
                         dx_dual_script e password (fl_port fl) (sv_DownMbps srv) i r))))"

definition assign_address :: "string \<Rightarrow> string \<Rightarrow> Server \<Rightarrow> Server" where
  "assign_address ip ipv6 current = current\<lparr>sv_IP := ip, sv_IPv6 := ipv6\<rparr>"

definition attach_verification :: "nodeVerification \<Rightarrow> Server \<Rightarrow> Server" where
  "attach_verification result current = current\<lparr>sv_Verification := Some result\<rparr>"

text \<open>The entry a change has been applied to, as the caller reads it back.\<close>

definition changed_entry :: "string \<Rightarrow> string \<Rightarrow> store_file \<Rightarrow> Server \<Rightarrow> Server" where
  "changed_entry inst name f srv =
     (case f of Stored ss \<Rightarrow> (case find (names_server inst name) ss of Some s \<Rightarrow> s | None \<Rightarrow> srv) | _ \<Rightarrow> srv)"

text \<open>The wait for the node and what is recorded of it; None is running out of fuel.\<close>

definition finish_verify ::
  "'w deploy_run \<Rightarrow> Server \<Rightarrow> deploymentRecord \<times> deploy_files \<Rightarrow> 'w host \<Rightarrow>
     (go_error \<times> (deploymentRecord \<times> deploy_files) \<times> 'w host) option" where
  "finish_verify e srv s h =
     (case verifyNode (dx_node e srv) srv (h_world h) of
        None \<Rightarrow> None
      | Some ((result, verifyErr), w) \<Rightarrow>
          (case changeServer (dx_store e) (sv_InstanceID srv) (sv_Name srv) (attach_verification result) (h_store h) of
             (storeErr, stored) \<Rightarrow>
               (case stage (dx_session e) (nv_Status result) (verified_stage result verifyErr)
                   ((fst s)\<lparr>dr_Verification := Some result\<rparr>, snd s) of
                  (recordErr, s) \<Rightarrow>
                    Some (map_option (\<lambda>t. ''instance '' @ sv_InstanceID srv @ '' retained and potentially billing; verify with mole server verify '' @
                            sv_Name srv @ '' or destroy with mole server destroy '' @ sv_Name srv @ '': '' @ t)
                            (join_two [verifyErr, storeErr, recordErr]),
                          s, h\<lparr>h_world := w, h_store := stored\<rparr>))))"

definition finish_addressed ::
  "'w deploy_run \<Rightarrow> deploy_flags \<Rightarrow> Server \<Rightarrow> string \<Rightarrow> string \<Rightarrow> deploymentRecord \<times> deploy_files \<Rightarrow> 'w host \<Rightarrow>
     (go_error \<times> (deploymentRecord \<times> deploy_files) \<times> 'w host) option" where
  "finish_addressed e fl srv ip ipv6 s h =
     (case changeServer (dx_store e) (sv_InstanceID srv) (sv_Name srv) (assign_address ip ipv6) (h_store h) of
        (Some err, stored) \<Rightarrow> Some (Some err, s, h\<lparr>h_store := stored\<rparr>)
      | (None, stored) \<Rightarrow>
          let h = h\<lparr>h_store := stored\<rparr>;
              srv = changed_entry (sv_InstanceID srv) (sv_Name srv) stored (assign_address ip ipv6 srv)
          in if fl_no_verify fl then Some (case stage (dx_session e) ''unverified'' None s of (err, s) \<Rightarrow> (err, s, h))
             else (case stage (dx_session e) ''verifying'' None s of
                 (Some err, s) \<Rightarrow> Some (Some err, s, h)
               | (None, s) \<Rightarrow> finish_verify e srv s h))"

definition finishDeploy ::
  "'w deploy_run \<Rightarrow> deploy_flags \<Rightarrow> Server \<Rightarrow> deploymentRecord \<times> deploy_files \<Rightarrow> 'w host \<Rightarrow>
     (go_error \<times> (deploymentRecord \<times> deploy_files) \<times> 'w host) option" where
  "finishDeploy e fl srv s h =
     (let srv = srv\<lparr>sv_CreatedAt := dx_now e\<rparr> in
      case appendServer (dx_store e) srv (h_store h) of
        (Some err, stored) \<Rightarrow>
          Some (Some (''instance '' @ sv_InstanceID srv @ '' exists; recovery identity is in the deployment directory: '' @ err),
                snd (stage (dx_session e) ''local_record_failed'' (Some (OtherError err)) s), h\<lparr>h_store := stored\<rparr>)
      | (None, stored) \<Rightarrow>
          let h = h\<lparr>h_store := stored\<rparr> in
          (case stage (dx_session e) ''waiting_for_address'' None s of
             (Some err, s) \<Rightarrow> Some (Some err, s, h)
           | (None, s) \<Rightarrow>
               (case waitForIP (dx_address e) (dx_fuel e) (sv_InstanceID srv) (h_world h) of
                  None \<Rightarrow> None
                | Some (Inl (t, err), w) \<Rightarrow>
                    Some (Some (''instance '' @ sv_InstanceID srv @ '' retained and potentially billing; retry mole server verify '' @
                            sv_Name srv @ '': '' @ t),
                          snd (stage (dx_session e) ''provisioning'' (Some err) s), h\<lparr>h_world := w\<rparr>)
                | Some (Inr (ip, ipv6), w) \<Rightarrow> finish_addressed e fl srv ip ipv6 s (h\<lparr>h_world := w\<rparr>))))"

text \<open>
  The work of the lifecycle. Its state is the server the cleanup will look at, the session and the host;
  the copy of the key for the daemon is left out.
\<close>

type_synonym 'w deploy_state = "Server \<times> (deploymentRecord \<times> deploy_files) \<times> 'w host"

definition error_text :: "deploy_error \<Rightarrow> string" where
  "error_text err = (case err of DeployError t _ \<Rightarrow> t)"

definition deploy_work ::
  "'w deploy_run \<Rightarrow> deploy_flags \<Rightarrow> string \<Rightarrow> 'w deploy_state \<Rightarrow> go_error \<times> 'w deploy_state" where
  "deploy_work e fl script x =
     (case x of (srv, s, h) \<Rightarrow>
        if dx_cancelled e (h_world h) then (Some ''context canceled'', x)
        else case deployViaVultr (dx_api e) (dx_session e) (dx_key e) (dx_cancelled e) (sv_Name srv) (fl_region fl) (fl_plan fl) script s (h_world h) of
          (Inl err, s, w) \<Rightarrow> (Some (error_text err), srv, s, h\<lparr>h_world := w\<rparr>)
        | (Inr i, s, w) \<Rightarrow>
            let srv = srv\<lparr>sv_InstanceID := i\<rparr>; h = h\<lparr>h_world := w\<rparr> in
            (case stage (dx_session e) ''created'' None ((fst s)\<lparr>dr_InstanceID := i\<rparr>, snd s) of
               (Some err, s) \<Rightarrow> (Some (''instance '' @ i @ '' created but receipt write failed: '' @ err), srv, s, h)
             | (None, s) \<Rightarrow>
                 (case finishDeploy e fl srv s h of
                    None \<Rightarrow> (Some ''out of fuel'', srv, s, h)
                  | Some (err, s, h) \<Rightarrow> (err, srv, s, h))))"

definition deploy_cleanup :: "'w deploy_run \<Rightarrow> 'w deploy_state \<Rightarrow> go_error \<times> 'w deploy_state" where
  "deploy_cleanup e x =
     (case x of (srv, s, h) \<Rightarrow>
        case cleanupInstance (da_api (dx_api e) NoBody) (dx_store e) (dx_session e) srv s h of
          (err, s, h) \<Rightarrow> (err, srv, s, h))"

text \<open>What is checked before anything is created: the server to deploy.\<close>

definition plan_deploy :: "'w deploy_run \<Rightarrow> deploy_flags \<Rightarrow> 'w host \<Rightarrow> string + Server" where
  "plan_deploy e fl h =
     (if fl_timeout fl \<le> 0 then Inl ''--timeout must be positive''
      else case deploy_proto (fl_proto fl) of
        None \<Rightarrow> Inl ''deploy: unknown --proto''
      | Some proto \<Rightarrow>
          let name = (if fl_name fl = [] then fl_region fl @ ''-'' @ itoa (dx_unix e) else fl_name fl) in
          if fl_port fl < 1 \<or> fl_port fl > 65535 then Inl ''port must be in 1..65535''
          else case readServersAt (h_store h) of
            Inl err \<Rightarrow> Inl err
          | Inr servers \<Rightarrow>
              if indexByName servers name \<noteq> None
              then Inl (''server '' @ name @ '' already exists; verify that instance instead'')
              else case dx_random e of
                Inl err \<Rightarrow> Inl err
              | Inr i \<Rightarrow>
                  Inr (configureDeployCeiling (h_ladders h)
                    (zero_server\<lparr>sv_Name := name, sv_Region := fl_region fl, sv_Port := word_of_int (fl_port fl),
                                 sv_Proto := proto, sv_DeployID := i\<rparr>)))"

definition runDeploy ::
  "'w deploy_run \<Rightarrow> deploy_flags \<Rightarrow> deploy_files \<Rightarrow> 'w host \<Rightarrow> go_error \<times> deploy_files \<times> 'w host" where
  "runDeploy e fl f h =
     (case plan_deploy e fl h of
        Inl err \<Rightarrow> (Some err, f, h)
      | Inr srv \<Rightarrow>
          (case mint e fl srv of
             Inl err \<Rightarrow> (Some err, f, h)
           | Inr (srv, script) \<Rightarrow>
               (case newDeploySession (dx_session e) srv (dx_digest e script) f of
                  (Inl err, f) \<Rightarrow> (Some err, f, h)
                | (Inr r, f) \<Rightarrow>
                    (case runDeployLifecycle (\<lambda>(_, _, h). dx_cancelled e (h_world h)) (deploy_work e fl script) (deploy_cleanup e) (srv, (r, f), h) of
                       (err, _, s, h) \<Rightarrow> (err, snd s, h)))))"

section \<open>What is asked of the provider\<close>

text \<open>Every API of the provider keeps time and the journal, and a pause adds nothing to it.\<close>

definition logs_calls :: "'w deploy_api \<Rightarrow> ('w \<Rightarrow> (string \<times> string) list) \<Rightarrow> bool" where
  "logs_calls d log =
     ((\<forall>b. time_passes (da_api d b) \<and> journals (da_api d b) log) \<and> (\<forall>t w. log (da_sleep d t w) = log w))"

definition calls_made :: "('w \<Rightarrow> (string \<times> string) list) \<Rightarrow> (string \<times> string) set \<Rightarrow> 'w \<Rightarrow> 'w \<Rightarrow> bool" where
  "calls_made log A w w' = (\<exists>ls. log w' = log w @ ls \<and> set ls \<subseteq> A)"

lemma calls_made_refl [simp]: "calls_made log A w w"
  by (auto simp: calls_made_def)

lemma calls_made_trans [trans]: "calls_made log A w w' \<Longrightarrow> calls_made log A w' w'' \<Longrightarrow> calls_made log A w w''"
  by (force simp: calls_made_def)

lemma calls_made_mono: "calls_made log A w w' \<Longrightarrow> A \<subseteq> B \<Longrightarrow> calls_made log B w w'"
  by (auto simp: calls_made_def)

lemma call_log:
  assumes "logs_calls d log" and "da_call d budget verb path body w = (r, w')"
  shows "\<exists>n. log w' = log w @ replicate n (verb, path) \<and> (\<not> idempotent verb \<longrightarrow> n \<le> 1)"
proof -
  have "time_passes (da_api d body)" "journals (da_api d body) log" using assms(1) by (auto simp: logs_calls_def)
  from management_contract [OF this, of budget verb path w] show ?thesis
    using assms(2) by (auto simp: da_call_def call_api_def)
qed

lemma call_asks:
  assumes "logs_calls d log" and "da_call d budget verb path body w = (r, w')" and "(verb, path) \<in> A"
  shows "calls_made log A w w'"
proof -
  obtain n where "log w' = log w @ replicate n (verb, path)" using call_log [OF assms(1,2)] by blast
  then show ?thesis using assms(3) by (auto simp: calls_made_def)
qed

text \<open>Nothing but reading, and creating things that cost nothing.\<close>

definition free_calls :: "(string \<times> string) set" where
  "free_calls = {(verb, path). verb = ''GET'' \<or> (verb = ''POST'' \<and> path \<noteq> ''/instances'')}"

lemma free_calls_mem [simp]:
  "(''GET'', path) \<in> free_calls" "(''POST'', path) \<in> free_calls \<longleftrightarrow> path \<noteq> ''/instances''"
  by (auto simp: free_calls_def)

declare find_script.simps [simp del]

lemma find_script_asks:
  assumes "logs_calls d log" and "find_script d name seen path w = (r, w')"
  shows "calls_made log free_calls w w'"
  using assms
proof (induction d name seen path w rule: find_script.induct)
  case (1 d name seen path w)
  obtain c w1 where c: "da_call d (30 * go_second) ''GET'' path NoBody w = (c, w1)" by fastforce
  have a: "calls_made log free_calls w w1" by (rule call_asks [OF 1(2) c]) simp
  show ?case
  proof (cases "path = [] \<or> path \<in> set seen \<or> length seen \<ge> 1000 \<or> w' = w1")
    case True
    then show ?thesis using 1(3) a by (auto simp: find_script.simps [of d name seen path w] split: if_splits)
  next
    case False
    then obtain resp scripts link path' where b: "c = Inr resp" "da_page d resp = Inr (scripts, link)"
        "find (\<lambda>s. snd s = name) scripts = None" "link \<noteq> []" "next_page d link = Inr path'"
        "find_script d name (path # seen) path' w1 = (r, w')"
      using 1(3) c by (auto simp: find_script.simps [of d name seen path w] split: if_splits sum.splits option.splits)
    have "calls_made log free_calls w1 w'"
      by (rule "1.IH" [OF _ _ c [symmetric] b(1) b(2) _ b(3) b(4) b(5) 1(2) b(6)]) (use False in auto)
    with a show ?thesis by (rule calls_made_trans)
  qed
qed

lemma reuse_asks:
  assumes "logs_calls d log" and "reuse_script d name encoded i w = (r, w')"
  shows "calls_made log free_calls w w'"
proof -
  obtain c w1 where c: "da_call d (30 * go_second) ''GET'' (''/startup-scripts/'' @ PathEscape i) NoBody w = (c, w1)" by fastforce
  have "w' = w1" using assms(2) by (auto simp only: reuse_script_def c prod.case split: sum.splits if_splits)
  then show ?thesis using call_asks [OF assms(1) c] by simp
qed

lemma script_rounds_asks:
  assumes "logs_calls d log" and "script_rounds d name encoded rounds lastErr w = (r, w')"
  shows "calls_made log free_calls w w'"
  using assms(2)
proof (induction rounds arbitrary: lastErr w)
  case (Cons round rounds)
  obtain c w1 where c: "da_call d (60 * go_second) ''POST'' ''/startup-scripts'' (ScriptBody name encoded) w = (c, w1)" by fastforce
  have a: "calls_made log free_calls w w1" by (rule call_asks [OF assms(1) c]) simp
  obtain found w2 where f: "findStartupScriptByName d name w1 = (found, w2)" by fastforce
  have b: "calls_made log free_calls w w2"
    using calls_made_trans [OF a find_script_asks [OF assms(1) f [unfolded findStartupScriptByName_def]]] .
  consider "w' = w1" | "w' = w2" | i where "found = Inr (Some i)" "reuse_script d name encoded i w2 = (r, w')"
    | t where "log t = log w2" "script_rounds d name encoded rounds (Some (projl c)) t = (r, w')"
    using Cons.prems c f assms(1)
    by (auto simp: logs_calls_def split: sum.splits api_error.splits option.splits deploy_error.splits if_splits)
  then show ?case
  proof cases
    case 3
    then show ?thesis using calls_made_trans [OF b reuse_asks [OF assms(1)]] by blast
  next
    case (4 t)
    have "calls_made log free_calls t w'" by (rule Cons.IH [OF 4(2)])
    then have "calls_made log free_calls w2 w'" using 4(1) by (simp add: calls_made_def)
    with b show ?thesis by (rule calls_made_trans)
  qed (use a b in auto)
qed simp

lemma rules_path: "(''POST'', ''/firewalls/'' @ i @ ''/rules'') \<in> free_calls"
  by simp

lemma add_rules_asks:
  assumes "logs_calls d log" and "add_rules d grp keys rs w = (r, w')"
  shows "calls_made log free_calls w w'"
  using assms(2)
proof (induction rs arbitrary: w)
  case (Cons x rs)
  obtain c w1 where c: "da_call d (30 * go_second) ''POST'' (''/firewalls/'' @ grp @ ''/rules'') (RuleBody x) w = (c, w1)" by fastforce
  have a: "calls_made log free_calls w w1" by (rule call_asks [OF assms(1) c rules_path])
  consider "add_rules d grp keys rs w = (r, w')" | "w' = w1" | "add_rules d grp keys rs w1 = (r, w')"
    using Cons.prems by (auto simp only: add_rules.simps c prod.case split: sum.splits if_splits)
  then show ?case
  proof cases
    case 3
    then show ?thesis using calls_made_trans [OF a Cons.IH] by blast
  qed (use a Cons.IH in auto)
qed simp

lemma ensure_rules_asks:
  assumes "logs_calls d log" and "ensureFirewallRules d grp w = (r, w')"
  shows "calls_made log free_calls w w'"
proof -
  obtain c w1 where c: "da_call d (30 * go_second) ''GET'' (''/firewalls/'' @ grp @ ''/rules'') NoBody w = (c, w1)" by fastforce
  have a: "calls_made log free_calls w w1" by (rule call_asks [OF assms(1) c]) simp
  have "w' = w1 \<or> (\<exists>keys. add_rules d grp keys moleFirewallRules w1 = (r, w'))"
    using assms(2) by (auto simp only: ensureFirewallRules_def c prod.case split: sum.splits)
  then show ?thesis using a calls_made_trans [OF a add_rules_asks [OF assms(1)]] by blast
qed

lemma ensure_group_asks:
  assumes "logs_calls d log" and "ensureFirewallGroup d w = (r, w')"
  shows "calls_made log free_calls w w'"
proof -
  obtain c w1 where c: "da_call d (30 * go_second) ''GET'' ''/firewalls'' NoBody w = (c, w1)" by fastforce
  have a: "calls_made log free_calls w w1" by (rule call_asks [OF assms(1) c]) simp
  obtain g w2 where g: "da_call d (30 * go_second) ''POST'' ''/firewalls'' (GroupBody moleFirewallGroup) w1 = (g, w2)" by fastforce
  have b: "calls_made log free_calls w w2" by (rule calls_made_trans [OF a call_asks [OF assms(1) g]]) simp
  have "w' = w1 \<or> w' = w2 \<or> (\<exists>i e v. (v = w1 \<or> v = w2) \<and> ensureFirewallRules d i v = (e, w'))"
    using assms(2) c g by (fastforce simp: ensureFirewallGroup_def split: sum.splits option.splits prod.splits if_splits)
  then show ?thesis using a b calls_made_trans [OF a ensure_rules_asks [OF assms(1)]] calls_made_trans [OF b ensure_rules_asks [OF assms(1)]] by blast
qed

lemma stage_of [simp]: "dr_Stage (fst (snd (stage e name err s))) = name"
  by (auto simp: stage_def Let_def split: prod.splits)

lemma create_once:
  assumes "logs_calls d log" and "create_instance d e body s w = (r, s', w')"
  shows "\<exists>n. log w' = log w @ replicate n (''POST'', ''/instances'') \<and> n \<le> 1 \<and>
    (case r of Inr i \<Rightarrow> i \<noteq> [] \<and> s' = s | Inl _ \<Rightarrow> dr_Stage (fst s') = ''instance_creation_unconfirmed'')"
proof -
  obtain c w1 where c: "da_call d (60 * go_second) ''POST'' ''/instances'' body w = (c, w1)" by fastforce
  have "w' = w1 \<and> (case r of Inr i \<Rightarrow> i \<noteq> [] \<and> s' = s | Inl _ \<Rightarrow> dr_Stage (fst s') = ''instance_creation_unconfirmed'')"
    using assms(2) [unfolded create_instance_def c prod.case] by (auto split: sum.splits if_splits)
  then show ?thesis using call_log [OF assms(1) c] by (auto simp: idempotent_def)
qed

text \<open>The provisioning before the instance: None if it goes no further.\<close>

lemma provision_stages:
  assumes "logs_calls d log" and "deployViaVultr d e key cancelled name region plan script s w = (r, s', w')"
  shows "(isl r \<and> calls_made log free_calls w w') \<or>
    (\<exists>body s1 w1. calls_made log free_calls w w1 \<and> dr_Stage (fst s1) = ''creating_instance'' \<and> create_instance d e body s1 w1 = (r, s', w'))"
proof (cases "key = None")
  case False
  then show ?thesis using assms(2) by (auto simp: deployViaVultr_def)
next
  case key: True
  obtain e1 s1 where s1: "stage e ''creating_startup_script'' None s = (e1, s1)" by (metis surj_pair)
  obtain c w1 where c: "createStartupScript d (name @ ''-'' @ dr_ID (fst s1)) script w = (c, w1)" by fastforce
  have a: "calls_made log free_calls w w1" by (rule script_rounds_asks [OF assms(1) c [unfolded createStartupScript_def]])
  obtain fw fe w2 where f: "ensureFirewallGroup d w1 = ((fw, fe), w2)" by (metis surj_pair)
  have b: "calls_made log free_calls w w2" by (rule calls_made_trans [OF a ensure_group_asks [OF assms(1) f]])
  have "key \<noteq> None \<longleftrightarrow> False" using key by simp
  note run = assms(2) [unfolded deployViaVultr_def this if_False s1 prod.case c]
  show ?thesis
  proof (cases "e1 = None \<and> \<not> isl c")
    case False
    then show ?thesis using run a by (cases e1; cases c) (auto split: deploy_error.splits)
  next
    case True
    then obtain i where i: "c = Inr i" "e1 = None" by (cases c) auto
    obtain e2 s2 where s2: "stage e ''preparing_firewall'' None ((fst s1)\<lparr>dr_ScriptID := i\<rparr>, snd s1) = (e2, s2)" by (metis surj_pair)
    obtain e3 s3 where s3: "stage e ''creating_instance'' None s2 = (e3, s3)" by (metis surj_pair)
    have stage3: "dr_Stage (fst s3) = ''creating_instance''" using stage_of [of e "''creating_instance''" None s2] by (simp add: s3)
    note run = run [unfolded i option.case sum.case prod.case s2 f s3]
    show ?thesis
    proof (cases "e2 = None \<and> e3 = None \<and> \<not> cancelled w2")
      case True
      then have "create_instance d e (instance_body region plan name i fw) s3 w2 = (r, s', w')" using run by simp
      with b stage3 show ?thesis by blast
    qed (use run a b in \<open>auto split: option.splits if_splits\<close>)
  qed
qed

section \<open>Properties\<close>

text \<open>C15: At most one instance is ever asked for, whatever fails. Everything before the request only reads or
  creates things that cost nothing, the request is sent once at most and is the last call, and it is
  on record: a deployment that returns an instance is in the stage that asked for it, and one that
  asked and got no clear answer is marked as unconfirmed.\<close>
theorem one_instance_per_deployment:
  assumes "logs_calls d log" and "deployViaVultr d e key cancelled name region plan script s w = (r, s', w')"
  shows "\<exists>before posts. log w' = log w @ before @ replicate posts (''POST'', ''/instances'') \<and> posts \<le> 1 \<and>
    (\<forall>call \<in> set before. fst call = ''GET'' \<or> fst call = ''POST'' \<and> snd call \<noteq> ''/instances'') \<and>
    (case r of
       Inr i \<Rightarrow> i \<noteq> [] \<and> dr_Stage (fst s') = ''creating_instance''
     | Inl _ \<Rightarrow> posts = 1 \<longrightarrow> dr_Stage (fst s') = ''instance_creation_unconfirmed'')"
proof -
  have free: "\<forall>call \<in> set ls. fst call = ''GET'' \<or> fst call = ''POST'' \<and> snd call \<noteq> ''/instances''" if "set ls \<subseteq> free_calls" for ls
    using that by (force simp: free_calls_def)
  from provision_stages [OF assms] show ?thesis
  proof
    assume "isl r \<and> calls_made log free_calls w w'"
    then obtain ls where "log w' = log w @ ls" "set ls \<subseteq> free_calls" "isl r" by (auto simp: calls_made_def)
    then show ?thesis using free [of ls] by (intro exI [of _ ls] exI [of _ 0]) (cases r, auto)
  next
    assume "\<exists>body s1 w1. calls_made log free_calls w w1 \<and> dr_Stage (fst s1) = ''creating_instance'' \<and> create_instance d e body s1 w1 = (r, s', w')"
    then obtain body s1 w1 where a: "calls_made log free_calls w w1" and s1: "dr_Stage (fst s1) = ''creating_instance''"
      and c: "create_instance d e body s1 w1 = (r, s', w')" by blast
    obtain ls where ls: "log w1 = log w @ ls" "set ls \<subseteq> free_calls" using a by (auto simp: calls_made_def)
    obtain n where n: "log w' = log w1 @ replicate n (''POST'', ''/instances'')" "n \<le> 1"
      "case r of Inr i \<Rightarrow> i \<noteq> [] \<and> s' = s1 | Inl _ \<Rightarrow> dr_Stage (fst s') = ''instance_creation_unconfirmed''"
      using create_once [OF assms(1) c] by blast
    show ?thesis using ls n s1 free [of ls] by (intro exI [of _ ls] exI [of _ n]) (cases r, auto)
  qed
qed

section \<open>Scripts are told apart by their content\<close>

lemma base64_alphabet_ok: "length base64_alphabet = 64" "distinct base64_alphabet" "CHR ''='' \<notin> set base64_alphabet"
  by (simp_all add: base64_alphabet_def)

lemma base64_char_inject: "m < 64 \<Longrightarrow> n < 64 \<Longrightarrow> base64_char m = base64_char n \<longleftrightarrow> m = n"
  using base64_alphabet_ok by (simp add: base64_char_def nth_eq_iff_index_eq)

lemma base64_char_plain: "n < 64 \<Longrightarrow> base64_char n \<noteq> CHR ''=''"
  using base64_alphabet_ok(1,3) nth_mem [of n base64_alphabet] unfolding base64_char_def by metis

lemma byte_bound: "(of_char c :: nat) < 256"
  by simp

lemma sextets: "k = (k div 262144) * 262144 + (k div 4096 mod 64) * 4096 + (k div 64 mod 64) * 64 + k mod (64 :: nat)"
proof -
  have "k div 4096 = k div 64 div 64" "k div 262144 = k div 4096 div 64"
    using div_mult2_eq [of k 64 64] div_mult2_eq [of k 4096 64] by simp_all
  moreover have "k = k div 64 * 64 + k mod 64" "k div 64 = k div 64 div 64 * 64 + k div 64 mod 64"
    "k div 4096 = k div 4096 div 64 * 64 + k div 4096 mod 64" by simp_all
  ultimately show ?thesis by linarith
qed

lemma digits_inject:
  fixes m n :: nat
  assumes "m div 262144 = n div 262144" and "m div 4096 mod 64 = n div 4096 mod 64"
    and "m div 64 mod 64 = n div 64 mod 64" and "m mod 64 = n mod 64"
  shows "m = n"
  using sextets [of m] sextets [of n] assms by metis

lemma byte_le: "(of_char c :: nat) \<le> 255"
  using byte_bound [of c] by linarith

lemma pair_bound: "((of_char a :: nat) * 256 + of_char b) * 4 < 262144"
proof -
  have "(of_char a :: nat) * 1024 + of_char b * 4 < 262144" using byte_le [of a] byte_le [of b] by linarith
  then show ?thesis by (simp add: distrib_right)
qed

lemma byte_inject: "(of_char a :: nat) = of_char b \<longleftrightarrow> a = b"
  by simp

lemma byte_digits:
  fixes A B A' B' :: nat
  assumes "A * 256 + B = A' * 256 + B'" "B < 256" "B' < 256"
  shows "A = A'" "B = B'"
proof -
  have "(A * 256 + B) div 256 = A" "(A' * 256 + B') div 256 = A'" "(A * 256 + B) mod 256 = B" "(A' * 256 + B') mod 256 = B'"
    using assms(2,3) by simp_all
  then show "A = A'" "B = B'" using assms(1) by metis+
qed

lemma base64_pad: "CHR ''='' \<noteq> base64_char (n mod 64)" "base64_char (n mod 64) \<noteq> CHR ''=''"
  using base64_char_plain [of "n mod 64"] by (simp_all add: eq_commute)

lemma sextet_eq:
  fixes m n :: nat
  assumes "m < 16777216" "n < 16777216"
    and "base64_char (m div 262144) = base64_char (n div 262144)" "base64_char (m div 4096 mod 64) = base64_char (n div 4096 mod 64)"
    and "base64_char (m div 64 mod 64) = base64_char (n div 64 mod 64)" "base64_char (m mod 64) = base64_char (n mod 64)"
  shows "m = n"
proof (rule digits_inject)
  have "m div 262144 < 64" "n div 262144 < 64" using assms(1,2) by (simp_all add: less_mult_imp_div_less)
  then show "m div 262144 = n div 262144" using assms(3) base64_char_inject by blast
qed (use assms(4-6) in \<open>simp_all add: base64_char_inject\<close>)

lemma base64_inject: "base64_std x = base64_std y \<Longrightarrow> x = y"
proof (induction x arbitrary: y rule: base64_std.induct)
  case 1
  then show ?case by (cases y rule: base64_std.cases) (simp_all add: Let_def)
next
  case (2 a)
  show ?case
  proof (cases y rule: base64_std.cases)
    case (2 b)
    let ?m = "of_char a * 16 :: nat" and ?n = "of_char b * 16 :: nat"
    have bounds: "of_char a < (256 :: nat)" "of_char b < (256 :: nat)" by simp_all
    have "?m < 4096" "?n < 4096" using bounds by linarith+
    then have small: "?m div 262144 = 0" "?n div 262144 = 0" "?m div 4096 = 0" "?n div 4096 = 0"
      "?m div 64 mod 64 = ?m div 64" "?n div 64 mod 64 = ?n div 64" "?m < 16777216" "?n < 16777216"
      by (simp_all only: div_less less_mult_imp_div_less mod_less)
    have "base64_char (?m div 64) = base64_char (?n div 64)" "base64_char (?m mod 64) = base64_char (?n mod 64)"
      using "2.prems" 2 unfolding base64_std.simps Let_def by simp_all
    then have "?m = ?n" using small by (intro sextet_eq) (simp_all only:)
    then show ?thesis using 2 byte_inject by simp
  qed (use "2.prems" base64_pad in \<open>simp_all only: base64_std.simps Let_def list.inject list.distinct simp_thms\<close>)
next
  case (3 a b)
  show ?case
  proof (cases y rule: base64_std.cases)
    case (3 c d)
    let ?m = "(of_char a * 256 + of_char b) * 4 :: nat" and ?n = "(of_char c * 256 + of_char d) * 4 :: nat"
    have bounds: "of_char a < (256 :: nat)" "of_char b < (256 :: nat)" "of_char c < (256 :: nat)" "of_char d < (256 :: nat)" by simp_all
    have small: "?m < 262144" "?n < 262144" by (rule pair_bound)+
    have digits: "base64_char (?m div 4096) = base64_char (?n div 4096)" "base64_char (?m div 64 mod 64) = base64_char (?n div 64 mod 64)"
      "base64_char (?m mod 64) = base64_char (?n mod 64)"
      using "3.prems" [unfolded 3 base64_std.simps Let_def list.inject] by blast+
    have "?m div 262144 = 0" "?n div 262144 = 0" "?m div 4096 mod 64 = ?m div 4096" "?n div 4096 mod 64 = ?n div 4096"
      using small by (simp_all add: less_mult_imp_div_less)
    then have "?m = ?n" using small digits by (intro sextet_eq) simp_all
    then have eq: "of_char a * 256 + of_char b = (of_char c * 256 + of_char d :: nat)" by simp
    show ?thesis using 3 byte_digits [OF eq bounds(2,4)] by simp
  qed (use "3.prems" base64_pad in \<open>simp_all only: base64_std.simps Let_def list.inject list.distinct simp_thms\<close>)
next
  case (4 a b c cs)
  show ?case
  proof (cases y rule: base64_std.cases)
    case (4 a' b' c' ds)
    let ?m = "of_char a * 65536 + of_char b * 256 + of_char c :: nat" and ?n = "of_char a' * 65536 + of_char b' * 256 + of_char c' :: nat"
    have bounds: "of_char a < (256 :: nat)" "of_char b < (256 :: nat)" "of_char c < (256 :: nat)"
      "of_char a' < (256 :: nat)" "of_char b' < (256 :: nat)" "of_char c' < (256 :: nat)" by simp_all
    have digits: "base64_char (?m div 262144) = base64_char (?n div 262144)" "base64_char (?m div 4096 mod 64) = base64_char (?n div 4096 mod 64)"
        "base64_char (?m div 64 mod 64) = base64_char (?n div 64 mod 64)" "base64_char (?m mod 64) = base64_char (?n mod 64)"
      and rest: "base64_std cs = base64_std ds"
      using "4.prems" [unfolded 4 base64_std.simps Let_def list.inject] by blast+
    have "of_char a \<le> (255 :: nat)" "of_char b \<le> (255 :: nat)" "of_char c \<le> (255 :: nat)"
      "of_char a' \<le> (255 :: nat)" "of_char b' \<le> (255 :: nat)" "of_char c' \<le> (255 :: nat)" by (rule byte_le)+
    then have "?m < 16777216" "?n < 16777216" by linarith+
    then have "?m = ?n" by (rule sextet_eq [OF _ _ digits])
    then have eq: "(of_char a * 256 + of_char b) * 256 + of_char c = ((of_char a' * 256 + of_char b') * 256 + of_char c' :: nat)" by simp
    have "of_char c = (of_char c' :: nat)" "of_char a * 256 + of_char b = (of_char a' * 256 + of_char b' :: nat)"
      using byte_digits [OF eq bounds(3,6)] by simp_all
    moreover from this have "of_char a = (of_char a' :: nat)" "of_char b = (of_char b' :: nat)"
      using byte_digits [OF _ bounds(2,5)] by blast+
    ultimately show ?thesis using 4 byte_inject "4.IH" [OF _ rest] by auto
  qed (use "4.prems" base64_pad in \<open>simp_all only: base64_std.simps Let_def list.inject list.distinct simp_thms\<close>)
qed

text \<open>What a call has answered, in some world.\<close>

definition answered :: "'w deploy_api \<Rightarrow> go_duration \<Rightarrow> string \<Rightarrow> string \<Rightarrow> deploy_body \<Rightarrow> string \<Rightarrow> bool" where
  "answered d budget verb path body resp = (\<exists>w. fst (da_call d budget verb path body w) = Inr resp)"

definition script_created :: "'w deploy_api \<Rightarrow> string \<Rightarrow> string \<Rightarrow> string \<Rightarrow> bool" where
  "script_created d name encoded i =
     (\<exists>resp. answered d (60 * go_second) ''POST'' ''/startup-scripts'' (ScriptBody name encoded) resp \<and> da_id d ''startup_script'' resp = Inr i)"

definition script_holds :: "'w deploy_api \<Rightarrow> string \<Rightarrow> string \<Rightarrow> bool" where
  "script_holds d encoded i =
     (\<exists>resp. answered d (30 * go_second) ''GET'' (''/startup-scripts/'' @ PathEscape i) NoBody resp \<and> da_text d resp = Inr encoded)"

lemma reuse_holds:
  assumes "reuse_script d name encoded i w = (Inr j, w')"
  shows "j = i \<and> script_holds d encoded i"
proof -
  obtain c w1 where c: "da_call d (30 * go_second) ''GET'' (''/startup-scripts/'' @ PathEscape i) NoBody w = (c, w1)" by fastforce
  then obtain resp where r: "c = Inr resp" "da_text d resp = Inr encoded" "j = i"
    using assms [unfolded reuse_script_def c prod.case] by (auto split: sum.splits if_splits)
  then have "answered d (30 * go_second) ''GET'' (''/startup-scripts/'' @ PathEscape i) NoBody resp"
    using c unfolding answered_def by (metis fst_conv)
  with r show ?thesis unfolding script_holds_def by blast
qed

lemma script_rounds_result:
  assumes "script_rounds d name encoded rounds lastErr w = (Inr i, w')"
  shows "script_created d name encoded i \<or> script_holds d encoded i"
  using assms
proof (induction rounds arbitrary: lastErr w)
  case (Cons round rounds)
  obtain c w1 where c: "da_call d (60 * go_second) ''POST'' ''/startup-scripts'' (ScriptBody name encoded) w = (c, w1)" by fastforce
  obtain found w2 where f: "findStartupScriptByName d name w1 = (found, w2)" by fastforce
  note run = Cons.prems [unfolded script_rounds.simps c prod.case f]
  consider resp where "c = Inr resp" "da_id d ''startup_script'' resp = Inr i"
    | j where "reuse_script d name encoded j w2 = (Inr i, w')"
    | t where "script_rounds d name encoded rounds (Some (projl c)) t = (Inr i, w')"
    using run by (auto split: sum.splits api_error.splits option.splits deploy_error.splits if_splits)
  then show ?case
  proof cases
    case 1
    then have "answered d (60 * go_second) ''POST'' ''/startup-scripts'' (ScriptBody name encoded) resp"
      using c unfolding answered_def by (metis fst_conv)
    with 1(2) show ?thesis unfolding script_created_def by blast
  next
    case (2 j)
    then show ?thesis using reuse_holds [OF 2] by simp
  next
    case (3 t)
    then show ?thesis by (rule Cons.IH)
  qed
qed simp

text \<open>A startup script is never another's. The script that is used was created from the given text, or was
  found and reads, decoded, exactly as the given text: two texts never share an encoding, so that a
  name alone is never taken for an identity.\<close>
theorem script_is_ours:
  assumes "createStartupScript d name script w = (Inr i, w')"
  shows "(script_created d name (base64_std script) i \<or> script_holds d (base64_std script) i) \<and>
    (\<forall>other. base64_std other = base64_std script \<longrightarrow> other = script)"
  using script_rounds_result [OF assms [unfolded createStartupScript_def]] base64_inject [of _ script] by auto

section \<open>The firewall is complete\<close>

lemma port_spelling_dash:
  assumes "CHR '' '' \<notin> set p" "CHR ''-'' \<notin> set p" "CHR '':'' \<notin> set p"
  shows "port_spelling (p @ '' - '' @ p) = p" and "port_spelling (p @ ''-'' @ p) = p" and "port_spelling (p @ '':'' @ p) = p"
    and "port_spelling p = p"
proof -
  have plain: "concat (map (\<lambda>c. if c = CHR '' '' then [] else if c = CHR ''-'' then '':'' else [c]) p) = p"
    using assms(1,2) by (induction p) auto
  have cut: "takeWhile (\<lambda>c. c \<noteq> CHR '':'') (p @ CHR '':'' # p) = p"
    using assms(3) by (subst takeWhile_append2) auto
  show "port_spelling (p @ '' - '' @ p) = p" "port_spelling (p @ ''-'' @ p) = p" "port_spelling (p @ '':'' @ p) = p"
    by (simp_all add: port_spelling_def plain cut Let_def)
  show "port_spelling p = p" using assms(3) by (simp add: port_spelling_def plain Let_def)
qed

lemma add_rules_complete:
  assumes "add_rules d grp keys rs w = (None, w')"
  shows "\<forall>r \<in> set rs. rule_key r \<in> keys \<or>
    (\<exists>resp. answered d (30 * go_second) ''POST'' (''/firewalls/'' @ grp @ ''/rules'') (RuleBody r) resp)"
  using assms
proof (induction rs arbitrary: w)
  case (Cons x rs)
  obtain c w1 where c: "da_call d (30 * go_second) ''POST'' (''/firewalls/'' @ grp @ ''/rules'') (RuleBody x) w = (c, w1)" by fastforce
  note run = Cons.prems [unfolded add_rules.simps c prod.case]
  show ?case
  proof (cases "rule_key x \<in> keys")
    case True
    then show ?thesis using run Cons.IH [of w] by simp
  next
    case False
    then obtain resp where r: "c = Inr resp" "add_rules d grp keys rs w1 = (None, w')" using run by (auto split: sum.splits)
    then have "answered d (30 * go_second) ''POST'' (''/firewalls/'' @ grp @ ''/rules'') (RuleBody x) resp"
      using c unfolding answered_def by (metis fst_conv)
    then show ?thesis using Cons.IH [OF r(2)] by (metis set_ConsD)
  qed
qed simp

text \<open>A firewall group that is returned without an error lets everything in that a node serves: for each of
  the rules the group either lists one of the same family, protocol and port, however its port is
  spelled, or has accepted it.\<close>
theorem firewall_group_is_complete:
  assumes "ensureFirewallGroup d w = ((i, None), w')"
  shows "\<exists>listed existing. answered d (30 * go_second) ''GET'' (''/firewalls/'' @ i @ ''/rules'') NoBody listed \<and> da_rules d listed = Inr existing \<and>
    (\<forall>r \<in> set moleFirewallRules.
       (\<exists>(t, p, q) \<in> set existing. firewallRuleKey t p q = rule_key r) \<or>
       (\<exists>resp. answered d (30 * go_second) ''POST'' (''/firewalls/'' @ i @ ''/rules'') (RuleBody r) resp))"
proof -
  obtain v where v: "ensureFirewallRules d i v = (None, w')"
    using assms by (fastforce simp: ensureFirewallGroup_def split: sum.splits option.splits prod.splits if_splits)
  obtain c w1 where c: "da_call d (30 * go_second) ''GET'' (''/firewalls/'' @ i @ ''/rules'') NoBody v = (c, w1)" by fastforce
  then obtain listed existing where l: "c = Inr listed" "da_rules d listed = Inr existing"
    and a: "add_rules d i (set (map (\<lambda>(t, p, q). firewallRuleKey t p q) existing)) moleFirewallRules w1 = (None, w')"
    using v [unfolded ensureFirewallRules_def c prod.case] by (auto split: sum.splits)
  have "answered d (30 * go_second) ''GET'' (''/firewalls/'' @ i @ ''/rules'') NoBody listed"
    using c l(1) unfolding answered_def by (metis fst_conv)
  moreover have "(\<exists>(t, p, q) \<in> set existing. firewallRuleKey t p q = rule_key r) \<or>
      (\<exists>resp. answered d (30 * go_second) ''POST'' (''/firewalls/'' @ i @ ''/rules'') (RuleBody r) resp)"
    if "r \<in> set moleFirewallRules" for r
    using add_rules_complete [OF a] that by (fastforce simp: image_iff)
  ultimately show ?thesis using l(2) by blast
qed

section \<open>A deployment that succeeds\<close>

lemma create_some: "create_instance d e body s w = (Inr i, s', w') \<Longrightarrow> i \<noteq> []"
  by (auto simp: create_instance_def split: sum.splits prod.splits if_splits)

lemma provision_some: "deployViaVultr d e key cancelled name region plan script s w = (Inr i, s', w') \<Longrightarrow> i \<noteq> []"
  by (auto simp: deployViaVultr_def dest: create_some split: if_splits prod.splits option.splits sum.splits deploy_error.splits)

lemma change_first_find:
  "change_first p f ss = Some ss' \<Longrightarrow> (\<And>s. p s \<Longrightarrow> p (f s)) \<Longrightarrow> \<exists>x. find p ss = Some x \<and> p x \<and> find p ss' = Some (f x)"
  by (induction ss arbitrary: ss') (auto split: if_splits)

lemma changed_find:
  assumes "changeServer e inst name f stored = (None, stored')" and "\<And>s. names_server inst name s \<Longrightarrow> names_server inst name (f s)"
  shows "\<exists>x ss ss'. readServersAt stored = Inr ss \<and> stored' = Stored ss' \<and> find (names_server inst name) ss = Some x \<and>
    names_server inst name x \<and> find (names_server inst name) ss' = Some (f x)"
proof -
  obtain ss ss' where s: "readServersAt stored = Inr ss" "change_server inst name f ss = Inr ss'" "stored' = Stored ss'"
    using updateServersAt_None [OF assms(1) [unfolded changeServer_def]] by blast
  then have "change_first (names_server inst name) f ss = Some ss'" by (auto simp: change_server_def split: option.splits)
  from change_first_find [OF this assms(2)] s show ?thesis by blast
qed

lemma names_by_instance: "inst \<noteq> [] \<Longrightarrow> names_server inst name = (\<lambda>s. sv_InstanceID s = inst)"
  by (auto simp: names_server_def)

definition recorded_ready :: "string \<Rightarrow> nodeVerification \<Rightarrow> store_file \<Rightarrow> bool" where
  "recorded_ready inst result f =
     (case f of
        Stored ss \<Rightarrow>
          (case find (\<lambda>s. sv_InstanceID s = inst) ss of
             Some s \<Rightarrow> sv_Verification s = Some result \<and> list_all (\<lambda>leg. leg_ok (get_leg leg result)) (wanted_legs s)
           | None \<Rightarrow> False)
      | _ \<Rightarrow> False)"

lemma finish_verify_None:
  assumes "finish_verify e srv s h = Some (None, s', h')" and "sv_InstanceID srv = i" "i \<noteq> []"
    and "readServersAt (h_store h) = Inr ss" "find (\<lambda>s. sv_InstanceID s = i) ss = Some srv"
  shows "\<exists>result. nv_Status result = ''ready'' \<and> recorded_ready i result (h_store h') \<and> receipted result (df_receipt (snd s'))"
proof -
  obtain result verr w where v: "verifyNode (dx_node e srv) srv (h_world h) = Some ((result, verr), w)"
    using assms(1) by (auto simp: finish_verify_def split: option.splits)
  obtain serr stored where c: "changeServer (dx_store e) i (sv_Name srv) (attach_verification result) (h_store h) = (serr, stored)" by fastforce
  obtain rerr r f where t: "stage (dx_session e) (nv_Status result) (verified_stage result verr)
      ((fst s)\<lparr>dr_Verification := Some result\<rparr>, snd s) = (rerr, r, f)" by (metis prod_cases3)
  have none: "verr = None" "serr = None" "rerr = None" and at: "s' = (r, f)" "h_store h' = stored"
    using assms(1) v c [folded assms(2)] t by (auto simp: finish_verify_def)
  have keeps: "names_server i (sv_Name srv) x \<Longrightarrow> names_server i (sv_Name srv) (attach_verification result x)" for x
    by (auto simp: names_server_def attach_verification_def)
  obtain x ss1 ss' where x: "readServersAt (h_store h) = Inr ss1" "stored = Stored ss'"
    "find (names_server i (sv_Name srv)) ss1 = Some x" "find (names_server i (sv_Name srv)) ss' = Some (attach_verification result x)"
    using changed_find [OF c [unfolded none] keeps] by blast
  have "x = srv" using x(1,3) assms(4,5) by (simp add: names_by_instance [OF assms(3)])
  moreover have "wanted_legs (attach_verification result srv) = wanted_legs srv"
    by (simp add: attach_verification_def wanted_legs_def wantsLegs_def isReality_def hasStandbyLeg_def)
  moreover have ready: "nv_Status result = ''ready''" "\<forall>leg \<in> set (wanted_legs srv). leg_ok (get_leg leg result)"
    using verifyNode_ok [OF v] status_ready_iff [of srv result] none(1) by (auto simp: verdict_ok_def)
  ultimately have "recorded_ready i result stored"
    using x(2,4) by (simp add: recorded_ready_def names_by_instance [OF assms(3)] list_all_iff) (simp add: attach_verification_def)
  moreover have "receipted result (df_receipt f)"
    using stage_None [of "dx_session e"] t none by (force simp: receipted_def stage_text_def verified_stage_def)
  ultimately show ?thesis using ready(1) at by auto
qed

lemma finish_addressed_None:
  assumes "finish_addressed e fl srv ip ipv6 s h = Some (None, s', h')" and "sv_InstanceID srv = i" "i \<noteq> []" "\<not> fl_no_verify fl"
  shows "\<exists>result. nv_Status result = ''ready'' \<and> recorded_ready i result (h_store h') \<and> receipted result (df_receipt (snd s'))"
proof -
  obtain cerr stored where c: "changeServer (dx_store e) i (sv_Name srv) (assign_address ip ipv6) (h_store h) = (cerr, stored)" by fastforce
  let ?h = "h\<lparr>h_store := stored\<rparr>" and ?srv = "changed_entry i (sv_Name srv) stored (assign_address ip ipv6 srv)"
  obtain s1 where none: "cerr = None" and s1: "finish_verify e ?srv s1 ?h = Some (None, s', h')"
    using assms(1,4) c [folded assms(2)]
    by (auto simp: finish_addressed_def Let_def assms(2) split: option.splits prod.splits)
  have keeps: "names_server i (sv_Name srv) x \<Longrightarrow> names_server i (sv_Name srv) (assign_address ip ipv6 x)" for x
    by (auto simp: names_server_def assign_address_def)
  obtain x ss' where x: "stored = Stored ss'" "names_server i (sv_Name srv) x"
    "find (names_server i (sv_Name srv)) ss' = Some (assign_address ip ipv6 x)"
    using changed_find [OF c [unfolded none] keeps] by blast
  have srv: "?srv = assign_address ip ipv6 x" using x(1,3) by (simp add: changed_entry_def)
  have inst: "sv_InstanceID ?srv = i" using x(2) assms(3) unfolding srv by (simp add: names_server_def assign_address_def)
  show ?thesis
    by (rule finish_verify_None [OF s1 inst assms(3), of ss'])
      (use x in \<open>simp_all add: readServersAt_def changed_entry_def names_by_instance [OF assms(3)]\<close>)
qed

lemma finishDeploy_None:
  assumes "finishDeploy e fl srv s h = Some (None, s', h')" and "sv_InstanceID srv = i" "i \<noteq> []" "\<not> fl_no_verify fl"
  shows "\<exists>result. nv_Status result = ''ready'' \<and> recorded_ready i result (h_store h') \<and> receipted result (df_receipt (snd s'))"
proof -
  obtain ip ipv6 s1 h1 where "finish_addressed e fl (srv\<lparr>sv_CreatedAt := dx_now e\<rparr>) ip ipv6 s1 h1 = Some (None, s', h')"
    using assms(1) by (auto simp: finishDeploy_def Let_def split: option.splits prod.splits sum.splits)
  then show ?thesis by (rule finish_addressed_None) (use assms in simp_all)
qed


section \<open>A provider that answers everything\<close>

definition reply :: "string \<Rightarrow> string \<Rightarrow> string" where
  "reply verb path = (if path = ''/instances'' then ''i7'' else ''s1'')"

definition willing :: "sample_world deploy_api" where
  "willing = \<lparr>da_api = (\<lambda>_. provider (\<lambda>verb path. Answer (reply verb path))), da_sleep = (\<lambda>_ w. w), da_id = (\<lambda>_ resp. Inr resp),
     da_text = (\<lambda>_. Inl ''unused''), da_page = (\<lambda>_. Inl ''unused''), da_link = (\<lambda>_. Inl ''unused''),
     da_groups = (\<lambda>_. Inr [(''g0'', ''other''), (''g1'', ''mole-nodes'')]), da_rules = (\<lambda>_. Inr [(''v4'', ''udp'', ''443 - 443'')])\<rparr>"

lemma willing_logs: "logs_calls willing snd"
  by (simp add: logs_calls_def willing_def provider_ok)

lemma willing_fields [simp]: "da_id willing k resp = Inr resp" "da_groups willing t = Inr [(''g0'', ''other''), (''g1'', ''mole-nodes'')]"
  "da_rules willing t = Inr [(''v4'', ''udp'', ''443 - 443'')]"
  by (simp_all add: willing_def)

lemma willing_call: "0 < budget \<Longrightarrow> da_call willing budget verb path body w = (Inr (reply verb path), (fst w + 1, snd w @ [(verb, path)]))"
  using provider_call [of "\<lambda>verb path. Answer (reply verb path)" verb path budget w] by (simp add: da_call_def willing_def)

lemma budgets: "0 < 30 * go_second" "0 < 60 * go_second"
  by simp_all

lemma willing_script: "\<exists>w'. createStartupScript willing n script w = (Inr ''s1'', w')"
  unfolding createStartupScript_def script_rounds.simps willing_call [OF budgets(2)]
  by (simp add: reply_def)

lemma willing_rules: "\<exists>w'. add_rules willing grp keys rs w = (None, w')"
proof (induction rs arbitrary: w)
  case (Cons x rs)
  then show ?case unfolding add_rules.simps willing_call [OF budgets(1)] by simp
qed simp

lemma willing_ensured: "\<exists>w'. ensureFirewallRules willing g v = (None, w')"
  unfolding ensureFirewallRules_def willing_call [OF budgets(1)] prod.case sum.case willing_fields by (rule willing_rules)

lemma willing_group: "\<exists>w'. ensureFirewallGroup willing w = ((''g1'', None), w')"
proof -
  obtain w1 where "ensureFirewallRules willing ''g1'' (fst w + 1, snd w @ [(''GET'', ''/firewalls'')]) = (None, w1)"
    using willing_ensured by blast
  then show ?thesis unfolding ensureFirewallGroup_def willing_call [OF budgets(1)] by (simp add: moleFirewallGroup_def)
qed

lemma good_stage: "\<exists>r f. stage good_deploy name err s = (None, r, f)"
  by (cases s) (simp add: stage_def good_deploy_def good_write Let_def)

lemma willing_deploys:
  "\<exists>s' w'. deployViaVultr willing good_deploy None (\<lambda>_. False) name region plan script s w = (Inr ''i7'', s', w')"
proof -
  obtain r1 f1 where s1: "stage good_deploy ''creating_startup_script'' None s = (None, r1, f1)" using good_stage by blast
  obtain w1 where c: "createStartupScript willing (name @ ''-'' @ dr_ID r1) script w = (Inr ''s1'', w1)" using willing_script by blast
  obtain r2 f2 where s2: "stage good_deploy ''preparing_firewall'' None (r1\<lparr>dr_ScriptID := ''s1''\<rparr>, f1) = (None, r2, f2)" using good_stage by blast
  obtain w2 where g: "ensureFirewallGroup willing w1 = ((''g1'', None), w2)" using willing_group by blast
  obtain r3 f3 where s3: "stage good_deploy ''creating_instance'' None (r2, f2) = (None, r3, f3)" using good_stage by blast
  have i: "create_instance willing good_deploy body (r3, f3) w2 = (Inr ''i7'', (r3, f3), (fst w2 + 1, snd w2 @ [(''POST'', ''/instances'')]))" for body
    unfolding create_instance_def willing_call [OF budgets(2)] by (simp add: reply_def)
  show ?thesis
    unfolding deployViaVultr_def s1 prod.case option.case fst_conv snd_conv c sum.case s2 g s3 i by simp
qed

theorem one_instance_per_deployment_witness:
  "\<exists>s' w' before posts. deployViaVultr willing good_deploy None (\<lambda>_. False) ''a'' ''icn'' ''vc2'' ''#!'' (fresh_record plain_server [], no_files) (0, []) =
      (Inr ''i7'', s', w') \<and> snd w' = before @ replicate posts (''POST'', ''/instances'') \<and> posts \<le> 1 \<and> (''POST'', ''/instances'') \<notin> set before"
proof -
  obtain s' w' where run: "deployViaVultr willing good_deploy None (\<lambda>_. False) ''a'' ''icn'' ''vc2'' ''#!''
      (fresh_record plain_server [], no_files) (0, []) = (Inr ''i7'', s', w')" using willing_deploys by blast
  from one_instance_per_deployment [OF willing_logs run] run show ?thesis by fastforce
qed

theorem script_is_ours_witness:
  "\<exists>w'. createStartupScript willing ''a'' ''#!'' (0, []) = (Inr ''s1'', w') \<and>
     (script_created willing ''a'' (base64_std ''#!'') ''s1'' \<or> script_holds willing (base64_std ''#!'') ''s1'') \<and>
     base64_std ''#!'' \<noteq> base64_std ''#'' "
proof -
  obtain w' where run: "createStartupScript willing ''a'' ''#!'' (0, []) = (Inr ''s1'', w')" using willing_script by blast
  from script_is_ours [OF run] run show ?thesis by (metis list.distinct(1) list.inject)
qed

theorem firewall_group_is_complete_witness:
  "\<exists>w'. ensureFirewallGroup willing (0, []) = ((''g1'', None), w') \<and>
     (\<exists>resp. answered willing (30 * go_second) ''GET'' (''/firewalls/'' @ ''g1'' @ ''/rules'') NoBody resp)"
proof -
  obtain w' where run: "ensureFirewallGroup willing (0, []) = ((''g1'', None), w')" using willing_group by blast
  from firewall_group_is_complete [OF run] run show ?thesis by blast
qed

section \<open>A deployment that goes through\<close>

definition good_answers :: "sample_world verify_env" where
  "good_answers = \<lparr>vf_over = (\<lambda>_. False), vf_error = (\<lambda>_. ''context deadline exceeded''), vf_stamp = (\<lambda>_. ''t''),
     vf_reply = (\<lambda>p w. (Some (0, alive_leg), w)), vf_pause = (\<lambda>w. (True, w))\<rparr>"

definition good_run :: "sample_world deploy_run" where
  "good_run = \<lparr>dx_api = willing, dx_key = None, dx_cancelled = (\<lambda>_. False), dx_session = good_deploy, dx_store = good_store,
     dx_address = \<lparr>ad_over = (\<lambda>_. False), ad_poll = (\<lambda>w. (Inr (Some (''192.0.2.9'', [])), w)), ad_pause = (\<lambda>w. w)\<rparr>, dx_fuel = 5,
     dx_node = (\<lambda>_. \<lparr>ne_allow = None, ne_helper = None, ne_verify = good_answers, ne_tuning = zero_tuning, ne_fuel = 5\<rparr>),
     dx_now = ''t'', dx_unix = 0, dx_random = Inr ''0123456789abcdef0123456789abcdef'', dx_reality = (\<lambda>_. Inl ''no entropy''),
     dx_identity = Inr \<lparr>sd_CertPEM = ''c'', sd_KeyPEM = ''k'', sd_SNI = ''s'', sd_ObfsPassword = ''o'', sd_SSHPubKey = []\<rparr>,
     dx_password = Inr ''p'', dx_hy2_script = (\<lambda>_ _ _. ''#!''), dx_reality_script = (\<lambda>_ _ _. ''#!''),
     dx_dual_script = (\<lambda>_ _ _ _ _. ''#!''), dx_digest = (\<lambda>s. s)\<rparr>"

definition good_flags :: deploy_flags where
  "good_flags = \<lparr>fl_region = ''icn'', fl_plan = ''vc2-1c-1gb'', fl_name = ''a'', fl_port = 443, fl_proto = [], fl_dest = ''d'',
     fl_timeout = 1, fl_no_verify = False, fl_no_reality = False\<rparr>"

definition empty_host :: "sample_world host" where
  "empty_host = \<lparr>h_world = (0, []), h_store = Stored [], h_ladders = NoLadders, h_debt = None\<rparr>"

lemma good_plan: "\<exists>srv. plan_deploy good_run good_flags empty_host = Inr srv \<and> sv_Proto srv = ''hysteria2'' \<and> sv_UUID srv = [] \<and>
    deploy_id_ok (sv_DeployID srv) \<and> sv_Name srv = ''a''"
  by (simp add: plan_deploy_def good_flags_def deploy_proto_def trim_space_def to_lower_def good_run_def empty_host_def
      readServersAt_def configureDeployCeiling_def isReality_def recallLadder_def loadLadderMemory_def deploy_id_ok_def zero_server_def Let_def)

lemma good_mint:
  assumes "sv_Proto srv = ''hysteria2''"
  shows "\<exists>srv'. mint good_run good_flags srv = Inr (srv', ''#!'') \<and> sv_Proto srv' = sv_Proto srv \<and> sv_UUID srv' = sv_UUID srv \<and>
    sv_DeployID srv' = sv_DeployID srv \<and> sv_Name srv' = sv_Name srv"
  using assms by (simp add: mint_def good_run_def good_flags_def isReality_def Let_def)

lemma good_session:
  assumes "deploy_id_ok (sv_DeployID srv)"
  shows "\<exists>r f. newDeploySession good_deploy srv hash no_files = (Inr r, f)"
  using assms by (simp add: newDeploySession_def good_deploy_def good_write no_files_def resume_record_def stage_def Let_def)

lemma good_change:
  assumes "names_server inst name srv"
  shows "changeServer good_store inst name f (Stored [srv]) = (None, Stored [f srv])"
  using assms by (simp add: changeServer_def updateServersAt_def good_store_def readServersAt_def change_server_def good_write)

lemma good_append: "appendServer good_store srv (Stored []) = (None, Stored [srv\<lparr>sv_Active := True\<rparr>])"
  by (simp add: appendServer_def updateServersAt_def good_store_def readServersAt_def append_server_def good_write)

lemma good_verified:
  assumes "sv_Proto srv = ''hysteria2''" and "sv_UUID srv = []"
  shows "\<exists>result. verifyNode (dx_node good_run srv) srv w = Some ((result, None), w)"
proof -
  have kind: "wantsLegs srv = (True, False)" using assms by (simp add: wantsLegs_def isReality_def hasStandbyLeg_def)
  have "verificationStatus srv alive_leg zero_report = ''ready''"
    by (simp add: verificationStatus_def kind leg_ok_def alive_leg_def)
  then show ?thesis
    by (simp add: verifyNode_def good_run_def verifyNodeWith_def good_answers_def wanted_legs_def kind set_leg_def unverified_def
        update_result_def Let_def numeral_eq_Suc)
qed


lemma good_finish:
  assumes "sv_Proto srv = ''hysteria2''" and "sv_UUID srv = []" and "sv_InstanceID srv = i" "i \<noteq> []"
  shows "\<exists>s' h'. finishDeploy good_run good_flags srv s (empty_host\<lparr>h_world := w\<rparr>) = Some (None, s', h')"
proof -
  let ?s0 = "srv\<lparr>sv_CreatedAt := ''t''\<rparr>"
  let ?s1 = "?s0\<lparr>sv_Active := True\<rparr>"
  let ?s2 = "assign_address ''192.0.2.9'' [] ?s1"
  have names: "names_server i (sv_Name srv) ?s1" "names_server i (sv_Name srv) ?s2"
    using assms by (simp_all add: names_server_def assign_address_def)
  have run: "dx_session good_run = good_deploy" "dx_store good_run = good_store" "dx_now good_run = ''t''" "\<not> fl_no_verify good_flags"
    by (simp_all add: good_run_def good_flags_def)
  have addr: "waitForIP (dx_address good_run) (dx_fuel good_run) i w = Some (Inr (''192.0.2.9'', []), w)"
    by (simp add: good_run_def parseInstanceAddress_def numeral_eq_Suc)
  obtain result where v: "verifyNode (dx_node good_run ?s2) ?s2 w = Some ((result, None), w)"
    using good_verified [of ?s2 w] assms by (auto simp: assign_address_def)
  have entry: "changed_entry i (sv_Name srv) (Stored [?s2]) srv' = ?s2" for srv'
    using names by (simp add: changed_entry_def)
  have ids: "sv_InstanceID ?s2 = i" "sv_Name ?s2 = sv_Name srv" using assms by (simp_all add: assign_address_def)
  obtain r1 f1 where t1: "stage good_deploy ''waiting_for_address'' None s = (None, r1, f1)" using good_stage by blast
  obtain r2 f2 where t2: "stage good_deploy ''verifying'' None (r1, f1) = (None, r2, f2)" using good_stage by blast
  obtain r3 f3 where t3: "stage good_deploy (nv_Status result) (verified_stage result None) (r2\<lparr>dr_Verification := Some result\<rparr>, f2) = (None, r3, f3)"
    using good_stage by blast
  have verify: "\<exists>s' h'. finish_verify good_run ?s2 (r2, f2) (empty_host\<lparr>h_world := w, h_store := Stored [?s2]\<rparr>) = Some (None, s', h')"
    using v t3 names(2) by (simp add: finish_verify_def run ids good_change)
  have "\<exists>s' h'. finish_addressed good_run good_flags ?s0 ''192.0.2.9'' [] (r1, f1)
      (empty_host\<lparr>h_world := w, h_store := Stored [?s1]\<rparr>) = Some (None, s', h')"
    using verify names(1) t2 by (simp add: finish_addressed_def run assms(3) good_change entry)
  then show ?thesis
    by (simp add: finishDeploy_def run assms(3) good_append empty_host_def t1 addr Let_def)
qed


end
