(* ===== verification/Commands.thy ===== *)
theory Commands
  imports Shutdown
begin

text \<open>
  cmd/leg.go and cmd/ceiling.go: the two commands that pin a leg or a ceiling while the daemon runs. They
  write the pin file first and then move the selectors of the running engine; the process table, the
  state file and the engine are the environment's.
\<close>

section \<open>What the commands see\<close>

text \<open>
  The disk takes a pin, or fails and leaves what it left. ce_state is state.json, if it can be read.
\<close>

datatype pin_disk = DiskTakes | DiskFails string "string option"

record 'w command_env =
  ce_clash :: "'w clash_client"
  ce_coder :: link_coder
  ce_procs :: "'w down_env"
  ce_state :: "'w \<Rightarrow> State option"
  ce_disk :: pin_disk
  ce_hour :: int

record 'w command_host =
  ch_world :: 'w
  ch_store :: store_file
  ch_leg :: "string option"
  ch_ceiling :: "string option"

datatype command_error =
  NoActiveServer active_error
| CommandError string go_error

definition on_world :: "'w clash_client \<Rightarrow> 'w command_host clash_client" where
  "on_world c r = State (\<lambda>h. (result_of (c r) (ch_world h), h\<lparr>ch_world := exec (c r) (ch_world h)\<rparr>))"

definition live_clash :: "'w command_env \<Rightarrow> 'w command_host clash_client" where
  "live_clash e = on_world (ce_clash e)"

definition probeURL :: string where "probeURL = ''https://www.gstatic.com/generate_204''"

definition pin_written :: "pin_disk \<Rightarrow> go_error \<times> string option \<Rightarrow> string option \<Rightarrow> go_error \<times> string option" where
  "pin_written d res old =
     (case res of
        (Some err, _) \<Rightarrow> (Some err, old)
      | (None, new) \<Rightarrow> (case d of DiskTakes \<Rightarrow> (None, new) | DiskFails err left \<Rightarrow> (Some err, left)))"

definition save_leg :: "'w command_env \<Rightarrow> leg_pin \<Rightarrow> ('w command_host, go_error) state" where
  "save_leg e want = State (\<lambda>h.
     case pin_written (ce_disk e) (if want = LegAuto then ClearLeg (ch_leg h) else WriteLeg (leg_text want) (ch_leg h)) (ch_leg h) of
       (err, f) \<Rightarrow> (err, h\<lparr>ch_leg := f\<rparr>))"

definition save_ceiling :: "'w command_env \<Rightarrow> int option \<Rightarrow> ('w command_host, go_error) state" where
  "save_ceiling e pin = State (\<lambda>h.
     case pin_written (ce_disk e) (case pin of None \<Rightarrow> ClearCeiling (ch_ceiling h) | Some n \<Rightarrow> WriteCeiling n (ch_ceiling h)) (ch_ceiling h) of
       (err, f) \<Rightarrow> (err, h\<lparr>ch_ceiling := f\<rparr>))"

definition daemon_runs :: "'w command_env \<Rightarrow> 'w command_host \<Rightarrow> bool" where
  "daemon_runs e h =
     (case ReadPID (dn_pid_file (ce_procs e) (ch_world h)) of
        Inl _ \<Rightarrow> False
      | Inr pid \<Rightarrow> IsRunning (ce_procs e) pid (ch_world h))"

definition dual_supported :: "'w command_env \<Rightarrow> 'w command_host \<Rightarrow> bool" where
  "dual_supported e h =
     (case ce_state e (ch_world h) of
        None \<Rightarrow> False
      | Some st \<Rightarrow> (case Balance st of None \<Rightarrow> False | Some b \<Rightarrow> Supported b))"

section \<open>The leg\<close>

definition currentRung :: "Server \<Rightarrow> string option \<Rightarrow> int \<Rightarrow> int" where
  "currentRung srv ceiling hour =
     (let sched = server_schedule srv; pin = ReadCeiling ceiling in
      if pin > 0 \<and> HasRung sched pin then pin
      else case Profile sched hour of (_, _, down) \<Rightarrow> down)"

text \<open>What is asked for: the leg, and the member to select, empty if there is none.\<close>

definition leg_request :: "'w command_env \<Rightarrow> Server \<Rightarrow> string option \<Rightarrow> string \<Rightarrow> command_error + leg_pin \<times> string" where
  "leg_request e srv ceiling word =
     (let arg = to_lower (trim_space word); standby = StandbyURI (ce_coder e) srv in
      if arg = ''both'' then
        (if standby = [] then Inl (CommandError (''server '' @ sv_Name srv @ '' does not have both transport legs'') None) else Inr (LegBoth, []))
      else if arg = ''auto'' then Inr (LegAuto, [])
      else if arg = ''reality'' \<or> arg = ''tcp'' then
        (if standby = [] then Inl (CommandError (''server '' @ sv_Name srv @ '' has no REALITY leg'') None) else Inr (LegReality, RealityLegTag))
      else if arg = ''hy2'' \<or> arg = ''hysteria2'' \<or> arg = ''udp''
      then Inr (LegHy2, BandwidthRungTag (currentRung srv ceiling (ce_hour e)))
      else Inl (CommandError (''expected hy2, reality, both or auto, got '' @ word) None))"

definition prewarm_and_select :: "'w command_env \<Rightarrow> string \<Rightarrow> string \<Rightarrow> ('w command_host, command_error option) state" where
  "prewarm_and_select e member note = do {
     _ \<leftarrow> TestDelay (live_clash e) member probeURL 5000;
     err \<leftarrow> SelectProxy (live_clash e) ProxySelectorTag member;
     State_Monad.return (if err \<noteq> None then Some (CommandError (''select '' @ member @ note) err) else None)
   }"

text \<open>The check that a running daemon can do dual routing; None lets the command go on.\<close>

definition dual_ready :: "'w command_env \<Rightarrow> leg_pin \<Rightarrow> bool \<Rightarrow> bool \<Rightarrow> ('w command_host, command_error option) state" where
  "dual_ready e want running supported =
     (if want = LegBoth \<and> running then
        if \<not> supported
        then State_Monad.return (Some (CommandError ''the running daemon does not support dual routing'' None))
        else do {
          (_, err) \<leftarrow> Selection (live_clash e) (BalanceLaneTag 0);
          State_Monad.return (if err \<noteq> None then Some (CommandError ''dual flow selectors are not loaded'' err) else None)
        }
      else State_Monad.return None)"

definition apply_leg :: "'w command_env \<Rightarrow> leg_pin \<Rightarrow> string \<Rightarrow> bool \<Rightarrow> ('w command_host, command_error option) state" where
  "apply_leg e want member supported =
     (if want = LegBoth then State_Monad.return None
      else do {
        err \<leftarrow> (if supported then do { (_, err) \<leftarrow> ApplyBalancedLanes (live_clash e) (- 1); State_Monad.return err }
                else State_Monad.return None);
        if err \<noteq> None
        then State_Monad.return (Some (CommandError ''single-mode intent saved; flow-selector reset is pending'' err))
        else if want = LegAuto then State_Monad.return None
        else prewarm_and_select e member '' (pin is saved; the supervisor will apply it within a minute)''
      })"

definition set_leg_pin :: "'w command_env \<Rightarrow> leg_pin \<Rightarrow> string \<Rightarrow> ('w command_host, command_error option) state" where
  "set_leg_pin e want member = do {
     running \<leftarrow> gets (daemon_runs e);
     supported \<leftarrow> gets (dual_supported e);
     refused \<leftarrow> dual_ready e want running supported;
     if refused \<noteq> None then State_Monad.return refused
     else do {
       err \<leftarrow> save_leg e want;
       if err \<noteq> None
       then State_Monad.return (Some (CommandError (if want = LegAuto then ''clear leg pin'' else ''write leg pin'') err))
       else if \<not> running then State_Monad.return None
       else apply_leg e want member supported
     }
   }"

text \<open>Without an argument the command only prints, for which it reads the live selector.\<close>

definition runLeg :: "'w command_env \<Rightarrow> string option \<Rightarrow> ('w command_host, command_error option) state" where
  "runLeg e arg = do {
     h \<leftarrow> gets (\<lambda>h. h);
     case ActiveServer (ch_store h) of
       Inl err \<Rightarrow> State_Monad.return (Some (NoActiveServer err))
     | Inr srv \<Rightarrow>
         (case arg of
            None \<Rightarrow> do { _ \<leftarrow> Selection (live_clash e) ProxySelectorTag; State_Monad.return None }
          | Some word \<Rightarrow>
              (case leg_request e srv (ch_ceiling h) word of
                 Inl err \<Rightarrow> State_Monad.return (Some err)
               | Inr (want, member) \<Rightarrow> set_leg_pin e want member))
   }"

section \<open>The ceiling\<close>

text \<open>What is asked for: the pin, none for auto, and the rung.\<close>

definition ceiling_request :: "BandwidthSchedule \<Rightarrow> int \<Rightarrow> string \<Rightarrow> command_error + int option \<times> int" where
  "ceiling_request sched hour word =
     (let arg = to_lower (trim_space word) in
      if arg = ''auto'' then (case Profile sched hour of (_, _, down) \<Rightarrow> Inr (None, down))
      else case atoi arg of
        None \<Rightarrow> Inl (CommandError (''expected an Mbps number or auto, got '' @ word) None)
      | Some n \<Rightarrow>
          if \<not> HasRung sched n then Inl (CommandError (''no rung at '' @ itoa n @ '' Mbps'') None)
          else Inr (Some n, n))"

definition set_ceiling_pin :: "'w command_env \<Rightarrow> int option \<Rightarrow> int \<Rightarrow> ('w command_host, command_error option) state" where
  "set_ceiling_pin e pin target = do {
     err \<leftarrow> save_ceiling e pin;
     if err \<noteq> None
     then State_Monad.return (Some (CommandError (if pin = None then ''clear ceiling pin'' else ''write ceiling pin'') err))
     else do {
       h \<leftarrow> gets (\<lambda>h. h);
       if \<not> daemon_runs e h then State_Monad.return None
       else if ReadLeg (ch_leg h) = LegBoth then State_Monad.return None
       else do {
         (now, err) \<leftarrow> Selection (live_clash e) ProxySelectorTag;
         if err = None \<and> now = RealityLegTag then State_Monad.return None
         else prewarm_and_select e (BandwidthRungTag target) '' (pin is saved; the supervisor will retry within a minute)''
       }
     }
   }"

definition runCeiling :: "'w command_env \<Rightarrow> string option \<Rightarrow> ('w command_host, command_error option) state" where
  "runCeiling e arg = do {
     h \<leftarrow> gets (\<lambda>h. h);
     case ActiveServer (ch_store h) of
       Inl err \<Rightarrow> State_Monad.return (Some (NoActiveServer err))
     | Inr srv \<Rightarrow>
         (let sched = server_schedule srv in
          if length (Rungs sched) < 2
          then State_Monad.return (Some (CommandError (''server '' @ sv_Name srv @ '' has no bandwidth ladder'') None))
          else case arg of
            None \<Rightarrow> State_Monad.return None
          | Some word \<Rightarrow>
              (case ceiling_request sched (ce_hour e) word of
                 Inl err \<Rightarrow> State_Monad.return (Some err)
               | Inr (pin, target) \<Rightarrow> set_ceiling_pin e pin target))
   }"

section \<open>Lemmas\<close>

text \<open>Calls of the engine change the world only, and the engine's contract carries over.\<close>

lemma on_world_run [simp]:
  "result_of (on_world c r) h = result_of (c r) (ch_world h)"
  "exec (on_world c r) h = h\<lparr>ch_world := exec (c r) (ch_world h)\<rparr>"
  by (simp_all add: on_world_def result_of_def exec_def)

lemma on_world_engine:
  assumes "selector_engine c member"
  shows "selector_engine (on_world c) (\<lambda>h. member (ch_world h))"
  using assms by (simp add: selector_engine_def)

definition pins_are :: "string option \<Rightarrow> string option \<Rightarrow> 'w command_host \<Rightarrow> bool" where
  "pins_are l c h = (ch_leg h = l \<and> ch_ceiling h = c)"

lemma clash_keeps_pins [mole_frame]:
  "keeps (pins_are l c) (Selection (live_clash e) t)"
  "keeps (pins_are l c) (SelectProxy (live_clash e) t m)"
  "keeps (pins_are l c) (TestDelay (live_clash e) m u ms)"
  by (simp_all add: keeps_def pins_are_def Selection_def SelectProxy_def TestDelay_def live_clash_def)

lemma lanes_keep_pins [mole_frame]:
  "keeps (pins_are l c) (lanes_loop (live_clash e) n lanes ch)"
  by (induction lanes arbitrary: ch) (auto intro!: mole_frame simp: Let_def)

lemma prewarm_keeps_pins [mole_frame]: "keeps (pins_are l c) (prewarm_and_select e m note)"
  unfolding prewarm_and_select_def by (intro mole_frame)

lemma apply_keeps_pins [mole_frame]: "keeps (pins_are l c) (apply_leg e want m supported)"
  unfolding apply_leg_def ApplyBalancedLanes_def by (intro mole_frame)

lemma dual_ready_keeps_pins [mole_frame]: "keeps (pins_are l c) (dual_ready e want running supported)"
  unfolding dual_ready_def by (intro mole_frame)

lemma pins_after:
  "keeps (pins_are (ch_leg h) (ch_ceiling h)) m \<Longrightarrow> ch_leg (exec m h) = ch_leg h \<and> ch_ceiling (exec m h) = ch_ceiling h"
  by (simp add: keeps_def pins_are_def)

lemma reset_lane: "lane_target (- 1) l = ProxySelectorTag"
  by (simp add: lane_target_def)

lemma lane_not_proxy: "0 \<le> l \<Longrightarrow> BalanceLaneTag l \<noteq> ProxySelectorTag"
  by (auto simp: BalanceLaneTag_def ProxySelectorTag_def)

lemma one_or_the_other:
  assumes "\<And>u. u \<noteq> t \<Longrightarrow> f u = g u" and "f t \<in> {g t, m}"
  shows "f = g \<or> f = g(t := m)"
proof -
  have "f = g(t := f t)" using assms(1) by (intro ext) simp
  then show ?thesis using assms(2) by (metis empty_iff fun_upd_triv insertE)
qed

lemma prewarm_members:
  assumes "selector_engine (live_clash e) mem"
  shows "mem (exec (prewarm_and_select e m note) h) = mem h \<or> mem (exec (prewarm_and_select e m note) h) = (mem h)(ProxySelectorTag := m)"
    and "result_of (prewarm_and_select e m note) h = None \<Longrightarrow> mem (exec (prewarm_and_select e m note) h) = (mem h)(ProxySelectorTag := m)"
proof -
  let ?h1 = "exec (TestDelay (live_clash e) m probeURL 5000) h"
  have t: "mem ?h1 = mem h" by (rule selector_engine.delay_keeps [OF assms])
  have run: "exec (prewarm_and_select e m note) h = exec (SelectProxy (live_clash e) ProxySelectorTag m) ?h1"
    "result_of (prewarm_and_select e m note) h = None \<longleftrightarrow> result_of (SelectProxy (live_clash e) ProxySelectorTag m) ?h1 = None"
    by (simp_all add: prewarm_and_select_def)
  have old: "mem (exec (SelectProxy (live_clash e) ProxySelectorTag m) ?h1) = mem ?h1 \<or>
      mem (exec (SelectProxy (live_clash e) ProxySelectorTag m) ?h1) = (mem ?h1)(ProxySelectorTag := m)"
    by (rule one_or_the_other) (rule selector_engine.select_elsewhere [OF assms], assumption, rule selector_engine.select_old_or_new [OF assms])
  then show "mem (exec (prewarm_and_select e m note) h) = mem h \<or> mem (exec (prewarm_and_select e m note) h) = (mem h)(ProxySelectorTag := m)"
    unfolding run t .
  show "result_of (prewarm_and_select e m note) h = None \<Longrightarrow> mem (exec (prewarm_and_select e m note) h) = (mem h)(ProxySelectorTag := m)"
    using selector_engine.select_sets [OF assms, of ProxySelectorTag m ?h1] unfolding run t by blast
qed

lemma reset_members:
  assumes "selector_engine (live_clash e) mem"
  shows "mem (exec (ApplyBalancedLanes (live_clash e) (- 1)) h) t = mem h t \<or>
      (\<exists>l \<in> {0..7}. t = BalanceLaneTag l \<and> mem (exec (ApplyBalancedLanes (live_clash e) (- 1)) h) t = ProxySelectorTag)"
    and "result_of (ApplyBalancedLanes (live_clash e) (- 1)) h = (ch, None) \<Longrightarrow> l \<in> {0..7} \<Longrightarrow>
      mem (exec (ApplyBalancedLanes (live_clash e) (- 1)) h) (BalanceLaneTag l) = ProxySelectorTag"
proof -
  have loop: "ApplyBalancedLanes (live_clash e) (- 1) = lanes_loop (live_clash e) (- 1) [0..7] False"
    by (simp add: ApplyBalancedLanes_def)
  show "mem (exec (ApplyBalancedLanes (live_clash e) (- 1)) h) t = mem h t \<or>
      (\<exists>l \<in> {0..7}. t = BalanceLaneTag l \<and> mem (exec (ApplyBalancedLanes (live_clash e) (- 1)) h) t = ProxySelectorTag)"
    using selector_engine.lanes_loop_frame [OF assms, of h "mem h" "{0..7}" "- 1" "[0..7]" False t] unfolding loop reset_lane by auto
  show "mem (exec (ApplyBalancedLanes (live_clash e) (- 1)) h) (BalanceLaneTag l) = ProxySelectorTag"
    if "result_of (ApplyBalancedLanes (live_clash e) (- 1)) h = (ch, None)" "l \<in> {0..7}"
    using selector_engine.lanes_loop_ok [OF assms, of "[0..7]" "- 1" False h ch] that unfolding loop reset_lane by auto
qed

definition moved_as_asked :: "(string \<Rightarrow> string) \<Rightarrow> (string \<Rightarrow> string) \<Rightarrow> leg_pin \<Rightarrow> string \<Rightarrow> string \<Rightarrow> bool" where
  "moved_as_asked old new want m t =
     (new t = old t \<or>
      (want \<noteq> LegBoth \<and> (\<exists>l \<in> {0..7}. t = BalanceLaneTag l) \<and> new t = ProxySelectorTag) \<or>
      (want \<noteq> LegBoth \<and> want \<noteq> LegAuto \<and> t = ProxySelectorTag \<and> new t = m))"

lemma apply_leg_members:
  assumes "selector_engine (live_clash e) mem"
  shows "moved_as_asked (mem h) (mem (exec (apply_leg e want m supported) h)) want m t"
proof (cases "want = LegBoth")
  case False
  let ?h1 = "exec (ApplyBalancedLanes (live_clash e) (- 1)) h"
  have r: "mem ?h1 t = mem h t \<or> (\<exists>l \<in> {0..7}. t = BalanceLaneTag l \<and> mem ?h1 t = ProxySelectorTag)" for t
    by (rule reset_members(1) [OF assms])
  have p: "mem (exec (prewarm_and_select e m msg) k) = mem k \<or> mem (exec (prewarm_and_select e m msg) k) = (mem k)(ProxySelectorTag := m)" for msg k
    by (rule prewarm_members(1) [OF assms])
  let ?msg = "'' (pin is saved; the supervisor will apply it within a minute)''"
  consider "exec (apply_leg e want m supported) h = h" | "exec (apply_leg e want m supported) h = ?h1"
    | k where "k = h \<or> k = ?h1" "want \<noteq> LegAuto" "exec (apply_leg e want m supported) h = exec (prewarm_and_select e m ?msg) k"
    using False
    by (cases supported; cases "want = LegAuto"; cases "snd (result_of (ApplyBalancedLanes (live_clash e) (- 1)) h)")
      (auto simp: apply_leg_def case_prod_beta)
  then show ?thesis
  proof cases
    case (3 k)
    then show ?thesis using p [of ?msg k] r [of t] False by (cases "t = ProxySelectorTag") (auto simp: moved_as_asked_def)
  qed (use r [of t] False in \<open>auto simp: moved_as_asked_def\<close>)
qed (simp add: apply_leg_def moved_as_asked_def)

lemma apply_leg_done:
  assumes "selector_engine (live_clash e) mem" and "result_of (apply_leg e want m supported) h = None"
  shows "(want \<noteq> LegBoth \<and> supported \<longrightarrow> (\<forall>l \<in> {0..7}. mem (exec (apply_leg e want m supported) h) (BalanceLaneTag l) = ProxySelectorTag)) \<and>
    (want \<noteq> LegBoth \<and> want \<noteq> LegAuto \<longrightarrow> mem (exec (apply_leg e want m supported) h) ProxySelectorTag = m)"
proof (cases "want = LegBoth")
  case False
  let ?h1 = "exec (ApplyBalancedLanes (live_clash e) (- 1)) h"
  obtain ch err where a: "result_of (ApplyBalancedLanes (live_clash e) (- 1)) h = (ch, err)" by fastforce
  let ?k = "if supported then ?h1 else h"
  let ?sel = "prewarm_and_select e m '' (pin is saved; the supervisor will apply it within a minute)''"
  have ok: "supported \<Longrightarrow> err = None" using assms(2) False a by (cases err) (simp_all add: apply_leg_def)
  have ex: "exec (apply_leg e want m supported) h = (if want = LegAuto then ?k else exec ?sel ?k)"
    using False a ok by (simp add: apply_leg_def)
  have res: "want \<noteq> LegAuto \<Longrightarrow> result_of ?sel ?k = None" using assms(2) False a ok by (auto simp: apply_leg_def split: if_splits)
  have lanes: "supported \<Longrightarrow> l \<in> {0..7} \<Longrightarrow> mem ?k (BalanceLaneTag l) = ProxySelectorTag" for l
    using reset_members(2) [OF assms(1)] a ok by simp
  have sel: "want \<noteq> LegAuto \<Longrightarrow> mem (exec ?sel ?k) = (mem ?k)(ProxySelectorTag := m)"
    using prewarm_members(2) [OF assms(1) res] by blast
  show ?thesis using lanes sel lane_not_proxy unfolding ex by auto
qed simp

lemma dual_ready_keeps:
  assumes "selector_engine (live_clash e) mem"
  shows "mem (exec (dual_ready e want running supported) h) = mem h"
  by (simp add: dual_ready_def case_prod_beta selector_engine.selection_keeps [OF assms])

lemma save_leg_pin:
  "result_of (save_leg e want) h = None \<Longrightarrow> ReadLeg (ch_leg (exec (save_leg e want) h)) = want"
  "ch_world (exec (save_leg e want) h) = ch_world h"
proof -
  show "ch_world (exec (save_leg e want) h) = ch_world h"
    by (auto simp: save_leg_def exec_def split: prod.splits)
  assume ok: "result_of (save_leg e want) h = None"
  obtain err f where res: "(if want = LegAuto then ClearLeg (ch_leg h) else WriteLeg (leg_text want) (ch_leg h)) = (err, f)"
    by fastforce
  have "err = None" "ch_leg (exec (save_leg e want) h) = f"
    using ok by (auto simp: save_leg_def exec_def result_of_def res pin_written_def split: option.splits pin_disk.splits)
  then show "ReadLeg (ch_leg (exec (save_leg e want) h)) = want"
    using ReadLeg_WriteLeg [of want "ch_leg h" f] res by (auto simp: ClearLeg_def ReadLeg_def split: if_splits)
qed

definition asked :: "'w command_env \<Rightarrow> 'w command_host \<Rightarrow> string option \<Rightarrow> leg_pin \<Rightarrow> string \<Rightarrow> bool" where
  "asked e h arg want target =
     (\<exists>srv word. ActiveServer (ch_store h) = Inr srv \<and> arg = Some word \<and> leg_request e srv (ch_ceiling h) word = Inr (want, target))"

text \<open>How far the command has come: it stopped before the pin, at the pin, or was applied.\<close>

lemma set_leg_pin_cases:
  assumes "selector_engine (live_clash e) (\<lambda>h. member (ch_world h))"
  shows "(member (ch_world (exec (set_leg_pin e want m) h)) = member (ch_world h) \<and>
      (result_of (set_leg_pin e want m) h = None \<longrightarrow> ReadLeg (ch_leg (exec (set_leg_pin e want m) h)) = want \<and> \<not> daemon_runs e h)) \<or>
    (\<exists>h1. member (ch_world h1) = member (ch_world h) \<and> daemon_runs e h \<and> ReadLeg (ch_leg h1) = want \<and>
      exec (set_leg_pin e want m) h = exec (apply_leg e want m (dual_supported e h)) h1 \<and>
      result_of (set_leg_pin e want m) h = result_of (apply_leg e want m (dual_supported e h)) h1)"
proof -
  let ?d = "dual_ready e want (daemon_runs e h) (dual_supported e h)"
  let ?h0 = "exec ?d h"
  let ?h1 = "exec (save_leg e want) ?h0"
  have d: "member (ch_world ?h0) = member (ch_world h)" by (rule dual_ready_keeps [OF assms])
  have w: "member (ch_world ?h1) = member (ch_world h)" by (simp add: save_leg_pin(2) d)
  show ?thesis
  proof (cases "result_of ?d h = None \<and> result_of (save_leg e want) ?h0 = None")
    case True
    then have "ReadLeg (ch_leg ?h1) = want" using save_leg_pin(1) by blast
    then show ?thesis using True w by (cases "daemon_runs e h") (auto simp: set_leg_pin_def)
  next
    case False
    then show ?thesis using d w by (cases "result_of ?d h") (auto simp: set_leg_pin_def)
  qed
qed

section \<open>Properties\<close>

text \<open>C8: The leg command moves traffic only with the intent on disk. Whatever the engine answers and wherever
  the command stops, every selector is where it was, or the pin now says what was asked for, a daemon
  is running, and the selector is a lane that follows the proxy selector again or the proxy selector on
  the member that was asked for; under both and auto the proxy selector is never touched.\<close>
theorem leg_moves_with_the_pin:
  assumes "selector_engine (ce_clash e) member"
  shows "member (ch_world (exec (runLeg e arg) h)) t = member (ch_world h) t \<or>
    (\<exists>want target. asked e h arg want target \<and> ReadLeg (ch_leg (exec (runLeg e arg) h)) = want \<and> daemon_runs e h \<and>
       moved_as_asked (member (ch_world h)) (member (ch_world (exec (runLeg e arg) h))) want target t)"
proof -
  have eng: "selector_engine (live_clash e) (\<lambda>h. member (ch_world h))"
    using on_world_engine [OF assms] by (simp add: live_clash_def)
  show ?thesis
  proof (cases "\<exists>want target. asked e h arg want target")
    case True
    then obtain want target where a: "asked e h arg want target" by blast
    then have run: "exec (runLeg e arg) h = exec (set_leg_pin e want target) h" by (auto simp: asked_def runLeg_def)
    from set_leg_pin_cases [OF eng, of want target h] show ?thesis
    proof
      assume "\<exists>h1. member (ch_world h1) = member (ch_world h) \<and> daemon_runs e h \<and> ReadLeg (ch_leg h1) = want \<and>
        exec (set_leg_pin e want target) h = exec (apply_leg e want target (dual_supported e h)) h1 \<and>
        result_of (set_leg_pin e want target) h = result_of (apply_leg e want target (dual_supported e h)) h1"
      then obtain h1 where h1: "member (ch_world h1) = member (ch_world h)" "daemon_runs e h" "ReadLeg (ch_leg h1) = want"
        "exec (runLeg e arg) h = exec (apply_leg e want target (dual_supported e h)) h1" unfolding run by blast
      have "ch_leg (exec (runLeg e arg) h) = ch_leg h1" using pins_after [OF apply_keeps_pins] unfolding h1(4) by blast
      moreover have "moved_as_asked (member (ch_world h)) (member (ch_world (exec (runLeg e arg) h))) want target t"
        using apply_leg_members [OF eng, of h1] unfolding h1(1,4) .
      ultimately show ?thesis using a h1(2,3) by metis
    qed (simp add: run)
  next
    case False
    then have "member (ch_world (exec (runLeg e arg) h)) = member (ch_world h)"
      by (auto simp: runLeg_def asked_def selector_engine.selection_keeps [OF eng] split: sum.splits option.splits)
    then show ?thesis by simp
  qed
qed

text \<open>A leg command that reports success against a running daemon has done what it says. The pin reads as
  asked; a daemon that knows dual routing has every lane back on the proxy selector unless both was
  asked for; a single leg is what the proxy selector is on; and under both and auto the proxy selector is
  where it was.\<close>
theorem leg_success_is_in_effect:
  assumes "selector_engine (ce_clash e) member" and "asked e h arg want target" and "daemon_runs e h"
    and "result_of (runLeg e arg) h = None"
  shows "ReadLeg (ch_leg (exec (runLeg e arg) h)) = want \<and>
    (want \<noteq> LegBoth \<and> dual_supported e h \<longrightarrow>
      (\<forall>l \<in> {0..7}. member (ch_world (exec (runLeg e arg) h)) (BalanceLaneTag l) = ProxySelectorTag)) \<and>
    member (ch_world (exec (runLeg e arg) h)) ProxySelectorTag =
      (if want = LegBoth \<or> want = LegAuto then member (ch_world h) ProxySelectorTag else target)"
proof -
  have eng: "selector_engine (live_clash e) (\<lambda>h. member (ch_world h))"
    using on_world_engine [OF assms(1)] by (simp add: live_clash_def)
  have run: "run_state (runLeg e arg) h = run_state (set_leg_pin e want target) h"
    using assms(2) by (auto simp: asked_def runLeg_def)
  then have ex: "exec (runLeg e arg) h = exec (set_leg_pin e want target) h" "result_of (set_leg_pin e want target) h = None"
    using assms(4) by (simp_all add: exec_def result_of_def)
  obtain h1 where h1: "member (ch_world h1) = member (ch_world h)" "ReadLeg (ch_leg h1) = want"
    "exec (runLeg e arg) h = exec (apply_leg e want target (dual_supported e h)) h1"
    "result_of (apply_leg e want target (dual_supported e h)) h1 = None"
    using set_leg_pin_cases [OF eng, of want target h] ex assms(3) by auto
  have "ch_leg (exec (runLeg e arg) h) = ch_leg h1" using pins_after [OF apply_keeps_pins] unfolding h1(3) by blast
  moreover have "want = LegBoth \<or> want = LegAuto \<Longrightarrow> member (ch_world (exec (runLeg e arg) h)) ProxySelectorTag = member (ch_world h) ProxySelectorTag"
    using apply_leg_members [OF eng, of h1 want target "dual_supported e h" ProxySelectorTag] lane_not_proxy
    unfolding h1(1,3) by (fastforce simp: moved_as_asked_def)
  ultimately show ?thesis using apply_leg_done [OF eng h1(4)] h1(2) unfolding h1(3) by auto
qed

lemma atoi_range: "atoi t = Some n \<Longrightarrow> n < 2 ^ 63"
  by (auto simp: atoi_def Let_def split: prod.splits if_splits option.splits)

lemma ceiling_request_rung:
  assumes "ceiling_request sched hour word = Inr (pin, target)" and "length (Rungs sched) \<ge> 2"
  shows "HasRung sched target \<and> (case pin of None \<Rightarrow> True | Some n \<Rightarrow> n = target \<and> n < 2 ^ 63)"
proof -
  have off: "OffDown sched > 0" using assms(2) Rungs_Nil_iff [of sched] by auto
  then have "HasRung sched down" if "Profile sched hour = (nm, up, down)" for nm up down
    using that by (auto simp: Profile_def Enabled_def HasRung_iff set_Rungs split: if_splits)
  then show ?thesis
    using assms(1) by (auto simp: ceiling_request_def Let_def split: if_splits prod.splits option.splits dest: atoi_range)
qed

lemma save_ceiling_pin:
  assumes "result_of (save_ceiling e pin) h = None" and "case pin of None \<Rightarrow> True | Some n \<Rightarrow> 0 < n \<and> n < 2 ^ 63"
  shows "ReadCeiling (ch_ceiling (exec (save_ceiling e pin) h)) = (case pin of None \<Rightarrow> 0 | Some n \<Rightarrow> n)"
proof -
  obtain err f where res: "(case pin of None \<Rightarrow> ClearCeiling (ch_ceiling h) | Some n \<Rightarrow> WriteCeiling n (ch_ceiling h)) = (err, f)"
    by fastforce
  have "err = None" "ch_ceiling (exec (save_ceiling e pin) h) = f"
    using assms(1) by (auto simp: save_ceiling_def exec_def result_of_def res pin_written_def split: option.splits pin_disk.splits)
  moreover have "ReadCeiling f = (case pin of None \<Rightarrow> 0 | Some n \<Rightarrow> n)"
  proof (cases pin)
    case None
    then show ?thesis using res by (auto simp: ClearCeiling_def ReadCeiling_def)
  next
    case (Some n)
    then have "snd (WriteCeiling n (ch_ceiling h)) = f" using res by simp
    then show ?thesis using ceiling_pin_roundtrip [of n "ch_ceiling h"] assms(2) Some by auto
  qed
  ultimately show ?thesis by simp
qed

lemma save_ceiling_world [simp]:
  "ch_world (exec (save_ceiling e pin) h) = ch_world h" "ch_leg (exec (save_ceiling e pin) h) = ch_leg h"
  by (auto simp: save_ceiling_def exec_def split: prod.splits)

lemma set_ceiling_cases:
  assumes "selector_engine (live_clash e) (\<lambda>h. member (ch_world h))"
  shows "member (ch_world (exec (set_ceiling_pin e pin target) h)) = member (ch_world h) \<or>
    (result_of (save_ceiling e pin) h = None \<and> daemon_runs e (exec (save_ceiling e pin) h) \<and> ReadLeg (ch_leg h) \<noteq> LegBoth \<and>
      result_of (Selection (ce_clash e) ProxySelectorTag) (ch_world h) \<noteq> (RealityLegTag, None) \<and>
      ch_ceiling (exec (set_ceiling_pin e pin target) h) = ch_ceiling (exec (save_ceiling e pin) h) \<and>
      member (ch_world (exec (set_ceiling_pin e pin target) h)) = (member (ch_world h))(ProxySelectorTag := BandwidthRungTag target))"
proof -
  let ?h1 = "exec (save_ceiling e pin) h"
  let ?h2 = "exec (Selection (live_clash e) ProxySelectorTag) ?h1"
  let ?sel = "prewarm_and_select e (BandwidthRungTag target) '' (pin is saved; the supervisor will retry within a minute)''"
  have m: "member (ch_world ?h2) = member (ch_world h)" using selector_engine.selection_keeps [OF assms] by simp
  have p: "ch_ceiling (exec ?sel ?h2) = ch_ceiling ?h1"
    using pins_after [OF prewarm_keeps_pins] pins_after [OF clash_keeps_pins(1)] by metis
  have r: "result_of (Selection (live_clash e) ProxySelectorTag) ?h1 = result_of (Selection (ce_clash e) ProxySelectorTag) (ch_world h)"
    by (simp add: Selection_def live_clash_def)
  show ?thesis
  proof (cases "result_of (save_ceiling e pin) h = None \<and> daemon_runs e ?h1 \<and> ReadLeg (ch_leg h) \<noteq> LegBoth \<and>
      result_of (Selection (ce_clash e) ProxySelectorTag) (ch_world h) \<noteq> (RealityLegTag, None)")
    case True
    then have "exec (set_ceiling_pin e pin target) h = exec ?sel ?h2"
      by (cases "result_of (Selection (ce_clash e) ProxySelectorTag) (ch_world h)") (auto simp: set_ceiling_pin_def r)
    then have at: "set_at = exec ?sel ?h2" if "set_at = exec (set_ceiling_pin e pin target) h" for set_at using that by simp
    have "member (ch_world (exec ?sel ?h2)) = member (ch_world h) \<or>
        member (ch_world (exec ?sel ?h2)) = (member (ch_world h))(ProxySelectorTag := BandwidthRungTag target)"
      using prewarm_members(1) [OF assms, of "BandwidthRungTag target" _ ?h2] unfolding m .
    then show ?thesis unfolding at [OF refl] using True p by simp
  next
    case False
    then have "exec (set_ceiling_pin e pin target) h \<in> {?h1, ?h2}"
      by (cases "result_of (Selection (ce_clash e) ProxySelectorTag) (ch_world h)"; cases "result_of (save_ceiling e pin) h")
        (auto simp: set_ceiling_pin_def r)
    then show ?thesis using m by auto
  qed
qed


text \<open>
  Everything that can fail is resolved before anything is written, says the command; a node that speaks
  REALITY only has no hysteria2 leg, but the pin is saved all the same, for a rung of 0 Mbps that no
  configuration has.
\<close>
theorem hy2_pin_without_hy2:
  assumes "ActiveServer (ch_store h) = Inr srv" and "isReality srv" and "ce_disk e = DiskTakes"
  shows "leg_request e srv (ch_ceiling h) ''hy2'' = Inr (LegHy2, BandwidthRungTag 0) \<and> Rungs (server_schedule srv) = [] \<and>
    ReadLeg (ch_leg (exec (runLeg e (Some ''hy2'')) h)) = LegHy2"
proof -
  have sched: "Rungs (server_schedule srv) = []" "server_schedule srv = \<lparr>OffUp = 0, OffDown = 0, PeakUp = 0, PeakDown = 0, StartHour = 0, EndHour = 0\<rparr>"
    using assms(2) by (simp_all add: server_schedule_def ladder_def Rungs_def)
  have word: "to_lower (trim_space ''hy2'') = ''hy2''"
    by (simp add: trim_space_def is_space_def to_lower_def lower_char_def)
  have req: "leg_request e srv (ch_ceiling h) ''hy2'' = Inr (LegHy2, BandwidthRungTag 0)"
    unfolding leg_request_def word by (simp add: currentRung_def sched HasRung_def Rungs_def Profile_def Enabled_def Let_def)
  let ?h1 = "exec (save_leg e LegHy2) h"
  have ok: "result_of (save_leg e LegHy2) h = None"
    by (simp add: save_leg_def result_of_def pin_written_def WriteLeg_def assms(3))
  have "exec (set_leg_pin e LegHy2 (BandwidthRungTag 0)) h =
      (if daemon_runs e h then exec (apply_leg e LegHy2 (BandwidthRungTag 0) (dual_supported e h)) ?h1 else ?h1)"
    using ok by (simp add: set_leg_pin_def dual_ready_def)
  then have "ch_leg (exec (runLeg e (Some ''hy2'')) h) = ch_leg ?h1"
    using pins_after [OF apply_keeps_pins, of e LegHy2 "BandwidthRungTag 0" "dual_supported e h" ?h1] by (simp add: runLeg_def assms(1) req)
  then show ?thesis using req sched(1) save_leg_pin(1) [OF ok] by simp
qed

section \<open>A node with both legs and an engine that answers\<close>

definition both_server :: Server where
  "both_server = zero_server\<lparr>sv_Name := ''n'', sv_IP := ''203.0.113.7'', sv_Port := 443, sv_Active := True, sv_UUID := ''u'',
     sv_RealityPubKey := ''k'', sv_UpMbps := 5, sv_DownMbps := 60, sv_PeakDownMbps := 20\<rparr>"

definition table_procs :: "(string \<Rightarrow> string) down_env" where
  "table_procs =
     \<lparr>dn_signal0 = (\<lambda>p w. p = 42), dn_listed = (\<lambda>_ _. False), dn_comm = (\<lambda>_ _. None), dn_uid = (\<lambda>_ _. Some ''0''),
      dn_pgrep = (\<lambda>_. Some ''42''), dn_ps = (\<lambda>_. None), dn_self = 7, dn_term = (\<lambda>_ w. w), dn_kill = (\<lambda>_ w. w),
      dn_pause = (\<lambda>w. w), dn_now = (\<lambda>_. 0), dn_pid_file = (\<lambda>_. PidJson 42 []), dn_state_pid = (\<lambda>_. None), dn_config = [],
      dn_unix = True, dn_armed = (\<lambda>_. False), dn_disarm = (\<lambda>w. w), dn_dns = (\<lambda>w. (None, w)), dn_network = (\<lambda>w. w),
      dn_remove_pid = (\<lambda>w. w), dn_remove_state = (\<lambda>w. w)\<rparr>"

definition table_command :: "(string \<Rightarrow> string) command_env" where
  "table_command = \<lparr>ce_clash = table_engine, ce_coder = sample_coder, ce_procs = table_procs, ce_state = (\<lambda>_. None),
     ce_disk = DiskTakes, ce_hour = 3\<rparr>"

definition command_host_on :: "string \<Rightarrow> (string \<Rightarrow> string) command_host" where
  "command_host_on tag = \<lparr>ch_world = (\<lambda>_. tag), ch_store = Stored [both_server], ch_leg = None, ch_ceiling = None\<rparr>"

lemma table_command_env [simp]: "ce_clash table_command = table_engine" "ce_disk table_command = DiskTakes" "ce_hour table_command = 3"
  by (simp_all add: table_command_def)

lemma both_active: "ActiveServer (ch_store (command_host_on tag)) = Inr both_server"
  by (simp add: command_host_on_def ActiveServer_def readServersAt_def active_of_def both_server_def zero_server_def HasAddress_def)

lemma table_runs: "daemon_runs table_command h"
  by (simp add: daemon_runs_def table_command_def table_procs_def ReadPID_def readPIDInfo_def IsRunning_def IsAlive_def)

lemma both_standby: "StandbyURI c both_server \<noteq> []"
  by (simp add: StandbyURI_def hasStandbyLeg_def both_server_def zero_server_def isReality_def realityURI_def link_line_def)

lemma asked_reality: "asked table_command (command_host_on tag) (Some ''reality'') LegReality RealityLegTag"
proof -
  have "to_lower (trim_space ''reality'') = ''reality''" by (simp add: trim_space_def is_space_def to_lower_def lower_char_def)
  then show ?thesis using both_standby by (simp add: asked_def both_active leg_request_def Let_def)
qed

theorem leg_success_is_in_effect_witness:
  "(let h' = exec (runLeg table_command (Some ''reality'')) (command_host_on ''proxy-bw-60'') in
    ch_world h' ProxySelectorTag = RealityLegTag \<and> ReadLeg (ch_leg h') = LegReality)"
proof -
  let ?h = "command_host_on ''proxy-bw-60''"
  have ready: "dual_ready table_command LegReality r d = State_Monad.return None" for r d by (simp add: dual_ready_def)
  have dual: "\<not> dual_supported table_command h" for h by (simp add: dual_supported_def table_command_def)
  have saved: "result_of (save_leg table_command LegReality) ?h = None"
    by (simp add: save_leg_def result_of_def pin_written_def WriteLeg_def)
  have "result_of (prewarm_and_select table_command m msg) h = None" for m msg h
    by (simp add: prewarm_and_select_def live_clash_def TestDelay_def SelectProxy_def table_command_def on_world_def ok_reply_def
        result_of_def exec_def)
  then have "result_of (runLeg table_command (Some ''reality'')) ?h = None"
    using asked_reality [of "''proxy-bw-60''"] saved by (auto simp: asked_def runLeg_def set_leg_pin_def ready dual table_runs apply_leg_def)
  from leg_success_is_in_effect [OF _ asked_reality table_runs this, of "\<lambda>w. w"] table.selector_engine_axioms
  show ?thesis by (simp add: Let_def)
qed

theorem leg_moves_with_the_pin_witness:
  "\<forall>t. ch_world (exec (runLeg table_command (Some ''tpc'')) (command_host_on RealityLegTag)) t = RealityLegTag"
proof
  fix t
  have "to_lower (trim_space ''tpc'') = ''tpc''" by (simp add: trim_space_def is_space_def to_lower_def lower_char_def)
  then have "\<not> asked table_command (command_host_on RealityLegTag) (Some ''tpc'') want target" for want target
    by (simp add: asked_def both_active leg_request_def Let_def)
  then show "ch_world (exec (runLeg table_command (Some ''tpc'')) (command_host_on RealityLegTag)) t = RealityLegTag"
    using leg_moves_with_the_pin [of table_command "\<lambda>w. w" "Some ''tpc''" "command_host_on RealityLegTag" t] table.selector_engine_axioms
    by (simp add: command_host_on_def)
qed


theorem hy2_pin_without_hy2_witness:
  "(let h = (command_host_on RealityLegTag)\<lparr>ch_store := Stored [both_server\<lparr>sv_Proto := ''reality''\<rparr>]\<rparr> in
    ReadLeg (ch_leg (exec (runLeg table_command (Some ''hy2'')) h)) = LegHy2)"
proof -
  let ?srv = "both_server\<lparr>sv_Proto := ''reality''\<rparr>"
  have "ActiveServer (ch_store ((command_host_on RealityLegTag)\<lparr>ch_store := Stored [?srv]\<rparr>)) = Inr ?srv" "isReality ?srv"
    by (simp_all add: ActiveServer_def readServersAt_def active_of_def both_server_def zero_server_def HasAddress_def isReality_def)
  from hy2_pin_without_hy2 [OF this] show ?thesis by (simp add: Let_def)
qed

end
