(* ===== verification/Identity.thy ===== *)
theory Identity
  imports Deploy
begin

text \<open>
  cmd/identity.go: the material minted for a node. The random source, the signing of a certificate and the
  X25519 function are the environment's; hexadecimal and base64 are written out, because what a
  credential looks like to a client that decodes it is what the file is about.
\<close>

unbundle bit_operations_syntax

section \<open>Randomness and encodings\<close>

text \<open>crypto/rand: so many bytes, or a number below a bound, or an error.\<close>

record 'r random_source =
  rs_bytes :: "nat \<Rightarrow> 'r \<Rightarrow> (string + 8 word list) \<times> 'r"
  rs_below :: "nat \<Rightarrow> 'r \<Rightarrow> (string + nat) \<times> 'r"

definition hex_digit :: "nat \<Rightarrow> char" where
  "hex_digit n = ''0123456789abcdef'' ! n"

definition hex_byte :: "8 word \<Rightarrow> string" where
  "hex_byte b = [hex_digit (unat b div 16), hex_digit (unat b mod 16)]"

text \<open>hex.EncodeToString, and fmt's \<^verbatim>\<open>%x\<close> of bytes.\<close>

definition hex_text :: "8 word list \<Rightarrow> string" where
  "hex_text bs = concat (map hex_byte bs)"

definition url_alphabet :: string where
  "url_alphabet = ''ABCDEFGHIJKLMNOPQRSTUVWXYZabcdefghijklmnopqrstuvwxyz0123456789-_''"

fun index_in :: "string \<Rightarrow> char \<Rightarrow> nat option" where
  "index_in [] c = None"
| "index_in (x # xs) c = (if x = c then Some 0 else map_option Suc (index_in xs c))"

text \<open>
  encoding/base64, decoding: line ends are skipped, padding stands at the end only, and the bits left
  over in the last group are not looked at.
\<close>

definition quad :: "nat \<Rightarrow> nat \<Rightarrow> nat \<Rightarrow> nat \<Rightarrow> string" where
  "quad a b c d = (let n = a * 262144 + b * 4096 + c * 64 + d in [char_of (n div 65536), char_of (n div 256 mod 256), char_of (n mod 256)])"

fun decode_quads :: "string \<Rightarrow> string \<Rightarrow> string option" where
  "decode_quads alpha [] = Some []"
| "decode_quads alpha (a # b # c # d # rest) =
     (case (index_in alpha a, index_in alpha b) of
        (Some x, Some y) \<Rightarrow>
          if rest = [] \<and> c = CHR ''='' \<and> d = CHR ''='' then Some (take 1 (quad x y 0 0))
          else (case index_in alpha c of
            None \<Rightarrow> None
          | Some z \<Rightarrow>
              if rest = [] \<and> d = CHR ''='' then Some (take 2 (quad x y z 0))
              else (case index_in alpha d of
                None \<Rightarrow> None
              | Some v \<Rightarrow> map_option ((@) (quad x y z v)) (decode_quads alpha rest)))
      | _ \<Rightarrow> None)"
| "decode_quads alpha _ = None"

definition base64_decode :: "string \<Rightarrow> string \<Rightarrow> string option" where
  "base64_decode alpha s = decode_quads alpha (filter (\<lambda>c. c \<noteq> CHR 0x0D \<and> c \<noteq> CHR 0x0A) s)"

text \<open>RawURLEncoding: the other alphabet, and no padding.\<close>

definition to_url :: "char \<Rightarrow> char" where
  "to_url c = (if c = CHR ''+'' then CHR ''-'' else if c = CHR ''/'' then CHR ''_'' else c)"

definition byte_text :: "8 word list \<Rightarrow> string" where
  "byte_text bs = map (\<lambda>b. char_of (unat b)) bs"

definition raw_url_text :: "8 word list \<Rightarrow> string" where
  "raw_url_text bs = map to_url (filter (\<lambda>c. c \<noteq> CHR ''='') (base64_std (byte_text bs)))"

section \<open>Credentials\<close>

definition padded :: "string \<Rightarrow> string" where
  "padded s = (let m = length s mod 4 in if m \<noteq> 0 then s @ replicate (4 - m) CHR ''='' else s)"

definition base64Rewrites :: "string \<Rightarrow> bool" where
  "base64Rewrites s =
     (case base64_decode base64_alphabet (padded s) of
        Some decoded \<Rightarrow> CHR '':'' \<in> set decoded
      | None \<Rightarrow>
          (case base64_decode url_alphabet (padded s) of
             Some decoded \<Rightarrow> CHR '':'' \<in> set decoded
           | None \<Rightarrow> False))"

definition randomHexString :: "'r random_source \<Rightarrow> nat \<Rightarrow> 'r \<Rightarrow> (string + string) \<times> 'r" where
  "randomHexString e n r =
     (case rs_bytes e n r of
        (Inl err, r) \<Rightarrow> (Inl (''read random: '' @ err), r)
      | (Inr bs, r) \<Rightarrow> (Inr (hex_text bs), r))"

definition randomHostname :: "'r random_source \<Rightarrow> 'r \<Rightarrow> (string + string) \<times> 'r" where
  "randomHostname e r =
     (case randomHexString e 6 r of
        (Inl err, r) \<Rightarrow> (Inl err, r)
      | (Inr label, r) \<Rightarrow> (Inr (''node-'' @ label @ ''.net''), r))"

definition tunnelPassword :: "'r random_source \<Rightarrow> 'r \<Rightarrow> (string + string) \<times> 'r" where
  "tunnelPassword e r =
     (case randomHexString e 16 r of
        (Inl err, r) \<Rightarrow> (Inl err, r)
      | (Inr body, r) \<Rightarrow>
          (case rs_below e (length body) r of
             (Inl err, r) \<Rightarrow> (Inl (''read random: '' @ err), r)
           | (Inr n, r) \<Rightarrow> (Inr (take (n + 1) body @ ''.'' @ drop (n + 1) body), r)))"

text \<open>One candidate: version 4, variant 10.\<close>

definition uuid_bytes :: "8 word list \<Rightarrow> 8 word list" where
  "uuid_bytes b = b[6 := ((b ! 6) AND 0x0f) OR 0x40, 8 := ((b ! 8) AND 0x3f) OR 0x80]"

definition uuid_text :: "8 word list \<Rightarrow> string" where
  "uuid_text b =
     hex_text (take 4 b) @ ''-'' @ hex_text (take 2 (drop 4 b)) @ ''-'' @ hex_text (take 2 (drop 6 b)) @ ''-'' @
     hex_text (take 2 (drop 8 b)) @ ''-'' @ hex_text (take 6 (drop 10 b))"

text \<open>The loop has no bound in the code; fuel bounds it here, and None is running out of it.\<close>

fun randomUUID :: "'r random_source \<Rightarrow> nat \<Rightarrow> 'r \<Rightarrow> ((string + string) \<times> 'r) option" where
  "randomUUID e 0 r = None"
| "randomUUID e (Suc fuel) r =
     (case rs_bytes e 16 r of
        (Inl err, r) \<Rightarrow> Some (Inl (''read random: '' @ err), r)
      | (Inr b, r) \<Rightarrow>
          let uuid = uuid_text (uuid_bytes b) in
          if \<not> base64Rewrites uuid then Some (Inr uuid, r) else randomUUID e fuel r)"

section \<open>Identities\<close>

text \<open>The first public key file that reads like a key; the files are given by their content, if they can be read.\<close>

fun first_pub_key :: "(string \<Rightarrow> string option) \<Rightarrow> string list \<Rightarrow> string" where
  "first_pub_key files [] = []"
| "first_pub_key files (name # names) =
     (case files name of
        None \<Rightarrow> first_pub_key files names
      | Some b \<Rightarrow>
          let k = trim_space b in
          if cut_prefix k ''ssh-'' \<noteq> None \<or> cut_prefix k ''ecdsa-'' \<noteq> None then k else first_pub_key files names)"

definition localSSHPubKey :: "(string \<Rightarrow> string option) option \<Rightarrow> string" where
  "localSSHPubKey home =
     (case home of None \<Rightarrow> [] | Some files \<Rightarrow> first_pub_key files [''id_ed25519.pub'', ''id_ecdsa.pub'', ''id_rsa.pub''])"

text \<open>What goes into the certificate: the serial below 2 to the 128, the name, its one SAN, and the validity.\<close>

record cert_template =
  ct_Serial :: nat
  ct_CommonName :: string
  ct_DNSNames :: "string list"
  ct_NotBefore :: go_time
  ct_NotAfter :: go_time
  ct_IsCA :: bool

text \<open>
  What minting finds: randomness, the home directory, the clock with its calendar, a generated key, the
  signing of a template with a key into the two PEM texts, and X25519 with the base point.
\<close>

record 'r mint_env =
  mi_random :: "'r random_source"
  mi_home :: "(string \<Rightarrow> string option) option"
  mi_now :: go_time
  mi_add_years :: "int \<Rightarrow> go_time \<Rightarrow> go_time"
  mi_keygen :: "'r \<Rightarrow> (string + nat) \<times> 'r"
  mi_sign :: "cert_template \<Rightarrow> nat \<Rightarrow> string + string \<times> string"
  mi_x25519 :: "8 word list \<Rightarrow> string + 8 word list"
  mi_fuel :: nat

definition cert_for :: "'r mint_env \<Rightarrow> nat \<Rightarrow> string \<Rightarrow> cert_template" where
  "cert_for e serial sni =
     \<lparr>ct_Serial = serial, ct_CommonName = sni, ct_DNSNames = [sni], ct_NotBefore = mi_now e - 60 * go_minute,
      ct_NotAfter = mi_add_years e 20 (mi_now e), ct_IsCA = True\<rparr>"

definition newServerIdentity :: "'r mint_env \<Rightarrow> 'r \<Rightarrow> (string + serverIdentity) \<times> 'r" where
  "newServerIdentity e r =
     (case randomHostname (mi_random e) r of
        (Inl err, r) \<Rightarrow> (Inl err, r)
      | (Inr sni, r) \<Rightarrow>
          (case randomHexString (mi_random e) 16 r of
             (Inl err, r) \<Rightarrow> (Inl err, r)
           | (Inr obfs, r) \<Rightarrow>
               (case mi_keygen e r of
                  (Inl err, r) \<Rightarrow> (Inl (''generate key: '' @ err), r)
                | (Inr key, r) \<Rightarrow>
                    (case rs_below (mi_random e) (2 ^ 128) r of
                       (Inl err, r) \<Rightarrow> (Inl (''generate serial: '' @ err), r)
                     | (Inr serial, r) \<Rightarrow>
                         (case mi_sign e (cert_for e serial sni) key of
                            Inl err \<Rightarrow> (Inl err, r)
                          | Inr (cert, pem) \<Rightarrow>
                              (Inr \<lparr>sd_CertPEM = cert, sd_KeyPEM = pem, sd_SNI = sni, sd_ObfsPassword = obfs,
                                    sd_SSHPubKey = localSSHPubKey (mi_home e)\<rparr>, r))))))"

definition clamp :: "8 word list \<Rightarrow> 8 word list" where
  "clamp priv = priv[0 := (priv ! 0) AND 248, 31 := ((priv ! 31) AND 127) OR 64]"

definition newRealityIdentity :: "'r mint_env \<Rightarrow> string \<Rightarrow> 'r \<Rightarrow> ((string + realityIdentity) \<times> 'r) option" where
  "newRealityIdentity e dest r =
     (let dest = (if dest = [] then defaultRealityDest else dest) in
      case randomUUID (mi_random e) (mi_fuel e) r of
        None \<Rightarrow> None
      | Some (Inl err, r) \<Rightarrow> Some (Inl err, r)
      | Some (Inr uuid, r) \<Rightarrow>
          Some (case randomHexString (mi_random e) 8 r of
             (Inl err, r) \<Rightarrow> (Inl err, r)
           | (Inr shortID, r) \<Rightarrow>
               (case rs_bytes (mi_random e) 32 r of
                  (Inl err, r) \<Rightarrow> (Inl (''read random: '' @ err), r)
                | (Inr priv, r) \<Rightarrow>
                    (case mi_x25519 e (clamp priv) of
                       Inl err \<Rightarrow> (Inl (''derive reality public key: '' @ err), r)
                     | Inr pub \<Rightarrow>
                         (Inr \<lparr>ri_UUID = uuid, ri_PrivateKey = raw_url_text (clamp priv), ri_PublicKey = raw_url_text pub,
                               ri_ShortID = shortID, ri_Dest = dest, ri_SSHPubKey = localSSHPubKey (mi_home e)\<rparr>, r)))))"

section \<open>Lemmas on base64\<close>

lemma index_in_Some: "index_in xs c = Some i \<Longrightarrow> c \<in> set xs"
  by (induction xs arbitrary: i) (auto split: if_splits)

lemma index_in_nth: "distinct xs \<Longrightarrow> k < length xs \<Longrightarrow> index_in xs (xs ! k) = Some k"
proof (induction xs arbitrary: k)
  case (Cons x xs)
  then show ?case by (cases k) auto
qed simp

lemma index_base64: "k < 64 \<Longrightarrow> index_in base64_alphabet (base64_char k) = Some k"
  using base64_alphabet_ok by (simp add: base64_char_def index_in_nth)

text \<open>Whatever decodes is written in the alphabet.\<close>

lemma decode_alphabet: "decode_quads alpha s = Some d \<Longrightarrow> set s \<subseteq> insert (CHR ''='') (set alpha)"
proof (induction alpha s arbitrary: d rule: decode_quads.induct)
  case (2 alpha a b c d rest dd)
  obtain x y where xy: "index_in alpha a = Some x" "index_in alpha b = Some y" using "2.prems" by (auto split: option.splits)
  then have ab: "a \<in> set alpha" "b \<in> set alpha" by (auto dest: index_in_Some)
  show ?case
  proof (cases "rest = [] \<and> c = CHR ''='' \<and> d = CHR ''=''")
    case True
    then show ?thesis using ab by simp
  next
    case f1: False
    then obtain z where z: "index_in alpha c = Some z" using "2.prems" xy by (auto split: option.splits if_splits)
    then have c: "c \<in> set alpha" by (rule index_in_Some)
    show ?thesis
    proof (cases "rest = [] \<and> d = CHR ''=''")
      case True
      then show ?thesis using ab c by simp
    next
      case f2: False
      then obtain v where v: "index_in alpha d = Some v" using "2.prems" xy f1 z by (auto split: option.splits if_splits)
      then obtain rd where "decode_quads alpha rest = Some rd" using "2.prems" xy f1 z f2 by (auto split: if_splits)
      then have "set rest \<subseteq> insert (CHR ''='') (set alpha)" using "2.IH" [OF refl xy(1) xy(2) f1 z f2 v] by blast
      then show ?thesis using ab c index_in_Some [OF v] by auto
    qed
  qed
qed simp_all

lemma stranger_never_decodes:
  assumes "x \<in> set s" and "x \<notin> set alpha" and "x \<noteq> CHR ''=''" "x \<noteq> CHR 0x0D" "x \<noteq> CHR 0x0A"
  shows "base64_decode alpha (padded s) = None"
proof (rule ccontr)
  assume "base64_decode alpha (padded s) \<noteq> None"
  then obtain d where "decode_quads alpha (filter (\<lambda>c. c \<noteq> CHR 0x0D \<and> c \<noteq> CHR 0x0A) (padded s)) = Some d"
    by (auto simp: base64_decode_def)
  from decode_alphabet [OF this] have "set (filter (\<lambda>c. c \<noteq> CHR 0x0D \<and> c \<noteq> CHR 0x0A) (padded s)) \<subseteq> insert (CHR ''='') (set alpha)" .
  moreover have "x \<in> set (filter (\<lambda>c. c \<noteq> CHR 0x0D \<and> c \<noteq> CHR 0x0A) (padded s))"
    using assms by (auto simp: padded_def Let_def)
  ultimately show False using assms(2,3) by auto
qed

lemma dot_is_kept: "CHR ''.'' \<in> set s \<Longrightarrow> \<not> base64Rewrites s"
  using stranger_never_decodes [of "CHR ''.''" s base64_alphabet] stranger_never_decodes [of "CHR ''.''" s url_alphabet]
  by (simp add: base64Rewrites_def base64_alphabet_def url_alphabet_def)

text \<open>Decoding inverts encoding.\<close>

lemma quad_bytes:
  assumes "a < 256" "b < 256" "c < (256 :: nat)"
  shows "(a * 65536 + b * 256 + c) div 65536 = a" "(a * 65536 + b * 256 + c) div 256 mod 256 = b" "(a * 65536 + b * 256 + c) mod 256 = c"
proof -
  have n: "a * 65536 + b * 256 + c = (a * 256 + b) * 256 + c" by simp
  have gen: "(x * 256 + y) div 256 = x" "(x * 256 + y) mod 256 = y" if "y < 256" for x y :: nat using that by simp_all
  note low = gen [OF assms(3), of "a * 256 + b"] and mid = gen [OF assms(2), of a]
  moreover have "((a * 256 + b) * 256 + c) div 65536 = ((a * 256 + b) * 256 + c) div 256 div 256"
    using div_mult2_eq [of "(a * 256 + b) * 256 + c" 256 256] by simp
  ultimately show "(a * 65536 + b * 256 + c) div 65536 = a" "(a * 65536 + b * 256 + c) div 256 mod 256 = b" "(a * 65536 + b * 256 + c) mod 256 = c"
    unfolding n by (simp_all only: low mid)
qed

lemma quad_of_sextets:
  fixes n :: nat
  shows "quad (n div 262144) (n div 4096 mod 64) (n div 64 mod 64) (n mod 64) =
    [char_of (n div 65536), char_of (n div 256 mod 256), char_of (n mod 256)]"
  using sextets [of n] by (simp add: quad_def Let_def)

lemma char_bytes:
  "quad (n div 262144) (n div 4096 mod 64) (n div 64 mod 64) (n mod 64) = [a, b, c]"
  if "n = of_char a * 65536 + of_char b * 256 + (of_char c :: nat)"
  using quad_bytes [OF byte_bound [of a] byte_bound [of b] byte_bound [of c]] unfolding quad_of_sextets that by simp

lemma index_sextets:
  "n < 16777216 \<Longrightarrow> index_in base64_alphabet (base64_char (n div 262144)) = Some (n div 262144)"
  "index_in base64_alphabet (base64_char (n div 4096 mod 64)) = Some (n div 4096 mod 64)"
  "index_in base64_alphabet (base64_char (n div 64 mod 64)) = Some (n div 64 mod 64)"
  "index_in base64_alphabet (base64_char (n mod 64)) = Some (n mod 64)"
  by (rule index_base64, simp add: less_mult_imp_div_less)+

lemma shifted_two:
  fixes m :: nat
  shows "m * 64 div 262144 = m div 4096" "m * 64 div 4096 mod 64 = m div 64 mod 64" "m * 64 div 64 mod 64 = m mod 64" "m * 64 mod 64 = 0"
  using div_mult_mult2 [of 64 m 4096] div_mult_mult2 [of 64 m 64] by simp_all

lemma shifted_one:
  fixes m :: nat
  shows "m * 4096 div 262144 = m div 64" "m * 4096 div 4096 mod 64 = m mod 64" "m * 4096 div 64 mod 64 = 0" "m * 4096 mod 64 = 0"
proof -
  have k: "m * 4096 = (m * 64) * 64" by simp
  show "m * 4096 div 262144 = m div 64" "m * 4096 div 4096 mod 64 = m mod 64" using div_mult_mult2 [of 4096 m 64] by simp_all
  show "m * 4096 div 64 mod 64 = 0" "m * 4096 mod 64 = 0" unfolding k by simp_all
qed

lemma decode_encode: "decode_quads base64_alphabet (base64_std s) = Some s"
proof (induction s rule: base64_std.induct)
  case 1
  then show ?case by simp
next
  case (2 a)
  let ?m = "of_char a * 16 :: nat"
  let ?n = "?m * 4096"
  have n: "?n = of_char a * 65536" by simp
  have big: "?n < 16777216" using byte_le [of a] by linarith
  have "take 1 (quad (?n div 262144) (?n div 4096 mod 64) 0 0) = [a]"
    using char_bytes [of ?n a "CHR 0x00" "CHR 0x00"] shifted_one(3,4) [of ?m] by simp
  then show ?case
    using index_sextets(1) [OF big] index_sextets(2) [of ?n] unfolding base64_std.simps Let_def shifted_one(1,2) by simp
next
  case (3 a b)
  let ?m = "(of_char a * 256 + of_char b) * 4 :: nat"
  let ?n = "?m * 64"
  have n: "?n = of_char a * 65536 + of_char b * 256" by simp
  have big: "?n < 16777216" unfolding n using byte_le [of a] byte_le [of b] by linarith
  have "take 2 (quad (?n div 262144) (?n div 4096 mod 64) (?n div 64 mod 64) 0) = [a, b]"
    using char_bytes [of ?n a b "CHR 0x00"] shifted_two(4) [of ?m] n by simp
  moreover have "base64_char (?m mod 64) \<noteq> CHR ''=''" using base64_pad by simp
  ultimately show ?case
    using index_sextets(1) [OF big] index_sextets(2,3) [of ?n] unfolding base64_std.simps Let_def shifted_two(1-3) by simp
next
  case (4 a b c cs)
  let ?n = "of_char a * 65536 + of_char b * 256 + of_char c :: nat"
  have big: "?n < 16777216" using byte_le [of a] byte_le [of b] byte_le [of c] by linarith
  have "base64_char (?n mod 64) \<noteq> CHR ''=''" using base64_pad by simp
  then show ?case
    using index_sextets(1) [OF big] index_sextets(2-4) [of ?n] "4.IH" [OF refl] char_bytes [of ?n a b c, OF refl]
    unfolding base64_std.simps Let_def by simp
qed

lemma url_index:
  "c \<in> set base64_alphabet \<Longrightarrow> index_in url_alphabet (to_url c) = index_in base64_alphabet c"
proof -
  have "list_all (\<lambda>c. index_in url_alphabet (to_url c) = index_in base64_alphabet c) base64_alphabet" by code_simp
  then show "c \<in> set base64_alphabet \<Longrightarrow> index_in url_alphabet (to_url c) = index_in base64_alphabet c"
    by (simp only: list_all_iff)
qed

lemma to_url_pad: "to_url c = CHR ''='' \<longleftrightarrow> c = CHR ''=''"
  by (simp add: to_url_def)

lemma pad_not_in: "index_in base64_alphabet (CHR ''='') = None" "index_in url_alphabet (CHR ''='') = None"
  by (code_simp+)

lemma url_index_any: "c \<in> insert (CHR ''='') (set base64_alphabet) \<Longrightarrow> index_in url_alphabet (to_url c) = index_in base64_alphabet c"
proof (elim insertE)
  assume "c = CHR ''=''"
  moreover have "to_url (CHR ''='') = CHR ''=''" by (simp add: to_url_def)
  ultimately show ?thesis using pad_not_in by simp
qed (rule url_index)

lemma decode_url: "set s \<subseteq> insert (CHR ''='') (set base64_alphabet) \<Longrightarrow> decode_quads url_alphabet (map to_url s) = decode_quads base64_alphabet s"
proof (induction base64_alphabet s rule: decode_quads.induct)
  case (2 a b c d rest)
  have ix: "index_in url_alphabet (to_url x) = index_in base64_alphabet x" if "x \<in> {a, b, c, d}" for x
    using url_index_any [of x] that "2.prems" by auto
  show ?case
  proof (cases "\<exists>x y z v. index_in base64_alphabet a = Some x \<and> index_in base64_alphabet b = Some y \<and>
      index_in base64_alphabet c = Some z \<and> index_in base64_alphabet d = Some v \<and>
      \<not> (rest = [] \<and> c = CHR ''='' \<and> d = CHR ''='') \<and> \<not> (rest = [] \<and> d = CHR ''='')")
    case True
    then obtain x y z v where h: "index_in base64_alphabet a = Some x" "index_in base64_alphabet b = Some y"
      "index_in base64_alphabet c = Some z" "index_in base64_alphabet d = Some v"
      "\<not> (rest = [] \<and> c = CHR ''='' \<and> d = CHR ''='')" "\<not> (rest = [] \<and> d = CHR ''='')" by blast
    have "decode_quads url_alphabet (map to_url rest) = decode_quads base64_alphabet rest"
      by (rule "2.hyps" [OF refl h(1,2) h(5) h(3) h(6) h(4)]) (use "2.prems" in simp)
    then show ?thesis using h by (auto simp: ix to_url_pad)
  next
    case False
    then show ?thesis by (auto simp: ix to_url_pad split: option.splits)
  qed
qed simp_all

lemma base64_chars: "set (base64_std s) \<subseteq> insert (CHR ''='') (set base64_alphabet)"
  using decode_alphabet [OF decode_encode] .

lemma pad_back: "padded (filter (\<lambda>c. c \<noteq> CHR ''='') (base64_std s)) = base64_std s"
proof (induction s rule: base64_std.induct)
  case (2 a)
  have "of_char a * 16 div 64 < (64 :: nat)" using byte_le [of a] by (simp add: less_mult_imp_div_less)
  then show ?case using base64_pad base64_char_plain by (simp add: padded_def Let_def eq_commute [of "CHR ''=''"] numeral_2_eq_2)
next
  case (3 a b)
  have "(of_char a * 256 + of_char b) * 4 div 4096 < (64 :: nat)" using pair_bound [of a b] by (simp add: less_mult_imp_div_less)
  then show ?case using base64_pad base64_char_plain by (simp add: padded_def Let_def eq_commute [of "CHR ''=''"])
next
  case (4 a b c cs)
  have "of_char a * 65536 + of_char b * 256 + of_char c < (16777216 :: nat)" using byte_le [of a] byte_le [of b] byte_le [of c] by linarith
  then have "(of_char a * 65536 + of_char b * 256 + of_char c) div 262144 < (64 :: nat)" by (simp add: less_mult_imp_div_less)
  moreover have "padded (w # x # y # z # rest) = w # x # y # z # padded rest" for w x y z rest
    by (simp add: padded_def Let_def)
  ultimately show ?case using 4 base64_pad base64_char_plain by (simp add: Let_def)
qed (simp add: padded_def Let_def)

lemma padded_url: "padded (map to_url x) = map to_url (padded x)"
  by (simp add: padded_def Let_def to_url_def)

lemma raw_url_decodes: "base64_decode url_alphabet (padded (raw_url_text bs)) = Some (byte_text bs)"
proof -
  have sub: "set (map to_url (base64_std (byte_text bs))) \<subseteq> insert (CHR ''='') (to_url ` set base64_alphabet)"
    using base64_chars [of "byte_text bs"] by (auto simp: to_url_def)
  have no: "CHR 0x0D \<notin> to_url ` set base64_alphabet" "CHR 0x0A \<notin> to_url ` set base64_alphabet" by (code_simp+)
  have "c \<noteq> CHR 0x0D \<and> c \<noteq> CHR 0x0A" if "c \<in> set (map to_url (base64_std (byte_text bs)))" for c
    using subsetD [OF sub that] no by (elim insertE) (simp, metis)
  then have "filter (\<lambda>c. c \<noteq> CHR 0x0D \<and> c \<noteq> CHR 0x0A) (map to_url (base64_std (byte_text bs))) = map to_url (base64_std (byte_text bs))"
    by (intro filter_True) blast
  then show ?thesis
    by (simp only: raw_url_text_def padded_url pad_back base64_decode_def decode_url [OF base64_chars] decode_encode)
qed

section \<open>Lemmas on hexadecimal\<close>

definition hex_alphabet :: string where "hex_alphabet = ''0123456789abcdef''"

lemma hex_digit_in: "n < 16 \<Longrightarrow> hex_digit n \<in> set hex_alphabet"
proof -
  assume "n < 16"
  then have "n < length hex_alphabet" by (simp add: hex_alphabet_def)
  from nth_mem [OF this] show "hex_digit n \<in> set hex_alphabet" by (simp add: hex_digit_def hex_alphabet_def del: set_simps)
qed

lemma byte_small: "unat (b :: 8 word) < 256"
  by (rule order.strict_trans2 [OF unsigned_less]) simp

lemma hex_text_length [simp]: "length (hex_text bs) = 2 * length bs"
  by (induction bs) (simp_all add: hex_text_def hex_byte_def)

lemma hex_text_chars: "set (hex_text bs) \<subseteq> set hex_alphabet"
proof -
  have "set (hex_byte b) \<subseteq> set hex_alphabet" for b
    using byte_small [of b] hex_digit_in by (simp add: hex_byte_def less_mult_imp_div_less)
  then show ?thesis by (auto simp: hex_text_def)
qed

text \<open>An honest source gives as many bytes as it is asked for, and a number below the bound.\<close>

definition honest :: "'r random_source \<Rightarrow> bool" where
  "honest e =
     ((\<forall>n r bs r'. rs_bytes e n r = (Inr bs, r') \<longrightarrow> length bs = n) \<and> (\<forall>n r k r'. rs_below e n r = (Inr k, r') \<longrightarrow> k < n))"

lemma tunnel_password_shape:
  assumes "tunnelPassword e r = (Inr pw, r')" and "honest e"
  shows "length pw = 33 \<and> set pw \<subseteq> insert (CHR ''.'') (set hex_alphabet) \<and> hd pw \<in> set hex_alphabet \<and> \<not> base64Rewrites pw"
proof -
  obtain bs r1 n where b: "rs_bytes e 16 r = (Inr bs, r1)" "rs_below e (length (hex_text bs)) r1 = (Inr n, r')"
    "pw = take (n + 1) (hex_text bs) @ ''.'' @ drop (n + 1) (hex_text bs)"
    using assms(1) by (auto simp: tunnelPassword_def randomHexString_def split: prod.splits sum.splits)
  have "length bs = 16" using assms(2) b(1) by (auto simp: honest_def)
  moreover from this have "n < 32" using assms(2) b(2) unfolding honest_def by force
  ultimately have len: "length bs = 16" "n < 32" by simp_all
  have parts: "set (take (n + 1) (hex_text bs)) \<subseteq> set hex_alphabet" "set (drop (n + 1) (hex_text bs)) \<subseteq> set hex_alphabet"
    using hex_text_chars [of bs] set_take_subset set_drop_subset by (metis subset_trans)+
  obtain c cs where h: "hex_text bs = c # cs" using hex_text_length [of bs] len(1) by (cases "hex_text bs") auto
  have "hd pw = c" using b(3) unfolding h by simp
  then have "hd pw \<in> set hex_alphabet" using hex_text_chars [of bs] unfolding h by simp
  moreover have "\<not> base64Rewrites pw" by (rule dot_is_kept) (simp add: b(3))
  moreover have "length pw = 33" using b(3) len by simp
  ultimately show ?thesis using b(3) parts by auto
qed

lemma randomUUID_result:
  assumes "randomUUID e fuel r = Some (Inr uuid, r')" and "honest e"
  shows "\<exists>b. length b = 16 \<and> uuid = uuid_text (uuid_bytes b) \<and> \<not> base64Rewrites uuid"
  using assms(1)
proof (induction fuel arbitrary: r)
  case (Suc fuel)
  obtain x r1 where x: "rs_bytes e 16 r = (x, r1)" by fastforce
  then obtain b where b: "x = Inr b" using Suc.prems by (cases x) auto
  then have "length b = 16" using assms(2) x by (auto simp: honest_def)
  then show ?case using Suc.prems Suc.IH x b by (auto simp: Let_def split: if_splits)
qed simp

text \<open>The loop ends at the first sample that is not rewritten; more fuel changes nothing.\<close>

lemma randomUUID_more_fuel: "randomUUID e fuel r = Some res \<Longrightarrow> randomUUID e (fuel + k) r = Some res"
  by (induction fuel arbitrary: r) (auto simp: Let_def split: prod.splits sum.splits)

section \<open>Properties\<close>

lemma clamp_bits:
  fixes x :: "8 word"
  shows "(x AND 248) AND 248 = x AND 248" "(x AND 248) AND 7 = 0"
    and "(((x AND 127) OR 64) AND 127) OR 64 = (x AND 127) OR 64" "((x AND 127) OR 64) AND 192 = 64"
  by (simp_all add: and.assoc bit.conj_disj_distrib2)

text \<open>C36: The private half of a REALITY identity is usable as it is given. What is installed on the node decodes to
  32 bytes that are already clamped, so that clamping them again changes nothing; the public half that
  the client keeps is X25519 of exactly these bytes; and the user id reads the same to a client that
  decodes it.\<close>
theorem reality_key_is_clamped:
  assumes "newRealityIdentity e dest r = Some (Inr i, r')" and "honest (mi_random e)"
  shows "\<exists>k pub. length k = 32 \<and> clamp k = k \<and> (k ! 0) AND 7 = 0 \<and> (k ! 31) AND 192 = 64 \<and> mi_x25519 e k = Inr pub \<and>
    base64_decode url_alphabet (padded (ri_PrivateKey i)) = Some (byte_text k) \<and>
    base64_decode url_alphabet (padded (ri_PublicKey i)) = Some (byte_text pub) \<and> \<not> base64Rewrites (ri_UUID i)"
proof -
  obtain priv pub r1 r2 r3 where p: "rs_bytes (mi_random e) 32 r1 = (Inr priv, r2)" "mi_x25519 e (clamp priv) = Inr pub"
      "ri_PrivateKey i = raw_url_text (clamp priv)" "ri_PublicKey i = raw_url_text pub"
    and u: "randomUUID (mi_random e) (mi_fuel e) r = Some (Inr (ri_UUID i), r3)"
    using assms(1) by (auto simp: newRealityIdentity_def Let_def split: option.splits prod.splits sum.splits)
  have len: "length priv = 32" using p(1) assms(2) by (auto simp: honest_def)
  then have at: "clamp priv ! 0 = (priv ! 0) AND 248" "clamp priv ! 31 = ((priv ! 31) AND 127) OR 64" "length (clamp priv) = 32"
    by (simp_all add: clamp_def)
  have "clamp (clamp priv) = clamp priv"
    unfolding clamp_def [of "clamp priv"] at clamp_bits(1,3) using len by (simp add: clamp_def list_update_swap)
  moreover have "\<not> base64Rewrites (ri_UUID i)" using randomUUID_result [OF u assms(2)] by blast
  ultimately show ?thesis using p(2-4) at clamp_bits(2,4) raw_url_decodes by metis
qed

lemma high_nibble: "unat (b :: 8 word) div 16 = unat (drop_bit 4 b)"
  by (simp add: drop_bit_eq_div unat_div_distrib)

lemma version_nibble: "unat (((b :: 8 word) AND 0x0f) OR 0x40) div 16 = 4"
  unfolding high_nibble by (simp add: drop_bit_or drop_bit_and)

lemma variant_nibble: "unat (((b :: 8 word) AND 0x3f) OR 0x80) div 16 \<in> {8, 9, 10, 11}"
proof -
  have "drop_bit 4 ((b AND 0x3f) OR 0x80) = take_bit 2 (drop_bit 4 b) OR 8"
    by (simp add: drop_bit_or drop_bit_and take_bit_eq_mask mask_eq_exp_minus_1)
  moreover have "take_bit 2 (drop_bit 4 b) = word_of_nat (unat (take_bit 2 (drop_bit 4 b)))" by simp
  moreover have "unat (take_bit 2 (drop_bit 4 b)) < 2 ^ 2" unfolding unsigned_take_bit_eq by (rule take_bit_nat_less_exp)
  then have "unat (take_bit 2 (drop_bit 4 b)) \<in> {0, 1, 2, 3}" by auto
  ultimately show ?thesis unfolding high_nibble by (elim insertE emptyE) simp_all
qed

lemma two_bytes:
  assumes "Suc n < length b"
  shows "hex_text (take 2 (drop n b)) = hex_byte (b ! n) @ hex_byte (b ! Suc n)"
proof -
  have "drop n b = b ! n # b ! Suc n # drop (Suc (Suc n)) b"
    using Cons_nth_drop_Suc [of n b] Cons_nth_drop_Suc [of "Suc n" b] assms by (metis Suc_lessD)
  then have "take 2 (drop n b) = [b ! n, b ! Suc n]" by (simp only: take_Suc_Cons numeral_2_eq_2 take_0)
  then show ?thesis by (simp only:) (simp add: hex_text_def)
qed

text \<open>A user id is a version 4 UUID of the standard form that no importing client rewrites.\<close>
theorem user_ids_are_v4:
  assumes "randomUUID e fuel r = Some (Inr uuid, r')" and "honest e"
  shows "length uuid = 36 \<and> uuid ! 8 = CHR ''-'' \<and> uuid ! 13 = CHR ''-'' \<and> uuid ! 18 = CHR ''-'' \<and> uuid ! 23 = CHR ''-'' \<and>
    uuid ! 14 = CHR ''4'' \<and> uuid ! 19 \<in> set ''89ab'' \<and> \<not> base64Rewrites uuid"
proof -
  obtain b where b: "length b = 16" "uuid = uuid_text (uuid_bytes b)" "\<not> base64Rewrites uuid"
    using randomUUID_result [OF assms] by blast
  let ?b = "uuid_bytes b"
  have len: "length ?b = 16" using b(1) by (simp add: uuid_bytes_def)
  define x0 x1 x2 x3 x4 where x: "x0 = hex_text (take 4 ?b)" "x1 = hex_text (take 2 (drop 4 ?b))" "x2 = hex_text (take 2 (drop 6 ?b))"
    "x3 = hex_text (take 2 (drop 8 ?b))" "x4 = hex_text (take 6 (drop 10 ?b))"
  have lens: "length x0 = 8" "length x1 = 4" "length x2 = 4" "length x3 = 4" "length x4 = 12" using len by (simp_all add: x)
  have u: "uuid = x0 @ ''-'' @ x1 @ ''-'' @ x2 @ ''-'' @ x3 @ ''-'' @ x4" by (simp only: b(2) uuid_text_def x)
  have "x2 ! 0 = hex_digit 4" using two_bytes [of 6 ?b] len b(1) by (simp add: x hex_byte_def uuid_bytes_def version_nibble)
  moreover have "x3 ! 0 = hex_digit (unat ((b ! 8) AND 0x3f OR 0x80) div 16)"
    using two_bytes [of 8 ?b] len b(1) by (simp add: x hex_byte_def uuid_bytes_def)
  moreover have "hex_digit (unat ((b ! 8) AND 0x3f OR 0x80) div 16) \<in> set ''89ab''"
    using variant_nibble [of "b ! 8"] by (elim insertE emptyE) (simp_all add: hex_digit_def)
  ultimately show ?thesis
    using lens b(3) unfolding u by (simp add: nth_append hex_digit_def)
qed

lemma reality_identity_uuid:
  assumes "newRealityIdentity e dest r = Some (Inr i, r')" and "honest (mi_random e)"
  shows "\<not> base64Rewrites (ri_UUID i)"
proof -
  obtain r1 where "randomUUID (mi_random e) (mi_fuel e) r = Some (Inr (ri_UUID i), r1)"
    using assms(1) by (auto simp: newRealityIdentity_def Let_def split: option.splits prod.splits sum.splits)
  from randomUUID_result [OF this assms(2)] show ?thesis by blast
qed

text \<open>C19: What a deployment records survives a client that decodes it. Whenever the password and the identity of a
  new node come from the minting of this file, the recorded password of a hysteria2 node, and the
  recorded user id of its REALITY leg, are not rewritten by a client that takes them for base64.\<close>
theorem minted_credentials_survive_import:
  assumes "mint e fl srv = Inr (srv', script)" and "honest rnd"
    and "\<And>pw. dx_password e = Inr pw \<Longrightarrow> \<exists>r r'. tunnelPassword rnd r = (Inr pw, r')"
    and "\<And>dest i. dx_reality e dest = Inr i \<Longrightarrow> \<exists>m r r'. mi_random m = rnd \<and> newRealityIdentity m dest r = Some (Inr i, r')"
  shows "(isReality srv \<or> \<not> base64Rewrites (sv_Password srv')) \<and>
    (sv_UUID srv' = sv_UUID srv \<and> \<not> isReality srv \<or> \<not> base64Rewrites (sv_UUID srv'))"
proof -
  have pw: "dx_password e = Inr pw \<Longrightarrow> \<not> base64Rewrites pw" for pw
  proof -
    assume "dx_password e = Inr pw"
    then obtain r r' where "tunnelPassword rnd r = (Inr pw, r')" using assms(3) by blast
    from tunnel_password_shape [OF this assms(2)] show "\<not> base64Rewrites pw" by simp
  qed
  have id: "dx_reality e dest = Inr i \<Longrightarrow> \<not> base64Rewrites (ri_UUID i)" for dest i
  proof -
    assume "dx_reality e dest = Inr i"
    then obtain m r r' where m: "mi_random m = rnd" "newRealityIdentity m dest r = Some (Inr i, r')" using assms(4) by blast
    show "\<not> base64Rewrites (ri_UUID i)" using reality_identity_uuid [OF m(2)] m(1) assms(2) by simp
  qed
  show ?thesis
    using assms(1) pw id
    by (auto simp: mint_def configureDeployedReality_def Let_def split: if_splits sum.splits)
qed

section \<open>A source of zeros\<close>

definition zero_source :: "unit random_source" where
  "zero_source = \<lparr>rs_bytes = (\<lambda>n _. (Inr (replicate n 0), ())), rs_below = (\<lambda>n _. (if n = 0 then Inl ''empty range'' else Inr 0, ()))\<rparr>"

definition zero_mint :: "unit mint_env" where
  "zero_mint = \<lparr>mi_random = zero_source, mi_home = None, mi_now = 0, mi_add_years = (\<lambda>_ t. t), mi_keygen = (\<lambda>_. (Inr 0, ())),
     mi_sign = (\<lambda>_ _. Inr (''cert'', ''key'')), mi_x25519 = (\<lambda>k. Inr k), mi_fuel = 3\<rparr>"

lemma zero_honest: "honest zero_source"
  by (auto simp: honest_def zero_source_def split: if_splits)

definition zero_uuid :: string where "zero_uuid = ''00000000-0000-4000-8000-000000000000''"

lemma zero_uuid_kept: "\<not> base64Rewrites zero_uuid"
proof -
  have "base64_decode base64_alphabet (padded zero_uuid) = None"
    by (rule stranger_never_decodes [of "CHR ''-''"]) (simp_all add: zero_uuid_def base64_alphabet_def)
  moreover have "case base64_decode url_alphabet (padded zero_uuid) of Some d \<Rightarrow> CHR '':'' \<notin> set d | None \<Rightarrow> True"
    by (simp add: base64_decode_def padded_def zero_uuid_def url_alphabet_def quad_def Let_def char_of_def)
  ultimately show ?thesis by (auto simp: base64Rewrites_def split: option.splits)
qed

lemma zero_uuid_made: "uuid_text (uuid_bytes (replicate 16 0)) = zero_uuid"
proof -
  have "replicate 16 0 = [0, 0, 0, 0, 0, 0, 0, 0, 0, 0, 0, 0, 0, 0, 0, 0 :: 8 word]" by (simp add: numeral_eq_Suc)
  then show ?thesis
    by (simp only:) (simp add: uuid_text_def uuid_bytes_def hex_text_def hex_byte_def hex_digit_def zero_uuid_def)
qed

lemma zero_uuid_run: "randomUUID zero_source 3 () = Some (Inr zero_uuid, ())"
  using zero_uuid_kept zero_uuid_made by (simp add: zero_source_def numeral_3_eq_3 Let_def)

lemma zero_identity: "\<exists>i. newRealityIdentity zero_mint dest () = Some (Inr i, ()) \<and> ri_UUID i = zero_uuid"
  using zero_uuid_run by (simp add: newRealityIdentity_def zero_mint_def randomHexString_def zero_source_def Let_def)

lemma zero_password: "\<exists>pw. tunnelPassword zero_source () = (Inr pw, ())"
  by (simp add: tunnelPassword_def randomHexString_def zero_source_def)

theorem user_ids_are_v4_witness: "zero_uuid ! 14 = CHR ''4'' \<and> length zero_uuid = 36"
  using user_ids_are_v4 [OF zero_uuid_run zero_honest] by simp

theorem reality_key_is_clamped_witness:
  "\<exists>i k. newRealityIdentity zero_mint ''d'' () = Some (Inr i, ()) \<and> clamp k = k \<and>
     base64_decode url_alphabet (padded (ri_PrivateKey i)) = Some (byte_text k)"
proof -
  obtain i where i: "newRealityIdentity zero_mint ''d'' () = Some (Inr i, ())" using zero_identity by blast
  have "honest (mi_random zero_mint)" using zero_honest by (simp add: zero_mint_def)
  from reality_key_is_clamped [OF i this] i show ?thesis by blast
qed

theorem minted_credentials_survive_import_witness:
  "\<exists>srv' script. mint (good_run\<lparr>dx_password := fst (tunnelPassword zero_source ()),
      dx_reality := (\<lambda>dest. case newRealityIdentity zero_mint dest () of Some (x, _) \<Rightarrow> x | None \<Rightarrow> Inl [])\<rparr>)
      good_flags zero_server = Inr (srv', script) \<and> \<not> base64Rewrites (sv_Password srv') \<and> \<not> base64Rewrites (sv_UUID srv')"
proof -
  obtain pw where pw: "tunnelPassword zero_source () = (Inr pw, ())" using zero_password by blast
  let ?re = "\<lambda>dest. case newRealityIdentity zero_mint dest () of Some (x, _) \<Rightarrow> x | None \<Rightarrow> Inl []"
  let ?e = "good_run\<lparr>dx_password := fst (tunnelPassword zero_source ()), dx_reality := ?re\<rparr>"
  obtain i where i: "newRealityIdentity zero_mint ''d'' () = Some (Inr i, ())" "ri_UUID i = zero_uuid" using zero_identity by blast
  have plain: "\<not> isReality zero_server" by (simp add: isReality_def zero_server_def)
  obtain srv' script where m: "mint ?e good_flags zero_server = Inr (srv', script)" "sv_UUID srv' = zero_uuid"
    using plain pw i by (simp add: mint_def good_run_def good_flags_def configureDeployedReality_def Let_def)
  have made: "\<exists>m r r'. mi_random m = zero_source \<and> newRealityIdentity m dest r = Some (Inr j, r')" if "?re dest = Inr j" for dest j
    using that zero_identity [of dest] by (intro exI [of _ zero_mint] exI [of _ "()"]) (auto simp: zero_mint_def)
  have "(isReality zero_server \<or> \<not> base64Rewrites (sv_Password srv')) \<and>
    (sv_UUID srv' = sv_UUID zero_server \<and> \<not> isReality zero_server \<or> \<not> base64Rewrites (sv_UUID srv'))"
  proof (rule minted_credentials_survive_import [OF m(1) zero_honest])
    show "dx_password ?e = Inr q \<Longrightarrow> \<exists>r r'. tunnelPassword zero_source r = (Inr q, r')" for q
      using pw by (intro exI [of _ "()"]) simp
    show "dx_reality ?e dest = Inr j \<Longrightarrow> \<exists>m r r'. mi_random m = zero_source \<and> newRealityIdentity m dest r = Some (Inr j, r')" for dest j
      using made [of dest j] by simp
  qed
  then show ?thesis using m plain zero_uuid_kept by auto
qed

end
