(* ===== verification/Sysctl.thy ===== *)
theory Sysctl
  imports Mole_Prelude
begin

text \<open>
  utils/sysctl.go: raising the socket buffers, with the previous values kept in a file beside, and putting
  them back. The kernel's settings are a map; a command may fail, and what a write does to the map
  is the environment's.
\<close>

section \<open>Tuning and restoring\<close>

definition netTuning :: "(string \<times> string) list" where
  "netTuning =
     [(''kern.ipc.maxsockbuf'', ''8388608''), (''net.inet.udp.recvspace'', ''7168000''),
      (''net.inet.udp.sendspace'', ''7168000''), (''net.inet.udp.maxdgram'', ''65535'')]"

type_synonym settings = "string \<rightharpoonup> string"

text \<open>A backup that is not JSON is read as an empty map; JSON null is outside the model.\<close>

datatype sysctl_file = NoSysctls | BadSysctls | Sysctls settings

text \<open>
  Whether the host is a Mac, whether a key can be read where it exists, the write command, whether the
  backup can be written, and the order in which a map is walked.
\<close>

record sysctl_env =
  sy_darwin :: bool
  sy_readable :: "string \<Rightarrow> bool"
  sy_write :: "string \<Rightarrow> string \<Rightarrow> settings \<Rightarrow> go_error \<times> settings"
  sy_saved :: bool
  sy_left :: sysctl_file
  sy_order :: "string list"

definition readSysctl :: "sysctl_env \<Rightarrow> string \<Rightarrow> settings \<Rightarrow> string option" where
  "readSysctl e key k = (if sy_readable e key then map_option trim_space (k key) else None)"

definition stored_values :: "sysctl_file \<Rightarrow> settings" where
  "stored_values f = (case f of Sysctls b \<Rightarrow> b | _ \<Rightarrow> Map.empty)"

text \<open>The keys the backup does not have yet.\<close>

fun capture :: "sysctl_env \<Rightarrow> settings \<Rightarrow> (string \<times> string) list \<Rightarrow> settings \<Rightarrow> settings" where
  "capture e k [] b = b"
| "capture e k ((key, _) # kvs) b =
     (if b key \<noteq> None then capture e k kvs b
      else case readSysctl e key k of
        None \<Rightarrow> capture e k kvs b
      | Some v \<Rightarrow> capture e k kvs (b(key \<mapsto> v)))"

text \<open>Whether there was any.\<close>

definition dirty :: "sysctl_env \<Rightarrow> settings \<Rightarrow> (string \<times> string) list \<Rightarrow> settings \<Rightarrow> bool" where
  "dirty e k kvs b = list_ex (\<lambda>kv. b (fst kv) = None \<and> readSysctl e (fst kv) k \<noteq> None) kvs"

fun write_all :: "sysctl_env \<Rightarrow> (string \<times> string) list \<Rightarrow> settings \<Rightarrow> string list \<times> settings" where
  "write_all e [] k = ([], k)"
| "write_all e ((key, v) # kvs) k =
     (case readSysctl e key k of
        None \<Rightarrow> write_all e kvs k
      | Some _ \<Rightarrow>
          (case sy_write e key v k of
             (err, k) \<Rightarrow>
               (case write_all e kvs k of
                  (errs, k) \<Rightarrow> ((case err of None \<Rightarrow> errs | Some t \<Rightarrow> (key @ '': '' @ t) # errs), k))))"

fun join_semi :: "string list \<Rightarrow> string" where
  "join_semi [] = []"
| "join_semi [t] = t"
| "join_semi (t # u # ts) = t @ ''; '' @ join_semi (u # ts)"

definition TuneNetworkStack :: "sysctl_env \<Rightarrow> sysctl_file \<times> settings \<Rightarrow> go_error \<times> sysctl_file \<times> settings" where
  "TuneNetworkStack e s =
     (case s of (f, k) \<Rightarrow>
        if \<not> sy_darwin e then (None, f, k)
        else
          let old = stored_values f; b = capture e k netTuning old;
              f = (if \<not> dirty e k netTuning old then f else if sy_saved e then Sysctls b else sy_left e)
          in case write_all e netTuning k of
               (failed, k) \<Rightarrow> (if failed = [] then None else Some (''sysctl: '' @ join_semi failed), f, k))"

text \<open>Errors of the commands are ignored, and so is one of the removal, which the environment decides by sy_saved.\<close>

fun put_back :: "sysctl_env \<Rightarrow> settings \<Rightarrow> string list \<Rightarrow> settings \<Rightarrow> settings" where
  "put_back e b [] k = k"
| "put_back e b (key # keys) k =
     put_back e b keys (case b key of None \<Rightarrow> k | Some v \<Rightarrow> snd (sy_write e key v k))"

definition RestoreNetworkStack :: "sysctl_env \<Rightarrow> sysctl_file \<times> settings \<Rightarrow> sysctl_file \<times> settings" where
  "RestoreNetworkStack e s =
     (case s of (f, k) \<Rightarrow>
        if \<not> sy_darwin e then (f, k)
        else case f of
          Sysctls b \<Rightarrow> (if sy_saved e then NoSysctls else f, put_back e b (sy_order e) k)
        | _ \<Rightarrow> (f, k))"

section \<open>The contract of the command\<close>

text \<open>
  A command that works writes every key that exists. Interface: writing a key changes no other, and one that reports success on a key that exists has set it.
  A kernel that refuses a value reports an error.
\<close>

definition sysctl_works :: "sysctl_env \<Rightarrow> bool" where
  "sysctl_works e =
     (sy_darwin e \<and> sy_saved e \<and> (\<forall>key v k. k key \<noteq> None \<longrightarrow> fst (sy_write e key v k) = None))"

locale sysctl_command =
  fixes e :: sysctl_env
  assumes write_other: "other \<noteq> key \<Longrightarrow> snd (sy_write e key v k) other = k other"
    and write_done: "sy_write e key v k = (None, k') \<Longrightarrow> k' key = Some v"
    and write_exists: "snd (sy_write e key v k) key = None \<longleftrightarrow> k key = None"
begin

lemma write_all_other: "write_all e kvs k = (errs, k') \<Longrightarrow> other \<notin> fst ` set kvs \<Longrightarrow> k' other = k other"
proof (induction kvs arbitrary: k errs)
  case (Cons kv kvs)
  obtain key v where kv: "kv = (key, v)" by fastforce
  show ?case
  proof (cases "readSysctl e key k")
    case None
    then show ?thesis using Cons kv by simp
  next
    case (Some x)
    obtain err k1 where w: "sy_write e key v k = (err, k1)" by fastforce
    obtain errs1 where r: "write_all e kvs k1 = (errs1, k')" using Cons.prems(1) kv Some w by (auto split: prod.splits)
    have "k1 other = k other" using write_other [of other key v k] w Cons.prems(2) kv by simp
    then show ?thesis using Cons.IH [OF r] Cons.prems(2) kv by simp
  qed
qed simp

lemma write_all_exists: "write_all e kvs k = (errs, k') \<Longrightarrow> k' key = None \<longleftrightarrow> k key = None"
proof (induction kvs arbitrary: k errs)
  case (Cons kv kvs)
  obtain x v where kv: "kv = (x, v)" by fastforce
  obtain err k1 where w: "sy_write e x v k = (err, k1)" by fastforce
  have "k1 key = None \<longleftrightarrow> k key = None"
    using write_exists [of x v k] write_other [of key x v k] w by (cases "key = x") auto
  then show ?case using Cons kv w by (auto split: prod.splits option.splits)
qed simp

lemma put_back_other: "key \<notin> set keys \<or> b key = None \<Longrightarrow> put_back e b keys k key = k key"
proof (induction keys arbitrary: k)
  case (Cons x keys)
  then show ?case using write_other [of key x] by (cases "x = key") (auto split: option.splits)
qed simp

lemma put_back_done:
  "sysctl_works e \<Longrightarrow> key \<in> set keys \<Longrightarrow> b key = Some v \<Longrightarrow> k key \<noteq> None \<Longrightarrow> put_back e b keys k key = Some v"
proof (induction keys arbitrary: k)
  case (Cons x keys)
  have kept: "(case b x of None \<Rightarrow> k | Some v \<Rightarrow> snd (sy_write e x v k)) key \<noteq> None"
    using Cons.prems(4) write_exists [of x _ k] write_other [of key x _ k] by (cases "key = x") (auto split: option.splits)
  show ?case
  proof (cases "key \<in> set keys")
    case False
    then have x: "x = key" using Cons.prems(2) by simp
    have "fst (sy_write e key v k) = None" using Cons.prems(1,4) unfolding sysctl_works_def by blast
    then obtain k1 where w: "sy_write e key v k = (None, k1)" by (cases "sy_write e key v k") simp
    then show ?thesis using put_back_other [of key keys b k1] False Cons.prems(3) write_done [OF w] x by simp
  next
    case True
    then show ?thesis using Cons.IH [of "case b x of None \<Rightarrow> k | Some v \<Rightarrow> snd (sy_write e x v k)"] Cons.prems(1,3) True kept by simp
  qed
qed simp

end

section \<open>The original values are on record\<close>

definition clean_values :: "settings \<Rightarrow> bool" where
  "clean_values orig = (\<forall>key v. orig key = Some v \<longrightarrow> trim_space v = v)"

definition sysctl_inv :: "settings \<Rightarrow> sysctl_file \<times> settings \<Rightarrow> bool" where
  "sysctl_inv orig s =
     (case s of (f, k) \<Rightarrow>
        (\<forall>key. case stored_values f key of Some v \<Rightarrow> orig key = Some v | None \<Rightarrow> k key = orig key) \<and>
        (\<forall>key. k key = None \<longleftrightarrow> orig key = None) \<and> f \<noteq> BadSysctls)"

lemma capture_keeps:
  assumes "clean_values orig"
    and "\<And>key. case b key of Some v \<Rightarrow> orig key = Some v | None \<Rightarrow> k key = orig key"
  shows "(case capture e k kvs b key of Some v \<Rightarrow> orig key = Some v | None \<Rightarrow> k key = orig key)"
  using assms(2)
proof (induction kvs arbitrary: b)
  case (Cons kv kvs)
  obtain x y where kv: "kv = (x, y)" by fastforce
  show ?case
  proof (cases "b x \<noteq> None \<or> readSysctl e x k = None")
    case True
    then show ?thesis using Cons kv by auto
  next
    case False
    then obtain v where v: "readSysctl e x k = Some v" "b x = None" by auto
    then have "orig x = Some v"
      using Cons.prems [of x] assms(1) by (auto simp: readSysctl_def clean_values_def split: if_splits)
    then have "case (b(x \<mapsto> v)) key of Some v \<Rightarrow> orig key = Some v | None \<Rightarrow> k key = orig key" for key using Cons.prems [of key] by simp
    from Cons.IH [OF this] show ?thesis using v kv by (simp add: fun_upd_def)
  qed
qed simp

lemma capture_not_dirty: "\<not> dirty e k kvs b \<Longrightarrow> capture e k kvs b = b"
  by (induction kvs) (auto simp: dirty_def split: option.splits)

lemma capture_mono: "b key \<noteq> None \<Longrightarrow> capture e k kvs b key \<noteq> None"
  by (induction kvs arbitrary: b) (auto split: option.splits)

lemma capture_all: "(key, v) \<in> set kvs \<Longrightarrow> readSysctl e key k \<noteq> None \<Longrightarrow> capture e k kvs b key \<noteq> None"
proof (induction kvs arbitrary: b)
  case (Cons kv kvs)
  then show ?case using capture_mono by (cases kv) (auto split: option.splits)
qed simp

context sysctl_command
begin

text \<open>A key is written only if it can be read, and then it has been captured.\<close>

lemma write_all_unread:
  "write_all e kvs k = (errs, k') \<Longrightarrow> readSysctl e key k = None \<Longrightarrow> k' key = k key"
proof (induction kvs arbitrary: k errs)
  case (Cons kv kvs)
  obtain x v where kv: "kv = (x, v)" by fastforce
  show ?case
  proof (cases "readSysctl e x k")
    case None
    then show ?thesis using Cons kv by simp
  next
    case (Some y)
    obtain err k1 where w: "sy_write e x v k = (err, k1)" by fastforce
    have same: "k1 key = k key" using write_other [of key x v k] w Some Cons.prems(2) by (cases "key = x") auto
    then have "readSysctl e key k1 = None" using Cons.prems(2) by (simp add: readSysctl_def split: if_splits)
    with Cons.IH [of k1] Cons.prems(1) kv Some w same show ?thesis by (auto split: prod.splits)
  qed
qed simp

lemma tune_inv:
  assumes "sysctl_inv orig s" and "clean_values orig" and "sy_saved e" and "TuneNetworkStack e s = (err, s')"
  shows "sysctl_inv orig s'"
proof (cases "sy_darwin e")
  case False
  then show ?thesis using assms(1,4) by (cases s) (simp add: TuneNetworkStack_def)
next
  case True
  obtain f k where s: "s = (f, k)" by fastforce
  let ?b = "capture e k netTuning (stored_values f)"
  obtain failed k' where w: "write_all e netTuning k = (failed, k')" by fastforce
  obtain f' where s': "s' = (f', k')" "stored_values f' = ?b" "f' = f \<or> f' = Sysctls ?b"
    using assms(3,4) True w capture_not_dirty [of e k netTuning "stored_values f"]
    by (cases "dirty e k netTuning (stored_values f)") (auto simp: TuneNetworkStack_def s Let_def, simp add: stored_values_def)
  have old: "case stored_values f key of Some v \<Rightarrow> orig key = Some v | None \<Rightarrow> k key = orig key" for key
    using assms(1) by (simp add: sysctl_inv_def s)
  have "case ?b key of Some v \<Rightarrow> orig key = Some v | None \<Rightarrow> k' key = orig key" for key
  proof (cases "?b key")
    case None
    then have "key \<notin> fst ` set netTuning \<or> readSysctl e key k = None"
      using capture_all [where key = key and kvs = netTuning and k = k and b = "stored_values f"] by fastforce
    then have "k' key = k key" using write_all_other [OF w, of key] write_all_unread [OF w, of key] by blast
    then show ?thesis using None capture_keeps [OF assms(2) old, of key e netTuning] by simp
  qed (use capture_keeps [OF assms(2) old, of key e netTuning] in simp)
  then show ?thesis using s' assms(1) write_all_exists [OF w] by (auto simp: sysctl_inv_def s)
qed

lemma untune_inv:
  assumes "sysctl_inv orig s" and "sysctl_works e"
    and "dom (stored_values (fst s)) \<subseteq> set (sy_order e)"
  shows "RestoreNetworkStack e s = (NoSysctls, orig)"
proof -
  obtain f k where s: "s = (f, k)" by fastforce
  have inv: "case stored_values f key of Some v \<Rightarrow> orig key = Some v | None \<Rightarrow> k key = orig key" "f \<noteq> BadSysctls"
    "k key = None \<longleftrightarrow> orig key = None" for key
    using assms(1) by (simp_all add: sysctl_inv_def s)
  show ?thesis
  proof (cases f)
    case NoSysctls
    then have "k = orig" using inv(1) by (auto simp: stored_values_def)
    then show ?thesis using NoSysctls assms(2) by (simp add: RestoreNetworkStack_def sysctl_works_def s)
  next
    case (Sysctls b)
    have "put_back e b (sy_order e) k key = orig key" for key
    proof (cases "b key")
      case None
      then show ?thesis using put_back_other [of key "sy_order e" b k] inv(1) [of key] Sysctls by (simp add: stored_values_def)
    next
      case (Some v)
      then have "key \<in> set (sy_order e)" using assms(3) Sysctls by (auto simp: s stored_values_def dom_def)
      then show ?thesis using put_back_done [of key "sy_order e" b v k] assms(2) inv(1,3) [of key] Sysctls Some by (simp add: stored_values_def)
    qed
    then show ?thesis using Sysctls assms(2) by (simp add: RestoreNetworkStack_def sysctl_works_def s fun_eq_iff)
  qed (use inv in simp)
qed

end

inductive sysctl_reach :: "settings \<Rightarrow> sysctl_file \<times> settings \<Rightarrow> bool" for orig :: settings where
  sysctl_start: "sysctl_reach orig (NoSysctls, orig)"
| sysctl_tune: "sysctl_reach orig s \<Longrightarrow> sysctl_command e \<Longrightarrow> sy_saved e \<Longrightarrow> sysctl_reach orig (snd (TuneNetworkStack e s))"
| sysctl_restore: "sysctl_reach orig s \<Longrightarrow> sysctl_command e \<Longrightarrow> sysctl_works e \<Longrightarrow>
    dom (stored_values (fst s)) \<subseteq> set (sy_order e) \<Longrightarrow> sysctl_reach orig (RestoreNetworkStack e s)"

section \<open>Properties\<close>


text \<open>A Mac on which the command works, and one on which it is refused.\<close>

definition mac_sysctl :: "bool \<Rightarrow> sysctl_env" where
  "mac_sysctl root = \<lparr>sy_darwin = True, sy_readable = (\<lambda>_. True),
     sy_write = (\<lambda>key v k. if k key = None then (Some ''unknown oid'', k)
       else if root then (None, k(key \<mapsto> v)) else (Some ''operation not permitted'', k)),
     sy_saved = True, sy_left = NoSysctls, sy_order = map fst netTuning\<rparr>"

interpretation mac: sysctl_command "mac_sysctl root"
  by unfold_locales (auto simp: mac_sysctl_def split: if_splits)

lemma mac_works: "sysctl_works (mac_sysctl True)"
  by (simp add: sysctl_works_def mac_sysctl_def)

definition fresh_mac :: settings where
  "fresh_mac = [''kern.ipc.maxsockbuf'' \<mapsto> ''6291456'', ''net.inet.udp.recvspace'' \<mapsto> ''786896'', ''net.inet.udp.maxdgram'' \<mapsto> ''9216'']"

lemma fresh_mac_clean: "clean_values fresh_mac"
  by (auto simp: clean_values_def fresh_mac_def trim_space_def is_space_def split: if_splits)

lemma tuned_mac: "snd (TuneNetworkStack (mac_sysctl True) (NoSysctls, fresh_mac)) =
    (Sysctls fresh_mac, [''kern.ipc.maxsockbuf'' \<mapsto> ''8388608'', ''net.inet.udp.recvspace'' \<mapsto> ''7168000'', ''net.inet.udp.maxdgram'' \<mapsto> ''65535''])"
proof -
  have "capture (mac_sysctl True) fresh_mac netTuning Map.empty = fresh_mac"
    by (simp add: netTuning_def readSysctl_def mac_sysctl_def fresh_mac_def trim_space_def is_space_def)
  moreover have "dirty (mac_sysctl True) fresh_mac netTuning Map.empty" by (simp add: dirty_def netTuning_def readSysctl_def mac_sysctl_def fresh_mac_def)
  moreover have "snd (write_all (mac_sysctl True) netTuning fresh_mac) =
      [''kern.ipc.maxsockbuf'' \<mapsto> ''8388608'', ''net.inet.udp.recvspace'' \<mapsto> ''7168000'', ''net.inet.udp.maxdgram'' \<mapsto> ''65535'']"
    by (simp add: netTuning_def readSysctl_def mac_sysctl_def fresh_mac_def fun_eq_iff)
  ultimately show ?thesis by (simp add: TuneNetworkStack_def stored_values_def Let_def case_prod_beta) (simp add: mac_sysctl_def)
qed


text \<open>
  A restore ignores the errors of its commands and removes the backup all the same: one that runs without
  the right to write leaves the tuned values in place with nothing on record to undo them.
\<close>
theorem refused_restore_forgets:
  "let s = snd (TuneNetworkStack (mac_sysctl True) (NoSysctls, fresh_mac)) in
    fst (RestoreNetworkStack (mac_sysctl False) s) = NoSysctls \<and> snd (RestoreNetworkStack (mac_sysctl False) s) = snd s \<and> snd s \<noteq> fresh_mac"
proof -
  have "put_back (mac_sysctl False) b keys k = k" for b keys k
    by (induction keys arbitrary: k) (auto simp: mac_sysctl_def split: option.splits)
  moreover have "snd (snd (TuneNetworkStack (mac_sysctl True) (NoSysctls, fresh_mac))) \<noteq> fresh_mac"
  proof
    assume "snd (snd (TuneNetworkStack (mac_sysctl True) (NoSysctls, fresh_mac))) = fresh_mac"
    then have "snd (snd (TuneNetworkStack (mac_sysctl True) (NoSysctls, fresh_mac))) ''net.inet.udp.maxdgram'' = fresh_mac ''net.inet.udp.maxdgram''" by simp
    then show False unfolding tuned_mac by (simp add: fresh_mac_def)
  qed
  ultimately show ?thesis by (simp add: tuned_mac RestoreNetworkStack_def Let_def) (simp add: mac_sysctl_def)
qed

end
