(* ===== verification/Daemon.thy ===== *)
theory Daemon
  imports Shutdown Sysctl DNS_Takeover Direct_Exempt Engine Config_Laws
begin

text \<open>
  cmd/up.go: mole up. The parent wakes the server, stores the key, builds the configuration and starts the
  daemon, through sudo if it is not root; the daemon changes the host, runs the supervisor behind these
  changes and undoes them with its deferred calls. The parts come from the theories of the files
  they are in; here is the order in which they happen.
\<close>

section \<open>The host\<close>

text \<open>
  The stored servers and the rest of the world, the backups and settings of the parts, the pid file, the pid in state.json if
  that can be read, the key file if it can be read, the rule sets and the configuration on disk.
\<close>

record 'w daemon_host =
  dh_host :: "'w host"
  dh_dns :: backup_file
  dh_sysctl :: "sysctl_file \<times> settings"
  dh_exempt :: exempt_state
  dh_pid :: pid_file
  dh_state :: "int option"
  dh_key :: "string option"
  dh_files :: rule_files
  dh_config :: "SingboxConfig option"

abbreviation dh_world :: "'w daemon_host \<Rightarrow> 'w" where
  "dh_world h \<equiv> h_world (dh_host h)"

definition put_world :: "'w \<Rightarrow> 'w daemon_host \<Rightarrow> 'w daemon_host" where
  "put_world w h = h\<lparr>dh_host := (dh_host h)\<lparr>h_world := w\<rparr>\<rparr>"

definition no_pid_file :: pid_file where "no_pid_file = NoPidFile ''no such file or directory''"

text \<open>A process: who it runs as, its environment, and its flags.\<close>

record up_process =
  pr_euid :: int
  pr_sudo_user :: string
  pr_key :: string
  pr_pid :: int
  pr_exe :: string
  pr_no_kill_switch :: bool
  pr_no_destroy :: bool
  pr_dry_run :: bool
  pr_grace :: go_duration

datatype up_error = UpNoServer active_error | UpBuild build_error | UpError string go_error

section \<open>The key\<close>

definition vultrKey :: "string \<Rightarrow> string option \<Rightarrow> string + string" where
  "vultrKey env file =
     (if trim_space env \<noteq> [] then Inr (trim_space env)
      else case file of
        Some b \<Rightarrow> if trim_space b \<noteq> [] then Inr (trim_space b) else Inl ''VULTR_API_KEY environment variable is not set''
      | None \<Rightarrow> Inl ''VULTR_API_KEY environment variable is not set'')"

definition vultrKeyAvailable :: "up_process \<Rightarrow> 'w daemon_host \<Rightarrow> bool" where
  "vultrKeyAvailable p h = (\<not> isl (vultrKey (pr_key p) (dh_key h)))"

text \<open>Writing the key: it works, or fails with an error and leaves the file as it left it.\<close>

datatype key_disk = KeyTakes | KeyFails string "string option"

definition stashVultrKey :: "key_disk \<Rightarrow> up_process \<Rightarrow> 'w daemon_host \<Rightarrow> go_error \<times> 'w daemon_host" where
  "stashVultrKey d p h =
     (let k = trim_space (pr_key p) in
      if k = [] then (Some ''VULTR_API_KEY is not set (the daemon deletes the server on its own when this Mac sleeps, and sudo does not carry the environment into it)'', h)
      else case d of
        KeyTakes \<Rightarrow> (None, h\<lparr>dh_key := Some (k @ [CHR 0x0A])\<rparr>)
      | KeyFails err left \<Rightarrow> (Some (''stash the Vultr key for the daemon: '' @ err), h\<lparr>dh_key := left\<rparr>))"

definition lidDestroyPlan :: "up_process \<Rightarrow> 'w daemon_host \<Rightarrow> bool \<times> bool \<times> string" where
  "lidDestroyPlan p h =
     (if pr_no_destroy p then (False, False, ''--no-destroy-on-lid-close was passed'')
      else if pr_dry_run p then (True, True, [])
      else if \<not> vultrKeyAvailable p h then (False, False, ''no Vultr key reached the daemon'')
      else (True, False, []))"

definition sudoWouldDisarmLidDestroy :: "int \<Rightarrow> string \<Rightarrow> bool \<Rightarrow> bool \<Rightarrow> bool \<Rightarrow> bool" where
  "sudoWouldDisarmLidDestroy euid sudoUser keyAvailable optedOut dryRun =
     (if optedOut \<or> dryRun \<or> keyAvailable then False else euid = 0 \<and> sudoUser \<noteq> [])"

section \<open>The daemon\<close>

text \<open>
  What the daemon finds: the engine's files, the settings of the network services when it takes them
  over and when it gives them back, the same for sysctl, the packet filter, and the supervisor. A run
  of the supervisor ends with a signal, after which it is stopped and waited for at most ten
  seconds, or by itself; the host it leaves is the one when the wait is over.
\<close>

datatype run_end = Signalled | RunEnded go_error

record 'w daemon_env =
  de_darwin :: bool
  de_disk :: go_error
  de_find :: "'w \<Rightarrow> string + string"
  de_version :: "string \<Rightarrow> 'w \<Rightarrow> string + string"
  de_check :: "string \<Rightarrow> SingboxConfig option \<Rightarrow> 'w \<Rightarrow> (string \<times> string) option"
  de_take :: "'w dnsSettings"
  de_give :: "'w dnsSettings"
  de_tune :: sysctl_env
  de_untune :: sysctl_env
  de_arm :: arm_env
  de_ports :: "string + string list"
  de_disarm :: disarm_env
  de_tables :: table_env
  de_direct :: DirectDomainSet
  de_coder :: link_coder
  de_removes :: bool
  de_run :: "SupervisorOpts \<Rightarrow> 'w daemon_host \<Rightarrow> run_end \<times> 'w daemon_host"

definition WritePID :: "'w daemon_env \<Rightarrow> up_process \<Rightarrow> 'w daemon_host \<Rightarrow> go_error \<times> 'w daemon_host" where
  "WritePID e p h =
     (case de_disk e of None \<Rightarrow> (None, h\<lparr>dh_pid := PidJson (pr_pid p) (pr_exe p)\<rparr>) | Some err \<Rightarrow> (Some err, h))"

definition PreflightEngine :: "'w daemon_env \<Rightarrow> 'w daemon_host \<Rightarrow> go_error" where
  "PreflightEngine e h =
     (case de_find e (dh_world h) of
        Inl err \<Rightarrow> Some err
      | Inr path \<Rightarrow> checkEngineConfig (de_version e path (dh_world h)) (de_check e path (dh_config h) (dh_world h)))"

definition TakeOverDNS :: "'w daemon_env \<Rightarrow> 'w daemon_host \<Rightarrow> go_error \<times> 'w daemon_host" where
  "TakeOverDNS e h =
     (if \<not> de_darwin e then (None, h)
      else case takeOver (de_take e) (dh_dns h) (dh_world h) of (err, f, w) \<Rightarrow> (err, put_world w (h\<lparr>dh_dns := f\<rparr>)))"

definition RestoreDNS :: "'w daemon_env \<Rightarrow> 'w daemon_host \<Rightarrow> go_error \<times> 'w daemon_host" where
  "RestoreDNS e h =
     (if \<not> de_darwin e then (None, h)
      else case restore (de_give e) (dh_dns h) (dh_world h) of (err, f, w) \<Rightarrow> (err, put_world w (h\<lparr>dh_dns := f\<rparr>)))"

text \<open>The deferred calls; the list is the stack, the last one registered at its head.\<close>

datatype deferred = RemovePID | RemoveState | DeferRestoreDNS | DeferRestoreNetworkStack | DeferUnloadKillSwitch

fun run_deferred :: "'w daemon_env \<Rightarrow> deferred \<Rightarrow> 'w daemon_host \<Rightarrow> 'w daemon_host" where
  "run_deferred e RemovePID h = (if de_removes e then h\<lparr>dh_pid := no_pid_file\<rparr> else h)"
| "run_deferred e RemoveState h = (if de_removes e then h\<lparr>dh_state := None\<rparr> else h)"
| "run_deferred e DeferRestoreDNS h = snd (RestoreDNS e h)"
| "run_deferred e DeferRestoreNetworkStack h = h\<lparr>dh_sysctl := RestoreNetworkStack (de_untune e) (dh_sysctl h)\<rparr>"
| "run_deferred e DeferUnloadKillSwitch h =
     h\<lparr>dh_exempt := (dh_exempt h)\<lparr>xs_pf := UnloadKillSwitch (de_disarm e) (xs_pf (dh_exempt h))\<rparr>\<rparr>"

text \<open>The kill switch; a failure to arm is a warning.\<close>

definition known_ips :: "'w daemon_host \<Rightarrow> string list" where
  "known_ips h = knownServerIPs (case readServersAt (h_store (dh_host h)) of Inl _ \<Rightarrow> [] | Inr servers \<Rightarrow> servers)"

definition arm_switch :: "'w daemon_env \<Rightarrow> up_process \<Rightarrow> 'w daemon_host \<Rightarrow> deferred list \<times> 'w daemon_host" where
  "arm_switch e p h =
     (if de_darwin e \<and> \<not> pr_no_kill_switch p then
        (case LoadKillSwitch (de_arm e) (physicalInterfaces (de_ports e)) (known_ips h) (xs_pf (dh_exempt h)) of
           (Some _, pf) \<Rightarrow> ([], h\<lparr>dh_exempt := (dh_exempt h)\<lparr>xs_pf := pf\<rparr>\<rparr>)
         | (None, pf) \<Rightarrow>
             ([DeferUnloadKillSwitch],
              h\<lparr>dh_exempt := SeedDirectExemptions (de_tables e) (de_direct e) ((dh_exempt h)\<lparr>xs_pf := pf\<rparr>)\<rparr>))
      else ([], h))"

definition probe_addr :: "Server \<Rightarrow> string" where
  "probe_addr srv =
     (let host = serverHost srv in
      (if CHR '':'' \<in> set host \<and> cut_prefix host ''['' = None then ''['' @ host @ '']'' else host) @ '':'' @ itoa (uint (sv_Port srv)))"

definition daemon_opts :: "'w daemon_env \<Rightarrow> up_process \<Rightarrow> Server \<Rightarrow> 'w daemon_host \<Rightarrow> SupervisorOpts" where
  "daemon_opts e p srv h =
     (case lidDestroyPlan p h of
        (armed, dry, off) \<Rightarrow>
          \<lparr>ClashAddr = [], ProbeAddr = probe_addr srv, ProbeURL = [], ObfsPassword = sv_ObfsPassword srv,
           ProbeEvery = 0, KeepaliveEvery = 0, ProbeTimeMs = 0,
           HasRealityLeg = StandbyURI (de_coder e) srv \<noteq> [], VerifyLegEgress = StandbyURI (de_coder e) srv \<noteq> [],
           RealityAddr = Server_Links.realityAddr srv, Schedule = server_schedule srv, OptsRealityRateMbps = sv_RealityDownMbps srv,
           DestroyOnLidClose = armed, LidCloseDryRun = dry, LidGrace = pr_grace p, LidDestroyOffReason = off\<rparr>)"

text \<open>The daemon up to the start of the supervisor: its options or the error, and what is deferred by then.\<close>

definition prepare_daemon ::
  "'w daemon_env \<Rightarrow> up_process \<Rightarrow> 'w daemon_host \<Rightarrow> (up_error + SupervisorOpts) \<times> deferred list \<times> 'w daemon_host" where
  "prepare_daemon e p h =
     (case WritePID e p h of
        (Some err, h) \<Rightarrow> (Inl (UpError ''write pid'' (Some err)), [], h)
      | (None, h) \<Rightarrow>
          (case ActiveServer (h_store (dh_host h)) of
             Inl err \<Rightarrow> (Inl (UpNoServer err), [RemoveState, RemovePID], h)
           | Inr srv \<Rightarrow>
               if PreflightEngine e h \<noteq> None
               then (Inl (UpError ''engine preflight before network takeover'' (PreflightEngine e h)), [RemoveState, RemovePID], h)
               else case TakeOverDNS e h of
                 (Some err, h) \<Rightarrow> (Inl (UpError ''DNS takeover failed'' (Some err)), [DeferRestoreDNS, RemoveState, RemovePID], h)
               | (None, h) \<Rightarrow>
                   let h = h\<lparr>dh_sysctl := snd (TuneNetworkStack (de_tune e) (dh_sysctl h))\<rparr> in
                   (case arm_switch e p h of
                      (ds, h) \<Rightarrow>
                        (Inr (daemon_opts e p srv h), ds @ [DeferRestoreNetworkStack, DeferRestoreDNS, RemoveState, RemovePID], h))))"

definition runDaemon :: "'w daemon_env \<Rightarrow> up_process \<Rightarrow> 'w daemon_host \<Rightarrow> up_error option \<times> 'w daemon_host" where
  "runDaemon e p h =
     (case prepare_daemon e p h of
        (Inl err, ds, h) \<Rightarrow> (Some err, fold (run_deferred e) ds h)
      | (Inr opts, ds, h) \<Rightarrow>
          (case de_run e opts h of
             (Signalled, h) \<Rightarrow> (None, fold (run_deferred e) ds h)
           | (RunEnded None, h) \<Rightarrow> (None, fold (run_deferred e) ds h)
           | (RunEnded (Some err), h) \<Rightarrow> (Some (UpError [] (Some err)), fold (run_deferred e) ds h)))"

section \<open>The parent\<close>

text \<open>
  What the parent finds besides: the process table, the provider, the disk, the clock, the downloads it
  asks for, what of the file system the build reads, and the start of the detached child with its pid, or an
  error.
\<close>

record 'w up_env =
  ue_daemon :: "'w daemon_env"
  ue_procs :: "'w down_env"
  ue_api :: "'w api"
  ue_file_env :: file_env
  ue_polls :: nat
  ue_key_disk :: key_disk
  ue_unix :: bool
  ue_rules :: "'w \<Rightarrow> 'w"
  ue_cn :: cn_env
  ue_build :: "'w \<Rightarrow> build_env"
  ue_stat :: "'w \<Rightarrow> string \<Rightarrow> nat option"
  ue_save :: go_error
  ue_saved_part :: "SingboxConfig option"
  ue_daemonize :: "up_process \<Rightarrow> 'w daemon_host \<Rightarrow> (string + int) \<times> 'w daemon_host"
  ue_now :: "'w daemon_host \<Rightarrow> go_time"
  ue_sleep :: "'w daemon_host \<Rightarrow> 'w daemon_host"
  ue_user :: string

text \<open>The process table with the pid file and state.json of the host.\<close>

definition host_procs :: "'w up_env \<Rightarrow> 'w daemon_host down_env" where
  "host_procs v =
     (let e = ue_procs v in
      \<lparr>dn_signal0 = (\<lambda>pid h. dn_signal0 e pid (dh_world h)), dn_listed = (\<lambda>pid h. dn_listed e pid (dh_world h)),
       dn_comm = (\<lambda>pid h. dn_comm e pid (dh_world h)), dn_uid = (\<lambda>pid h. dn_uid e pid (dh_world h)),
       dn_pgrep = (\<lambda>h. dn_pgrep e (dh_world h)), dn_ps = (\<lambda>h. dn_ps e (dh_world h)), dn_self = dn_self e,
       dn_term = (\<lambda>pid h. put_world (dn_term e pid (dh_world h)) h), dn_kill = (\<lambda>pid h. put_world (dn_kill e pid (dh_world h)) h),
       dn_pause = (\<lambda>h. put_world (dn_pause e (dh_world h)) h), dn_now = (\<lambda>h. dn_now e (dh_world h)),
       dn_pid_file = dh_pid, dn_state_pid = dh_state, dn_config = dn_config e, dn_unix = dn_unix e,
       dn_armed = (\<lambda>h. KillSwitchLoaded (xs_pf (dh_exempt h))),
       dn_disarm = run_deferred (ue_daemon v) DeferUnloadKillSwitch, dn_dns = RestoreDNS (ue_daemon v),
       dn_network = run_deferred (ue_daemon v) DeferRestoreNetworkStack,
       dn_remove_pid = run_deferred (ue_daemon v) RemovePID, dn_remove_state = run_deferred (ue_daemon v) RemoveState\<rparr>)"

text \<open>The two recoveries of the active server; None goes on, also with an error that is reported later.\<close>

definition recover_server :: "'w up_env \<Rightarrow> 'w daemon_host \<Rightarrow> up_error option \<times> 'w daemon_host" where
  "recover_server v h =
     (case ActiveServer (h_store (dh_host h)) of
        Inl (ErrServerStopped _) \<Rightarrow>
          (case autoWakeServer (ue_api v) (ue_file_env v) (ue_polls v) (dh_host h) of
             (err, s) \<Rightarrow> (if err \<noteq> None then Some (UpError ''auto-wake failed'' err) else None, h\<lparr>dh_host := s\<rparr>))
      | Inl (ErrServerProvisioning _) \<Rightarrow>
          (case reconcileAddresses (ue_api v) (ue_file_env v) (dh_host h) of
             ((err, _), s) \<Rightarrow>
               (if err \<noteq> None then Some (UpError ''could not record the address of the server'' err)
                else case ActiveServer (h_store s) of Inl a \<Rightarrow> Some (UpNoServer a) | Inr _ \<Rightarrow> None,
                h\<lparr>dh_host := s\<rparr>))
      | _ \<Rightarrow> (None, h))"

text \<open>Storing the key; without one the feature is switched off in this process.\<close>

definition offer_key :: "'w up_env \<Rightarrow> up_process \<Rightarrow> 'w daemon_host \<Rightarrow> up_process \<times> 'w daemon_host" where
  "offer_key v p h =
     (if pr_no_destroy p \<or> pr_dry_run p then (p, h)
      else case stashVultrKey (ue_key_disk v) p h of
        (err, h) \<Rightarrow> (if err \<noteq> None \<and> \<not> vultrKeyAvailable p h then p\<lparr>pr_no_destroy := True\<rparr> else p, h))"

text \<open>From the server to a configuration that the engine accepts.\<close>

definition ensure_lists :: "'w up_env \<Rightarrow> up_process \<Rightarrow> 'w daemon_host \<Rightarrow> 'w daemon_host" where
  "ensure_lists v p h =
     (let h = put_world (ue_rules v (dh_world h)) h in
      if pr_no_kill_switch p then h
      else h\<lparr>dh_exempt := (dh_exempt h)\<lparr>xs_pf := (xs_pf (dh_exempt h))\<lparr>pf_cn := EnsureCNCIDRs (ue_cn v) (pf_cn (xs_pf (dh_exempt h)))\<rparr>\<rparr>\<rparr>)"

definition write_config :: "'w up_env \<Rightarrow> Server \<Rightarrow> 'w daemon_host \<Rightarrow> up_error option \<times> 'w daemon_host" where
  "write_config v srv h =
     (let c = de_coder (ue_daemon v) in
      case BuildWithStandby (ue_build v (dh_world h)) (URI c srv) (StandbyURI c srv) (dh_files h) of
        (Inl err, files) \<Rightarrow> (Some (UpBuild err), h\<lparr>dh_files := files\<rparr>)
      | (Inr cfg, files) \<Rightarrow>
          let h = h\<lparr>dh_files := files\<rparr>; invalid = Validate (ue_stat v (dh_world h)) cfg in
          if invalid \<noteq> None then (Some (UpError ''config validation failed'' invalid), h)
          else if ue_save v \<noteq> None then (Some (UpError ''save config'' (ue_save v)), h\<lparr>dh_config := ue_saved_part v\<rparr>)
          else
            let h = h\<lparr>dh_config := Some cfg\<rparr>; refused = PreflightEngine (ue_daemon v) h in
            (if refused \<noteq> None then Some (UpError ''engine preflight'' refused) else None, h))"

text \<open>The wait for the daemon; None is running out of fuel.\<close>

fun waitForDaemonReady :: "'w up_env \<Rightarrow> nat \<Rightarrow> int \<Rightarrow> go_time \<Rightarrow> 'w daemon_host \<Rightarrow> (go_error \<times> 'w daemon_host) option" where
  "waitForDaemonReady v 0 pid deadline h = None"
| "waitForDaemonReady v (Suc fuel) pid deadline h =
     (if dh_state h = Some pid then Some (None, h)
      else case ReadPID (dh_pid h) of
        Inr other \<Rightarrow>
          if other \<noteq> pid then Some (Some ''daemon exited early'', h)
          else if ue_now v h > deadline then Some (Some ''timed out'', h)
          else waitForDaemonReady v fuel pid deadline (ue_sleep v h)
      | Inl _ \<Rightarrow>
          if ue_now v h > deadline then Some (Some ''timed out'', h)
          else waitForDaemonReady v fuel pid deadline (ue_sleep v h))"

definition ready_fuel :: nat where "ready_fuel = 52"

datatype up_result = UpDone "up_error option" | UpElevate | UpOutOfFuel

definition start_daemon :: "'w up_env \<Rightarrow> up_process \<Rightarrow> 'w daemon_host \<Rightarrow> up_result \<times> 'w daemon_host" where
  "start_daemon v p h =
     (case ue_daemonize v p h of
        (Inl err, h) \<Rightarrow> (UpDone (Some (UpError ''daemonize'' (Some err))), h)
      | (Inr pid, h) \<Rightarrow>
          (case waitForDaemonReady v ready_fuel pid (ue_now v h + 10 * go_second) h of
             None \<Rightarrow> (UpOutOfFuel, h)
           | Some (err, h) \<Rightarrow> (UpDone (if err \<noteq> None then Some (UpError ''daemon did not come up'' err) else None), h)))"

definition up_as_root :: "'w up_env \<Rightarrow> up_process \<Rightarrow> 'w daemon_host \<Rightarrow> up_result \<times> 'w daemon_host" where
  "up_as_root v p h =
     (case ActiveServer (h_store (dh_host h)) of
        Inl err \<Rightarrow> (UpDone (Some (UpNoServer err)), h)
      | Inr srv \<Rightarrow>
          (case write_config v srv (ensure_lists v p h) of
             (Some err, h) \<Rightarrow> (UpDone (Some err), h)
           | (None, h) \<Rightarrow> start_daemon v p h))"

definition runParent :: "'w up_env \<Rightarrow> up_process \<Rightarrow> 'w daemon_host \<Rightarrow> up_result \<times> 'w daemon_host" where
  "runParent v p h =
     (case CheckAlreadyRunning (host_procs v) h of
        (Some err, h) \<Rightarrow> (UpDone (Some (UpError [] (Some err))), h)
      | (None, h) \<Rightarrow>
          let h = KillOrphanedSingboxes (host_procs v) h in
          if sudoWouldDisarmLidDestroy (pr_euid p) (pr_sudo_user p) (vultrKeyAvailable p h) (pr_no_destroy p) (pr_dry_run p)
          then (UpDone (Some (UpError ''run mole up WITHOUT sudo'' None)), h)
          else case recover_server v h of
            (Some err, h) \<Rightarrow> (UpDone (Some err), h)
          | (None, h) \<Rightarrow>
              (case offer_key v p h of
                 (p, h) \<Rightarrow> if ue_unix v \<and> pr_euid p \<noteq> 0 then (UpElevate, h) else up_as_root v p h))"

text \<open>
  The command as a user meets it. Under sudo the same arguments are parsed again by a process of root's
  whose environment has been reset; an error of it is its exit status.
\<close>

definition elevated :: "'w up_env \<Rightarrow> up_process \<Rightarrow> up_process" where
  "elevated v p = p\<lparr>pr_euid := 0, pr_sudo_user := ue_user v, pr_key := []\<rparr>"

definition mole_up :: "'w up_env \<Rightarrow> up_process \<Rightarrow> 'w daemon_host \<Rightarrow> up_result \<times> 'w daemon_host" where
  "mole_up v p h =
     (case runParent v p h of
        (UpElevate, h) \<Rightarrow>
          (case runParent v (elevated v p) h of
             (UpDone (Some _), h) \<Rightarrow> (UpDone (Some (UpError ''exit status 1'' None)), h)
           | r \<Rightarrow> r)
      | r \<Rightarrow> r)"

section \<open>What the daemon leaves\<close>

lemma world_put [simp]:
  "dh_world (put_world w h) = w" "h_store (dh_host (put_world w h)) = h_store (dh_host h)" "dh_dns (put_world w h) = dh_dns h"
  "dh_sysctl (put_world w h) = dh_sysctl h" "dh_exempt (put_world w h) = dh_exempt h" "dh_pid (put_world w h) = dh_pid h"
  "dh_state (put_world w h) = dh_state h" "dh_key (put_world w h) = dh_key h" "dh_files (put_world w h) = dh_files h"
  "dh_config (put_world w h) = dh_config h"
  by (simp_all add: put_world_def)

lemma seed_keeps [simp]:
  "pf_anchor (xs_pf (SeedDirectExemptions v d s)) = pf_anchor (xs_pf s)"
  "pf_refs (xs_pf (SeedDirectExemptions v d s)) = pf_refs (xs_pf s)"
  "pf_token (xs_pf (SeedDirectExemptions v d s)) = pf_token (xs_pf s)"
proof -
  obtain kept ips dropped s' where p: "pruneDirectExemptStoreLocked v d s = ((kept, ips, dropped), s')" by (metis prod_cases3 prod.collapse)
  show "pf_anchor (xs_pf (SeedDirectExemptions v d s)) = pf_anchor (xs_pf s)"
    "pf_refs (xs_pf (SeedDirectExemptions v d s)) = pf_refs (xs_pf s)"
    "pf_token (xs_pf (SeedDirectExemptions v d s)) = pf_token (xs_pf s)"
    using pruned_state [OF p] by (simp_all add: SeedDirectExemptions_def p set_direct_def Let_def)
qed

definition filter_of :: "'w daemon_host \<Rightarrow> pf_state" where "filter_of h = xs_pf (dh_exempt h)"

text \<open>What a prepared daemon has done to the host.\<close>

lemma armed_switch:
  assumes "arm_switch e p h = (ds, h')"
  shows "(ds = [] \<or> ds = [DeferUnloadKillSwitch]) \<and> dh_host h' = dh_host h \<and> dh_dns h' = dh_dns h \<and> dh_sysctl h' = dh_sysctl h \<and>
    dh_pid h' = dh_pid h \<and> dh_state h' = dh_state h \<and> dh_key h' = dh_key h \<and>
    (ds \<noteq> [] \<longrightarrow> pf_anchor (filter_of h') = pf_rules (physicalInterfaces (de_ports e)) (known_ips h) \<and>
       pf_refs (filter_of h') = ar_ref (de_arm e) # pf_refs (filter_of h)) \<and>
    (ds = [] \<longrightarrow> pf_refs (filter_of h') = pf_refs (filter_of h) \<and>
       (pf_anchor (filter_of h') = [] \<or> pf_anchor (filter_of h') = pf_anchor (filter_of h)))"
proof (cases "de_darwin e \<and> \<not> pr_no_kill_switch p")
  case False
  then show ?thesis using assms by (auto simp: arm_switch_def)
next
  case True
  obtain err pf where l: "LoadKillSwitch (de_arm e) (physicalInterfaces (de_ports e)) (known_ips h) (xs_pf (dh_exempt h)) = (err, pf)" by fastforce
  show ?thesis using assms True l load_outcome [OF l] by (cases err) (auto simp: arm_switch_def filter_of_def)
qed

lemma armed_token:
  assumes "arm_switch e p h = ([DeferUnloadKillSwitch], h')" and "prints_token (de_arm e)" and "ar_token_written (de_arm e)"
  shows "pf_token (filter_of h') = Some (ar_ref (de_arm e))"
proof -
  obtain err pf where l: "LoadKillSwitch (de_arm e) (physicalInterfaces (de_ports e)) (known_ips h) (xs_pf (dh_exempt h)) = (err, pf)" by fastforce
  with assms(1) have "err = None" by (auto simp: arm_switch_def split: if_splits option.splits)
  with l load_token [of "de_arm e"] assms show ?thesis by (auto simp: arm_switch_def filter_of_def split: if_splits)
qed

text \<open>The stages a daemon can have reached when its deferred calls run.\<close>

lemma prepared_cases:
  assumes "prepare_daemon e p h = (r, ds, h')"
  obtains (unwritten) "isl r" "ds = []" "h' = h"
  | (refused) "isl r" "ds = [RemoveState, RemovePID]" "h' = h\<lparr>dh_pid := PidJson (pr_pid p) (pr_exe p)\<rparr>"
  | (not_taken) err where "isl r" "ds = [DeferRestoreDNS, RemoveState, RemovePID]"
      "TakeOverDNS e (h\<lparr>dh_pid := PidJson (pr_pid p) (pr_exe p)\<rparr>) = (Some err, h')"
  | (ready) srv h1 us where "r = Inr (daemon_opts e p srv h')" "ActiveServer (h_store (dh_host h)) = Inr srv"
      "PreflightEngine e h = None"
      "TakeOverDNS e (h\<lparr>dh_pid := PidJson (pr_pid p) (pr_exe p)\<rparr>) = (None, h1)"
      "arm_switch e p (h1\<lparr>dh_sysctl := snd (TuneNetworkStack (de_tune e) (dh_sysctl h1))\<rparr>) = (us, h')"
      "ds = us @ [DeferRestoreNetworkStack, DeferRestoreDNS, RemoveState, RemovePID]"
proof -
  let ?h = "h\<lparr>dh_pid := PidJson (pr_pid p) (pr_exe p)\<rparr>"
  have pre: "PreflightEngine e ?h = PreflightEngine e h" by (simp add: PreflightEngine_def split: sum.splits)
  show thesis
  proof (cases "de_disk e")
    case (Some err)
    then show ?thesis using assms by (intro unwritten) (auto simp: prepare_daemon_def WritePID_def)
  next
    case wrote: None
    show ?thesis
    proof (cases "ActiveServer (h_store (dh_host h))")
      case (Inl a)
      then show ?thesis using assms wrote by (intro refused) (auto simp: prepare_daemon_def WritePID_def)
    next
      case (Inr srv)
      show ?thesis
      proof (cases "PreflightEngine e h")
        case (Some err)
        then show ?thesis using assms wrote Inr pre by (intro refused) (auto simp: prepare_daemon_def WritePID_def)
      next
        case None
        obtain terr h1 where take: "TakeOverDNS e ?h = (terr, h1)" by fastforce
        show ?thesis
        proof (cases terr)
          case (Some err)
          then show ?thesis using assms wrote Inr None pre take by (intro not_taken) (auto simp: prepare_daemon_def WritePID_def)
        next
          case taken: None
          obtain us h2 where arm: "arm_switch e p (h1\<lparr>dh_sysctl := snd (TuneNetworkStack (de_tune e) (dh_sysctl h1))\<rparr>) = (us, h2)" by fastforce
          show ?thesis
            using assms wrote Inr None pre take taken arm
            by (intro ready [of srv h1 us]) (auto simp: prepare_daemon_def WritePID_def Let_def)
        qed
      qed
    qed
  qed
qed

lemma capture_new: "capture e k kvs b key \<noteq> None \<Longrightarrow> b key \<noteq> None \<or> key \<in> fst ` set kvs"
proof (induction kvs arbitrary: b)
  case (Cons kv kvs)
  obtain x v where kv: "kv = (x, v)" by fastforce
  show ?case
  proof (cases "b x \<noteq> None \<or> readSysctl e x k = None")
    case True
    then have "capture e k (kv # kvs) b = capture e k kvs b" by (auto simp: kv)
    then show ?thesis using Cons.IH [of b] Cons.prems by simp blast
  next
    case False
    then obtain y where "capture e k (kv # kvs) b = capture e k kvs (b(x \<mapsto> y))" by (auto simp: kv)
    with Cons.prems have "capture e k kvs (b(x \<mapsto> y)) key \<noteq> None" by metis
    from Cons.IH [OF this] show ?thesis by (cases "key = x") (simp_all add: kv)
  qed
qed simp

lemma capture_dom: "dom (capture e k kvs b) \<subseteq> dom b \<union> fst ` set kvs"
  using capture_new by fastforce

text \<open>
  On a Mac whose commands work. A run of the supervisor leaves the resolvers, the two backups and the rules
  and references of the filter alone; it may add to the tables.
\<close>

definition commands_work :: "('w \<Rightarrow> string \<Rightarrow> string list) \<Rightarrow> 'w daemon_env \<Rightarrow> bool" where
  "commands_work servers e =
     (de_darwin e \<and> network_settings (de_take e) servers \<and> network_settings (de_give e) servers \<and>
      (\<forall>svc dns w. fst (d_set (de_give e) svc dns w) = None) \<and> d_remove (de_give e) = None \<and>
      sysctl_command (de_tune e) \<and> sy_saved (de_tune e) \<and> sysctl_command (de_untune e) \<and> sysctl_works (de_untune e) \<and>
      prints_token (de_arm e) \<and> ar_token_written (de_arm e) \<and> di_flush (de_disarm e) \<and> di_release (de_disarm e) \<and>
      de_disk e = None \<and> de_removes e)"

definition run_keeps_settings :: "('w \<Rightarrow> string \<Rightarrow> string list) \<Rightarrow> 'w daemon_env \<Rightarrow> bool" where
  "run_keeps_settings servers e =
     (\<forall>opts h r h'. de_run e opts h = (r, h') \<longrightarrow>
        servers (dh_world h') = servers (dh_world h) \<and> dh_dns h' = dh_dns h \<and> dh_sysctl h' = dh_sysctl h \<and>
        pf_anchor (filter_of h') = pf_anchor (filter_of h) \<and> pf_refs (filter_of h') = pf_refs (filter_of h) \<and>
        pf_token (filter_of h') = pf_token (filter_of h))"

lemma restore_empties:
  assumes "network_settings m servers" "own_settings orig" "dns_inv servers orig (f, w)"
    and "\<forall>svc dns w. fst (d_set m svc dns w) = None" "d_remove m = None" "restore m f w = (err, f', w')"
  shows "f' = NoBackup \<and> servers w' = orig"
proof -
  have inv: "dns_inv servers orig (f', w')" using restore_inv [OF assms(1-3,6)] by blast
  have "f' = NoBackup"
  proof (cases f)
    case NoBackup
    then show ?thesis using assms(6) by (auto simp: restore_def readBackup_def split: sum.splits prod.splits)
  next
    case (Backup b)
    have "fst (restore_services m b w) = []" for w
      using assms(4) by (induction b arbitrary: w) (auto split: prod.splits option.splits, (metis fst_conv option.distinct(1))+)
    then show ?thesis using assms(5,6) Backup
      by (auto simp: restore_def readBackup_def split: prod.splits if_splits option.splits) (metis fst_conv)+
  qed (use assms(3) in \<open>auto simp: dns_inv_def\<close>)
  with inv show ?thesis by (simp add: dns_inv_def)
qed

lemma taken_inv:
  assumes "TakeOverDNS e h = (err, h')" "commands_work servers e" "own_settings orig" "dns_inv servers orig (dh_dns h, dh_world h)"
  shows "dns_inv servers orig (dh_dns h', dh_world h') \<and> dh_sysctl h' = dh_sysctl h \<and> dh_exempt h' = dh_exempt h"
proof -
  obtain r f w where t: "takeOver (de_take e) (dh_dns h) (dh_world h) = (r, f, w)" by (metis prod_cases3)
  have "network_settings (de_take e) servers" using assms(2) by (simp add: commands_work_def)
  from dns_step_inv [OF dns_take [OF this t] assms(3,4)] assms(1,2) t show ?thesis by (auto simp: TakeOverDNS_def commands_work_def)
qed

lemma given_back:
  assumes "commands_work servers e" "own_settings orig" "dns_inv servers orig (dh_dns h, dh_world h)"
  shows "dh_dns (run_deferred e DeferRestoreDNS h) = NoBackup \<and> servers (dh_world (run_deferred e DeferRestoreDNS h)) = orig \<and>
    dh_sysctl (run_deferred e DeferRestoreDNS h) = dh_sysctl h \<and> dh_exempt (run_deferred e DeferRestoreDNS h) = dh_exempt h"
proof -
  obtain r f w where t: "restore (de_give e) (dh_dns h) (dh_world h) = (r, f, w)" by (metis prod_cases3)
  have m: "network_settings (de_give e) servers" "\<forall>svc dns w. fst (d_set (de_give e) svc dns w) = None" "d_remove (de_give e) = None"
    using assms(1) by (auto simp: commands_work_def)
  from restore_empties [OF m(1) assms(2,3) m(2,3) t] t assms(1) show ?thesis by (auto simp: RestoreDNS_def commands_work_def)
qed

text \<open>The values of sysctl, from a tuning with whatever had been stored.\<close>

lemma untuned:
  assumes "sysctl_inv ks s" "clean_values ks" "commands_work servers e"
    and "dom (stored_values (fst s)) \<union> fst ` set netTuning \<subseteq> set (sy_order (de_untune e))"
  shows "RestoreNetworkStack (de_untune e) (snd (TuneNetworkStack (de_tune e) s)) = (NoSysctls, ks)"
proof -
  obtain err s' where t: "TuneNetworkStack (de_tune e) s = (err, s')" by (metis surj_pair)
  have m: "sysctl_command (de_tune e)" "sy_saved (de_tune e)" "sysctl_command (de_untune e)" "sysctl_works (de_untune e)"
    using assms(3) by (auto simp: commands_work_def)
  have "stored_values (fst s') = stored_values (fst s) \<or> stored_values (fst s') = capture (de_tune e) (snd s) netTuning (stored_values (fst s))"
    using t m(2) by (cases s) (auto simp: TuneNetworkStack_def Let_def stored_values_def split: if_splits prod.splits)
  moreover have "dom (capture (de_tune e) (snd s) netTuning (stored_values (fst s))) \<subseteq> set (sy_order (de_untune e))"
    by (rule subset_trans [OF capture_dom assms(4)])
  ultimately have "dom (stored_values (fst s')) \<subseteq> set (sy_order (de_untune e))" using assms(4) by (elim disjE) simp_all
  from sysctl_command.untune_inv [OF m(3) sysctl_command.tune_inv [OF m(1) assms(1,2) m(2) t] m(4) this] t show ?thesis by simp
qed

text \<open>The deferred calls of a daemon that got as far as the supervisor.\<close>

lemma unwound:
  assumes "commands_work servers e" "own_settings orig" "dns_inv servers orig (dh_dns h, dh_world h)"
    and "RestoreNetworkStack (de_untune e) (dh_sysctl h) = (NoSysctls, ks)"
    and "h' = fold (run_deferred e) [DeferRestoreNetworkStack, DeferRestoreDNS, RemoveState, RemovePID] h"
  shows "dh_dns h' = NoBackup \<and> servers (dh_world h') = orig \<and> dh_sysctl h' = (NoSysctls, ks) \<and>
    dh_pid h' = no_pid_file \<and> dh_state h' = None \<and> filter_of h' = filter_of h"
proof -
  let ?h = "h\<lparr>dh_sysctl := (NoSysctls, ks)\<rparr>"
  have "dns_inv servers orig (dh_dns ?h, dh_world ?h)" using assms(3) by simp
  from given_back [OF assms(1,2) this] assms(1,4,5) show ?thesis by (simp add: commands_work_def filter_of_def)
qed

lemma dns_inv_cong: "f' = f \<Longrightarrow> servers w' = servers w \<Longrightarrow> dns_inv servers orig (f, w) \<Longrightarrow> dns_inv servers orig (f', w')"
  by (cases f) (auto simp: dns_inv_def)

lemma ran_and_unwound:
  assumes "commands_work servers e" "run_keeps_settings servers e" "own_settings orig"
    and "dns_inv servers orig (dh_dns h1, dh_world h1)"
    and "RestoreNetworkStack (de_untune e) (dh_sysctl h1) = (NoSysctls, ks)"
    and "arm_switch e p h1 = (us, h2)" "de_run e opts h2 = (r, h3)" "ar_ref (de_arm e) \<notin> set (pf_refs (filter_of h1))"
    and "h' = fold (run_deferred e) (us @ [DeferRestoreNetworkStack, DeferRestoreDNS, RemoveState, RemovePID]) h3"
  shows "dh_dns h' = NoBackup \<and> servers (dh_world h') = orig \<and> dh_sysctl h' = (NoSysctls, ks) \<and>
    dh_pid h' = no_pid_file \<and> dh_state h' = None \<and> pf_refs (filter_of h') = pf_refs (filter_of h1) \<and>
    (pf_anchor (filter_of h') = [] \<or> pf_anchor (filter_of h') = pf_anchor (filter_of h1))"
proof -
  note sw = armed_switch [OF assms(6)]
  have run: "servers (dh_world h3) = servers (dh_world h2)" "dh_dns h3 = dh_dns h2" "dh_sysctl h3 = dh_sysctl h2"
    "pf_anchor (filter_of h3) = pf_anchor (filter_of h2)" "pf_refs (filter_of h3) = pf_refs (filter_of h2)"
    "pf_token (filter_of h3) = pf_token (filter_of h2)"
    using assms(2,7) by (auto simp: run_keeps_settings_def)
  let ?h4 = "fold (run_deferred e) us h3"
  have h4: "dh_dns ?h4 = dh_dns h3" "dh_world ?h4 = dh_world h3" "dh_sysctl ?h4 = dh_sysctl h3"
    "pf_refs (filter_of ?h4) = pf_refs (filter_of h1)"
    "pf_anchor (filter_of ?h4) = [] \<or> pf_anchor (filter_of ?h4) = pf_anchor (filter_of h1)"
  proof -
    have filt: "pf_refs (filter_of ?h4) = pf_refs (filter_of h1) \<and>
        (pf_anchor (filter_of ?h4) = [] \<or> pf_anchor (filter_of ?h4) = pf_anchor (filter_of h1))"
    proof (cases "us = []")
      case True
      then show ?thesis using sw run by simp
    next
      case False
      then have us: "us = [DeferUnloadKillSwitch]" using sw by simp
      have tok: "pf_token (filter_of h3) = Some (ar_ref (de_arm e))"
        using armed_token [of e p h1 h2] assms(1,6) us run(6) by (simp add: commands_work_def)
      have "trim_space (ar_ref (de_arm e)) = ar_ref (de_arm e)" "ar_ref (de_arm e) \<noteq> []" using assms(1) by (auto simp: commands_work_def prints_token_def)
      moreover have "UnloadKillSwitch (de_disarm e) (filter_of h3) = filter_of ?h4" by (simp add: us filter_of_def)
      moreover have "di_flush (de_disarm e)" "di_release (de_disarm e)" using assms(1) by (auto simp: commands_work_def)
      ultimately show ?thesis
        using disarmed [of "de_disarm e" "filter_of h3" "filter_of ?h4"] tok False sw run(5) assms(8) by simp
    qed
    then show "pf_refs (filter_of ?h4) = pf_refs (filter_of h1)"
      "pf_anchor (filter_of ?h4) = [] \<or> pf_anchor (filter_of ?h4) = pf_anchor (filter_of h1)" by blast+
    show "dh_dns ?h4 = dh_dns h3" "dh_world ?h4 = dh_world h3" "dh_sysctl ?h4 = dh_sysctl h3" using sw by auto
  qed
  have dns: "dns_inv servers orig (dh_dns ?h4, dh_world ?h4)"
    by (rule dns_inv_cong [OF _ _ assms(4)]) (use sw run h4 in simp_all)
  have sys: "RestoreNetworkStack (de_untune e) (dh_sysctl ?h4) = (NoSysctls, ks)" using assms(5) h4 run sw by simp
  have "h' = fold (run_deferred e) [DeferRestoreNetworkStack, DeferRestoreDNS, RemoveState, RemovePID] ?h4" using assms(9) by simp
  from unwound [OF assms(1,3) dns sys this] h4 show ?thesis by simp
qed

lemma runDaemon_shape:
  assumes "runDaemon e p h = (err, h')"
  obtains r ds h1 where "prepare_daemon e p h = (r, ds, h1)" "isl r \<longrightarrow> err \<noteq> None \<and> h' = fold (run_deferred e) ds h1"
    "\<And>opts. r = Inr opts \<Longrightarrow> h' = fold (run_deferred e) ds (snd (de_run e opts h1))"
proof -
  obtain r ds h1 where p: "prepare_daemon e p h = (r, ds, h1)" by (metis prod_cases3)
  show thesis using assms p by (intro that [OF p]) (auto simp: runDaemon_def split: sum.splits prod.splits run_end.splits option.splits)
qed

lemma sysctl_reach_inv: "sysctl_reach orig s \<Longrightarrow> clean_values orig \<Longrightarrow> sysctl_inv orig s"
proof (induction rule: sysctl_reach.induct)
  case sysctl_start
  then show ?case by (simp add: sysctl_inv_def stored_values_def)
next
  case (sysctl_tune s e)
  then show ?case using sysctl_command.tune_inv [of e] by (metis prod.collapse)
next
  case (sysctl_restore s e)
  then show ?case using sysctl_command.untune_inv [of e orig s] by (simp add: sysctl_inv_def stored_values_def)
qed

section \<open>Properties of the daemon\<close>



section \<open>A Mac at home\<close>

definition home_daemon :: "settings_table daemon_env" where
  "home_daemon =
     \<lparr>de_darwin = True, de_disk = None, de_find = (\<lambda>_. Inr ''/opt/mole/sing-box''),
      de_version = (\<lambda>_ _. Inr (banner 1 14 4 @ CHR 0x0A # [])), de_check = (\<lambda>_ _ _. None), de_take = plain_tool, de_give = plain_tool,
      de_tune = mac_sysctl True, de_untune = mac_sysctl True, de_arm = sample_arm ''7'', de_ports = Inr [''en0''],
      de_disarm = \<lparr>di_flush = True, di_release = True\<rparr>,
      de_tables = \<lparr>te_flush = True, te_add = None, te_written = True, te_now = 0\<rparr>,
      de_direct = \<lparr>dd_Suffixes = [], dd_Keywords = []\<rparr>, de_coder = sample_coder, de_removes = True,
      de_run = (\<lambda>_ h. (Signalled, h))\<rparr>"

definition home_host :: "string option \<Rightarrow> settings_table daemon_host" where
  "home_host key =
     \<lparr>dh_host = \<lparr>h_world = home_settings, h_store = Stored [sample_node\<lparr>sv_Active := True\<rparr>], h_ladders = NoLadders, h_debt = None\<rparr>,
      dh_dns = NoBackup, dh_sysctl = (NoSysctls, fresh_mac), dh_exempt = \<lparr>xs_pf = idle_filter, xs_store = None\<rparr>,
      dh_pid = no_pid_file, dh_state = None, dh_key = key, dh_files = (\<lambda>_. None), dh_config = None\<rparr>"

definition home_process :: up_process where
  "home_process =
     \<lparr>pr_euid = 501, pr_sudo_user = [], pr_key = [], pr_pid = 42, pr_exe = ''/usr/local/bin/mole'', pr_no_kill_switch = False,
      pr_no_destroy = False, pr_dry_run = False, pr_grace = 300 * go_second\<rparr>"

lemma home_works: "commands_work table_servers home_daemon" "run_keeps_settings table_servers home_daemon"
proof -
  have "network_settings (de_take home_daemon) table_servers" "network_settings (de_give home_daemon) table_servers"
    by (simp_all add: home_daemon_def networksetup.network_settings_axioms)
  moreover have "fst (d_set (de_give home_daemon) svc dns w) = None" "d_remove (de_give home_daemon) = None" for svc dns w
    by (simp_all add: home_daemon_def systemDNSSettings_def setDNS_def table_tool_def table_command_def)
  moreover have "sysctl_command (mac_sysctl True)" by (rule mac.sysctl_command_axioms)
  moreover have "sy_saved (mac_sysctl True)" by (simp add: mac_sysctl_def)
  ultimately show "commands_work table_servers home_daemon"
    using mac_works sample_prints by (simp add: commands_work_def home_daemon_def)
  show "run_keeps_settings table_servers home_daemon" by (simp add: run_keeps_settings_def home_daemon_def)
qed

lemma home_preflight: "PreflightEngine home_daemon h = None"
proof -
  have "nat_text 1 = ''1''" "nat_text 14 = ''14''" "nat_text 4 = ''4''" by code_simp+
  then have "validateEngineVersion (banner 1 14 4 @ CHR 0x0A # []) = None"
    using atoi_value_itoa [of 4] by (simp add: validateEngineVersion_def first_banner itoa_def)
  then show ?thesis by (simp add: PreflightEngine_def home_daemon_def checkEngineConfig_def)
qed

lemma home_ready:
  assumes "h = home_host key"
  shows "\<exists>opts ds h'. prepare_daemon home_daemon home_process h = (Inr opts, ds, h') \<and>
    fst (runDaemon home_daemon home_process h) = None"
proof -
  let ?h = "h\<lparr>dh_pid := PidJson (pr_pid home_process) (pr_exe home_process)\<rparr>"
  have disk: "de_disk home_daemon = None" by (simp add: home_daemon_def)
  have store: "ActiveServer (h_store (dh_host h)) = Inr (sample_node\<lparr>sv_Active := True\<rparr>)"
    by (simp add: assms home_host_def ActiveServer_def readServersAt_def active_of_def sample_node_def zero_server_def HasAddress_def)
  obtain f w where "takeOver plain_tool NoBackup home_settings = (None, f, w)" using home_taken(3) by (metis prod_cases3 fst_conv)
  then have take: "TakeOverDNS home_daemon ?h = (None, put_world w (?h\<lparr>dh_dns := f\<rparr>))"
    by (simp add: TakeOverDNS_def home_daemon_def assms home_host_def)
  have run: "de_run home_daemon opts h = (Signalled, h)" for opts h by (simp add: home_daemon_def)
  show ?thesis
    by (simp add: runDaemon_def prepare_daemon_def WritePID_def disk store home_preflight take run Let_def case_prod_beta)
qed



section \<open>What the parent leaves alone\<close>

text \<open>Everything of the host but the world, the stored servers and the pid file.\<close>

definition host_parts :: "'w daemon_host \<Rightarrow> backup_file \<times> (sysctl_file \<times> settings) \<times> exempt_state \<times> string option \<times> rule_files \<times> SingboxConfig option \<times> int option" where
  "host_parts h = (dh_dns h, dh_sysctl h, dh_exempt h, dh_key h, dh_files h, dh_config h, dh_state h)"

lemma parts_put [simp]: "host_parts (put_world w h) = host_parts h"
  by (simp add: host_parts_def)

lemma procs_fields [simp]:
  "dn_pause (host_procs v) h = put_world (dn_pause (ue_procs v) (dh_world h)) h"
  "dn_kill (host_procs v) pid h = put_world (dn_kill (ue_procs v) pid (dh_world h)) h"
  "dn_term (host_procs v) pid h = put_world (dn_term (ue_procs v) pid (dh_world h)) h"
  "dn_pid_file (host_procs v) h = dh_pid h" "dn_state_pid (host_procs v) h = dh_state h"
  "dn_remove_pid (host_procs v) h = run_deferred (ue_daemon v) RemovePID h"
  by (simp_all add: host_procs_def Let_def)

lemma parts_poll: "host_parts (poll_exit (host_procs v) n pid h) = host_parts h"
  by (induction n arbitrary: h) simp_all

lemma parts_kill: "host_parts (snd (killSingboxPID (host_procs v) pid h)) = host_parts h"
  by (simp add: killSingboxPID_def parts_poll Let_def)

lemma parts_orphans: "host_parts (KillOrphanedSingboxes (host_procs v) h) = host_parts h"
proof -
  have sweep: "host_parts (fold (\<lambda>pid h. if pid \<in> K then h else snd (killSingboxPID (host_procs v) pid h)) ps h) = host_parts h" for K ps h
    by (induction ps arbitrary: h) (simp_all add: parts_kill)
  show ?thesis
    by (auto simp: KillOrphanedSingboxes_def sweep Let_def parts_kill case_prod_beta split: option.splits)
qed

lemma parts_check: "CheckAlreadyRunning (host_procs v) h = (err, h') \<Longrightarrow> host_parts h' = host_parts h"
  by (auto simp: CheckAlreadyRunning_def host_parts_def split: sum.splits if_splits)

lemma parts_recover: "recover_server v h = (err, h') \<Longrightarrow> host_parts h' = host_parts h"
  by (auto simp: recover_server_def host_parts_def split: sum.splits active_error.splits prod.splits)

text \<open>A parent that gets past the two recoveries.\<close>

lemma parent_cases:
  assumes "runParent v p h = (r, h')"
  obtains (early) err where "r = UpDone (Some err)"
  | (offered) h1 q h2 where "host_parts h1 = host_parts h" "offer_key v p h1 = (q, h2)"
      "if ue_unix v \<and> pr_euid q \<noteq> 0 then r = UpElevate \<and> h' = h2 else up_as_root v q h2 = (r, h')"
proof -
  obtain cerr h1 where c: "CheckAlreadyRunning (host_procs v) h = (cerr, h1)" by fastforce
  let ?h = "KillOrphanedSingboxes (host_procs v) h1"
  obtain rerr h2 where rc: "recover_server v ?h = (rerr, h2)" by fastforce
  obtain q h3 where o': "offer_key v p h2 = (q, h3)" by fastforce
  show thesis
  proof (cases "cerr = None \<and> \<not> sudoWouldDisarmLidDestroy (pr_euid p) (pr_sudo_user p) (vultrKeyAvailable p ?h) (pr_no_destroy p) (pr_dry_run p) \<and> rerr = None")
    case True
    have "host_parts h2 = host_parts h" using parts_recover [OF rc] parts_orphans [of v h1] parts_check [OF c] by simp
    then show ?thesis
      using assms True c rc o' by (intro offered [OF _ o']) (auto simp: runParent_def Let_def split: if_splits)
  next
    case False
    then have "\<exists>err. r = UpDone (Some err)"
      using assms c rc by (auto simp: runParent_def Let_def split: if_splits option.splits)
    then show ?thesis using early by blast
  qed
qed

lemma root_not_elevated: "fst (up_as_root v p h) \<noteq> UpElevate"
  by (auto simp: up_as_root_def start_daemon_def split: sum.splits prod.splits option.splits)

lemma trim_ends: "trim_space s \<noteq> [] \<Longrightarrow> \<not> is_space (hd (trim_space s)) \<and> \<not> is_space (List.last (trim_space s))"
proof -
  assume ne: "trim_space s \<noteq> []"
  let ?d = "dropWhile is_space s"
  have t: "trim_space s = rev (dropWhile is_space (rev ?d))" by (simp add: trim_space_def)
  with ne have r: "dropWhile is_space (rev ?d) \<noteq> []" by simp
  have last: "\<not> is_space (List.last (trim_space s))" using hd_dropWhile [OF r] t r by (simp add: last_rev)
  obtain ys where "?d = trim_space s @ ys"
    using t takeWhile_dropWhile_id [of is_space "rev ?d"] by (metis (no_types) rev_append rev_rev_ident)
  moreover from this ne have "?d \<noteq> []" by auto
  ultimately have "hd (trim_space s) = hd ?d" "\<not> is_space (hd ?d)" using ne hd_dropWhile [of is_space s] by auto
  with last show ?thesis by simp
qed

lemma trim_line:
  assumes "t \<noteq> []" "\<not> is_space (hd t)" "\<not> is_space (List.last t)" "is_space e"
  shows "trim_space (t @ [e]) = t"
proof -
  have "dropWhile is_space (t @ [e]) = t @ [e]" "dropWhile is_space (rev t) = rev t"
    using assms dropWhile_eq_self_iff [of is_space "t @ [e]"] dropWhile_eq_self_iff [of is_space "rev t"] by (simp_all add: hd_rev)
  then show ?thesis using assms(4) by (simp add: trim_space_def)
qed

lemma stored_key: "trim_space env \<noteq> [] \<Longrightarrow> vultrKey [] (Some (trim_space env @ [CHR 0x0A])) = Inr (trim_space env)"
proof -
  assume ne: "trim_space env \<noteq> []"
  have "trim_space (trim_space env @ [CHR 0x0A]) = trim_space env"
    using trim_line [OF ne] trim_ends [OF ne] by (simp add: is_space_def)
  moreover have "trim_space [] = []" by (simp add: trim_space_def)
  ultimately show ?thesis using ne by (simp add: vultrKey_def)
qed

definition settings_of :: "'w daemon_host \<Rightarrow> backup_file \<times> (sysctl_file \<times> settings) \<times> pf_rule list \<times> string list" where
  "settings_of h = (dh_dns h, dh_sysctl h, pf_anchor (filter_of h), pf_refs (filter_of h))"

text \<open>What stands when the daemon is started: a configuration built from the active server, checked by
  both the validation and the engine.\<close>

definition ready_to_start :: "'w up_env \<Rightarrow> 'w daemon_host \<Rightarrow> bool" where
  "ready_to_start v h =
     (\<exists>srv cfg files. ActiveServer (h_store (dh_host h)) = Inr srv \<and> dh_config h = Some cfg \<and>
        fst (BuildWithStandby (ue_build v (dh_world h)) (URI (de_coder (ue_daemon v)) srv) (StandbyURI (de_coder (ue_daemon v)) srv) files) = Inr cfg \<and>
        Validate (ue_stat v (dh_world h)) cfg = None \<and> PreflightEngine (ue_daemon v) h = None)"

lemma settings_of_parts: "host_parts h1 = host_parts h \<Longrightarrow> settings_of h1 = settings_of h"
  by (simp add: host_parts_def settings_of_def filter_of_def)

lemma settings_of_offer: "offer_key v p h = (q, h') \<Longrightarrow> settings_of h' = settings_of h \<and> pr_no_kill_switch q = pr_no_kill_switch p \<and> pr_euid q = pr_euid p"
  by (auto simp: offer_key_def stashVultrKey_def settings_of_def filter_of_def Let_def split: if_splits key_disk.splits prod.splits)

lemma waited_ready: "waitForDaemonReady v n pid deadline h = Some (None, h') \<Longrightarrow> dh_state h' = Some pid"
  by (induction n arbitrary: h) (auto split: if_splits sum.splits)

lemma started_as_root:
  assumes "up_as_root v p h = (UpDone None, h')"
  obtains h0 h1 pid where "settings_of h0 = settings_of h" "ready_to_start v h0" "ue_daemonize v p h0 = (Inr pid, h1)" "dh_state h' = Some pid"
proof -
  obtain srv where srv: "ActiveServer (h_store (dh_host h)) = Inr srv" using assms by (cases "ActiveServer (h_store (dh_host h))") (auto simp: up_as_root_def)
  let ?c = "de_coder (ue_daemon v)" and ?h = "ensure_lists v p h"
  obtain werr h0 where w: "write_config v srv ?h = (werr, h0)" by fastforce
  with assms srv have none: "werr = None" and start: "start_daemon v p h0 = (UpDone None, h')"
    by (auto simp: up_as_root_def split: option.splits)
  have lists: "settings_of ?h = settings_of h" "h_store (dh_host ?h) = h_store (dh_host h)"
    by (simp_all add: ensure_lists_def settings_of_def filter_of_def Let_def)
  obtain r files where b: "BuildWithStandby (ue_build v (dh_world ?h)) (URI ?c srv) (StandbyURI ?c srv) (dh_files ?h) = (r, files)" by fastforce
  obtain cfg where cfg: "r = Inr cfg" "h0 = ?h\<lparr>dh_files := files, dh_config := Some cfg\<rparr>"
    "Validate (ue_stat v (dh_world ?h)) cfg = None" "PreflightEngine (ue_daemon v) h0 = None"
    using w none b by (cases r) (auto simp: write_config_def Let_def split: if_splits)
  have "ready_to_start v h0"
    unfolding ready_to_start_def
    by (rule exI [of _ srv], rule exI [of _ cfg], rule exI [of _ "dh_files ?h"]) (use srv lists cfg b in simp)
  moreover have "settings_of h0 = settings_of h" using lists(1) cfg(2) by (simp add: settings_of_def filter_of_def)
  moreover obtain pid h1 where "ue_daemonize v p h0 = (Inr pid, h1)" "dh_state h' = Some pid"
    using start by (auto simp: start_daemon_def dest: waited_ready split: sum.splits prod.splits option.splits if_splits)
  ultimately show ?thesis using that by blast
qed

lemma parent_started:
  assumes "runParent v p h = (UpDone None, h')"
  obtains q h0 h1 pid where "settings_of h0 = settings_of h" "ready_to_start v h0" "ue_daemonize v q h0 = (Inr pid, h1)" "dh_state h' = Some pid"
    "pr_no_kill_switch q = pr_no_kill_switch p" "ue_unix v \<longrightarrow> pr_euid q = 0"
  using assms
proof (cases rule: parent_cases)
  case (offered h1 q h2)
  then have root: "ue_unix v \<longrightarrow> pr_euid q = 0" "up_as_root v q h2 = (UpDone None, h')" by (auto split: if_splits)
  obtain h0 h3 pid where s: "settings_of h0 = settings_of h2" "ready_to_start v h0" "ue_daemonize v q h0 = (Inr pid, h3)" "dh_state h' = Some pid"
    by (rule started_as_root [OF root(2)])
  show ?thesis
    by (rule that [OF _ s(2,3,4) _ root(1)]) (use s(1) settings_of_parts [OF offered(1)] settings_of_offer [OF offered(2)] in simp_all)
qed simp

lemma elevated_settings:
  assumes "runParent v p h = (UpElevate, h')"
  shows "settings_of h' = settings_of h"
  using assms
proof (cases rule: parent_cases)
  case (offered h1 q h2)
  have "\<not> (\<exists>x. up_as_root v q h2 = (UpElevate, x))" using root_not_elevated [of v q h2] by auto
  with offered(3) have "h' = h2" by (auto split: if_splits)
  then show ?thesis using settings_of_parts [OF offered(1)] settings_of_offer [OF offered(2)] by simp
qed simp

section \<open>Properties of the command\<close>



text \<open>It always returns. When a sleep of the wait takes its 200 milliseconds, mole up ends within the 52
  rounds of its ten seconds, and never with another request for root.\<close>
theorem up_always_returns:
  assumes "\<And>h. ue_now v h + 200 * go_ms \<le> ue_now v (ue_sleep v h)"
  shows "\<exists>err. fst (mole_up v p h) = UpDone err"
proof -
  have wait: "deadline < ue_now v h + int n * (200 * go_ms) \<Longrightarrow> waitForDaemonReady v (Suc n) pid deadline h \<noteq> None" for n pid deadline h
  proof (induction n arbitrary: h)
    case (Suc n)
    have "deadline < ue_now v (ue_sleep v h) + int n * (200 * go_ms)" using Suc.prems assms [of h] by (simp add: algebra_simps)
    from Suc.IH [OF this] show ?case by (subst waitForDaemonReady.simps) (auto split: sum.splits)
  qed (auto split: sum.splits)
  have start: "fst (start_daemon v q h) \<noteq> UpOutOfFuel" for q h
  proof -
    have "waitForDaemonReady v ready_fuel pid (ue_now v k + 10 * go_second) k \<noteq> None" for pid k
      using wait [of "ue_now v k + 10 * go_second" k 51 pid] by (simp add: ready_fuel_def)
    then have "waitForDaemonReady v ready_fuel pid (ue_now v k + 10 * go_second) k \<noteq> None" for pid k .
    then show ?thesis by (fastforce simp del: not_None_eq simp: start_daemon_def split: sum.splits prod.splits option.splits)
  qed
  have root: "fst (up_as_root v q h) \<noteq> UpOutOfFuel" for q h
    using start by (auto simp: up_as_root_def split: sum.splits prod.splits option.splits)
  have parent: "fst (runParent v q h) \<noteq> UpOutOfFuel \<and> (pr_euid q = 0 \<longrightarrow> fst (runParent v q h) \<noteq> UpElevate)" for q h
  proof -
    obtain r k where r: "runParent v q h = (r, k)" by fastforce
    then show ?thesis
    proof (cases rule: parent_cases)
      case (offered h1 q2 h2)
      then show ?thesis using r root [of q2 h2] root_not_elevated [of v q2 h2] settings_of_offer [OF offered(2)]
        by (auto split: if_splits)
    qed (simp add: r)
  qed
  obtain r k where r: "runParent v p h = (r, k)" by fastforce
  show ?thesis
  proof (cases r)
    case UpElevate
    obtain r2 k2 where r2: "runParent v (elevated v p) k = (r2, k2)" by fastforce
    have "r2 \<noteq> UpOutOfFuel \<and> r2 \<noteq> UpElevate" using parent [of "elevated v p" k] r2 by (simp add: elevated_def)
    then show ?thesis using r UpElevate r2 by (cases r2) (auto simp: mole_up_def split: option.splits)
  qed (use r parent [of p h] in \<open>auto simp: mole_up_def\<close>)
qed

definition home_build :: build_env where
  "home_build = sample_env\<lparr>bv_parse := (\<lambda>_. sample_links ''hy2'')\<rparr>"

definition home_up :: "settings_table up_env" where
  "home_up =
     \<lparr>ue_daemon = home_daemon,
      ue_procs = \<lparr>dn_signal0 = (\<lambda>_ _. False), dn_listed = (\<lambda>_ _. False), dn_comm = (\<lambda>_ _. None), dn_uid = (\<lambda>_ _. None),
        dn_pgrep = (\<lambda>_. None), dn_ps = (\<lambda>_. None), dn_self = 7, dn_term = (\<lambda>_ w. w), dn_kill = (\<lambda>_ w. w), dn_pause = (\<lambda>w. w),
        dn_now = (\<lambda>_. 0), dn_pid_file = (\<lambda>_. no_pid_file), dn_state_pid = (\<lambda>_. None), dn_config = ''/m/sing-box-config.json'',
        dn_unix = True, dn_armed = (\<lambda>_. False), dn_disarm = (\<lambda>w. w), dn_dns = (\<lambda>w. (None, w)), dn_network = (\<lambda>w. w),
        dn_remove_pid = (\<lambda>w. w), dn_remove_state = (\<lambda>w. w)\<rparr>,
      ue_api = \<lparr>a_key = True, a_clock = (\<lambda>_. 0), a_exempt = (\<lambda>w. w), a_bound = (\<lambda>_. True),
        a_call = (\<lambda>_ _ _ _ w. (Status 500 [], w)), a_instances = (\<lambda>_. Inr []), a_status = Some\<rparr>,
      ue_file_env = sample_files, ue_polls = 60, ue_key_disk = KeyTakes, ue_unix = True, ue_rules = (\<lambda>w. w),
      ue_cn = ar_cn (sample_arm ''7''), ue_build = (\<lambda>_. home_build), ue_stat = (\<lambda>_ _. Some 1), ue_save = None, ue_saved_part = None,
      ue_daemonize = (\<lambda>p h. (Inr 42, h\<lparr>dh_state := Some 42\<rparr>)), ue_now = (\<lambda>_. 0), ue_sleep = (\<lambda>h. h), ue_user = ''leo''\<rparr>"

lemma home_builds:
  "\<exists>cfg files'. BuildWithStandby home_build uri sb files = (Inr cfg, files') \<and> Validate (\<lambda>_. Some 1) cfg = None"
proof -
  have rules: "loadBuiltinRules home_build @ loadCustomRules home_build = loadBuiltinRules sample_env @ loadCustomRules sample_env"
    by (simp add: home_build_def loadBuiltinRules_def loadCustomRules_def sample_env_def)
  have "parseServerURL (bv_parse home_build) (bv_dec home_build) uri = parseServerURL (bv_parse sample_env) (bv_dec sample_env) ''hy2''"
    by (simp add: home_build_def parseServerURL_def sample_env_def)
  then obtain ob where parsed: "parseServerURL (bv_parse home_build) (bv_dec home_build) uri = Inr ob" using sample_parses by auto
  moreover obtain ps gate where "buildProxyOutbounds home_build uri sb ob = (ps, gate)" by force
  moreover have "bv_disk home_build = bv_disk sample_env" by (simp add: home_build_def)
  then obtain files' where
    "WriteHotRuleSets (bv_disk home_build) (HotRuleSetDir home_build)
       (fst (SplitHotRules (loadBuiltinRules sample_env @ loadCustomRules sample_env))) files = (None, files')"
    using sample_writes by metis
  ultimately obtain cfg where b: "BuildWithStandby home_build uri sb files = (Inr cfg, files')"
    using sample_conflicts rules by (simp add: BuildWithStandby_def Let_def case_prod_beta)
  have "\<forall>r \<in> set (loadBuiltinRules home_build @ loadCustomRules home_build). RuleSetRefs r = []"
    unfolding rules sample_rules_of by (simp add: zero_rule_def)
  then have "Validate (\<lambda>_. Some 1) cfg = None" unfolding validate_built [OF b] by (auto simp: file_present_def)
  with b show ?thesis by blast
qed

text \<open>The first process goes on to root, whether there is a key or not.\<close>

lemma home_checks:
  "CheckAlreadyRunning (host_procs home_up) (home_host key) = (None, home_host key)"
  "KillOrphanedSingboxes (host_procs home_up) (home_host key) = home_host key"
  "recover_server home_up (home_host key) = (None, home_host key)"
proof -
  have pid: "dh_pid (home_host key) = no_pid_file" "dh_state (home_host key) = None" by (simp_all add: home_host_def)
  show "CheckAlreadyRunning (host_procs home_up) (home_host key) = (None, home_host key)"
    by (simp add: CheckAlreadyRunning_def ReadPID_def readPIDInfo_def pid no_pid_file_def)
  have "scanSingboxByPS (host_procs home_up) True (home_host key) = []"
    by (simp add: scanSingboxByPS_def host_procs_def home_up_def Let_def)
  then show "KillOrphanedSingboxes (host_procs home_up) (home_host key) = home_host key"
    by (simp add: KillOrphanedSingboxes_def pid)
  show "recover_server home_up (home_host key) = (None, home_host key)"
    by (simp add: recover_server_def home_host_def ActiveServer_def readServersAt_def active_of_def sample_node_def zero_server_def HasAddress_def)
qed

lemma home_elevates:
  assumes "pr_key p = []" "pr_euid p = 501" "\<not> pr_no_destroy p" "\<not> pr_dry_run p"
  shows "runParent home_up p (home_host key) = (UpElevate, home_host key)"
proof -
  have "\<not> sudoWouldDisarmLidDestroy 501 u k o' d" for u k o' d by (simp add: sudoWouldDisarmLidDestroy_def)
  moreover have "snd (offer_key home_up p (home_host key)) = home_host key" "pr_euid (fst (offer_key home_up p (home_host key))) = 501"
    using assms by (auto simp: offer_key_def stashVultrKey_def trim_space_def Let_def)
  moreover have "ue_unix home_up" by (simp add: home_up_def)
  ultimately show ?thesis
    by (simp add: runParent_def home_checks assms(2) Let_def case_prod_beta)
qed


lemma home_up_runs:
  "\<exists>h'. mole_up home_up home_process (home_host (Some ''k'')) = (UpDone None, h')"
proof -
  let ?h = "home_host (Some ''k'')" and ?q = "elevated home_up home_process" and ?srv = "sample_node\<lparr>sv_Active := True\<rparr>"
  have one: "runParent home_up home_process ?h = (UpElevate, ?h)"
    by (rule home_elevates) (simp_all add: home_process_def)
  have key: "vultrKeyAvailable ?q ?h"
    by (simp add: vultrKeyAvailable_def vultrKey_def elevated_def home_host_def trim_space_def is_space_def)
  then have offer: "offer_key home_up ?q ?h = (?q, ?h)"
    by (simp add: offer_key_def stashVultrKey_def elevated_def trim_space_def Let_def home_process_def)
  have srv: "ActiveServer (h_store (dh_host ?h)) = Inr ?srv"
    by (simp add: home_host_def ActiveServer_def readServersAt_def active_of_def sample_node_def zero_server_def HasAddress_def)
  let ?l = "ensure_lists home_up ?q ?h" and ?c = "de_coder (ue_daemon home_up)"
  obtain cfg files where b: "BuildWithStandby home_build (URI ?c ?srv) (StandbyURI ?c ?srv) (dh_files ?l) = (Inr cfg, files)"
    "Validate (\<lambda>_. Some 1) cfg = None"
    using home_builds by blast
  have env: "ue_build home_up = (\<lambda>_. home_build)" "ue_stat home_up = (\<lambda>_ _. Some 1)" "ue_save home_up = None" "ue_daemon home_up = home_daemon"
    by (simp_all add: home_up_def)
  then obtain h2 where w: "write_config home_up ?srv ?l = (None, h2)"
    using b by (simp add: write_config_def home_preflight Let_def)
  have fuel: "ready_fuel = Suc 51" by (simp add: ready_fuel_def)
  have spawn: "ue_daemonize home_up = (\<lambda>p h. (Inr 42, h\<lparr>dh_state := Some 42\<rparr>))" by (simp add: home_up_def)
  have "waitForDaemonReady home_up ready_fuel 42 d (h2\<lparr>dh_state := Some 42\<rparr>) = Some (None, h2\<lparr>dh_state := Some 42\<rparr>)" for d
    unfolding fuel by (subst waitForDaemonReady.simps(2)) simp
  then have "start_daemon home_up ?q h2 = (UpDone None, h2\<lparr>dh_state := Some 42\<rparr>)"
    by (simp add: start_daemon_def spawn)
  with w srv have "up_as_root home_up ?q ?h = (UpDone None, h2\<lparr>dh_state := Some 42\<rparr>)" by (simp add: up_as_root_def)
  then have "runParent home_up ?q ?h = (UpDone None, h2\<lparr>dh_state := Some 42\<rparr>)"
    using key offer by (simp add: runParent_def home_checks sudoWouldDisarmLidDestroy_def Let_def) (simp add: elevated_def)
  with one show ?thesis by (simp add: mole_up_def)
qed


end
