(* ===== verification/Repair.thy ===== *)
theory Repair
  imports Identity Kill_Switch
begin

text \<open>
  cmd/repair.go: putting a node's servers back over ssh. The command opens tcp/22 of the firewall group for the
  address this machine has outside the tunnel, asks the node whether its configuration survived, mints a new identity if it did not,
  runs the repair script, and closes the port again. The ssh client, the echo services and the texts of
  the scripts are the environment's.
\<close>

section \<open>What the command finds\<close>

text \<open>A rule of the group as the listing decodes it.\<close>

record existing_rule =
  xr_ID :: int
  xr_Action :: string
  xr_Protocol :: string
  xr_Port :: string
  xr_Subnet :: string

text \<open>
  The files under \<^verbatim>\<open>~/.ssh\<close>, if there is a home directory; the network interfaces; the client bound to one of them and
  the text an echo service answers with; the provider with its decoders; an ssh run with its output;
  minting; the script around a configuration block; and the verification of a node.
\<close>

record 'w repair_env =
  rp_home :: "(string \<Rightarrow> bool) option"
  rp_ifs :: "string + net_if list"
  rp_client :: go_error
  rp_echo :: "string \<Rightarrow> 'w \<Rightarrow> (string + string) \<times> 'w"
  rp_api :: "'w deploy_api"
  rp_new_rule :: "string \<Rightarrow> string + int"
  rp_rules :: "string \<Rightarrow> string + existing_rule list"
  rp_allow :: "string \<Rightarrow> 'w \<Rightarrow> 'w"
  rp_ssh :: "string \<Rightarrow> string \<Rightarrow> string \<Rightarrow> string \<Rightarrow> 'w \<Rightarrow> (go_error \<times> string) \<times> 'w"
  rp_pause :: "'w \<Rightarrow> 'w"
  rp_mint :: "'w mint_env"
  rp_block :: "int \<Rightarrow> realityIdentity \<Rightarrow> string"
  rp_script :: "string \<Rightarrow> int \<Rightarrow> string"
  rp_node :: "Server \<Rightarrow> 'w node_env"
  rp_recorded :: "'w recorded_env"
  rp_store :: store_env

datatype repair_error =
  RepairError string go_error
| RepairNoServer active_error
| RepairCall string "api_error option"
| RepairGroup deploy_error

definition ssh_key_names :: "string list" where "ssh_key_names = [''id_ed25519'', ''id_ecdsa'', ''id_rsa'']"

definition localSSHKeyPath :: "(string \<Rightarrow> bool) option \<Rightarrow> string + string" where
  "localSSHKeyPath home =
     (case home of
        None \<Rightarrow> Inl ''home directory''
      | Some exists \<Rightarrow>
          (case find (\<lambda>name. exists name \<and> exists (name @ ''.pub'')) ssh_key_names of
             Some name \<Rightarrow> Inr name
           | None \<Rightarrow> Inl ''no SSH key pair in ~/.ssh (the node accepts the key that was installed at deploy)''))"

section \<open>The public address\<close>

text \<open>
  The expression of four groups of one to three digits between word boundaries, and its first match. A
  group that begins there is the whole run of digits: a shorter part of it is followed by a digit.
\<close>

definition is_digit :: "char \<Rightarrow> bool" where "is_digit c = (digit_value c \<noteq> None)"

definition is_word :: "char \<Rightarrow> bool" where
  "is_word c = (is_digit c \<or> c = CHR ''_'' \<or> CHR ''a'' \<le> c \<and> c \<le> CHR ''z'' \<or> CHR ''A'' \<le> c \<and> c \<le> CHR ''Z'')"

definition digit_run :: "string \<Rightarrow> (string \<times> string) option" where
  "digit_run s = (let ds = takeWhile is_digit s in if ds = [] \<or> length ds > 3 then None else Some (ds, dropWhile is_digit s))"

fun dotted :: "nat \<Rightarrow> string \<Rightarrow> string option" where
  "dotted 0 s = (case digit_run s of None \<Rightarrow> None
     | Some (ds, rest) \<Rightarrow> if rest \<noteq> [] \<and> is_word (hd rest) then None else Some ds)"
| "dotted (Suc n) s = (case digit_run s of None \<Rightarrow> None
     | Some (ds, rest) \<Rightarrow>
         (case rest of c # cs \<Rightarrow> if c = CHR ''.'' then map_option (\<lambda>t. ds @ c # t) (dotted n cs) else None | [] \<Rightarrow> None))"

fun find_ipv4 :: "bool \<Rightarrow> string \<Rightarrow> string" where
  "find_ipv4 inside [] = []"
| "find_ipv4 inside (c # cs) =
     (case (if inside then None else dotted 3 (c # cs)) of Some t \<Rightarrow> t | None \<Rightarrow> find_ipv4 (is_word c) cs)"

definition echo_services :: "string list" where
  "echo_services = [''http://members.3322.org/dyndns/getip'', ''https://myip.ipip.net'']"

fun ask_services :: "'w repair_env \<Rightarrow> string list \<Rightarrow> go_error \<Rightarrow> 'w \<Rightarrow> (go_error + string) \<times> 'w" where
  "ask_services e [] lastErr w = (Inl lastErr, w)"
| "ask_services e (u # us) lastErr w =
     (case rp_echo e u w of
        (Inl err, w) \<Rightarrow> ask_services e us (Some err) w
      | (Inr body, w) \<Rightarrow>
          if find_ipv4 False body \<noteq> [] then (Inr (find_ipv4 False body), w)
          else ask_services e us (Some (u @ '': no address in '' @ trim_space body)) w)"

definition directPublicIP :: "'w repair_env \<Rightarrow> 'w \<Rightarrow> (go_error + string) \<times> 'w" where
  "directPublicIP e w = (if rp_client e \<noteq> None then (Inl (rp_client e), w) else ask_services e echo_services None w)"

section \<open>The firewall rule\<close>

definition rules_path_of :: "string \<Rightarrow> string" where "rules_path_of grp = ''/firewalls/'' @ grp @ ''/rules''"

definition findExistingFirewallRule ::
  "'w repair_env \<Rightarrow> string \<Rightarrow> string \<Rightarrow> string \<Rightarrow> string \<Rightarrow> 'w \<Rightarrow> (repair_error + int) \<times> 'w" where
  "findExistingFirewallRule e grp protocol port ipv4 w =
     (case da_call (rp_api e) (30 * go_second) ''GET'' (rules_path_of grp @ ''?per_page=100'') NoBody w of
        (Inl err, w) \<Rightarrow> (Inl (RepairCall [] (Some err)), w)
      | (Inr resp, w) \<Rightarrow>
          (case rp_rules e resp of
             Inl _ \<Rightarrow> (Inl (RepairError (''unexpected GET reply: '' @ trim_space resp) None), w)
           | Inr rules \<Rightarrow>
               (case find (\<lambda>r. xr_Action r = ''accept'' \<and> xr_Protocol r = protocol \<and> xr_Port r = port \<and> xr_Subnet r = ipv4) rules of
                  Some r \<Rightarrow> (Inr (xr_ID r), w)
                | None \<Rightarrow> (Inl (RepairError ''rule already defined but not found on the group'' None), w))))"

definition says_defined :: "api_error \<Rightarrow> bool" where
  "says_defined err =
     (case err of
        ServerError _ body \<Rightarrow> str_contains body ''already defined''
      | TransportError t \<Rightarrow> str_contains t ''already defined''
      | CallExpired (Some t) \<Rightarrow> str_contains t ''already defined''
      | _ \<Rightarrow> False)"

definition repair_rule :: "string \<Rightarrow> string \<Rightarrow> string \<Rightarrow> string \<Rightarrow> firewall_rule" where
  "repair_rule protocol port ipv4 text =
     \<lparr>fr_ip_type = ''v4'', fr_protocol = protocol, fr_subnet = ipv4, fr_subnet_size = 32, fr_port = Some port, fr_notes = text\<rparr>"

definition addFirewallRule ::
  "'w repair_env \<Rightarrow> string \<Rightarrow> string \<Rightarrow> string \<Rightarrow> string \<Rightarrow> string \<Rightarrow> 'w \<Rightarrow> (repair_error + int) \<times> 'w" where
  "addFirewallRule e grp protocol port ipv4 text w =
     (case da_call (rp_api e) (30 * go_second) ''POST'' (rules_path_of grp) (RuleBody (repair_rule protocol port ipv4 text)) w of
        (Inl err, w) \<Rightarrow>
          if says_defined err then findExistingFirewallRule e grp protocol port ipv4 w else (Inl (RepairCall [] (Some err)), w)
      | (Inr resp, w) \<Rightarrow>
          (case rp_new_rule e resp of
             Inl _ \<Rightarrow> (Inl (RepairError (''unexpected reply: '' @ trim_space resp) None), w)
           | Inr n \<Rightarrow> if n = 0 then (Inl (RepairError (''unexpected reply: '' @ trim_space resp) None), w) else (Inr n, w)))"

definition rule_path :: "string \<Rightarrow> int \<Rightarrow> string" where
  "rule_path grp n = ''/firewalls/'' @ grp @ ''/rules/'' @ itoa n"

definition deleteFirewallRule :: "'w repair_env \<Rightarrow> string \<Rightarrow> int \<Rightarrow> 'w \<Rightarrow> (api_error + string) \<times> 'w" where
  "deleteFirewallRule e grp n w = da_call (rp_api e) (30 * go_second) ''DELETE'' (rule_path grp n) NoBody w"

section \<open>The repair\<close>

text \<open>At most so many attempts, five seconds after each that failed.\<close>

fun wait_ssh :: "'w repair_env \<Rightarrow> string \<Rightarrow> string \<Rightarrow> string \<Rightarrow> nat \<Rightarrow> go_error \<Rightarrow> 'w \<Rightarrow> go_error \<times> 'w" where
  "wait_ssh e key ifc ip 0 lastErr w = (lastErr, w)"
| "wait_ssh e key ifc ip (Suc n) lastErr w =
     (case rp_ssh e key ifc ip ''true'' w of
        ((None, _), w) \<Rightarrow> (None, w)
      | ((Some err, _), w) \<Rightarrow> wait_ssh e key ifc ip n (Some err) (rp_pause e w))"

definition with_identity :: "realityIdentity \<Rightarrow> Server \<Rightarrow> Server" where
  "with_identity rid s = s\<lparr>sv_UUID := ri_UUID rid, sv_RealityPubKey := ri_PublicKey rid, sv_RealityShortID := ri_ShortID rid,
     sv_RealityDest := ri_Dest rid\<rparr>"

definition identity_changed :: "Server \<Rightarrow> Server \<Rightarrow> Server" where
  "identity_changed srv current = current\<lparr>sv_UUID := sv_UUID srv, sv_RealityPubKey := sv_RealityPubKey srv,
     sv_RealityShortID := sv_RealityShortID srv, sv_RealityDest := sv_RealityDest srv, sv_Verification := None\<rparr>"

text \<open>The identity, if the node reports that it lost its own: the server from now on and the block to install.\<close>

definition renew_identity ::
  "'w repair_env \<Rightarrow> bool \<Rightarrow> Server \<Rightarrow> 'w host \<Rightarrow> ((repair_error + Server \<times> string) \<times> 'w host) option" where
  "renew_identity e configMissing srv h =
     (if (configMissing \<and> \<not> isReality srv \<and> hasStandbyLeg srv) \<or> (configMissing \<and> isReality srv) then
        (case newRealityIdentity (rp_mint e) (sv_RealityDest srv) (h_world h) of
           None \<Rightarrow> None
         | Some (Inl err, w) \<Rightarrow> Some (Inl (RepairError ''mint a new REALITY identity'' (Some err)), h\<lparr>h_world := w\<rparr>)
         | Some (Inr rid, w) \<Rightarrow>
             let port = (if sv_RealityPort srv = 0 then uint (sv_Port srv) else uint (sv_RealityPort srv));
                 srv = with_identity rid srv
             in Some (case changeServer (rp_store e) (sv_InstanceID srv) (sv_Name srv) (identity_changed srv) (h_store h) of
                  (Some err, stored) \<Rightarrow> (Inl (RepairError [] (Some err)), h\<lparr>h_world := w, h_store := stored\<rparr>)
                | (None, stored) \<Rightarrow> (Inr (srv, rp_block e port rid), h\<lparr>h_world := w, h_store := stored\<rparr>)))
      else Some (Inr (srv, []), h))"

text \<open>The script and the look at both legs after it.\<close>

definition run_script ::
  "'w repair_env \<Rightarrow> string \<Rightarrow> string \<Rightarrow> Server \<Rightarrow> string \<Rightarrow> 'w \<Rightarrow> (repair_error option \<times> 'w) option" where
  "run_script e key ifc srv block w =
     (case rp_ssh e key ifc (sv_IP srv) (rp_script e block (sv_DownMbps srv)) w of
        ((Some err, _), w) \<Rightarrow> Some (Some (RepairError ''repair script failed'' (Some err)), w)
      | ((None, _), w) \<Rightarrow>
          (case verifyNode (rp_node e srv) srv w of
             None \<Rightarrow> None
           | Some ((result, _), w) \<Rightarrow>
               let hy2 = nv_HY2 result; reality = nv_Reality result in
               Some (if \<not> leg_ok reality \<and> Server_Links.realityAddr srv \<noteq> []
                     then Some (RepairError (''REALITY still '' @ lr_Verdict reality @ '' after the repair'') None)
                     else if \<not> leg_ok hy2 \<and> \<not> isReality srv
                     then Some (RepairError (''hysteria2 still '' @ lr_Verdict hy2 @ '' after the repair'') None)
                     else None, w)))"

text \<open>Everything between opening and closing the port.\<close>

definition repair_node ::
  "'w repair_env \<Rightarrow> string \<Rightarrow> string \<Rightarrow> Server \<Rightarrow> 'w host \<Rightarrow> (repair_error option \<times> 'w host) option" where
  "repair_node e key ifc srv h =
     (case wait_ssh e key ifc (sv_IP srv) 24 None (rp_allow e (sv_IP srv) (h_world h)) of
        (Some err, w) \<Rightarrow> Some (Some (RepairError ''SSH never connected'' (Some err)), h\<lparr>h_world := w\<rparr>)
      | (None, w) \<Rightarrow>
          (case rp_ssh e key ifc (sv_IP srv) ''test -s /etc/sing-box/config.json && echo present || echo missing'' w of
             ((_, out), w) \<Rightarrow>
               (case renew_identity e (trim_space out = ''missing'') srv (h\<lparr>h_world := w\<rparr>) of
                  None \<Rightarrow> None
                | Some (Inl err, h) \<Rightarrow> Some (Some err, h)
                | Some (Inr (srv, block), h) \<Rightarrow>
                    map_option (\<lambda>(err, w). (err, h\<lparr>h_world := w\<rparr>)) (run_script e key ifc srv block (h_world h)))))"

definition repair_server :: "'w repair_env \<Rightarrow> Server \<Rightarrow> 'w host \<Rightarrow> (repair_error option \<times> 'w host) option" where
  "repair_server e srv h =
     (case localSSHKeyPath (rp_home e) of
        Inl err \<Rightarrow> Some (Some (RepairError [] (Some err)), h)
      | Inr key \<Rightarrow>
          (case DefaultPhysicalInterface (rp_ifs e) of
             Inl err \<Rightarrow> Some (Some (RepairError ''no physical uplink to reach the node from'' (Some err)), h)
           | Inr ifc \<Rightarrow>
               (case directPublicIP e (h_world h) of
                  (Inl err, w) \<Rightarrow> Some (Some (RepairError ''public address (needed for the firewall rule)'' err), h\<lparr>h_world := w\<rparr>)
                | (Inr myIP, w) \<Rightarrow>
                    (case ensureFirewallGroup (rp_api e) w of
                       ((_, Some err), w) \<Rightarrow> Some (Some (RepairGroup err), h\<lparr>h_world := w\<rparr>)
                     | ((grp, None), w) \<Rightarrow>
                         (case addFirewallRule e grp ''tcp'' ''22'' myIP ''mole repair (temporary)'' w of
                            (Inl err, w) \<Rightarrow> Some (Some err, h\<lparr>h_world := w\<rparr>)
                          | (Inr n, w) \<Rightarrow>
                              map_option (\<lambda>(err, h). (err, h\<lparr>h_world := snd (deleteFirewallRule e grp n (h_world h))\<rparr>))
                                (repair_node e key (if_name ifc) srv (h\<lparr>h_world := w\<rparr>)))))))"

definition pick_server :: "string option \<Rightarrow> store_file \<Rightarrow> repair_error + Server" where
  "pick_server name stored =
     (case readServersAt stored of
        Inl err \<Rightarrow> Inl (RepairError [] (Some err))
      | Inr servers \<Rightarrow>
          (case name of
             Some n \<Rightarrow> (case find (\<lambda>s. sv_Name s = n) servers of Some s \<Rightarrow> Inr s | None \<Rightarrow> Inl (RepairError (''no server named '' @ n) None))
           | None \<Rightarrow> (case ActiveServer stored of Inl err \<Rightarrow> Inl (RepairNoServer err) | Inr s \<Rightarrow> Inr s)))"

text \<open>The command; the last component is the deployment's files, which only \<^verbatim>\<open>--check\<close> writes.\<close>

definition runRepair ::
  "'w repair_env \<Rightarrow> bool \<Rightarrow> string option \<Rightarrow> deploy_files \<Rightarrow> 'w host \<Rightarrow> (repair_error option \<times> deploy_files \<times> 'w host) option" where
  "runRepair e checkOnly name f h =
     (case pick_server name (h_store h) of
        Inl err \<Rightarrow> Some (Some err, f, h)
      | Inr srv \<Rightarrow>
          if \<not> HasAddress srv then Some (Some (RepairError (sv_Name srv @ '' has no address yet'') None), f, h)
          else if checkOnly
          then map_option (\<lambda>(err, f, h). (if err = None then None else Some (RepairError [] err), f, h)) (verifyRecordedNode (rp_recorded e) srv f h)
          else map_option (\<lambda>(err, h). (err, f, h)) (repair_server e srv h))"

section \<open>The first address of a text\<close>

text \<open>The expression in words: four groups of digits with points between, not inside a word.\<close>

definition dotted_quad :: "nat \<Rightarrow> string \<Rightarrow> bool" where
  "dotted_quad n t = (length (split_on (CHR ''.'') t) = Suc n \<and>
     list_all (\<lambda>ds. ds \<noteq> [] \<and> length ds \<le> 3 \<and> list_all is_digit ds) (split_on (CHR ''.'') t))"

definition at_word_end :: "string \<Rightarrow> bool" where
  "at_word_end q = (q = [] \<or> \<not> is_word (hd q))"

lemma digit_not_point: "is_digit c \<Longrightarrow> c \<noteq> CHR ''.''"
  by (auto simp: is_digit_def digit_value_def)

lemma digit_word: "is_digit c \<Longrightarrow> is_word c"
  by (simp add: is_word_def)

lemma group_split: "list_all is_digit ds \<Longrightarrow> split_on (CHR ''.'') ds = [ds]"
  using digit_not_point by (intro split_on_plain) (auto simp: list_all_iff)

lemma group_split_more: "list_all is_digit ds \<Longrightarrow> split_on (CHR ''.'') (ds @ CHR ''.'' # t) = ds # split_on (CHR ''.'') t"
  using digit_not_point by (intro split_on_append) (auto simp: list_all_iff)

lemma digit_run_Some:
  "digit_run s = Some (ds, rest) \<longleftrightarrow> s = ds @ rest \<and> ds \<noteq> [] \<and> length ds \<le> 3 \<and> list_all is_digit ds \<and> (rest = [] \<or> \<not> is_digit (hd rest))"
proof
  assume "digit_run s = Some (ds, rest)"
  then have "ds = takeWhile is_digit s" "rest = dropWhile is_digit s" "ds \<noteq> []" "length ds \<le> 3"
    by (auto simp: digit_run_def Let_def split: if_splits)
  then show "s = ds @ rest \<and> ds \<noteq> [] \<and> length ds \<le> 3 \<and> list_all is_digit ds \<and> (rest = [] \<or> \<not> is_digit (hd rest))"
    using hd_dropWhile [of is_digit s] by (auto simp: list_all_iff dest: set_takeWhileD)
next
  assume r: "s = ds @ rest \<and> ds \<noteq> [] \<and> length ds \<le> 3 \<and> list_all is_digit ds \<and> (rest = [] \<or> \<not> is_digit (hd rest))"
  then have "takeWhile is_digit s = ds" "dropWhile is_digit s = rest"
    by (cases rest; auto simp: list_all_iff takeWhile_append2 dropWhile_append2)+
  with r show "digit_run s = Some (ds, rest)" by (simp add: digit_run_def)
qed

lemma dotted_sound: "dotted n s = Some t \<Longrightarrow> \<exists>q. s = t @ q \<and> dotted_quad n t \<and> at_word_end q"
proof (induction n arbitrary: s t)
  case 0
  then obtain ds rest where "digit_run s = Some (ds, rest)" "t = ds" "at_word_end rest"
    by (auto simp: at_word_end_def split: option.splits if_splits)
  then show ?case by (auto simp: digit_run_Some dotted_quad_def group_split)
next
  case (Suc n)
  obtain ds c cs u where r: "digit_run s = Some (ds, c # cs)" "c = CHR ''.''" "dotted n cs = Some u" "t = ds @ c # u"
    using Suc.prems by (auto split: option.splits list.splits if_splits)
  obtain q where "cs = u @ q" "dotted_quad n u" "at_word_end q" using Suc.IH [OF r(3)] by blast
  with r show ?case by (auto simp: digit_run_Some dotted_quad_def group_split_more)
qed

lemma quad_groups:
  assumes "dotted_quad n t"
  shows "if n = 0 then t \<noteq> [] \<and> length t \<le> 3 \<and> list_all is_digit t
    else \<exists>ds u. t = ds @ CHR ''.'' # u \<and> ds \<noteq> [] \<and> length ds \<le> 3 \<and> list_all is_digit ds \<and> dotted_quad (n - 1) u"
proof (cases "CHR ''.'' \<in> set t")
  case False
  then have "split_on (CHR ''.'') t = [t]" by (rule split_on_plain)
  then show ?thesis using assms by (simp add: dotted_quad_def)
next
  case True
  then obtain ds u where t: "t = ds @ CHR ''.'' # u" "CHR ''.'' \<notin> set ds" by (meson split_list_first)
  then have s: "split_on (CHR ''.'') t = ds # split_on (CHR ''.'') u" by (simp add: split_on_append)
  have "split_on (CHR ''.'') u \<noteq> []" by (cases u) auto
  with assms s have "n \<noteq> 0" by (auto simp: dotted_quad_def)
  with assms s t show ?thesis by (auto simp: dotted_quad_def)
qed

lemma dotted_complete: "dotted_quad n t \<Longrightarrow> at_word_end q \<Longrightarrow> dotted n (t @ q) = Some t"
proof (induction n arbitrary: t)
  case 0
  then have "digit_run (t @ q) = Some (t, q)"
    using quad_groups [OF 0(1)] digit_word by (auto simp: digit_run_Some at_word_end_def)
  with 0(2) show ?case by (auto simp: at_word_end_def)
next
  case (Suc n)
  obtain ds u where t: "t = ds @ CHR ''.'' # u" "ds \<noteq> []" "length ds \<le> 3" "list_all is_digit ds" "dotted_quad n u"
    using quad_groups [OF Suc.prems(1)] by auto
  have "\<not> is_digit (CHR ''.'')" by (simp add: is_digit_def digit_value_def)
  then have "digit_run (t @ q) = Some (ds, CHR ''.'' # u @ q)" using t by (simp add: digit_run_Some)
  then show ?case using Suc.IH [OF t(5) Suc.prems(2)] t(1) by simp
qed

text \<open>An occurrence of the expression after a prefix of a text that follows, or does not follow, a word.\<close>

definition quad_at :: "bool \<Rightarrow> string \<Rightarrow> string \<Rightarrow> string \<Rightarrow> bool" where
  "quad_at inside s p t =
     (\<exists>q. s = p @ t @ q \<and> dotted_quad 3 t \<and> at_word_end q \<and> \<not> (if p = [] then inside else is_word (List.last p)))"

lemma quad_here: "quad_at inside s [] t \<longleftrightarrow> \<not> inside \<and> dotted 3 s = Some t"
  using dotted_sound [of 3 s t] dotted_complete [of 3 t] by (auto simp: quad_at_def)

lemma quad_later: "quad_at inside (c # cs) (x # p) t \<longleftrightarrow> x = c \<and> quad_at (is_word c) cs p t"
  by (auto simp: quad_at_def)

lemma no_empty_quad: "\<not> quad_at inside s p []"
  by (auto simp: quad_at_def dotted_quad_def)

lemma found_first:
  "find_ipv4 inside s = t \<and> t \<noteq> [] \<longleftrightarrow> (\<exists>p. quad_at inside s p t \<and> (\<forall>p' t'. quad_at inside s p' t' \<longrightarrow> length p \<le> length p'))"
proof (induction s arbitrary: inside)
  case Nil
  have "\<not> quad_at inside [] p t" for p using no_empty_quad [of inside "[]" p] by (auto simp: quad_at_def dotted_quad_def)
  then show ?case by auto
next
  case (Cons c cs)
  show ?case
  proof (cases "\<exists>u. quad_at inside (c # cs) [] u")
    case True
    then obtain u where u: "\<not> inside" "dotted 3 (c # cs) = Some u" "quad_at inside (c # cs) [] u" by (auto simp: quad_here)
    then have "u \<noteq> []" using no_empty_quad by blast
    moreover have "(\<exists>p. quad_at inside (c # cs) p t \<and> (\<forall>p' t'. quad_at inside (c # cs) p' t' \<longrightarrow> length p \<le> length p')) \<longleftrightarrow> t = u"
    proof
      assume "\<exists>p. quad_at inside (c # cs) p t \<and> (\<forall>p' t'. quad_at inside (c # cs) p' t' \<longrightarrow> length p \<le> length p')"
      then obtain p where "quad_at inside (c # cs) p t" "length p \<le> length ([] :: string)" using u(3) by blast
      then show "t = u" using u by (simp add: quad_here)
    qed (use u(3) in auto)
    ultimately show ?thesis using u(1,2) by auto
  next
    case False
    then have step: "find_ipv4 inside (c # cs) = find_ipv4 (is_word c) cs" by (auto simp: quad_here split: option.splits)
    have later: "quad_at inside (c # cs) p u \<longleftrightarrow> (\<exists>p'. p = c # p' \<and> quad_at (is_word c) cs p' u)" for p u
      using False by (cases p) (auto simp: quad_later)
    have "(\<exists>p. quad_at inside (c # cs) p t \<and> (\<forall>p' t'. quad_at inside (c # cs) p' t' \<longrightarrow> length p \<le> length p')) \<longleftrightarrow>
        (\<exists>p. quad_at (is_word c) cs p t \<and> (\<forall>p' t'. quad_at (is_word c) cs p' t' \<longrightarrow> length p \<le> length p'))" (is "?L \<longleftrightarrow> ?R")
    proof
      assume ?L
      then obtain p where p: "quad_at inside (c # cs) p t" "\<And>p' t'. quad_at inside (c # cs) p' t' \<Longrightarrow> length p \<le> length p'" by blast
      then obtain r where r: "p = c # r" "quad_at (is_word c) cs r t" using later by blast
      have "length r \<le> length p'" if "quad_at (is_word c) cs p' t'" for p' t'
        using p(2) [of "c # p'" t'] that r(1) by (simp add: quad_later)
      with r(2) show ?R by blast
    next
      assume ?R
      then obtain p where p: "quad_at (is_word c) cs p t" "\<And>p' t'. quad_at (is_word c) cs p' t' \<Longrightarrow> length p \<le> length p'" by blast
      have "length (c # p) \<le> length p'" if q: "quad_at inside (c # cs) p' t'" for p' t'
      proof -
        obtain r where "p' = c # r" "quad_at (is_word c) cs r t'" using q later by blast
        with p(2) [of r t'] show ?thesis by simp
      qed
      moreover have "quad_at inside (c # cs) (c # p) t" using p(1) by (simp add: quad_later)
      ultimately show ?L by blast
    qed
    with Cons.IH [of "is_word c"] show ?thesis unfolding step by (rule trans [OF _ sym])
  qed
qed

section \<open>Properties\<close>

text \<open>C35: The public address is the first in the answer. The text the command takes from an echo service is the
  leftmost one of four groups of one to three digits with points between that stands in no longer word, and none exactly if
  there is none.\<close>
theorem public_address_is_the_first:
  "(find_ipv4 False body = ip \<and> ip \<noteq> [] \<longleftrightarrow>
      (\<exists>p. quad_at False body p ip \<and> (\<forall>p' ip'. quad_at False body p' ip' \<longrightarrow> length p \<le> length p'))) \<and>
   (find_ipv4 False body = [] \<longleftrightarrow> \<not> (\<exists>p ip. quad_at False body p ip))"
proof
  show "find_ipv4 False body = ip \<and> ip \<noteq> [] \<longleftrightarrow>
      (\<exists>p. quad_at False body p ip \<and> (\<forall>p' ip'. quad_at False body p' ip' \<longrightarrow> length p \<le> length p'))"
    by (rule found_first)
  show "find_ipv4 False body = [] \<longleftrightarrow> \<not> (\<exists>p ip. quad_at False body p ip)"
  proof
    assume none: "find_ipv4 False body = []"
    show "\<not> (\<exists>p ip. quad_at False body p ip)"
    proof
      assume "\<exists>p ip. quad_at False body p ip"
      then obtain x where "quad_at False body (fst x) (snd x)" by auto
      from ex_has_least_nat [of "\<lambda>x. quad_at False body (fst x) (snd x)", OF this, of "\<lambda>x. length (fst x)"]
      obtain y where y: "quad_at False body (fst y) (snd y)" "\<forall>z. quad_at False body (fst z) (snd z) \<longrightarrow> length (fst y) \<le> length (fst z)" by blast
      have "length (fst y) \<le> length p'" if "quad_at False body p' ip'" for p' ip' using y(2) [rule_format, of "(p', ip')"] that by simp
      with y(1) have "find_ipv4 False body = snd y \<and> snd y \<noteq> []" by (intro found_first [THEN iffD2]) blast
      with none show False by simp
    qed
  next
    assume none: "\<not> (\<exists>p ip. quad_at False body p ip)"
    show "find_ipv4 False body = []"
    proof (rule ccontr)
      assume "find_ipv4 False body \<noteq> []"
      then have "find_ipv4 False body = find_ipv4 False body \<and> find_ipv4 False body \<noteq> []" by simp
      from found_first [THEN iffD1, OF this] none show False by blast
    qed
  qed
qed

text \<open>The entry of the server in the stored list.\<close>

definition stored_entry :: "Server \<Rightarrow> store_file \<Rightarrow> Server option" where
  "stored_entry srv stored =
     (case stored of Stored servers \<Rightarrow> find (names_server (sv_InstanceID srv) (sv_Name srv)) servers | _ \<Rightarrow> None)"

definition carries_identity :: "realityIdentity \<Rightarrow> Server option \<Rightarrow> bool" where
  "carries_identity rid entry =
     (\<exists>s. entry = Some s \<and> sv_UUID s = ri_UUID rid \<and> sv_RealityPubKey s = ri_PublicKey rid \<and> sv_RealityShortID s = ri_ShortID rid \<and>
        sv_RealityDest s = ri_Dest rid \<and> sv_Verification s = None)"

lemma renewed:
  assumes "renew_identity e lost srv h = Some (Inr (srv', block), h')"
  shows "(srv' = srv \<and> block = [] \<and> h' = h) \<or>
    (lost \<and> (\<exists>rid. srv' = with_identity rid srv \<and> block = rp_block e (uint (reality_port srv)) rid \<and>
       carries_identity rid (stored_entry srv (h_store h'))))"
proof (cases "(lost \<and> \<not> isReality srv \<and> hasStandbyLeg srv) \<or> (lost \<and> isReality srv)")
  case False
  then have "renew_identity e lost srv h = Some (Inr (srv, []), h)" unfolding renew_identity_def by (simp only: if_False)
  then show ?thesis using assms by simp
next
  case True
  then obtain rid w where m: "newRealityIdentity (rp_mint e) (sv_RealityDest srv) (h_world h) = Some (Inr rid, w)"
    using assms by (auto simp: renew_identity_def Let_def split: option.splits sum.splits prod.splits)
  let ?s = "with_identity rid srv"
  have names: "sv_InstanceID ?s = sv_InstanceID srv" "sv_Name ?s = sv_Name srv" by (simp_all add: with_identity_def)
  obtain cerr stored where c: "changeServer (rp_store e) (sv_InstanceID srv) (sv_Name srv) (identity_changed ?s) (h_store h) = (cerr, stored)" by fastforce
  have out: "cerr = None" "srv' = ?s" "block = rp_block e (uint (reality_port srv)) rid" "h' = h\<lparr>h_world := w, h_store := stored\<rparr>"
    using assms True m c names by (auto simp: renew_identity_def reality_port_def Let_def split: option.splits if_splits)
  have keep: "names_server i n s \<Longrightarrow> names_server i n (identity_changed ?s s)" for i n s
    by (simp add: names_server_def identity_changed_def)
  obtain servers s where "stored = Stored servers"
      "find (names_server (sv_InstanceID srv) (sv_Name srv)) servers = Some (identity_changed ?s s)"
    using changed_find [OF c [unfolded out(1)] keep] by blast
  then have "carries_identity rid (stored_entry srv stored)"
    by (simp add: carries_identity_def stored_entry_def identity_changed_def with_identity_def)
  with True out show ?thesis by auto
qed

lemma script_ran:
  assumes "run_script e key ifc srv block w = Some (None, w')"
  shows "\<exists>out w1 w2 result verr. rp_ssh e key ifc (sv_IP srv) (rp_script e block (sv_DownMbps srv)) w = ((None, out), w1) \<and>
    verifyNode (rp_node e srv) srv w1 = Some ((result, verr), w2) \<and> (Server_Links.realityAddr srv \<noteq> [] \<longrightarrow> leg_ok (nv_Reality result)) \<and>
    (\<not> isReality srv \<longrightarrow> leg_ok (nv_HY2 result))"
proof -
  obtain serr out w1 where s: "rp_ssh e key ifc (sv_IP srv) (rp_script e block (sv_DownMbps srv)) w = ((serr, out), w1)" by (metis prod.collapse)
  with assms have "serr = None" by (cases serr) (auto simp: run_script_def)
  with s assms show ?thesis
    by (auto simp: run_script_def Let_def split: option.splits if_splits)
qed

lemma door_opened:
  assumes "repair_server e srv h = Some (None, h')"
  shows "\<exists>key ifc w k. repair_node e key ifc srv (h\<lparr>h_world := w\<rparr>) = Some (None, k) \<and> h_store h' = h_store k"
  using assms by (auto simp: repair_server_def split: sum.splits prod.splits option.splits) fastforce

text \<open>C20: A repair that reports success leaves both legs answering and one identity. The script ran on the node
  without an error, and after it the verification saw each leg the server has alive; and the stored servers are untouched,
  or the node had said that its configuration is missing, and then the identity in the block that the script
  installed is the one the stored server carries, its last verification withdrawn.\<close>
theorem repair_success_means_one_identity:
  assumes "repair_server e srv h = Some (None, h')"
  shows "\<exists>key ifc block srv' w out w1 w2 result verr.
    rp_ssh e key ifc (sv_IP srv) (rp_script e block (sv_DownMbps srv)) w = ((None, out), w1) \<and>
    verifyNode (rp_node e srv') srv' w1 = Some ((result, verr), w2) \<and>
    (Server_Links.realityAddr srv' \<noteq> [] \<longrightarrow> leg_ok (nv_Reality result)) \<and> (\<not> isReality srv' \<longrightarrow> leg_ok (nv_HY2 result)) \<and>
    ((srv' = srv \<and> block = [] \<and> h_store h' = h_store h) \<or>
     (\<exists>rid u err said u'. srv' = with_identity rid srv \<and> block = rp_block e (uint (reality_port srv)) rid \<and>
        carries_identity rid (stored_entry srv (h_store h')) \<and>
        rp_ssh e key ifc (sv_IP srv) ''test -s /etc/sing-box/config.json && echo present || echo missing'' u = ((err, said), u') \<and>
        trim_space said = ''missing''))"
proof -
  obtain key ifc w k where run: "repair_node e key ifc srv (h\<lparr>h_world := w\<rparr>) = Some (None, k)" "h_store h' = h_store k"
    using door_opened [OF assms] by blast
  obtain serr u where s: "wait_ssh e key ifc (sv_IP srv) 24 None (rp_allow e (sv_IP srv) w) = (serr, u)" by fastforce
  let ?ask = "''test -s /etc/sing-box/config.json && echo present || echo missing''"
  obtain err said u' where ask: "rp_ssh e key ifc (sv_IP srv) ?ask u = ((err, said), u')" by (metis prod.collapse)
  have "serr = None" using run(1) s by (cases serr) (simp_all add: repair_node_def)
  then obtain srv' block h1 where r: "renew_identity e (trim_space said = ''missing'') srv (h\<lparr>h_world := u'\<rparr>) = Some (Inr (srv', block), h1)"
      "map_option (\<lambda>(err, w). (err, h1\<lparr>h_world := w\<rparr>)) (run_script e key ifc srv' block (h_world h1)) = Some (None, k)"
    using run(1) s ask by (auto simp: repair_node_def split: option.splits sum.splits prod.splits)
  from r(2) obtain w2 where rs: "run_script e key ifc srv' block (h_world h1) = Some (None, w2)" "k = h1\<lparr>h_world := w2\<rparr>" by auto
  note new = renewed [OF r(1)]
  then have same: "sv_IP srv' = sv_IP srv" "sv_DownMbps srv' = sv_DownMbps srv" by (auto simp: with_identity_def)
  have store: "h_store h' = h_store h1" by (simp add: run(2) rs(2))
  have "(srv' = srv \<and> block = [] \<and> h_store h' = h_store h) \<or>
     (\<exists>rid. srv' = with_identity rid srv \<and> block = rp_block e (uint (reality_port srv)) rid \<and>
        carries_identity rid (stored_entry srv (h_store h')) \<and> trim_space said = ''missing'')"
    using new unfolding store by auto
  with script_ran [OF rs(1), unfolded same] ask show ?thesis by blast
qed

section \<open>A repair that goes through\<close>

definition kept_node :: Server where "kept_node = plain_server\<lparr>sv_Proto := ''hysteria2'', sv_Active := True\<rparr>"

definition good_repair :: "sample_world repair_env" where
  "good_repair =
     \<lparr>rp_home = Some (\<lambda>_. True),
      rp_ifs = Inr [\<lparr>if_name = ''en0'', if_up = True, if_loopback = False, if_addrs = Inr [V4 0xC0A80105]\<rparr>],
      rp_client = None, rp_echo = (\<lambda>_ w. (Inr ''203.0.113.9'', w)), rp_api = willing, rp_new_rule = (\<lambda>_. Inr 7), rp_rules = (\<lambda>_. Inr []),
      rp_allow = (\<lambda>_ w. w), rp_ssh = (\<lambda>_ _ _ _ w. ((None, ''present''), w)), rp_pause = (\<lambda>w. w),
      rp_mint = \<lparr>mi_random = \<lparr>rs_bytes = (\<lambda>_ w. (Inl ''no entropy'', w)), rs_below = (\<lambda>_ w. (Inl ''no entropy'', w))\<rparr>, mi_home = None,
        mi_now = 0, mi_add_years = (\<lambda>_ t. t), mi_keygen = (\<lambda>w. (Inl ''no entropy'', w)), mi_sign = (\<lambda>_ _. Inl ''unused''),
        mi_x25519 = (\<lambda>_. Inl ''unused''), mi_fuel = 1\<rparr>,
      rp_block = (\<lambda>_ _. ''block''), rp_script = (\<lambda>_ _. ''script''), rp_node = dx_node good_run,
      rp_recorded = \<lparr>re_random = Inl ''unused'', re_deploy = good_deploy, re_address = dx_address good_run, re_node = dx_node good_run,
        re_store = good_store, re_fuel = 5\<rparr>,
      rp_store = good_store\<rparr>"

lemma kept_verified: "\<exists>result. verifyNode (rp_node good_repair kept_node) kept_node w = Some ((result, None), w) \<and> leg_ok (nv_HY2 result)"
proof -
  have kind: "wantsLegs kept_node = (True, False)"
    by (simp add: wantsLegs_def isReality_def hasStandbyLeg_def kept_node_def plain_server_def zero_server_def)
  have "verificationStatus kept_node alive_leg zero_report = ''ready''"
    by (simp add: verificationStatus_def kind leg_ok_def alive_leg_def)
  then show ?thesis
    by (simp add: verifyNode_def good_repair_def good_run_def verifyNodeWith_def good_answers_def wanted_legs_def kind set_leg_def unverified_def
        update_result_def Let_def numeral_eq_Suc leg_ok_def alive_leg_def)
qed

lemma echoed: "find_ipv4 False ''203.0.113.9'' = ''203.0.113.9''"
  by code_simp

lemma good_repairs:
  assumes "h_world h = w"
  shows "\<exists>h'. repair_server good_repair kept_node h = Some (None, h')"
proof -
  have key: "localSSHKeyPath (rp_home good_repair) = Inr ''id_ed25519''"
    by (simp add: localSSHKeyPath_def good_repair_def ssh_key_names_def)
  obtain ifc where ifc: "DefaultPhysicalInterface (rp_ifs good_repair) = Inr ifc"
    by (simp add: good_repair_def DefaultPhysicalInterface_def virtual_name_def virtual_prefixes_def hasGlobalIPv4_def v4_loopback_def
        v4_link_local_def octet_def to4_def)
  have ip: "directPublicIP good_repair w = (Inr ''203.0.113.9'', w)"
    by (simp add: directPublicIP_def echo_services_def echoed good_repair_def del: find_ipv4.simps)
  obtain w1 where grp: "ensureFirewallGroup (rp_api good_repair) w = ((''g1'', None), w1)"
    using willing_group [of w] by (auto simp: good_repair_def)
  have api: "rp_api good_repair = willing" "rp_new_rule good_repair = (\<lambda>_. Inr 7)" by (simp_all add: good_repair_def)
  obtain w2 where rule: "addFirewallRule good_repair ''g1'' ''tcp'' ''22'' ''203.0.113.9'' ''mole repair (temporary)'' w1 = (Inr 7, w2)"
    unfolding addFirewallRule_def api willing_call [OF budgets(1)] by simp
  obtain result where ver: "verifyNode (rp_node good_repair kept_node) kept_node w2 = Some ((result, None), w2)" "leg_ok (nv_HY2 result)"
    using kept_verified by blast
  have ssh: "rp_ssh good_repair k i a s v = ((None, ''present''), v)" "rp_allow good_repair a v = v" for k i a s v
    by (simp_all add: good_repair_def)
  have wait: "wait_ssh good_repair k i a 24 None v = (None, v)" for k i a v
    by (subst wait_ssh.simps(2) [of _ _ _ _ 23, simplified]) (simp add: ssh)
  have still: "trim_space ''present'' \<noteq> ''missing''" by code_simp
  have addr: "Server_Links.realityAddr kept_node = []" "\<not> isReality kept_node"
    by (simp_all add: Server_Links.realityAddr_def hasStandbyLeg_def isReality_def kept_node_def plain_server_def zero_server_def)
  have "renew_identity good_repair False kept_node (h\<lparr>h_world := w2\<rparr>) = Some (Inr (kept_node, []), h\<lparr>h_world := w2\<rparr>)"
    by (simp add: renew_identity_def)
  then have "repair_node good_repair ''id_ed25519'' (if_name ifc) kept_node (h\<lparr>h_world := w2\<rparr>) = Some (None, h\<lparr>h_world := w2\<rparr>)"
    using ver addr still by (simp add: repair_node_def ssh wait run_script_def Let_def)
  then show ?thesis by (simp add: repair_server_def key ifc assms ip grp rule)
qed

theorem public_address_is_the_first_witness:
  "\<exists>p. quad_at False ''IP: 203.0.113.9'' p ''203.0.113.9'' \<and> (\<forall>p' ip'. quad_at False ''IP: 203.0.113.9'' p' ip' \<longrightarrow> length p \<le> length p')"
proof -
  have "find_ipv4 False ''IP: 203.0.113.9'' = ''203.0.113.9''" by code_simp
  with public_address_is_the_first [of "''IP: 203.0.113.9''" "''203.0.113.9''"] show ?thesis by blast
qed

theorem repair_success_means_one_identity_witness:
  "\<exists>h' result w1 w2 verr. repair_server good_repair kept_node (plain_host (0, [])) = Some (None, h') \<and>
     verifyNode (rp_node good_repair kept_node) kept_node w1 = Some ((result, verr), w2) \<and> leg_ok (nv_HY2 result) \<and>
     h_store h' = h_store (plain_host (0 :: int, [] :: (string \<times> string) list))"
proof -
  obtain h' where r: "repair_server good_repair kept_node (plain_host (0, [])) = Some (None, h')" using good_repairs by blast
  have said: "rp_ssh good_repair k i a s u = ((err, said), u') \<Longrightarrow> trim_space said \<noteq> ''missing''" for k i a s u err said u'
    by (auto simp: good_repair_def trim_space_def is_space_def)
  have h2: "\<not> isReality kept_node" by (simp add: isReality_def kept_node_def plain_server_def)
  obtain srv' result verr w1 w2 where ok: "verifyNode (rp_node good_repair srv') srv' w1 = Some ((result, verr), w2)"
      "\<not> isReality srv' \<longrightarrow> leg_ok (nv_HY2 result)" "srv' = kept_node" "h_store h' = h_store (plain_host (0 :: int, [] :: (string \<times> string) list))"
    using repair_success_means_one_identity [OF r] said by blast
  with r h2 show ?thesis by blast
qed

end
