(* ===== verification/Spec2Isabelle.thy ===== *)
theory Spec2Isabelle
  imports Mole_Prelude Schedule Conn_State Heal Leg_Policy Sensors Balance Pressure Effects Clash Lanes
    Supervisor Handlers Scheduler Balance_Control Lid_Destroy Route_Rules Config_Parse Keeper Config_Build
    Config_Laws Server_Store Server_Links Server_Ops DNS_Takeover Rules_Watch Netip Fake_IP Engine
    Direct_HTTP Kill_Switch Direct_Exempt Shutdown Node_Verify Deploy
    Commands Identity Sysctl Daemon Repair
begin

text \<open>
  A verification development for mole, a tunnel client that supervises a sing-box process: two
  transports to one node (REALITY over TCP and a ladder of hysteria2 outbounds over UDP), a
  controller that measures both and routes new flows, and the configuration it starts the engine
  with. Source files are named under src/.

  \<^bold>\<open>Parts and how they interact.\<close> The supervisor (core/supervisor.go) owns the state that status
  commands read (utils/state.go). Its loops probe the node, keep the tunnel alive, dial fresh
  connections and watch the local link; each records a result in the state and may ask the leg
  policy (core/standby.go, core/legmeasure.go) for a move, which is one selection through the
  engine's control API (core/clash.go). Once a minute the bandwidth scheduler retunes the
  descent (healState) and points the proxy selector at a rung of the ladder (core/schedule.go).
  With both legs pinned, the balance controller (core/balance_controller.go) allocates eight
  lanes of new flows to the legs (core/balance_policy.go, core/balance_io.go), guarded by the
  pressure of the UDP leg (core/udp_pressure.go), which the output sensors feed (core/flood.go,
  core/node_dial.go). Shutting the lid destroys the server, at once or later (core/destroy.go).
  The configuration splits the route rules into rule sets that can be rewritten while the engine
  runs (config/hotrules.go) and shards new flows over the lanes by source port
  (config/balance.go). The configuration itself is built from a link and a standby link
  (config/parser.go, config/types.go); its forwarders carry the requests that pace and time the
  legs (core/brutal.go, core/egress_targets.go). The link is printed from a stored server
  (cmd/server.go, cmd/server_store.go, cmd/link.go), which the commands append, change, halt, start,
  wake, reconcile and destroy through the provider's API (cmd/server.go, cmd/up.go); the daemon's lid
  destroy is one of its callers, and the ceiling of a destroyed server is remembered for the next one
  (cmd/ladder_memory.go). A server is deployed with a startup script and a firewall group
  (cmd/deploy_vultr.go), its progress is written to a receipt (cmd/deploy_record.go), and it counts as
  ready once every leg has answered from outside the tunnel (cmd/nodecheck.go, cmd/nodeprobe.go,
  cmd/verify_server.go). Around the engine the host is changed and put back: the engine is qualified and
  its cache repaired before it starts (core/engine_contract.go, core/fakeip_recovery.go,
  core/singbox.go), its DNS has to answer (core/dns_ready.go), the resolvers of the system point at it
  (utils/dns.go), and the packet filter lets nothing else out (utils/killswitch.go) but what the
  direct rules name (utils/directexempt.go, core/directexempt.go, utils/directhttp.go). Rules are watched
  for changes (core/ruleswatch.go), and mole down undoes all of it and looks whether it did
  (cmd/down.go, utils/pid.go). mole up puts these together (cmd/up.go): the parent recovers the active
  server, stores the key, writes the configuration and starts the daemon; the daemon takes over the resolvers, raises
  the socket buffers (utils/sysctl.go), arms the filter, runs the supervisor and undoes this with its deferred
  calls. Two commands pin a leg or a ceiling while the daemon runs (cmd/leg.go, cmd/ceiling.go); the secrets of a
  node are minted on this machine (cmd/identity.go), and a node can be repaired over ssh
  (cmd/repair.go).

  \<^bold>\<open>Theories.\<close>
  Mole_Prelude: time, decimal text and strings as the code uses them, named theorem collections.
  Schedule: BandwidthSchedule with Profile, Member, Rungs, StepDown, and the ceiling pin file.
  Conn_State: State with its sample windows, latches and verdict, and the leg pin.
  Heal: healState. Leg_Policy: fallbackState, measureLegs, legComparison, verifyLegRecovery.
  Sensors: floodSensor and nodeDialSensor as byte machines. Balance, Pressure: lanes, leg
  observers, allocation and the pressure guard. Effects: a state monad over the library's
  State_Monad with frame lemmas. Clash, Lanes: the control client and the writing of the lanes,
  with locales for the engine's documented selector contract. Supervisor: the state of the
  supervisor with its environment and its handlers. Handlers, Scheduler, Balance_Control,
  Lid_Destroy: what the handlers, the scheduler's tick, the controller's beat and the lid
  handlers do. Route_Rules: rules, rule sets, conflicts, reloading and shards. Config_Parse: the
  links. Keeper: the client of the node's keeper and the race of the external targets.
  Config_Build, Config_Laws: the build, its validation and what holds of every built
  configuration. Server_Store: the server record, its ladder and the stored list with its lock and
  atomic write. Server_Links: printing and importing links. Server_Ops: the management call with its
  retries, the ladder memory, and the operations that change servers, with the destroy hook of
  Lid_Destroy instantiated by them. Netip: addresses and prefixes of net and net/netip, their text and
  binary form. DNS_Takeover: the resolvers of the network services and their backup. Rules_Watch: the
  polling of the rule files. Fake_IP: the checkpoint of the fake addresses. Engine: the contract with
  the engine, its start and stop. Direct_HTTP: resolving and dialing outside the tunnel. Kill_Switch: the
  rules of the packet filter and what they do with a packet, arming and disarming. Direct_Exempt: the
  holes that direct rules open in it. Shutdown: processes, and mole down. Node_Verify: the wait for a node,
  the receipt of a deployment, and the verify command. Deploy: startup scripts, the firewall group and
  the deployment. Commands: the leg and ceiling commands, over the selector contract of Clash. Identity: names,
  passwords, user ids and keys with their hexadecimal and base64 text. Sysctl: the kernel settings with
  their backup. Daemon: mole up, the daemon and its deferred calls, composed of the theories above. Repair: the public
  address, the temporary firewall rule and the repair.

  \<^bold>\<open>State and operations.\<close> A Go struct is a record with its fields, a method a function of the same
  name on it. The supervisor's handlers are actions of a state monad on a record that holds the
  supervisor, the published state file, the debt file and the outside world; the environment
  record gives the clock, the pins, the sensors, the control API and the probes as functions of
  that world. A goroutine that a handler starts is a task in a queue. Counters are nat, the
  sequence and generation numbers 64-bit words, times and durations int nanoseconds with zero as
  the zero time, strings lists of bytes, an error None or its text.

  \<^bold>\<open>What the lemmas show.\<close> Every operation has its functional lemmas, every stateful component an
  invariant kept by each of its operations (fb_inv, heal_inv, leg_inv, lid_inv, cap_on_ladder,
  flood_tracks, store_ok, dns_inv), and every handler its frame conditions (Handlers). The locales
  sliding_window, hysteresis_latch, ceiling_ladder, selector_api, selector_engine, network_settings and
  sysctl_command state the contracts between components and are interpreted on the model. The commands are followed
  to their end: what a successful start, stop, verify, cleanup or arming means for the host, the list and
  the receipt, and what a failed one leaves alone.

  \<^bold>\<open>Bounds.\<close> wait_ready takes the number of polls as fuel; waitClashReady_returns shows that the
  timeout divided by the poll interval and two more suffice. api_loop takes rounds
  as fuel; management_contract shows that the budget in nanoseconds suffices when every call takes
  time. The wait for DNS has 122 rounds for its twelve seconds (dns_wait_returns), the waits of mole down
  101 and 31 for ten and three seconds (down_always_returns), the wait of mole up 52 for ten seconds
  (up_always_returns); randomUUID takes as fuel the number of candidates, which the code does not bound; the wait for a node and the wait for an
  address take their rounds as an argument (verify_wait_returns). Every other loop terminates by its
  structure or by a measure.

  \<^bold>\<open>Not modelled.\<close> Sockets, HTTP transports, cgo callbacks and launchd are outside the model.
  The commands networksetup, route, pfctl, ps and sudo, the signals and the engine's runs are parameters,
  with what they document as hypotheses where a theorem needs it. The cloud provider is a parameter, too;
  JSON, base64 of links, bolt's file format and the URL parser are given by what they produce. ssh, sudo, the fork of the daemon, randomness, signing and X25519 are parameters. Command
  line glue, status output, adoption, the texts of the boot and repair scripts, the probes over raw sockets
  (core/probe.go) and log lines are left out. The goroutines of the loops are modelled one step at a time;
  interleaving is what the environment may change between steps.
\<close>

end
